(* ===== verification/Secp_Prelude.thy ===== *)
theory Secp_Prelude
  imports Main "HOL-Library.Char_ord" "HOL-Library.List_Lexorder" "HOL-Library.Product_Lexorder"
begin

text \<open>
  Shared vocabulary of the development. Refusals and exceptions are values: an operation that
  may raise returns \<open>'e + 'a\<close>, \<open>Inl\<close> carrying the exception and \<open>Inr\<close> the result; \<open>bindE\<close>
  sequences two such operations the way a Python statement list does. A Python dict is an
  association list in insertion order (\<open>dict_set\<close>, read with \<^const>\<open>map_of\<close>). A Python string is a
  \<^typ>\<open>string\<close>, that is, a list of code points below 256, ordered lexicographically by code point
  (HOL-Library's \<open>Char_ord\<close> and \<open>List_Lexorder\<close>), as Python orders \<open>str\<close>. \<open>sorted(xs, key=f)\<close> is
  \<open>sort_key f xs\<close>: both are stable.
\<close>

named_theorems recon_defs \<open>definitions of the reconciliation contract, for evaluation\<close>
named_theorems refusal_simps \<open>characterisations of successful runs of refusing operations\<close>

section \<open>Operations that may refuse\<close>

definition bindE :: "'e + 'a \<Rightarrow> ('a \<Rightarrow> 'e + 'b) \<Rightarrow> 'e + 'b" where
  "bindE m f = (case m of Inl e \<Rightarrow> Inl e | Inr x \<Rightarrow> f x)"

definition okE :: "'e + 'a \<Rightarrow> bool" where
  "okE m = (case m of Inl _ \<Rightarrow> False | Inr _ \<Rightarrow> True)"

lemma bindE_simps [simp]: "bindE (Inl e) f = Inl e" "bindE (Inr x) f = f x"
  by (simp_all add: bindE_def)

lemma okE_simps [simp]: "\<not> okE (Inl e)" "okE (Inr x)"
  by (simp_all add: okE_def)

lemma bindE_Inr [refusal_simps]: "bindE m f = Inr y \<longleftrightarrow> (\<exists>x. m = Inr x \<and> f x = Inr y)"
  by (cases m) simp_all

lemma bindE_Inl: "bindE m f = Inl e \<longleftrightarrow> m = Inl e \<or> (\<exists>x. m = Inr x \<and> f x = Inl e)"
  by (cases m) auto

lemma bindE_assoc: "bindE (bindE m f) g = bindE m (\<lambda>x. bindE (f x) g)"
  by (cases m) simp_all

lemma guard_Inr [refusal_simps]:
  "(if b then Inl e else m) = Inr y \<longleftrightarrow> \<not> b \<and> m = Inr y"
  by simp

section \<open>Insertion-ordered dictionaries\<close>

type_synonym ('k, 'v) dict = "('k \<times> 'v) list"

fun dict_set :: "'k \<Rightarrow> 'v \<Rightarrow> ('k, 'v) dict \<Rightarrow> ('k, 'v) dict" where
  "dict_set k v [] = [(k, v)]"
| "dict_set k v ((k', v') # d) = (if k' = k then (k, v) # d else (k', v') # dict_set k v d)"

definition dict_of :: "('k \<times> 'v) list \<Rightarrow> ('k, 'v) dict" where
  "dict_of kvs = foldl (\<lambda>d (k, v). dict_set k v d) [] kvs"

fun dict_del :: "'k \<Rightarrow> ('k, 'v) dict \<Rightarrow> ('k, 'v) dict" where
  "dict_del k [] = []"
| "dict_del k ((k', v') # d) = (if k' = k then d else (k', v') # dict_del k d)"

abbreviation dict_keys :: "('k, 'v) dict \<Rightarrow> 'k list" where
  "dict_keys d \<equiv> map fst d"

lemma map_of_dict_set [simp]: "map_of (dict_set k v d) = (map_of d)(k \<mapsto> v)"
  by (induction d) (auto simp: fun_eq_iff)

lemma set_keys_dict_set [simp]: "fst ` set (dict_set k v d) = insert k (fst ` set d)"
  by (induction k v d rule: dict_set.induct) auto

lemma set_dict_set: "p \<in> set (dict_set k v d) \<Longrightarrow> p = (k, v) \<or> p \<in> set d"
  by (induction k v d rule: dict_set.induct) (auto split: if_splits)

lemma dict_set_keeps: "(k', v') \<in> set d \<Longrightarrow> k' \<noteq> k \<Longrightarrow> (k', v') \<in> set (dict_set k v d)"
  by (induction k v d rule: dict_set.induct) auto

lemma dict_set_has: "(k, v) \<in> set (dict_set k v d)"
  by (induction k v d rule: dict_set.induct) auto

lemma keys_dict_set: "dict_keys (dict_set k v d) =
    (if k \<in> fst ` set d then dict_keys d else dict_keys d @ [k])"
  by (induction k v d rule: dict_set.induct) (simp_all add: image_iff)

lemma distinct_dict_set [simp]:
  "distinct (dict_keys d) \<Longrightarrow> distinct (dict_keys (dict_set k v d))"
  by (simp add: keys_dict_set)

lemma set_keys_dict_del [simp]:
  "distinct (dict_keys d) \<Longrightarrow> fst ` set (dict_del k d) = fst ` set d - {k}"
  by (induction k d rule: dict_del.induct) auto

lemma map_of_dict_del [simp]:
  "distinct (dict_keys d) \<Longrightarrow> map_of (dict_del k d) = (map_of d)(k := None)"
  by (induction k d rule: dict_del.induct) (auto simp: fun_eq_iff map_of_eq_None_iff)

lemma distinct_dict_del [simp]:
  "distinct (dict_keys d) \<Longrightarrow> distinct (dict_keys (dict_del k d))"
  by (induction k d rule: dict_del.induct) (auto simp: image_iff[symmetric])

lemma dict_foldl_map_of:
  "map_of (foldl (\<lambda>d (k, v). dict_set k v d) d kvs) = map_of d ++ map_of (rev kvs)"
proof (induction kvs arbitrary: d)
  case Nil
  then show ?case by simp
next
  case (Cons p kvs)
  then show ?case by (cases p) (simp add: map_add_def fun_eq_iff split: option.splits)
qed

lemma dict_foldl_distinct:
  "distinct (dict_keys d) \<Longrightarrow> distinct (dict_keys (foldl (\<lambda>d (k, v). dict_set k v d) d kvs))"
  by (induction kvs arbitrary: d) auto

lemma map_of_dict_of: "map_of (dict_of kvs) = map_of (rev kvs)"
  by (simp add: dict_of_def dict_foldl_map_of)

lemma distinct_dict_of [simp]: "distinct (dict_keys (dict_of kvs))"
  by (simp add: dict_of_def dict_foldl_distinct)

lemma map_of_dict_of_distinct:
  "distinct (map fst kvs) \<Longrightarrow> map_of (dict_of kvs) = map_of kvs"
  unfolding map_of_dict_of by (rule map_of_inject_set[THEN iffD2]) (simp_all add: rev_map[symmetric])

lemma set_keys_dict_of [simp]: "fst ` set (dict_of kvs) = fst ` set kvs"
  by (metis dom_map_of_conv_image_fst map_of_dict_of set_rev)

text \<open>Dict equality: the same keys with the same values, in any order.\<close>

definition dict_eq :: "('k, 'v) dict \<Rightarrow> ('k, 'v) dict \<Rightarrow> bool" where
  "dict_eq a b \<longleftrightarrow> list_all (\<lambda>k. map_of a k = map_of b k) (dict_keys a @ dict_keys b)"

lemma dict_eq_iff: "dict_eq a b \<longleftrightarrow> map_of a = map_of b"
proof
  assume eq: "dict_eq a b"
  show "map_of a = map_of b"
  proof
    fix k
    show "map_of a k = map_of b k"
    proof (cases "k \<in> set (dict_keys a @ dict_keys b)")
      case True
      with eq show ?thesis by (simp add: dict_eq_def list_all_iff del: set_append)
    next
      case False
      then have "map_of a k = None" "map_of b k = None" by (auto simp: map_of_eq_None_iff)
      then show ?thesis by simp
    qed
  qed
qed (simp add: dict_eq_def list_all_iff)

lemma option_eqI: "(\<And>v. x = Some v \<longleftrightarrow> y = Some v) \<Longrightarrow> x = y"
  by (cases x; cases y) auto

section \<open>Lists and sorting\<close>

lemma distinct_map_of_eq_Some:
  "distinct (map fst kvs) \<Longrightarrow> map_of kvs k = Some v \<longleftrightarrow> (k, v) \<in> set kvs"
  by simp

lemma map_of_map_self:
  "x \<in> set xs \<Longrightarrow> distinct (map f xs) \<Longrightarrow> map_of (map (\<lambda>x. (f x, x)) xs) (f x) = Some x"
  by (rule map_of_is_SomeI) (simp_all add: comp_def)

lemma map_of_map_self_iff:
  "distinct (map f xs) \<Longrightarrow> map_of (map (\<lambda>x. (f x, x)) xs) k = Some x \<longleftrightarrow> x \<in> set xs \<and> f x = k"
  by (auto simp: comp_def)

lemma map_of_map_self_None:
  "map_of (map (\<lambda>x. (f x, x)) xs) k = None \<longleftrightarrow> k \<notin> f ` set xs"
  by (auto simp: map_of_eq_None_iff image_image)

lemma sort_key_Nil_iff [simp]: "sort_key f xs = [] \<longleftrightarrow> xs = []"
  by (metis length_0_conv length_sort)

lemma length_sort_key [simp]: "length (sort_key f xs) = length xs"
  by simp

lemma distinct_map_sort_key [simp]: "distinct (map g (sort_key f xs)) = distinct (map g xs)"
  by (simp add: distinct_map)

lemma filter_length_eq_sum: "length (filter P xs) = (\<Sum>x\<leftarrow>xs. if P x then 1 else 0)"
  by (induction xs) auto

section \<open>Closed, exhaustively ordered vocabularies\<close>

text \<open>
  Several components declare a tuple that lists every member of an enum once and derive a rank
  table (\<open>{member: index for index, member in enumerate(ORDER)}\<close>) and a counting table
  (\<open>{member: 0 for member in ORDER}\<close> incremented per item) from it. The locale states what such
  a tuple promises and proves what its clients need of the two tables.
\<close>

fun index_of :: "'a list \<Rightarrow> 'a \<Rightarrow> nat" where
  "index_of [] x = 0"
| "index_of (y # ys) x = (if y = x then 0 else Suc (index_of ys x))"

definition tally_step :: "('a \<Rightarrow> 'k) \<Rightarrow> ('k, nat) dict \<Rightarrow> 'a \<Rightarrow> ('k, nat) dict" where
  "tally_step f d x = (case map_of d (f x) of None \<Rightarrow> d | Some n \<Rightarrow> dict_set (f x) (n + 1) d)"

definition tally :: "'k list \<Rightarrow> ('a \<Rightarrow> 'k) \<Rightarrow> 'a list \<Rightarrow> ('k, nat) dict" where
  "tally order f xs = foldl (tally_step f) (map (\<lambda>k. (k, 0)) order) xs"

lemma index_of_nth: "x \<in> set ys \<Longrightarrow> ys ! index_of ys x = x \<and> index_of ys x < length ys"
  by (induction ys) auto

lemma index_of_inj: "x \<in> set ys \<Longrightarrow> y \<in> set ys \<Longrightarrow> index_of ys x = index_of ys y \<Longrightarrow> x = y"
  by (metis index_of_nth)

lemma tally_foldl:
  assumes "f ` set xs \<subseteq> dom (map_of d)"
  shows "map_of (foldl (tally_step f) d xs) k =
    map_option (\<lambda>n. n + length (filter (\<lambda>x. f x = k) xs)) (map_of d k)"
  using assms
proof (induction xs arbitrary: d)
  case Nil
  then show ?case by (simp add: option.map_ident)
next
  case (Cons x xs)
  from Cons.prems obtain n where n: "map_of d (f x) = Some n" by auto
  then have step: "map_of (tally_step f d x) = (map_of d)(f x \<mapsto> n + 1)" by (simp add: tally_step_def)
  with Cons.prems have "f ` set xs \<subseteq> dom (map_of (tally_step f d x))" by auto
  from Cons.IH [OF this] n step show ?case by auto
qed

lemma keys_tally [simp]: "dict_keys (tally order f xs) = order"
proof -
  have "dict_keys (foldl (tally_step f) d xs) = dict_keys d" for d
  proof (induction xs arbitrary: d)
    case (Cons x xs)
    have "dict_keys (tally_step f d x) = dict_keys d"
      by (auto simp: tally_step_def keys_dict_set map_of_eq_None_iff [symmetric] split: option.splits)
    with Cons show ?case by simp
  qed simp
  then show ?thesis by (simp add: tally_def comp_def)
qed

lemma tally_lookup:
  assumes "f ` set xs \<subseteq> set order"
  shows "map_of (tally order f xs) k =
    (if k \<in> set order then Some (length (filter (\<lambda>x. f x = k) xs)) else None)"
proof -
  have init: "map_of (map (\<lambda>k. (k, 0)) order) k = (if k \<in> set order then Some (0::nat) else None)" for k
    by (induction order) auto
  then have "f ` set xs \<subseteq> dom (map_of (map (\<lambda>k. (k, 0::nat)) order))"
    using assms by (auto simp: dom_def)
  from tally_foldl [OF this] init show ?thesis by (simp add: tally_def)
qed

locale closed_order =
  fixes order :: "'k list"
  assumes complete: "set order = UNIV"
    and once: "distinct order"
begin

definition rank :: "'k \<Rightarrow> nat" where
  "rank k = index_of order k"

lemma rank_inject: "rank a = rank b \<longleftrightarrow> a = b"
  using index_of_inj [of a order b] complete by (auto simp: rank_def)

lemma rank_bound: "rank k < length order"
  using index_of_nth [of k order] complete by (simp add: rank_def)

lemma tally_count: "map_of (tally order f xs) k = Some (length (filter (\<lambda>x. f x = k) xs))"
  using tally_lookup [of f xs order k] complete by simp

lemma tally_total: "sum_list (map snd (tally order f xs)) = length xs"
proof -
  have d: "distinct (map fst (tally order f xs))" using once by simp
  have snd: "snd p = length (filter (\<lambda>x. f x = fst p) xs)" if "p \<in> set (tally order f xs)" for p
    using map_of_is_SomeI [OF d, of "fst p" "snd p"] that tally_count [of f xs "fst p"] by simp
  have "map snd (tally order f xs) = map (\<lambda>k. length (filter (\<lambda>x. f x = k) xs)) order"
  proof -
    have "map snd (tally order f xs) = map (\<lambda>p. length (filter (\<lambda>x. f x = fst p) xs)) (tally order f xs)"
      using snd by simp
    also have "\<dots> = map (\<lambda>k. length (filter (\<lambda>x. f x = k) xs)) (map fst (tally order f xs))"
      by (simp only: map_map comp_def)
    finally show ?thesis by simp
  qed
  moreover have "sum_list (map (\<lambda>k. length (filter (\<lambda>x. f x = k) xs)) order) = length xs"
  proof (induction xs)
    case (Cons x xs)
    have "sum_list (map (\<lambda>k. if f x = k then 1 else 0) order) = (1::nat)"
    proof -
      have "sum_list (map (\<lambda>k. if f x = k then 1 else 0) order) = (\<Sum>k\<in>set order. if f x = k then 1 else (0::nat))"
        using once by (rule sum_list_distinct_conv_sum_set)
      also have "\<dots> = (if f x \<in> set order then 1 else 0)" by (rule sum.delta') (rule finite_set)
      also have "\<dots> = 1" using complete by simp
      finally show ?thesis .
    qed
    moreover have "(\<lambda>k. length (filter (\<lambda>y. f y = k) (x # xs))) =
        (\<lambda>k. (if f x = k then 1 else 0) + length (filter (\<lambda>y. f y = k) xs))" by auto
    ultimately show ?case using Cons by (simp add: sum_list_addf)
  qed simp
  ultimately show ?thesis by simp
qed

end

end
