(* ===== verification/Py_Text.thy ===== *)
theory Py_Text
  imports Secp_Prelude
begin

text \<open>
  The parts of Python's string library the sources use: decimal and hexadecimal formatting,
  \<open>str.partition\<close>, \<open>str.startswith\<close>, \<open>str.join\<close> and case mapping. Each printer comes with the
  reader that inverts it, which is how the encodings built on them are shown to be injective.
\<close>

section \<open>Decimal numbers\<close>

definition digit_char :: "nat \<Rightarrow> char" where
  "digit_char n = char_of (48 + n)"

definition digit_value :: "char \<Rightarrow> nat" where
  "digit_value c = of_char c - 48"

definition is_digit :: "char \<Rightarrow> bool" where
  "is_digit c \<longleftrightarrow> 48 \<le> (of_char c :: nat) \<and> (of_char c :: nat) \<le> 57"

fun show_nat :: "nat \<Rightarrow> string" where
  "show_nat n = (if n < 10 then [digit_char n] else show_nat (n div 10) @ [digit_char (n mod 10)])"

declare show_nat.simps [simp del]

definition read_nat :: "string \<Rightarrow> nat" where
  "read_nat s = foldl (\<lambda>a c. a * 10 + digit_value c) 0 s"

definition show_int :: "int \<Rightarrow> string" where
  "show_int i = (if i < 0 then CHR ''-'' # show_nat (nat (- i)) else show_nat (nat i))"

definition read_int :: "string \<Rightarrow> int" where
  "read_int s = (case s of c # r \<Rightarrow> if c = CHR ''-'' then - int (read_nat r) else int (read_nat s)
                 | [] \<Rightarrow> 0)"

lemma of_char_digit [simp]: "n < 10 \<Longrightarrow> of_char (digit_char n) = 48 + n"
  by (simp add: digit_char_def)

lemma digit_value_char [simp]: "n < 10 \<Longrightarrow> digit_value (digit_char n) = n"
  by (simp add: digit_value_def)

lemma is_digit_char [simp]: "n < 10 \<Longrightarrow> is_digit (digit_char n)"
  by (simp add: is_digit_def)

lemma minus_not_digit [simp]: "\<not> is_digit CHR ''-''"
  by (simp add: is_digit_def)

lemma read_nat_snoc: "read_nat (s @ [c]) = read_nat s * 10 + digit_value c"
  by (simp add: read_nat_def)

lemma read_show_nat [simp]: "read_nat (show_nat n) = n"
proof (induction n rule: show_nat.induct)
  case (1 n)
  show ?case
  proof (cases "n < 10")
    case True
    then show ?thesis by (simp add: show_nat.simps read_nat_def)
  next
    case False
    with 1 show ?thesis by (subst show_nat.simps) (simp add: read_nat_snoc)
  qed
qed

lemma show_nat_inject [simp]: "show_nat m = show_nat n \<longleftrightarrow> m = n"
  by (metis read_show_nat)

lemma show_nat_digits: "c \<in> set (show_nat n) \<Longrightarrow> is_digit c"
proof (induction n rule: show_nat.induct)
  case (1 n)
  then show ?case by (cases "n < 10") (auto simp: show_nat.simps [of n])
qed

lemma show_nat_nonempty [simp]: "show_nat n \<noteq> []"
  by (simp add: show_nat.simps)

lemma show_nat_hd: "is_digit (hd (show_nat n))"
  using show_nat_digits [of "hd (show_nat n)" n] by simp

lemma read_show_int [simp]: "read_int (show_int i) = i"
proof (cases "i < 0")
  case True
  then show ?thesis by (simp add: show_int_def read_int_def)
next
  case False
  obtain c r where "show_nat (nat i) = c # r" by (cases "show_nat (nat i)") simp_all
  moreover from this show_nat_hd [of "nat i"] have "c \<noteq> CHR ''-''" by auto
  moreover note read_show_nat [of "nat i"]
  ultimately show ?thesis using False by (simp add: show_int_def read_int_def)
qed

lemma show_int_inject [simp]: "show_int i = show_int j \<longleftrightarrow> i = j"
  by (metis read_show_int)

lemma show_int_nonempty [simp]: "show_int i \<noteq> []"
  by (simp add: show_int_def)

lemma show_int_chars: "c \<in> set (show_int i) \<Longrightarrow> is_digit c \<or> c = CHR ''-''"
  by (auto simp: show_int_def show_nat_digits split: if_splits)

text \<open>Zero-padded decimal fields of a fixed width, as \<open>f"{n:0wd}"\<close> prints them.\<close>

fun pad_nat :: "nat \<Rightarrow> nat \<Rightarrow> string" where
  "pad_nat 0 n = []"
| "pad_nat (Suc w) n = pad_nat w (n div 10) @ [digit_char (n mod 10)]"

lemma length_pad_nat [simp]: "length (pad_nat w n) = w"
  by (induction w n rule: pad_nat.induct) auto

lemma read_pad_nat: "read_nat (pad_nat w n) = n mod 10 ^ w"
proof (induction w n rule: pad_nat.induct)
  case (1 n)
  then show ?case by (simp add: read_nat_def)
next
  case (2 w n)
  have "n mod 10 ^ Suc w = n mod 10 + 10 * (n div 10 mod 10 ^ w)"
    by (simp add: mod_mult2_eq)
  with 2 show ?case by (simp add: read_nat_snoc)
qed

lemma pad_nat_digits: "c \<in> set (pad_nat w n) \<Longrightarrow> is_digit c"
  by (induction w n rule: pad_nat.induct) auto

section \<open>Hexadecimal\<close>

definition hex_digit :: "nat \<Rightarrow> char" where
  "hex_digit n = (if n < 10 then char_of (48 + n) else char_of (87 + n))"

definition hex_value :: "char \<Rightarrow> nat" where
  "hex_value c = (let n = of_char c in if n < 58 then n - 48 else n - 87)"

definition HEX_ALPHABET :: "char list" where
  "HEX_ALPHABET = ''0123456789abcdef''"

lemma hex_value_digit [simp]: "n < 16 \<Longrightarrow> hex_value (hex_digit n) = n"
  by (simp add: hex_value_def hex_digit_def Let_def)

lemma hex_digit_alphabet: "n < 16 \<Longrightarrow> hex_digit n \<in> set HEX_ALPHABET"
proof -
  assume "n < 16"
  then have "n \<in> set [0..<16]" by simp
  moreover have "\<forall>n \<in> set [0..<16]. hex_digit n \<in> set HEX_ALPHABET"
    by code_simp
  ultimately show ?thesis by blast
qed

section \<open>Searching and joining\<close>

text \<open>\<open>s.partition(sep)\<close>: the text before the first separator, whether it was found, the rest.\<close>

fun partition_str :: "string \<Rightarrow> string \<Rightarrow> string \<times> bool \<times> string" where
  "partition_str sep [] = (if sep = [] then ([], True, []) else ([], False, []))"
| "partition_str sep (c # s) =
     (if take (length sep) (c # s) = sep then ([], True, drop (length sep) (c # s))
      else (case partition_str sep s of (a, b, r) \<Rightarrow> (c # a, b, r)))"

definition startswith :: "string \<Rightarrow> string \<Rightarrow> bool" where
  "startswith s p \<longleftrightarrow> take (length p) s = p"

fun join :: "string \<Rightarrow> string list \<Rightarrow> string" where
  "join sep [] = []"
| "join sep [x] = x"
| "join sep (x # y # xs) = x @ sep @ join sep (y # xs)"

definition upper_char :: "char \<Rightarrow> char" where
  "upper_char c = (let n = (of_char c :: nat) in
     if 97 \<le> n \<and> n \<le> 122 then char_of (n - 32) else c)"

definition lower_char :: "char \<Rightarrow> char" where
  "lower_char c = (let n = (of_char c :: nat) in
     if 65 \<le> n \<and> n \<le> 90 then char_of (n + 32) else c)"

abbreviation upper :: "string \<Rightarrow> string" where
  "upper s \<equiv> map upper_char s"

abbreviation lower :: "string \<Rightarrow> string" where
  "lower s \<equiv> map lower_char s"

lemma join_Cons: "xs \<noteq> [] \<Longrightarrow> join sep (x # xs) = x @ sep @ join sep xs"
  by (cases xs) simp_all

lemma partition_str_found:
  "partition_str sep s = (a, True, r) \<Longrightarrow> s = a @ sep @ r"
proof (induction sep s arbitrary: a r rule: partition_str.induct)
  case (1 sep)
  then show ?case by (simp split: if_splits)
next
  case (2 sep c s)
  show ?case
  proof (cases "take (length sep) (c # s) = sep")
    case True
    with 2 show ?thesis
      by simp (metis append_take_drop_id list.size(3) take0 take_Cons')
  next
    case False
    with 2 show ?thesis by (auto split: prod.splits)
  qed
qed

lemma partition_str_single:
  "c \<notin> set a \<Longrightarrow> partition_str [c] (a @ c # r) = (a, True, r)"
  by (induction a) auto

lemma partition_str_absent:
  "c \<notin> set s \<Longrightarrow> partition_str [c] s = (s, False, [])"
  by (induction s) auto

end
