(* ===== verification/Canonical_Json.thy ===== *)
theory Canonical_Json
  imports Py_Text
begin

text \<open>
  \<open>json.dumps(document, sort_keys=True, separators=(",", ":"), ensure_ascii=True)\<close>, the one
  encoder of the content-addressed contracts. A document is a \<open>json\<close> value whose objects are
  insertion-ordered dicts. \<open>norm_json\<close> is the effect of \<open>sort_keys\<close>, \<open>enc_json\<close> the printer.
  The theory shows that the printer is uniquely decodable, so two documents with the same
  canonical text agree field by field.
\<close>

datatype json =
    JNull
  | JBool bool
  | JInt int
  | JStr string
  | JArr "json list"
  | JObj "(string \<times> json) list"

section \<open>Strings\<close>

text \<open>ASCII escaping: two-character escapes, printable ASCII as it is, \<open>\u00xx\<close> for the rest.\<close>

definition esc_char :: "char \<Rightarrow> string" where
  "esc_char c = (let n = (of_char c :: nat) in
     if n = 34 then [CHR 0x5C, CHR 0x22]
     else if n = 92 then [CHR 0x5C, CHR 0x5C]
     else if n = 10 then [CHR 0x5C, CHR ''n'']
     else if n = 13 then [CHR 0x5C, CHR ''r'']
     else if n = 9 then [CHR 0x5C, CHR ''t'']
     else if n = 12 then [CHR 0x5C, CHR ''f'']
     else if n = 8 then [CHR 0x5C, CHR ''b'']
     else if 32 \<le> n \<and> n \<le> 126 then [c]
     else [CHR 0x5C, CHR ''u'', CHR ''0'', CHR ''0'', hex_digit (n div 16), hex_digit (n mod 16)])"

definition enc_str :: "string \<Rightarrow> string" where
  "enc_str s = CHR 0x22 # concat (map esc_char s) @ [CHR 0x22]"

text \<open>The reader of one escaped character, used only to show unique decodability.\<close>

definition unesc :: "string \<Rightarrow> (char \<times> string) option" where
  "unesc s = (case s of
      [] \<Rightarrow> None
    | c # r \<Rightarrow>
       if c \<noteq> CHR 0x5C then Some (c, r)
       else (case r of
           [] \<Rightarrow> None
         | d # r' \<Rightarrow>
            if d = CHR 0x22 then Some (CHR 0x22, r')
            else if d = CHR 0x5C then Some (CHR 0x5C, r')
            else if d = CHR ''n'' then Some (char_of (10::nat), r')
            else if d = CHR ''r'' then Some (char_of (13::nat), r')
            else if d = CHR ''t'' then Some (char_of (9::nat), r')
            else if d = CHR ''f'' then Some (char_of (12::nat), r')
            else if d = CHR ''b'' then Some (char_of (8::nat), r')
            else (case r' of
                _ # _ # h # l # q \<Rightarrow> Some (char_of (hex_value h * 16 + hex_value l), q)
              | _ \<Rightarrow> None)))"

lemma of_char_eq_code: "(of_char c :: nat) = n \<Longrightarrow> n < 256 \<Longrightarrow> c = char_of n"
  by (metis char_of_char)

lemma of_char_lt_256: "(of_char c :: nat) < 256"
  by (metis of_char_of nat_of_char_less_256)

lemma char_of_quote: "char_of (34::nat) = CHR 0x22" "char_of (92::nat) = CHR 0x5C"
  by code_simp+

lemma unesc_esc [simp]: "unesc (esc_char c @ s) = Some (c, s)"
proof -
  define n where "n = (of_char c :: nat)"
  have c: "c = char_of n" by (simp add: n_def)
  have b: "n < 256" by (simp add: n_def of_char_lt_256)
  consider "n \<in> {34, 92, 10, 13, 9, 12, 8}" | "n \<notin> {34, 92, 10, 13, 9, 12, 8}" "32 \<le> n \<and> n \<le> 126"
    | "n \<notin> {34, 92, 10, 13, 9, 12, 8}" "\<not> (32 \<le> n \<and> n \<le> 126)" by blast
  then show ?thesis
  proof cases
    case 1
    then show ?thesis by (auto simp: esc_char_def unesc_def n_def [symmetric] Let_def c char_of_quote)
  next
    case 2
    have "c \<noteq> CHR 0x5C" using 2 n_def by auto
    with 2 show ?thesis by (simp add: esc_char_def unesc_def n_def [symmetric] Let_def)
  next
    case 3
    moreover have "n div 16 < 16" using b by simp
    ultimately show ?thesis by (auto simp: esc_char_def unesc_def n_def [symmetric] Let_def c)
  qed
qed

lemma esc_hd: "hd (esc_char c @ s) \<noteq> CHR 0x22"
  by (auto simp: esc_char_def Let_def)

lemma esc_nonempty [simp]: "esc_char c \<noteq> []"
  by (simp add: esc_char_def Let_def)

lemma concat_esc_inj:
  "concat (map esc_char s) @ CHR 0x22 # r = concat (map esc_char t) @ CHR 0x22 # q
   \<Longrightarrow> s = t \<and> r = q"
proof (induction s arbitrary: t)
  case Nil
  show ?case
  proof (cases t)
    case Nil
    with \<open>concat (map esc_char []) @ CHR 0x22 # r = _\<close> show ?thesis by simp
  next
    case (Cons d t')
    with Nil.prems have "hd (esc_char d @ concat (map esc_char t') @ CHR 0x22 # q) = CHR 0x22"
      by (metis append_assoc append_Nil concat.simps list.map list.sel(1))
    with esc_hd show ?thesis by blast
  qed
next
  case (Cons c s)
  show ?case
  proof (cases t)
    case Nil
    with Cons.prems have "hd (esc_char c @ concat (map esc_char s) @ CHR 0x22 # r) = CHR 0x22"
      by simp
    with esc_hd show ?thesis by blast
  next
    case (Cons d t')
    with Cons.prems have "unesc (esc_char c @ concat (map esc_char s) @ CHR 0x22 # r) =
        unesc (esc_char d @ concat (map esc_char t') @ CHR 0x22 # q)" by simp
    then have "c = d" "concat (map esc_char s) @ CHR 0x22 # r = concat (map esc_char t') @ CHR 0x22 # q"
      by (simp_all only: unesc_esc option.inject prod.inject)
    with Cons.IH [of t'] Cons show ?thesis by blast
  qed
qed

lemma enc_str_inj: "enc_str s @ r = enc_str t @ q \<Longrightarrow> s = t \<and> r = q"
  using concat_esc_inj [of s r t q] by (simp add: enc_str_def)

section \<open>Values\<close>

fun enc_json :: "json \<Rightarrow> string" where
  "enc_json JNull = ''null''"
| "enc_json (JBool b) = (if b then ''true'' else ''false'')"
| "enc_json (JInt i) = show_int i"
| "enc_json (JStr s) = enc_str s"
| "enc_json (JArr vs) = CHR ''['' # join '','' (map enc_json vs) @ '']''"
| "enc_json (JObj kvs) =
     CHR ''{'' # join '','' (map (\<lambda>(k, v). enc_str k @ '':'' @ enc_json v) kvs) @ ''}''"

text \<open>\<open>sort_keys=True\<close> orders the items of every dict by key.\<close>

fun norm_json :: "json \<Rightarrow> json" where
  "norm_json (JArr vs) = JArr (map norm_json vs)"
| "norm_json (JObj kvs) = JObj (sort_key fst (map (\<lambda>(k, v). (k, norm_json v)) kvs))"
| "norm_json v = v"

definition canonical_json :: "json \<Rightarrow> string" where
  "canonical_json document = enc_json (norm_json document)"

text \<open>What may follow a value: nothing, or the delimiter its container prints.\<close>

definition delim :: "string \<Rightarrow> bool" where
  "delim r \<longleftrightarrow> r = [] \<or> hd r \<in> set '',]}''"

lemma delim_simps [simp]: "delim []" "delim (CHR '','' # r)" "delim (CHR '']'' # r)"
    "delim (CHR ''}'' # r)"
  by (simp_all add: delim_def)

lemma show_int_delim:
  assumes "show_int i @ r = show_int j @ q" and "delim r" and "delim q"
  shows "i = j \<and> r = q"
proof -
  have *: "takeWhile (\<lambda>c. is_digit c \<or> c = CHR ''-'') (show_int k @ u) = show_int k"
    if "delim u" for k u
  proof -
    have "takeWhile (\<lambda>c. is_digit c \<or> c = CHR ''-'') u = []"
      using that by (cases u) (auto simp: delim_def is_digit_def)
    then show ?thesis using show_int_chars [of _ k] by (simp add: takeWhile_append2)
  qed
  have "show_int i = show_int j" using assms * by metis
  with assms(1) show ?thesis by simp
qed

text \<open>The first character tells the constructors apart.\<close>

definition json_tag :: "json \<Rightarrow> nat" where
  "json_tag v = (case v of JNull \<Rightarrow> 0 | JBool b \<Rightarrow> (if b then 1 else 2) | JInt _ \<Rightarrow> 3
     | JStr _ \<Rightarrow> 4 | JArr _ \<Rightarrow> 5 | JObj _ \<Rightarrow> 6)"

definition tag_of_char :: "char \<Rightarrow> nat" where
  "tag_of_char c = (if c = CHR ''n'' then 0 else if c = CHR ''t'' then 1 else if c = CHR ''f'' then 2
     else if c = CHR 0x22 then 4 else if c = CHR ''['' then 5 else if c = CHR ''{'' then 6 else 3)"

lemma show_int_hd: "is_digit (hd (show_int i @ r)) \<or> hd (show_int i @ r) = CHR ''-''"
  using show_int_chars [of "hd (show_int i)" i] by simp

lemma enc_json_tag: "tag_of_char (hd (enc_json v @ r)) = json_tag v"
proof (cases v)
  case (JInt i)
  then show ?thesis using show_int_hd [of i r]
    by (auto simp: tag_of_char_def json_tag_def is_digit_def)
qed (simp_all add: tag_of_char_def json_tag_def enc_str_def)

lemma enc_json_nonempty [simp]: "enc_json v \<noteq> []"
  by (cases v) (simp_all add: enc_str_def)

text \<open>Unique decodability, first for comma-separated sequences of uniquely decodable items.\<close>

definition decodable :: "('a \<Rightarrow> string) \<Rightarrow> 'a \<Rightarrow> bool" where
  "decodable f x \<longleftrightarrow> (\<forall>y r q. delim r \<longrightarrow> delim q \<longrightarrow> f x @ r = f y @ q \<longrightarrow> x = y \<and> r = q)"

lemma decodableD: "decodable f x \<Longrightarrow> f x @ r = f y @ q \<Longrightarrow> delim r \<Longrightarrow> delim q \<Longrightarrow> x = y \<and> r = q"
  unfolding decodable_def by blast

lemma join_decodable:
  assumes "\<forall>x \<in> set xs. decodable f x" and "\<forall>x r. f x @ r \<noteq> [] \<and> \<not> delim (f x @ r)"
    and "close \<noteq> CHR '',''" and "delim [close]"
    and "join '','' (map f xs) @ close # r = join '','' (map f ys) @ close # q"
  shows "xs = ys \<and> r = q"
  using assms(1,5)
proof (induction xs arbitrary: ys)
  case Nil
  show ?case
  proof (cases ys)
    case (Cons y ys')
    then obtain u where "join '','' (map f ys) @ close # q = f y @ u"
      by (cases ys') simp_all
    then have "\<not> delim (close # r)" using Nil.prems assms(2) by auto
    then show ?thesis using assms(4) by (simp add: delim_def)
  qed (use Nil.prems in simp)
next
  case (Cons x xs)
  have *: "\<exists>u. join '','' (map f (z # zs)) @ close # t = f z @ u \<and> delim u \<and>
      u = (if zs = [] then close # t else CHR '','' # join '','' (map f zs) @ close # t)" for z zs t
    using assms(4) by (cases zs) (auto simp: delim_def)
  show ?case
  proof (cases ys)
    case Nil
    with Cons.prems * [of x xs r] have "\<not> delim (close # q)" using assms(2) by auto
    then show ?thesis using assms(4) by (simp add: delim_def)
  next
    case (Cons y ys')
    obtain u where u: "join '','' (map f (x # xs)) @ close # r = f x @ u" "delim u"
      "u = (if xs = [] then close # r else CHR '','' # join '','' (map f xs) @ close # r)"
      using * [of x xs r] by metis
    obtain w where w: "join '','' (map f (y # ys')) @ close # q = f y @ w" "delim w"
      "w = (if ys' = [] then close # q else CHR '','' # join '','' (map f ys') @ close # q)"
      using * [of y ys' q] by metis
    have "decodable f x" using Cons.prems(1) by simp
    moreover have "f x @ u = f y @ w" using Cons.prems(2) u(1) w(1) Cons by simp
    ultimately have xy: "x = y" "u = w" using decodableD [of f x u y w] u(2) w(2) by simp_all
    show ?thesis
    proof (cases "xs = []")
      case True
      with xy u(3) w(3) assms(3) have "ys' = []" by (auto split: if_splits)
      with True xy u(3) w(3) Cons show ?thesis by simp
    next
      case False
      with xy u(3) w(3) assms(3) have "ys' \<noteq> []" by (auto split: if_splits)
      with False xy u(3) w(3) have
        "join '','' (map f xs) @ close # r = join '','' (map f ys') @ close # q" by simp
      with Cons.IH [of ys'] Cons.prems(1) xy Cons show ?thesis by simp
    qed
  qed
qed

lemma enc_json_not_delim: "enc_json v @ r \<noteq> [] \<and> \<not> delim (enc_json v @ r)"
proof -
  have "hd (enc_json v @ r) \<notin> set '',]}''"
  proof (cases v)
    case (JInt i)
    then show ?thesis using show_int_hd [of i r] by (auto simp: is_digit_def)
  qed (simp_all add: enc_str_def)
  then show ?thesis by (simp add: delim_def)
qed

abbreviation enc_item :: "string \<times> json \<Rightarrow> string" where
  "enc_item \<equiv> (\<lambda>(k, v). enc_str k @ '':'' @ enc_json v)"

lemma enc_item_not_delim: "enc_item p @ r \<noteq> [] \<and> \<not> delim (enc_item p @ r)"
  by (cases p) (simp add: enc_str_def delim_def)

lemma enc_item_decodable:
  assumes "decodable enc_json v"
  shows "decodable enc_item (k, v)"
  unfolding decodable_def
proof (intro allI impI)
  fix y :: "string \<times> json" and r q
  assume d: "delim r" "delim q" and eq: "enc_item (k, v) @ r = enc_item y @ q"
  obtain k' v' where y: "y = (k', v')" by (cases y)
  from eq y have "enc_str k @ CHR '':'' # enc_json v @ r = enc_str k' @ CHR '':'' # enc_json v' @ q"
    by simp
  from enc_str_inj [OF this] have "k = k'" "enc_json v @ r = enc_json v' @ q" by simp_all
  with decodableD [OF assms, of r v' q] d y show "(k, v) = y \<and> r = q" by simp
qed

lemma enc_json_decodable: "decodable enc_json v"
proof (induction v)
  case (JArr vs)
  show ?case unfolding decodable_def
  proof (intro allI impI)
    fix w r q assume "delim r" "delim q" and eq: "enc_json (JArr vs) @ r = enc_json w @ q"
    from eq enc_json_tag [of "JArr vs" r] enc_json_tag [of w q] have "json_tag w = 5"
      by (simp add: json_tag_def)
    then obtain ws where w: "w = JArr ws" by (cases w) (auto simp: json_tag_def split: if_splits)
    from eq have "join '','' (map enc_json vs) @ CHR '']'' # r = join '','' (map enc_json ws) @ CHR '']'' # q"
      by (simp add: w)
    from join_decodable [OF _ _ _ _ this] JArr enc_json_not_delim w
    show "JArr vs = w \<and> r = q" by simp
  qed
next
  case (JObj kvs)
  have items: "\<forall>p \<in> set kvs. decodable enc_item p"
    using JObj enc_item_decodable by (auto simp: snds.simps)
  show ?case unfolding decodable_def
  proof (intro allI impI)
    fix w r q assume "delim r" "delim q" and eq: "enc_json (JObj kvs) @ r = enc_json w @ q"
    from eq enc_json_tag [of "JObj kvs" r] enc_json_tag [of w q] have "json_tag w = 6"
      by (simp add: json_tag_def)
    then obtain ws where w: "w = JObj ws" by (cases w) (auto simp: json_tag_def split: if_splits)
    from eq have *: "join '','' (map enc_item kvs) @ CHR ''}'' # r = join '','' (map enc_item ws) @ CHR ''}'' # q"
      by (simp add: w)
    have "kvs = ws \<and> r = q"
      by (rule join_decodable [OF items _ _ _ *]) (use enc_item_not_delim in \<open>blast | simp\<close>)+
    with w show "JObj kvs = w \<and> r = q" by simp
  qed
next
  case (JInt i)
  show ?case unfolding decodable_def
  proof (intro allI impI)
    fix w r q assume d: "delim r" "delim q" and eq: "enc_json (JInt i) @ r = enc_json w @ q"
    from eq enc_json_tag [of "JInt i" r] enc_json_tag [of w q] have "json_tag w = 3"
      by (simp add: json_tag_def)
    then obtain j where w: "w = JInt j" by (cases w) (auto simp: json_tag_def split: if_splits)
    with eq show_int_delim [of i r j q] d show "JInt i = w \<and> r = q" by simp
  qed
next
  case (JStr s)
  show ?case unfolding decodable_def
  proof (intro allI impI)
    fix w r q assume "delim r" "delim q" and eq: "enc_json (JStr s) @ r = enc_json w @ q"
    from eq enc_json_tag [of "JStr s" r] enc_json_tag [of w q] have "json_tag w = 4"
      by (simp add: json_tag_def)
    then obtain t where w: "w = JStr t" by (cases w) (auto simp: json_tag_def split: if_splits)
    with eq enc_str_inj [of s r t q] show "JStr s = w \<and> r = q" by simp
  qed
next
  case (JBool b)
  show ?case unfolding decodable_def
  proof (intro allI impI)
    fix w r q assume "delim r" "delim q" and eq: "enc_json (JBool b) @ r = enc_json w @ q"
    from eq enc_json_tag [of "JBool b" r] enc_json_tag [of w q]
    have "json_tag w = (if b then 1 else 2)" by (simp add: json_tag_def)
    then have w: "w = JBool b" by (cases w) (auto simp: json_tag_def split: if_splits)
    with eq show "JBool b = w \<and> r = q" by simp
  qed
next
  case JNull
  show ?case unfolding decodable_def
  proof (intro allI impI)
    fix w r q assume "delim r" "delim q" and eq: "enc_json JNull @ r = enc_json w @ q"
    from eq enc_json_tag [of JNull r] enc_json_tag [of w q] have "json_tag w = 0"
      by (simp add: json_tag_def)
    then have "w = JNull" by (cases w) (auto simp: json_tag_def split: if_splits)
    with eq show "JNull = w \<and> r = q" by simp
  qed
qed

lemma enc_json_inject: "enc_json v = enc_json w \<longleftrightarrow> v = w"
  using decodableD [OF enc_json_decodable, of v "[]" w "[]"] by auto

section \<open>Equal canonical texts\<close>

lemma canonical_json_norm: "canonical_json a = canonical_json b \<longleftrightarrow> norm_json a = norm_json b"
  by (simp add: canonical_json_def enc_json_inject)

text \<open>Two objects with the same canonical text agree at every key.\<close>

lemma norm_json_obj_lookup:
  assumes "norm_json (JObj a) = norm_json (JObj b)"
    and "distinct (map fst a)" and "distinct (map fst b)"
  shows "map_option norm_json (map_of a k) = map_option norm_json (map_of b k)"
proof -
  let ?n = "map (\<lambda>(k, v). (k, norm_json v))"
  have keys: "map fst (?n c) = map fst c" for c :: "(string \<times> json) list"
    by (simp add: comp_def case_prod_beta)
  have look: "map_of (?n c) k = map_option norm_json (map_of c k)" for c
    by (simp add: map_of_map)
  from assms(1) have "sort_key fst (?n a) = sort_key fst (?n b)" by simp
  then have "set (?n a) = set (?n b)" by (metis set_sort)
  then have "map_of (?n a) = map_of (?n b)"
    by (intro map_of_inject_set [THEN iffD2]) (simp_all only: keys assms)
  then show ?thesis by (metis look)
qed

lemma norm_json_obj_same_keys:
  assumes "norm_json (JObj a) = norm_json (JObj b)"
    and "map fst a = map fst b" and "distinct (map fst a)"
  shows "map (norm_json \<circ> snd) a = map (norm_json \<circ> snd) b"
proof (rule nth_equalityI)
  show len: "length (map (norm_json \<circ> snd) a) = length (map (norm_json \<circ> snd) b)"
    using assms(2) by (metis length_map)
  fix i assume "i < length (map (norm_json \<circ> snd) a)"
  then have i: "i < length a" "i < length b" using len by simp_all
  have fst: "fst (a ! i) = fst (b ! i)" using assms(2) i by (metis nth_map)
  have "map_of a (fst (a ! i)) = Some (snd (a ! i))" using assms(3) i by simp
  moreover have "map_of b (fst (a ! i)) = Some (snd (b ! i))" using assms(2,3) i fst by simp
  ultimately show "map (norm_json \<circ> snd) a ! i = map (norm_json \<circ> snd) b ! i"
    using norm_json_obj_lookup [OF assms(1), of "fst (a ! i)"] assms(2,3) i by simp
qed

end
