(* ===== verification/Recon_Codes.thy ===== *)
theory Recon_Codes
  imports Canonical_Json
begin

text \<open>
  The closed vocabularies of the reconciliation contract
  (\<open>contracts/reconciliation/secp_reconciliation/v1/codes.py\<close>): the enums with their wire values,
  the order tuples, and the tables between them. A refusal is a \<open>refusal_code\<close>; raising
  \<open>ReconciliationRefused(code)\<close> is returning \<open>Inl code\<close>.
\<close>

definition CONTRACT_VERSION :: string where
  "CONTRACT_VERSION = ''secp-recon/v1''"

section \<open>Enums\<close>

datatype element_kind =
    EK_network
  | EK_node
  | EK_edge

fun element_kind_value :: "element_kind \<Rightarrow> string" where
  "element_kind_value EK_network = ''network''"
| "element_kind_value EK_node = ''node''"
| "element_kind_value EK_edge = ''edge''"

datatype facet_name =
    FN_name
  | FN_address_space
  | FN_isolation
  | FN_team_binding
  | FN_node_class
  | FN_role
  | FN_image
  | FN_network_attachment
  | FN_address
  | FN_attributes

fun facet_name_value :: "facet_name \<Rightarrow> string" where
  "facet_name_value FN_name = ''name''"
| "facet_name_value FN_address_space = ''address_space''"
| "facet_name_value FN_isolation = ''isolation''"
| "facet_name_value FN_team_binding = ''team_binding''"
| "facet_name_value FN_node_class = ''node_class''"
| "facet_name_value FN_role = ''role''"
| "facet_name_value FN_image = ''image''"
| "facet_name_value FN_network_attachment = ''network_attachment''"
| "facet_name_value FN_address = ''address''"
| "facet_name_value FN_attributes = ''attributes''"

datatype drift_kind =
    DK_identity_conflict
  | DK_indeterminate
  | DK_unmanaged
  | DK_missing
  | DK_divergent

fun drift_kind_value :: "drift_kind \<Rightarrow> string" where
  "drift_kind_value DK_identity_conflict = ''identity_conflict''"
| "drift_kind_value DK_indeterminate = ''indeterminate''"
| "drift_kind_value DK_unmanaged = ''unmanaged''"
| "drift_kind_value DK_missing = ''missing''"
| "drift_kind_value DK_divergent = ''divergent''"

datatype drift_reason =
    DR_element_kind_conflict
  | DR_facet_evidence_absent
  | DR_element_unmanaged
  | DR_element_absent
  | DR_facet_name_mismatch
  | DR_facet_address_space_mismatch
  | DR_facet_isolation_mismatch
  | DR_facet_team_binding_mismatch
  | DR_facet_node_class_mismatch
  | DR_facet_role_mismatch
  | DR_facet_image_mismatch
  | DR_facet_network_attachment_mismatch
  | DR_facet_address_mismatch
  | DR_facet_attributes_mismatch

fun drift_reason_value :: "drift_reason \<Rightarrow> string" where
  "drift_reason_value DR_element_kind_conflict = ''element_kind_conflict''"
| "drift_reason_value DR_facet_evidence_absent = ''facet_evidence_absent''"
| "drift_reason_value DR_element_unmanaged = ''element_unmanaged''"
| "drift_reason_value DR_element_absent = ''element_absent''"
| "drift_reason_value DR_facet_name_mismatch = ''facet_name_mismatch''"
| "drift_reason_value DR_facet_address_space_mismatch = ''facet_address_space_mismatch''"
| "drift_reason_value DR_facet_isolation_mismatch = ''facet_isolation_mismatch''"
| "drift_reason_value DR_facet_team_binding_mismatch = ''facet_team_binding_mismatch''"
| "drift_reason_value DR_facet_node_class_mismatch = ''facet_node_class_mismatch''"
| "drift_reason_value DR_facet_role_mismatch = ''facet_role_mismatch''"
| "drift_reason_value DR_facet_image_mismatch = ''facet_image_mismatch''"
| "drift_reason_value DR_facet_network_attachment_mismatch = ''facet_network_attachment_mismatch''"
| "drift_reason_value DR_facet_address_mismatch = ''facet_address_mismatch''"
| "drift_reason_value DR_facet_attributes_mismatch = ''facet_attributes_mismatch''"

datatype action_kind =
    AK_create
  | AK_update

fun action_kind_value :: "action_kind \<Rightarrow> string" where
  "action_kind_value AK_create = ''create''"
| "action_kind_value AK_update = ''update''"

datatype plan_disposition =
    PD_converged
  | PD_actionable
  | PD_operator_decision_required

fun plan_disposition_value :: "plan_disposition \<Rightarrow> string" where
  "plan_disposition_value PD_converged = ''converged''"
| "plan_disposition_value PD_actionable = ''actionable''"
| "plan_disposition_value PD_operator_decision_required = ''operator_decision_required''"

datatype observation_fidelity =
    OF_complete
  | OF_partial
  | OF_unverified

fun observation_fidelity_value :: "observation_fidelity \<Rightarrow> string" where
  "observation_fidelity_value OF_complete = ''complete''"
| "observation_fidelity_value OF_partial = ''partial''"
| "observation_fidelity_value OF_unverified = ''unverified''"

datatype execution_surface =
    ES_simulator

fun execution_surface_value :: "execution_surface \<Rightarrow> string" where
  "execution_surface_value ES_simulator = ''simulator''"

datatype reset_scope =
    RS_instance
  | RS_element_set

fun reset_scope_value :: "reset_scope \<Rightarrow> string" where
  "reset_scope_value RS_instance = ''instance''"
| "reset_scope_value RS_element_set = ''element_set''"

datatype execution_outcome =
    EO_no_op
  | EO_applied
  | EO_partial

fun execution_outcome_value :: "execution_outcome \<Rightarrow> string" where
  "execution_outcome_value EO_no_op = ''no_op''"
| "execution_outcome_value EO_applied = ''applied''"
| "execution_outcome_value EO_partial = ''partial''"

datatype step_status =
    SS_applied
  | SS_failed
  | SS_not_attempted

fun step_status_value :: "step_status \<Rightarrow> string" where
  "step_status_value SS_applied = ''applied''"
| "step_status_value SS_failed = ''failed''"
| "step_status_value SS_not_attempted = ''not_attempted''"

datatype step_failure_reason =
    SF_dependency_absent
  | SF_element_not_in_desired

fun step_failure_reason_value :: "step_failure_reason \<Rightarrow> string" where
  "step_failure_reason_value SF_dependency_absent = ''dependency_absent''"
| "step_failure_reason_value SF_element_not_in_desired = ''element_not_in_desired''"

datatype operator_next_step =
    NS_none_required
  | NS_reobserve_and_replan
  | NS_resolve_dependency_then_replan
  | NS_operator_decision_required

fun operator_next_step_value :: "operator_next_step \<Rightarrow> string" where
  "operator_next_step_value NS_none_required = ''none_required''"
| "operator_next_step_value NS_reobserve_and_replan = ''reobserve_and_replan''"
| "operator_next_step_value NS_resolve_dependency_then_replan = ''resolve_dependency_then_replan''"
| "operator_next_step_value NS_operator_decision_required = ''operator_decision_required''"

datatype convergence_state =
    CS_converged
  | CS_drift_remains
  | CS_unverifiable

fun convergence_state_value :: "convergence_state \<Rightarrow> string" where
  "convergence_state_value CS_converged = ''converged''"
| "convergence_state_value CS_drift_remains = ''drift_remains''"
| "convergence_state_value CS_unverifiable = ''unverifiable''"

datatype refusal_code =
    RC_contract_version_unsupported
  | RC_scope_invalid
  | RC_execution_surface_sealed
  | RC_desired_unverified
  | RC_desired_state_inconsistent
  | RC_instance_mismatch
  | RC_provider_mismatch
  | RC_observation_unverified
  | RC_observation_incomplete
  | RC_observation_stale
  | RC_observed_state_inconsistent
  | RC_verification_token_invalid
  | RC_identity_conflict_unresolvable
  | RC_drift_indeterminate
  | RC_change_budget_exceeded
  | RC_reset_scope_unsafe
  | RC_reset_window_invalid
  | RC_plan_integrity_invalid
  | RC_scope_mismatch
  | RC_reset_intent_plan_mismatch
  | RC_reset_intent_expired
  | RC_reset_intent_not_yet_valid
  | RC_execution_unauthorized

fun refusal_code_value :: "refusal_code \<Rightarrow> string" where
  "refusal_code_value RC_contract_version_unsupported = ''reconciliation_contract_version_unsupported''"
| "refusal_code_value RC_scope_invalid = ''reconciliation_scope_invalid''"
| "refusal_code_value RC_execution_surface_sealed = ''reconciliation_execution_surface_sealed''"
| "refusal_code_value RC_desired_unverified = ''reconciliation_desired_unverified''"
| "refusal_code_value RC_desired_state_inconsistent = ''reconciliation_desired_state_inconsistent''"
| "refusal_code_value RC_instance_mismatch = ''reconciliation_instance_mismatch''"
| "refusal_code_value RC_provider_mismatch = ''reconciliation_provider_mismatch''"
| "refusal_code_value RC_observation_unverified = ''reconciliation_observation_unverified''"
| "refusal_code_value RC_observation_incomplete = ''reconciliation_observation_incomplete''"
| "refusal_code_value RC_observation_stale = ''reconciliation_observation_stale''"
| "refusal_code_value RC_observed_state_inconsistent = ''reconciliation_observed_state_inconsistent''"
| "refusal_code_value RC_verification_token_invalid = ''reconciliation_verification_token_invalid''"
| "refusal_code_value RC_identity_conflict_unresolvable = ''reconciliation_identity_conflict_unresolvable''"
| "refusal_code_value RC_drift_indeterminate = ''reconciliation_drift_indeterminate''"
| "refusal_code_value RC_change_budget_exceeded = ''reconciliation_change_budget_exceeded''"
| "refusal_code_value RC_reset_scope_unsafe = ''reconciliation_reset_scope_unsafe''"
| "refusal_code_value RC_reset_window_invalid = ''reconciliation_reset_window_invalid''"
| "refusal_code_value RC_plan_integrity_invalid = ''reconciliation_plan_integrity_invalid''"
| "refusal_code_value RC_scope_mismatch = ''reconciliation_scope_mismatch''"
| "refusal_code_value RC_reset_intent_plan_mismatch = ''reconciliation_reset_intent_plan_mismatch''"
| "refusal_code_value RC_reset_intent_expired = ''reconciliation_reset_intent_expired''"
| "refusal_code_value RC_reset_intent_not_yet_valid = ''reconciliation_reset_intent_not_yet_valid''"
| "refusal_code_value RC_execution_unauthorized = ''reconciliation_execution_unauthorized''"

section \<open>Orders\<close>

definition DRIFT_KIND_ORDER :: "drift_kind list" where
  "DRIFT_KIND_ORDER = [DK_identity_conflict, DK_indeterminate, DK_unmanaged, DK_missing, DK_divergent]"

definition DRIFT_REASON_ORDER :: "drift_reason list" where
  "DRIFT_REASON_ORDER =
    [DR_element_kind_conflict, DR_facet_evidence_absent, DR_element_unmanaged, DR_element_absent,
     DR_facet_name_mismatch, DR_facet_address_space_mismatch, DR_facet_isolation_mismatch,
     DR_facet_team_binding_mismatch, DR_facet_node_class_mismatch, DR_facet_role_mismatch,
     DR_facet_image_mismatch, DR_facet_network_attachment_mismatch, DR_facet_address_mismatch,
     DR_facet_attributes_mismatch]"

definition ELEMENT_KIND_ORDER :: "element_kind list" where
  "ELEMENT_KIND_ORDER = [EK_network, EK_node, EK_edge]"

definition ACTION_KIND_ORDER :: "action_kind list" where
  "ACTION_KIND_ORDER = [AK_create, AK_update]"

definition STEP_STATUS_ORDER :: "step_status list" where
  "STEP_STATUS_ORDER = [SS_failed, SS_not_attempted, SS_applied]"

definition STEP_FAILURE_REASON_ORDER :: "step_failure_reason list" where
  "STEP_FAILURE_REASON_ORDER = [SF_dependency_absent, SF_element_not_in_desired]"

interpretation drift_kinds: closed_order DRIFT_KIND_ORDER
proof
  show "set DRIFT_KIND_ORDER = UNIV"
    by (auto simp: DRIFT_KIND_ORDER_def intro: drift_kind.exhaust)
qed (simp add: DRIFT_KIND_ORDER_def)

interpretation drift_reasons: closed_order DRIFT_REASON_ORDER
proof
  show "set DRIFT_REASON_ORDER = UNIV"
    by (auto simp: DRIFT_REASON_ORDER_def intro: drift_reason.exhaust)
qed (simp add: DRIFT_REASON_ORDER_def)

interpretation element_kinds: closed_order ELEMENT_KIND_ORDER
proof
  show "set ELEMENT_KIND_ORDER = UNIV"
    by (auto simp: ELEMENT_KIND_ORDER_def intro: element_kind.exhaust)
qed (simp add: ELEMENT_KIND_ORDER_def)

interpretation action_kinds: closed_order ACTION_KIND_ORDER
proof
  show "set ACTION_KIND_ORDER = UNIV"
    by (auto simp: ACTION_KIND_ORDER_def intro: action_kind.exhaust)
qed (simp add: ACTION_KIND_ORDER_def)

interpretation step_statuses: closed_order STEP_STATUS_ORDER
proof
  show "set STEP_STATUS_ORDER = UNIV"
    by (auto simp: STEP_STATUS_ORDER_def intro: step_status.exhaust)
qed (simp add: STEP_STATUS_ORDER_def)

interpretation step_failures: closed_order STEP_FAILURE_REASON_ORDER
proof
  show "set STEP_FAILURE_REASON_ORDER = UNIV"
    by (auto simp: STEP_FAILURE_REASON_ORDER_def intro: step_failure_reason.exhaust)
qed (simp add: STEP_FAILURE_REASON_ORDER_def)

section \<open>Tables\<close>

fun DRIFT_REASONS_BY_KIND :: "drift_kind \<Rightarrow> drift_reason list" where
  "DRIFT_REASONS_BY_KIND DK_identity_conflict = [DR_element_kind_conflict]"
| "DRIFT_REASONS_BY_KIND DK_indeterminate = [DR_facet_evidence_absent]"
| "DRIFT_REASONS_BY_KIND DK_unmanaged = [DR_element_unmanaged]"
| "DRIFT_REASONS_BY_KIND DK_missing = [DR_element_absent]"
| "DRIFT_REASONS_BY_KIND DK_divergent =
    [DR_facet_name_mismatch, DR_facet_address_space_mismatch, DR_facet_isolation_mismatch,
     DR_facet_team_binding_mismatch, DR_facet_node_class_mismatch, DR_facet_role_mismatch,
     DR_facet_image_mismatch, DR_facet_network_attachment_mismatch, DR_facet_address_mismatch,
     DR_facet_attributes_mismatch]"

definition FACETS_BY_ELEMENT_KIND :: "(element_kind, facet_name list) dict" where
  "FACETS_BY_ELEMENT_KIND =
    [(EK_network, [FN_name, FN_address_space, FN_isolation, FN_team_binding]),
     (EK_node, [FN_name, FN_node_class, FN_role, FN_image, FN_network_attachment, FN_address,
        FN_attributes]),
     (EK_edge, [])]"

fun DIVERGENCE_REASON_BY_FACET :: "facet_name \<Rightarrow> drift_reason" where
  "DIVERGENCE_REASON_BY_FACET FN_name = DR_facet_name_mismatch"
| "DIVERGENCE_REASON_BY_FACET FN_address_space = DR_facet_address_space_mismatch"
| "DIVERGENCE_REASON_BY_FACET FN_isolation = DR_facet_isolation_mismatch"
| "DIVERGENCE_REASON_BY_FACET FN_team_binding = DR_facet_team_binding_mismatch"
| "DIVERGENCE_REASON_BY_FACET FN_node_class = DR_facet_node_class_mismatch"
| "DIVERGENCE_REASON_BY_FACET FN_role = DR_facet_role_mismatch"
| "DIVERGENCE_REASON_BY_FACET FN_image = DR_facet_image_mismatch"
| "DIVERGENCE_REASON_BY_FACET FN_network_attachment = DR_facet_network_attachment_mismatch"
| "DIVERGENCE_REASON_BY_FACET FN_address = DR_facet_address_mismatch"
| "DIVERGENCE_REASON_BY_FACET FN_attributes = DR_facet_attributes_mismatch"

text \<open>Partial: the kinds the planner refuses or defers have no entry.\<close>

definition ACTION_FOR_DRIFT_KIND :: "(drift_kind, action_kind) dict" where
  "ACTION_FOR_DRIFT_KIND = [(DK_missing, AK_create), (DK_divergent, AK_update)]"

fun NEXT_STEP_FOR_STEP_FAILURE :: "step_failure_reason \<Rightarrow> operator_next_step" where
  "NEXT_STEP_FOR_STEP_FAILURE SF_dependency_absent = NS_resolve_dependency_then_replan"
| "NEXT_STEP_FOR_STEP_FAILURE SF_element_not_in_desired = NS_reobserve_and_replan"

fun NEXT_STEP_FOR_CONVERGENCE :: "convergence_state \<Rightarrow> operator_next_step" where
  "NEXT_STEP_FOR_CONVERGENCE CS_converged = NS_none_required"
| "NEXT_STEP_FOR_CONVERGENCE CS_drift_remains = NS_reobserve_and_replan"
| "NEXT_STEP_FOR_CONVERGENCE CS_unverifiable = NS_reobserve_and_replan"

definition RETRYABLE_WITH_FRESH_OBSERVATION :: "refusal_code list" where
  "RETRYABLE_WITH_FRESH_OBSERVATION =
    [RC_observation_unverified, RC_observation_incomplete, RC_observation_stale,
     RC_observed_state_inconsistent]"

section \<open>Wire values are unambiguous\<close>

lemma element_kind_value_inject [simp]: "element_kind_value a = element_kind_value b \<longleftrightarrow> a = b"
  by (cases a; cases b) simp_all

lemma drift_kind_value_inject [simp]: "drift_kind_value a = drift_kind_value b \<longleftrightarrow> a = b"
  by (cases a; cases b) simp_all

lemma action_kind_value_inject [simp]: "action_kind_value a = action_kind_value b \<longleftrightarrow> a = b"
  by (cases a; cases b) simp_all

lemma plan_disposition_value_inject [simp]:
  "plan_disposition_value a = plan_disposition_value b \<longleftrightarrow> a = b"
  by (cases a; cases b) simp_all

lemma observation_fidelity_value_inject [simp]:
  "observation_fidelity_value a = observation_fidelity_value b \<longleftrightarrow> a = b"
  by (cases a; cases b) simp_all

lemma facet_name_value_inject [simp]: "facet_name_value a = facet_name_value b \<longleftrightarrow> a = b"
  by (cases a; cases b) simp_all

lemma drift_reason_value_inject [simp]: "drift_reason_value a = drift_reason_value b \<longleftrightarrow> a = b"
  by (cases a; cases b) simp_all

text \<open>A reason belongs to exactly one drift kind.\<close>

lemma drift_reasons_partition: "\<exists>!k. r \<in> set (DRIFT_REASONS_BY_KIND k)"
proof (rule ex_ex1I)
  show "\<exists>k. r \<in> set (DRIFT_REASONS_BY_KIND k)"
    by (cases r) (metis DRIFT_REASONS_BY_KIND.simps list.set_intros)+
next
  fix a b assume "r \<in> set (DRIFT_REASONS_BY_KIND a)" "r \<in> set (DRIFT_REASONS_BY_KIND b)"
  then show "a = b" by (cases a; cases b) auto
qed

lemma divergence_reason_kind:
  "DIVERGENCE_REASON_BY_FACET f \<in> set (DRIFT_REASONS_BY_KIND DK_divergent)"
  by (cases f) simp_all

end
