(* ===== verification/Sha256.thy ===== *)
theory Sha256
  imports Py_Text "HOL-Library.Word"
begin

unbundle bit_operations_syntax

text \<open>
  \<open>hashlib.sha256(data).hexdigest()\<close> as FIPS 180-4 defines it, over \<^typ>\<open>32 word\<close>. The contracts
  hash ASCII text only, so the bytes are the characters' codes. No property rests on the
  function being free of collisions: where one matters, the conclusion names the two colliding
  texts as an alternative.
\<close>

type_synonym sha_state = "32 word \<times> 32 word \<times> 32 word \<times> 32 word \<times> 32 word \<times> 32 word \<times> 32 word \<times> 32 word"

text \<open>
  The constants, as the standard defines them: the first 32 bits of the fractional parts of the cube
  roots of the first 64 primes, and of the square roots of the first eight. \<open>root_bits k b n r\<close> adds
  to \<open>r\<close> the lower \<open>b\<close> bits of the integer \<open>k\<close>th root of \<open>n\<close>, highest bit first.
\<close>

fun root_bits :: "nat \<Rightarrow> nat \<Rightarrow> int \<Rightarrow> int \<Rightarrow> int" where
  "root_bits k 0 n r = r"
| "root_bits k (Suc b) n r = root_bits k b n (if (r + 2 ^ b) ^ k \<le> n then r + 2 ^ b else r)"

definition first_primes :: "int list" where
  "first_primes = filter (\<lambda>p. list_all (\<lambda>d. p mod d \<noteq> 0) [2..p - 1]) [2..311]"

definition sha_K :: "32 word list" where
  "sha_K = map (\<lambda>p. word_of_int (root_bits 3 36 (p * 2 ^ 96) 0)) first_primes"

definition sha_H0 :: sha_state where
  "sha_H0 = (case map (\<lambda>p. word_of_int (root_bits 2 37 (p * 2 ^ 64) 0)) (take 8 first_primes) of
     [a, b, c, d, e, f, g, h] \<Rightarrow> (a, b, c, d, e, f, g, h))"

definition rotr :: "nat \<Rightarrow> 32 word \<Rightarrow> 32 word" where
  "rotr n w = (drop_bit n w) OR (push_bit (32 - n) w)"

definition big_sigma0 :: "32 word \<Rightarrow> 32 word" where
  "big_sigma0 x = rotr 2 x XOR rotr 13 x XOR rotr 22 x"

definition big_sigma1 :: "32 word \<Rightarrow> 32 word" where
  "big_sigma1 x = rotr 6 x XOR rotr 11 x XOR rotr 25 x"

definition small_sigma0 :: "32 word \<Rightarrow> 32 word" where
  "small_sigma0 x = rotr 7 x XOR rotr 18 x XOR drop_bit 3 x"

definition small_sigma1 :: "32 word \<Rightarrow> 32 word" where
  "small_sigma1 x = rotr 17 x XOR rotr 19 x XOR drop_bit 10 x"

definition sha_pad :: "int list \<Rightarrow> int list" where
  "sha_pad bs = (let n = length bs; z = (119 - n mod 64) mod 64 in
     bs @ [128] @ replicate z 0 @ map (\<lambda>i. (8 * int n) div 256 ^ (7 - i) mod 256) [0..<8])"

fun chunks :: "nat \<Rightarrow> 'a list \<Rightarrow> 'a list list" where
  "chunks n xs = (if n = 0 \<or> length xs < n then [] else take n xs # chunks n (drop n xs))"

declare chunks.simps [simp del]

definition be_word :: "int list \<Rightarrow> 32 word" where
  "be_word bs = word_of_int (foldl (\<lambda>a b. a * 256 + b) 0 bs)"

text \<open>The eight lowercase hexadecimal digits of a word, most significant first.\<close>

definition hex_word :: "32 word \<Rightarrow> string" where
  "hex_word w = map (\<lambda>i. hex_digit (unat (drop_bit (4 * i) w AND 15))) [7, 6, 5, 4, 3, 2, 1, 0]"

text \<open>The message schedule is kept newest first, so each extension reads fixed positions.\<close>

fun extend_schedule :: "nat \<Rightarrow> 32 word list \<Rightarrow> 32 word list" where
  "extend_schedule 0 ws = ws"
| "extend_schedule (Suc n) ws =
     extend_schedule n ((small_sigma1 (ws ! 1) + ws ! 6 + small_sigma0 (ws ! 14) + ws ! 15) # ws)"

definition sha_round :: "sha_state \<Rightarrow> 32 word \<times> 32 word \<Rightarrow> sha_state" where
  "sha_round s kw = (case s of (a, b, c, d, e, f, g, h) \<Rightarrow> case kw of (k, w) \<Rightarrow>
     (let t1 = h + big_sigma1 e + ((e AND f) XOR (NOT e AND g)) + k + w;
          t2 = big_sigma0 a + ((a AND b) XOR (a AND c) XOR (b AND c))
      in (t1 + t2, a, b, c, d + t1, e, f, g)))"

definition sha_block :: "sha_state \<Rightarrow> int list \<Rightarrow> sha_state" where
  "sha_block s bs = (let ws = rev (extend_schedule 48 (rev (map be_word (chunks 4 bs)))) in
     case s of (a, b, c, d, e, f, g, h) \<Rightarrow>
     case foldl sha_round s (zip sha_K ws) of (a', b', c', d', e', f', g', h') \<Rightarrow>
     (a + a', b + b', c + c', d + d', e + e', f + f', g + g', h + h'))"

definition sha256_hexdigest :: "string \<Rightarrow> string" where
  "sha256_hexdigest s =
     (case foldl sha_block sha_H0 (chunks 64 (sha_pad (map of_char s))) of
       (a, b, c, d, e, f, g, h) \<Rightarrow> concat (map hex_word [a, b, c, d, e, f, g, h]))"

lemma length_hex_word [simp]: "length (hex_word w) = 8"
  by (simp add: hex_word_def)

lemma hex_word_alphabet: "c \<in> set (hex_word w) \<Longrightarrow> c \<in> set HEX_ALPHABET"
proof -
  have "unat (x AND 15) < 16" for x :: "32 word"
  proof -
    have "unat (x AND 15) \<le> unat (15 :: 32 word)"
      by (rule word_and_le1 [THEN word_le_nat_alt [THEN iffD1]])
    then show ?thesis by simp
  qed
  then show "c \<in> set (hex_word w) \<Longrightarrow> c \<in> set HEX_ALPHABET"
    by (auto simp: hex_word_def intro: hex_digit_alphabet)
qed

lemma length_sha256_hexdigest [simp]: "length (sha256_hexdigest s) = 64"
  by (simp add: sha256_hexdigest_def split: prod.splits)

lemma sha256_hexdigest_alphabet: "c \<in> set (sha256_hexdigest s) \<Longrightarrow> c \<in> set HEX_ALPHABET"
  by (auto simp: sha256_hexdigest_def hex_word_alphabet split: prod.splits)

end
