(* ===== verification/Py_Datetime.thy ===== *)
theory Py_Datetime
  imports Py_Text
begin

text \<open>
  Python's \<open>datetime\<close> as the contracts use it. A value is a wall-clock reading in microseconds
  since 0001-01-01T00:00 together with a UTC offset, or no offset for a naive value. Ordinals and
  calendar dates convert by the algorithm of the standard library; \<open>isoformat\<close> prints the UTC
  rendering the contracts store and \<open>fromisoformat\<close> reads the extended shapes \<open>isoformat\<close> writes
  (date, \<open>T\<close>, time, optional six-digit fraction, offset in hours and minutes).
\<close>

record datetime =
  wall_us :: int
  utc_offset :: "int option"

definition us_per_second :: int where "us_per_second = 1000000"
definition us_per_day :: int where "us_per_day = 86400000000"

text \<open>A naive value is taken as UTC (\<open>digest.py\<close>, \<open>as_utc\<close>).\<close>

definition as_utc :: "datetime \<Rightarrow> datetime" where
  "as_utc value = (case utc_offset value of None \<Rightarrow> value\<lparr>utc_offset := Some 0\<rparr> | Some _ \<Rightarrow> value)"

text \<open>The instant an aware value denotes; comparison and subtraction work on instants.\<close>

definition instant :: "datetime \<Rightarrow> int" where
  "instant d = wall_us d - (case utc_offset d of None \<Rightarrow> 0 | Some off \<Rightarrow> off)"

lemma instant_as_utc [simp]: "instant (as_utc d) = instant d"
  by (simp add: as_utc_def instant_def split: option.splits)

section \<open>Calendar\<close>

definition is_leap :: "nat \<Rightarrow> bool" where
  "is_leap y \<longleftrightarrow> y mod 4 = 0 \<and> (y mod 100 \<noteq> 0 \<or> y mod 400 = 0)"

definition days_before_year :: "nat \<Rightarrow> nat" where
  "days_before_year y = (y - 1) * 365 + (y - 1) div 4 - (y - 1) div 100 + (y - 1) div 400"

definition days_in_month :: "bool \<Rightarrow> nat \<Rightarrow> nat" where
  "days_in_month leap m = (if m = 2 then (if leap then 29 else 28) else if m \<in> {4, 6, 9, 11} then 30 else 31)"

definition days_before_month :: "bool \<Rightarrow> nat \<Rightarrow> nat" where
  "days_before_month leap m =
     [0, 0, 31, 59, 90, 120, 151, 181, 212, 243, 273, 304, 334] ! m + (if m > 2 \<and> leap then 1 else 0)"

definition ymd2ord :: "nat \<Rightarrow> nat \<Rightarrow> nat \<Rightarrow> nat" where
  "ymd2ord y m d = days_before_year y + days_before_month (is_leap y) m + d"

definition month_day :: "bool \<Rightarrow> nat \<Rightarrow> nat \<times> nat" where
  "month_day leap n =
     (let month = (n + 50) div 32; preceding = days_before_month leap month in
      if preceding > n
      then (month - 1, n - (preceding - days_in_month leap (month - 1)) + 1)
      else (month, n - preceding + 1))"

definition ord2ymd :: "nat \<Rightarrow> nat \<times> nat \<times> nat" where
  "ord2ymd ord =
     (let n = ord - 1; n400 = n div 146097; n = n mod 146097;
          n100 = n div 36524; n = n mod 36524; n4 = n div 1461; n = n mod 1461;
          n1 = n div 365; n = n mod 365;
          year = n400 * 400 + 1 + n100 * 100 + n4 * 4 + n1
      in if n1 = 4 \<or> n100 = 4 then (year - 1, 12, 31)
         else (case month_day (n1 = 3 \<and> (n4 \<noteq> 24 \<or> n100 = 3)) n of (m, d) \<Rightarrow> (year, m, d)))"

lemma month_day_correct:
  assumes "n < (if leap then 366 else 365)" and "month_day leap n = (m, d)"
  shows "days_before_month leap m + d = n + 1 \<and> 1 \<le> m \<and> m \<le> 12 \<and> 1 \<le> d \<and> d \<le> days_in_month leap m"
proof -
  define e where "e = (n + 50) div 32"
  have lo: "32 * e \<le> n + 50" and hi: "n + 50 < 32 * e + 32" unfolding e_def by linarith+
  have "n < 366" using assms(1) by (simp split: if_splits)
  then have "1 \<le> e" "e \<le> 12" using lo hi by linarith+
  then have "e = 1 \<or> e = 2 \<or> e = 3 \<or> e = 4 \<or> e = 5 \<or> e = 6 \<or> e = 7 \<or> e = 8 \<or> e = 9 \<or> e = 10
      \<or> e = 11 \<or> e = 12"
    by (auto simp: numeral_eq_Suc le_Suc_eq)
  then show ?thesis
    using assms lo hi
    by (elim disjE)
      (auto simp: month_day_def Let_def e_def [symmetric] days_before_month_def days_in_month_def
        split: if_splits)
qed

lemma div_add_small: "d < k \<Longrightarrow> (k * q + d) div k = (q::nat)"
  by simp

text \<open>The 400/100/4/1-year decomposition of a year.\<close>

lemma year_parts:
  assumes "b \<le> 3" and "c \<le> 24" and "d \<le> (3::nat)"
  shows "days_before_year (a * 400 + 1 + b * 100 + c * 4 + d) = a * 146097 + b * 36524 + c * 1461 + d * 365"
    and "is_leap (a * 400 + 1 + b * 100 + c * 4 + d) \<longleftrightarrow> d = 3 \<and> (c \<noteq> 24 \<or> b = 3)"
proof -
  let ?y = "a * 400 + b * 100 + c * 4 + d"
  have q4: "?y div 4 = a * 100 + b * 25 + c"
    using div_add_small [of d 4 "a * 100 + b * 25 + c"] assms by (simp add: algebra_simps)
  have q100: "?y div 100 = a * 4 + b"
    using div_add_small [of "c * 4 + d" 100 "a * 4 + b"] assms by (simp add: algebra_simps)
  have q400: "?y div 400 = a"
    using div_add_small [of "b * 100 + c * 4 + d" 400 a] assms by (simp add: algebra_simps)
  show "days_before_year (a * 400 + 1 + b * 100 + c * 4 + d) = a * 146097 + b * 36524 + c * 1461 + d * 365"
    unfolding days_before_year_def using q4 q100 q400 by simp
  have r4: "(?y + 1) mod 4 = (d + 1) mod 4"
  proof -
    have "?y + 1 = 4 * (a * 100 + b * 25 + c) + (d + 1)" by simp
    then show ?thesis by (metis mod_mult_self4)
  qed
  have r100: "(?y + 1) mod 100 = (c * 4 + d + 1) mod 100"
  proof -
    have "?y + 1 = 100 * (a * 4 + b) + (c * 4 + d + 1)" by simp
    then show ?thesis by (metis mod_mult_self4)
  qed
  have r400: "(?y + 1) mod 400 = (b * 100 + c * 4 + d + 1) mod 400"
  proof -
    have "?y + 1 = 400 * a + (b * 100 + c * 4 + d + 1)" by simp
    then show ?thesis by (metis mod_mult_self4)
  qed
  have m4: "(d + 1) mod 4 = 0 \<longleftrightarrow> d = 3"
    using assms(3) by (cases "d = 3") simp_all
  have m100: "(c * 4 + d + 1) mod 100 = 0 \<longleftrightarrow> c = 24" if "d = 3"
    using assms(2) that by (cases "c = 24") simp_all
  have m400: "(b * 100 + c * 4 + d + 1) mod 400 = 0 \<longleftrightarrow> b = 3" if "d = 3" "c = 24"
    using assms(1) that by (cases "b = 3") simp_all
  have "is_leap (?y + 1) \<longleftrightarrow> d = 3 \<and> (c \<noteq> 24 \<or> b = 3)"
    unfolding is_leap_def r4 r100 r400 m4 using m100 m400 by auto
  then show "is_leap (a * 400 + 1 + b * 100 + c * 4 + d) \<longleftrightarrow> d = 3 \<and> (c \<noteq> 24 \<or> b = 3)"
    by (simp add: ac_simps)
qed

lemma ymd2ord_ord2ymd:
  assumes "1 \<le> n" and "ord2ymd n = (y, m, d)"
  shows "ymd2ord y m d = n \<and> 1 \<le> m \<and> m \<le> 12 \<and> 1 \<le> d \<and> d \<le> days_in_month (is_leap y) m"
proof -
  define a where "a = (n - 1) div 146097"
  define r1 where "r1 = (n - 1) mod 146097"
  define b where "b = r1 div 36524"
  define r2 where "r2 = r1 mod 36524"
  define c where "c = r2 div 1461"
  define r3 where "r3 = r2 mod 1461"
  define e where "e = r3 div 365"
  define r where "r = r3 mod 365"
  have parts: "n - 1 = a * 146097 + r1" "r1 = b * 36524 + r2" "r2 = c * 1461 + r3" "r3 = e * 365 + r"
    by (simp_all add: a_def b_def c_def e_def r_def r3_def r2_def r1_def)
  then have n: "n = a * 146097 + b * 36524 + c * 1461 + e * 365 + r + 1"
    using assms(1) by linarith
  have bounds: "r1 < 146097" "r2 < 36524" "r3 < 1461" "r < 365"
    by (simp_all add: r1_def r2_def r3_def r_def)
  have c24: "c \<le> 24" using bounds(2) by (simp add: c_def)
  have b4: "b \<le> 4" and e4: "e \<le> 4" using bounds by (simp_all add: b_def e_def)
  have eq: "ord2ymd n = (if e = 4 \<or> b = 4 then (a * 400 + 1 + b * 100 + c * 4 + e - 1, 12, 31)
      else (case month_day (e = 3 \<and> (c \<noteq> 24 \<or> b = 3)) r of
              (m, d) \<Rightarrow> (a * 400 + 1 + b * 100 + c * 4 + e, m, d)))"
    unfolding ord2ymd_def Let_def a_def b_def c_def e_def r_def r3_def r2_def r1_def by simp
  consider "b = 4" | "b \<le> 3" "e = 4" | "b \<le> 3" "e \<le> 3" using b4 e4 by linarith
  then show ?thesis
  proof cases
    case 1
    have "r2 = 0" using 1 bounds(1) parts(2) by linarith
    then have z: "c = 0" "e = 0" "r = 0" by (simp_all add: c_def r3_def e_def r_def)
    have y: "y = a * 400 + 1 + 3 * 100 + 24 * 4 + 3" "m = 12" "d = 31"
      using assms(2) 1 z by (simp_all add: eq)
    have "ymd2ord y m d = n" unfolding ymd2ord_def y year_parts [of 3 24 3 a, simplified]
      using n 1 z year_parts [of 3 24 3 a] by (simp add: days_before_month_def)
    then show ?thesis using y by (simp add: days_in_month_def)
  next
    case 2
    have "r = 0" using 2 bounds(3) parts(4) by linarith
    have "\<not> (c = 24 \<and> b \<noteq> 3)"
    proof
      assume "c = 24 \<and> b \<noteq> 3"
      then show False using 2 bounds(2) parts(3,4) by linarith
    qed
    then have leap: "c \<noteq> 24 \<or> b = 3" by blast
    have y: "y = a * 400 + 1 + b * 100 + c * 4 + 3" "m = 12" "d = 31"
      using assms(2) 2 by (simp_all add: eq)
    have "is_leap y" using year_parts(2) [of b c 3 a] 2 c24 leap y by simp
    then have "ymd2ord y m d = n"
      using year_parts(1) [of b c 3 a] 2 c24 y n \<open>r = 0\<close>
      by (simp add: ymd2ord_def days_before_month_def)
    then show ?thesis using y by (simp add: days_in_month_def)
  next
    case 3
    obtain m' d' where md: "month_day (e = 3 \<and> (c \<noteq> 24 \<or> b = 3)) r = (m', d')" by fastforce
    then have y: "y = a * 400 + 1 + b * 100 + c * 4 + e" "m = m'" "d = d'"
      using assms(2) 3 by (simp_all add: eq)
    have leap: "is_leap y \<longleftrightarrow> e = 3 \<and> (c \<noteq> 24 \<or> b = 3)"
      using year_parts(2) [of b c e a] 3 c24 y by simp
    have "r < (if e = 3 \<and> (c \<noteq> 24 \<or> b = 3) then 366 else 365)" using bounds(4) by simp
    from month_day_correct [OF this md]
    show ?thesis using year_parts(1) [of b c e a] 3 c24 y n leap by (simp add: ymd2ord_def)
  qed
qed

lemma year_bound:
  assumes "a * 146097 + b * 36524 + c * 1461 + e * 365 \<le> (3652058::nat)"
    and "b \<le> 4" and "c \<le> 24" and "e \<le> 4"
  shows "a * 400 + 1 + b * 100 + c * 4 + e \<le> 9999 + (if e = 4 \<or> b = 4 then 1 else 0)"
proof -
  have "a \<le> 24" using assms(1) by linarith
  moreover have ?thesis if "a \<le> 23" using that assms by (simp split: if_splits)
  moreover have ?thesis if a: "a = 24"
  proof -
    have "b \<le> 3" using a assms(1) by linarith
    moreover have ?thesis if "b \<le> 2" using that a assms by (simp split: if_splits)
    moreover have ?thesis if b: "b = 3"
    proof (cases "c = 24")
      case True
      then have "e \<le> 2" using a b assms(1) by linarith
      with a b True show ?thesis by simp
    next
      case False
      with assms(3) have "c \<le> 23" by linarith
      with a b assms(4) show ?thesis by simp
    qed
    ultimately show ?thesis by linarith
  qed
  ultimately show ?thesis by linarith
qed

lemma ord2ymd_year:
  assumes "1 \<le> n" and "n \<le> 3652059" and "ord2ymd n = (y, m, d)"
  shows "1 \<le> y \<and> y \<le> 9999"
proof -
  define a where "a = (n - 1) div 146097"
  define r1 where "r1 = (n - 1) mod 146097"
  define b where "b = r1 div 36524"
  define r2 where "r2 = r1 mod 36524"
  define c where "c = r2 div 1461"
  define r3 where "r3 = r2 mod 1461"
  define e where "e = r3 div 365"
  have parts: "n - 1 = a * 146097 + r1" "r1 = b * 36524 + r2" "r2 = c * 1461 + r3" "e * 365 \<le> r3"
    by (simp_all add: a_def b_def c_def e_def r3_def r2_def r1_def)
  have bounds: "r1 < 146097" "r2 < 36524" "r3 < 1461" by (simp_all add: r1_def r2_def r3_def)
  have small: "b \<le> 4" "c \<le> 24" "e \<le> 4" using bounds by (simp_all add: b_def c_def e_def)
  have le: "a * 146097 + b * 36524 + c * 1461 + e * 365 \<le> 3652058"
    using parts assms(1,2) by linarith
  have "y = a * 400 + 1 + b * 100 + c * 4 + e - (if e = 4 \<or> b = 4 then 1 else 0)"
    using assms(3) unfolding ord2ymd_def Let_def a_def b_def c_def e_def r3_def r2_def r1_def
    by (auto split: if_splits prod.splits)
  with year_bound [OF le small] show ?thesis by (auto split: if_splits)
qed

section \<open>ISO 8601\<close>

definition iso_date :: "nat \<times> nat \<times> nat \<Rightarrow> string" where
  "iso_date ymd = (case ymd of (y, m, d) \<Rightarrow> pad_nat 4 y @ ''-'' @ pad_nat 2 m @ ''-'' @ pad_nat 2 d)"

definition iso_time :: "nat \<Rightarrow> string" where
  "iso_time sec = pad_nat 2 (sec div 3600) @ '':'' @ pad_nat 2 (sec div 60 mod 60) @ '':'' @
     pad_nat 2 (sec mod 60)"

text \<open>\<open>isoformat()\<close> of a UTC value: the fraction is left out when it is zero.\<close>

definition isoformat_utc :: "int \<Rightarrow> string" where
  "isoformat_utc us =
     (let day = nat (us div us_per_day); t = nat (us mod us_per_day); f = t mod 1000000 in
      iso_date (ord2ymd (day + 1)) @ ''T'' @ iso_time (t div 1000000) @
      (if f = 0 then [] else CHR ''.'' # pad_nat 6 f) @ ''+00:00'')"

definition canonical_utc :: "datetime \<Rightarrow> string" where
  "canonical_utc value = isoformat_utc (instant (as_utc value))"

definition slice :: "nat \<Rightarrow> nat \<Rightarrow> string \<Rightarrow> string" where
  "slice i n s = take n (drop i s)"

definition all_digits :: "string \<Rightarrow> bool" where
  "all_digits s \<longleftrightarrow> list_all is_digit s"

definition read_offset :: "string \<Rightarrow> int option option" where
  "read_offset s =
     (if s = [] then Some None
      else if length s = 6 \<and> s ! 0 \<in> set ''+-'' \<and> s ! 3 = CHR '':'' \<and>
              all_digits (slice 1 2 s @ slice 4 2 s) \<and>
              read_nat (slice 1 2 s) < 24 \<and> read_nat (slice 4 2 s) < 60
      then Some (Some ((if s ! 0 = CHR ''-'' then - 1 else 1) *
             (int (read_nat (slice 1 2 s)) * 3600 + int (read_nat (slice 4 2 s)) * 60) * us_per_second))
      else None)"

definition fromisoformat :: "string \<Rightarrow> datetime option" where
  "fromisoformat s =
     (let y = read_nat (slice 0 4 s); m = read_nat (slice 5 2 s); d = read_nat (slice 8 2 s);
          h = read_nat (slice 11 2 s); mi = read_nat (slice 14 2 s); sec = read_nat (slice 17 2 s);
          rest = drop 19 s;
          frac = (if rest \<noteq> [] \<and> hd rest = CHR ''.'' then slice 1 6 rest else ''000000'');
          tail = (if rest \<noteq> [] \<and> hd rest = CHR ''.'' then drop 7 rest else rest)
      in if 19 \<le> length s \<and> s ! 4 = CHR ''-'' \<and> s ! 7 = CHR ''-'' \<and> s ! 13 = CHR '':'' \<and> s ! 16 = CHR '':'' \<and>
            all_digits (slice 0 4 s @ slice 5 2 s @ slice 8 2 s @ slice 11 2 s @ slice 14 2 s @
              slice 17 2 s @ frac) \<and> length frac = 6 \<and>
            1 \<le> y \<and> 1 \<le> m \<and> m \<le> 12 \<and> 1 \<le> d \<and> d \<le> days_in_month (is_leap y) m \<and>
            h < 24 \<and> mi < 60 \<and> sec < 60
         then (case read_offset tail of
                 None \<Rightarrow> None
               | Some off \<Rightarrow> Some \<lparr>wall_us = int (ymd2ord y m d - 1) * us_per_day +
                   (int h * 3600 + int mi * 60 + int sec) * us_per_second + int (read_nat frac),
                   utc_offset = off\<rparr>)
         else None)"

text \<open>The instants \<open>datetime\<close> can represent: years 1 to 9999.\<close>

definition representable :: "int \<Rightarrow> bool" where
  "representable us \<longleftrightarrow> 0 \<le> us \<and> us < 3652059 * us_per_day"

lemma all_digits_pad [simp]: "all_digits (pad_nat w n)"
  by (simp add: all_digits_def list_all_iff pad_nat_digits)

lemma all_digits_append [simp]: "all_digits (s @ t) \<longleftrightarrow> all_digits s \<and> all_digits t"
  by (simp add: all_digits_def)

lemma read_offset_utc [simp]: "read_offset ''+00:00'' = Some (Some 0)"
  by code_simp

text \<open>Reading back a printed reading, field by field.\<close>

lemma fromisoformat_printed:
  assumes "y \<le> 9999" and "1 \<le> y" and "1 \<le> m" and "m \<le> 12" and "1 \<le> d"
    and "d \<le> days_in_month (is_leap y) m"
    and "h < 24" and "mi < 60" and "sec < 60" and "f < 1000000"
  shows "fromisoformat (iso_date (y, m, d) @ ''T'' @
           (pad_nat 2 h @ '':'' @ pad_nat 2 mi @ '':'' @ pad_nat 2 sec) @
           (if f = 0 then [] else CHR ''.'' # pad_nat 6 f) @ ''+00:00'') =
         Some \<lparr>wall_us = int (ymd2ord y m d - 1) * us_per_day +
               (int h * 3600 + int mi * 60 + int sec) * us_per_second + int f, utc_offset = Some 0\<rparr>"
    (is "fromisoformat ?s = _")
proof -
  have d31: "d \<le> 31" using assms(6) by (auto simp: days_in_month_def split: if_splits)
  have fields: "slice 0 4 ?s = pad_nat 4 y" "slice 5 2 ?s = pad_nat 2 m" "slice 8 2 ?s = pad_nat 2 d"
      "slice 11 2 ?s = pad_nat 2 h" "slice 14 2 ?s = pad_nat 2 mi" "slice 17 2 ?s = pad_nat 2 sec"
      "drop 19 ?s = (if f = 0 then [] else CHR ''.'' # pad_nat 6 f) @ ''+00:00''"
      "?s ! 4 = CHR ''-''" "?s ! 7 = CHR ''-''" "?s ! 13 = CHR '':''" "?s ! 16 = CHR '':''"
    by (simp_all add: slice_def iso_date_def nth_append)
  have len: "19 \<le> length ?s" by (simp add: iso_date_def)
  have read: "read_nat (pad_nat 4 y) = y" "read_nat (pad_nat 2 m) = m" "read_nat (pad_nat 2 d) = d"
      "read_nat (pad_nat 2 h) = h" "read_nat (pad_nat 2 mi) = mi" "read_nat (pad_nat 2 sec) = sec"
      "read_nat (pad_nat 6 f) = f"
    using assms d31 by (simp_all add: read_pad_nat)
  have zeros: "read_nat ''000000'' = 0" "all_digits ''000000''" by code_simp+
  show ?thesis
  proof (cases "f = 0")
    case True
    then show ?thesis
      unfolding fromisoformat_def Let_def fields
      using assms len read zeros by simp
  next
    case False
    have "slice (Suc 0) 6 (CHR ''.'' # pad_nat 6 f @ ''+00:00'') = pad_nat 6 f"
      "drop 7 (CHR ''.'' # pad_nat 6 f @ ''+00:00'') = ''+00:00''"
      by (simp_all add: slice_def)
    with False show ?thesis
      unfolding fromisoformat_def Let_def fields
      using assms len read by simp
  qed
qed

lemma seconds_parts:
  assumes "s < (86400::nat)"
  shows "s div 3600 < 24" and "s div 60 mod 60 < 60" and "s mod 60 < 60"
    and "s = s div 3600 * 3600 + (s div 60 mod 60) * 60 + s mod 60"
proof -
  show "s div 3600 < 24" "s div 60 mod 60 < 60" "s mod 60 < 60" using assms by simp_all
  have "s div 3600 = s div 60 div 60" by (simp add: div_mult2_eq)
  then show "s = s div 3600 * 3600 + (s div 60 mod 60) * 60 + s mod 60"
    using div_mult_mod_eq [of s 60] div_mult_mod_eq [of "s div 60" 60] by linarith
qed

theorem fromisoformat_isoformat:
  assumes "representable us"
  shows "fromisoformat (isoformat_utc us) = Some \<lparr>wall_us = us, utc_offset = Some 0\<rparr>"
proof -
  define day where "day = nat (us div us_per_day)"
  define t where "t = nat (us mod us_per_day)"
  define s where "s = t div 1000000"
  define f where "f = t mod 1000000"
  obtain y m d where ymd: "ord2ymd (day + 1) = (y, m, d)" by (cases "ord2ymd (day + 1)")
  have us0: "0 \<le> us" and hi: "us < 3652059 * us_per_day" using assms by (simp_all add: representable_def)
  have pos: "0 < us_per_day" by (simp add: us_per_day_def)
  have "us div us_per_day < 3652059" using hi by (simp add: us_per_day_def)
  then have day: "day + 1 \<le> 3652059" using us0 pos by (simp add: day_def nat_less_iff)
  have us: "us = int day * us_per_day + int t"
    using us0 pos by (simp add: day_def t_def pos_imp_zdiv_nonneg_iff)
  have "int t < us_per_day" using pos by (simp add: t_def)
  then have t: "t < 86400000000" by (simp add: us_per_day_def)
  then have s: "s < 86400" by (simp add: s_def less_mult_imp_div_less)
  have f: "f < 1000000" and ts: "t = s * 1000000 + f" by (simp_all add: s_def f_def)
  have cal: "ymd2ord y m d = day + 1" "1 \<le> m" "m \<le> 12" "1 \<le> d" "d \<le> days_in_month (is_leap y) m"
    using ymd2ord_ord2ymd [OF _ ymd] by simp_all
  have yr: "1 \<le> y" "y \<le> 9999" using ord2ymd_year [OF _ day ymd] by simp_all
  have "isoformat_utc us = iso_date (y, m, d) @ ''T'' @
      (pad_nat 2 (s div 3600) @ '':'' @ pad_nat 2 (s div 60 mod 60) @ '':'' @ pad_nat 2 (s mod 60)) @
      (if f = 0 then [] else CHR ''.'' # pad_nat 6 f) @ ''+00:00''"
    unfolding isoformat_utc_def Let_def day_def [symmetric] t_def [symmetric] s_def [symmetric]
      f_def [symmetric] ymd iso_time_def by (rule refl)
  moreover have "int (ymd2ord y m d - 1) * us_per_day + (int (s div 3600) * 3600 +
      int (s div 60 mod 60) * 60 + int (s mod 60)) * us_per_second + int f = us"
  proof -
    have "int (s div 3600) * 3600 + int (s div 60 mod 60) * 60 + int (s mod 60) = int s"
      using arg_cong [OF seconds_parts(4) [OF s, symmetric], of int]
      by (simp only: of_nat_add of_nat_mult of_nat_numeral)
    then show ?thesis using us ts cal(1) by (simp add: us_per_second_def)
  qed
  moreover note fromisoformat_printed [OF yr(2,1) cal(2-5) seconds_parts(1-3) [OF s] f]
  ultimately show ?thesis by (simp only:)
qed

lemma fromisoformat_canonical_utc:
  "representable (instant d) \<Longrightarrow>
   fromisoformat (canonical_utc d) = Some \<lparr>wall_us = instant d, utc_offset = Some 0\<rparr>"
  by (simp add: canonical_utc_def fromisoformat_isoformat)

lemma canonical_utc_inject:
  assumes "representable (instant a)" and "representable (instant b)"
  shows "canonical_utc a = canonical_utc b \<longleftrightarrow> instant a = instant b"
proof
  assume "canonical_utc a = canonical_utc b"
  then have "Some \<lparr>wall_us = instant a, utc_offset = Some 0\<rparr> = Some \<lparr>wall_us = instant b, utc_offset = Some 0\<rparr>"
    using fromisoformat_canonical_utc [OF assms(1)] fromisoformat_canonical_utc [OF assms(2)]
    by (simp only:)
  then show "instant a = instant b" by (simp only: option.inject datetime.iffs)
next
  assume "instant a = instant b"
  then show "canonical_utc a = canonical_utc b" by (simp add: canonical_utc_def)
qed

end
