(* ===== verification/Recon_State.thy ===== *)
theory Recon_State
  imports Recon_Codes Sha256 Py_Datetime
begin

text \<open>
  Content addressing (\<open>digest.py\<close>) and the verification gate (\<open>state.py\<close>) of the reconciliation
  contract: desired and observed state as lists of neutral elements, the declared scope, the
  digests that bind them, and \<open>verify_inputs\<close>, the fail-closed gate in front of classification
  and planning. Facet values are \<open>json\<close> values because the gate itself tests that they are strings.
\<close>

section \<open>Content addressing (digest.py)\<close>

definition DIGEST_PREFIX :: string where "DIGEST_PREFIX = ''sha256:''"
definition DIGEST_HEX_LENGTH :: nat where "DIGEST_HEX_LENGTH = 64"

definition sha256_digest :: "string \<Rightarrow> string" where
  "sha256_digest canonical = DIGEST_PREFIX @ sha256_hexdigest canonical"

text \<open>The text a document digest is taken over, named so that hypotheses can speak of it.\<close>

definition document_text :: "string \<Rightarrow> json \<Rightarrow> string" where
  "document_text schema_version document = schema_version @ ''|'' @ canonical_json document"

definition document_digest :: "string \<Rightarrow> json \<Rightarrow> string" where
  "document_digest schema_version document = sha256_digest (document_text schema_version document)"

definition is_content_digest :: "string \<Rightarrow> bool" where
  "is_content_digest value =
     (if \<not> startswith value DIGEST_PREFIX then False
      else (let hex_part = drop (length DIGEST_PREFIX) value in
        if length hex_part \<noteq> DIGEST_HEX_LENGTH then False
        else list_all (\<lambda>c. c \<in> set HEX_ALPHABET) hex_part))"

section \<open>State (state.py)\<close>

definition DESIRED_STATE_SCHEMA_VERSION :: string where
  "DESIRED_STATE_SCHEMA_VERSION = ''secp-recon/desired-state/v1''"
definition OBSERVED_STATE_SCHEMA_VERSION :: string where
  "OBSERVED_STATE_SCHEMA_VERSION = ''secp-recon/observed-state/v1''"
definition SCOPE_SCHEMA_VERSION :: string where
  "SCOPE_SCHEMA_VERSION = ''secp-recon/reconciliation-scope/v1''"
definition VERIFICATION_SCHEMA_VERSION :: string where
  "VERIFICATION_SCHEMA_VERSION = ''secp-recon/verified-state-pair/v1''"
definition ATTRIBUTES_SCHEMA_VERSION :: string where
  "ATTRIBUTES_SCHEMA_VERSION = ''secp-recon/attributes/v1''"

definition MAX_CLOCK_SKEW_SECONDS :: int where "MAX_CLOCK_SKEW_SECONDS = 60"
definition EDGE_REF_SEPARATOR :: string where "EDGE_REF_SEPARATOR = ''->''"
definition EDGE_REF_KIND_SEPARATOR :: string where "EDGE_REF_KIND_SEPARATOR = ''|''"

text \<open>The dict of frozensets behind the facet check, keyed by element kind.\<close>

definition ALLOWED_FACETS :: "(element_kind, facet_name list) dict" where
  "ALLOWED_FACETS = FACETS_BY_ELEMENT_KIND"

record state_element =
  se_kind :: element_kind
  se_ref :: string
  se_facets :: "(facet_name \<times> json) list"

definition facet_map :: "state_element \<Rightarrow> (facet_name, json) dict" where
  "facet_map e = dict_of (se_facets e)"

record desired_state =
  ds_instance_id :: string
  ds_definition_digest :: string
  ds_elements :: "state_element list"

record observed_state =
  os_instance_id :: string
  os_provider :: string
  os_collector_digest :: string
  os_observed_at :: datetime
  os_fidelity :: observation_fidelity
  os_elements :: "state_element list"

record reconciliation_scope =
  rs_instance_id :: string
  rs_provider :: string
  rs_execution_surface :: string
  rs_max_actions :: int
  rs_observation_max_age_seconds :: int
  rs_contract_version :: string

record verified_pair =
  vp_scope :: reconciliation_scope
  vp_desired :: desired_state
  vp_observed :: observed_state
  vp_evaluated_at :: datetime
  vp_verification_digest :: string

subsection \<open>Edge references\<close>

definition encode_edge_ref :: "string \<Rightarrow> string \<Rightarrow> string \<Rightarrow> string" where
  "encode_edge_ref source_ref target_ref edge_kind =
     source_ref @ EDGE_REF_SEPARATOR @ target_ref @ EDGE_REF_KIND_SEPARATOR @ edge_kind"

definition decode_edge_ref :: "string \<Rightarrow> string option \<times> string option" where
  "decode_edge_ref ref =
     (case partition_str EDGE_REF_KIND_SEPARATOR ref of (body, separator, _) \<Rightarrow>
        if \<not> separator then (None, None)
        else (case partition_str EDGE_REF_SEPARATOR body of (source, arrow, target) \<Rightarrow>
          if \<not> arrow \<or> source = [] \<or> target = [] then (None, None)
          else (Some source, Some target)))"

subsection \<open>Digests\<close>

definition facet_digest :: "(string, string) dict \<Rightarrow> string" where
  "facet_digest attributes =
     (let ordered = map (\<lambda>k. (k, JStr (the (map_of attributes k)))) (sort (dict_keys attributes)) in
      document_digest ATTRIBUTES_SCHEMA_VERSION (JObj [(''attributes'', JObj ordered)]))"

definition element_document :: "state_element \<Rightarrow> json" where
  "element_document e = JObj [
     (''kind'', JStr (element_kind_value (se_kind e))),
     (''ref'', JStr (se_ref e)),
     (''facets'', JArr (map (\<lambda>(name, value). JArr [JStr (facet_name_value name), value]) (se_facets e)))]"

definition desired_document :: "desired_state \<Rightarrow> json" where
  "desired_document d = JObj [
     (''instance_id'', JStr (ds_instance_id d)),
     (''definition_digest'', JStr (ds_definition_digest d)),
     (''elements'', JArr (map element_document (ds_elements d)))]"

definition desired_state_digest :: "desired_state \<Rightarrow> string" where
  "desired_state_digest d = document_digest DESIRED_STATE_SCHEMA_VERSION (desired_document d)"

definition observed_document :: "observed_state \<Rightarrow> json" where
  "observed_document obs = JObj [
     (''instance_id'', JStr (os_instance_id obs)),
     (''provider'', JStr (os_provider obs)),
     (''collector_digest'', JStr (os_collector_digest obs)),
     (''observed_at'', JStr (canonical_utc (os_observed_at obs))),
     (''fidelity'', JStr (observation_fidelity_value (os_fidelity obs))),
     (''elements'', JArr (map element_document (os_elements obs)))]"

definition observed_state_digest :: "observed_state \<Rightarrow> string" where
  "observed_state_digest obs = document_digest OBSERVED_STATE_SCHEMA_VERSION (observed_document obs)"

definition scope_document :: "reconciliation_scope \<Rightarrow> json" where
  "scope_document s = JObj [
     (''instance_id'', JStr (rs_instance_id s)),
     (''provider'', JStr (rs_provider s)),
     (''execution_surface'', JStr (rs_execution_surface s)),
     (''max_actions'', JInt (rs_max_actions s)),
     (''observation_max_age_seconds'', JInt (rs_observation_max_age_seconds s)),
     (''contract_version'', JStr (rs_contract_version s))]"

definition scope_digest :: "reconciliation_scope \<Rightarrow> string" where
  "scope_digest s = document_digest SCOPE_SCHEMA_VERSION (scope_document s)"

definition verification_document ::
    "reconciliation_scope \<Rightarrow> desired_state \<Rightarrow> observed_state \<Rightarrow> datetime \<Rightarrow> json" where
  "verification_document s d obs evaluated_at = JObj [
     (''scope_digest'', JStr (scope_digest s)),
     (''desired_digest'', JStr (desired_state_digest d)),
     (''observed_digest'', JStr (observed_state_digest obs)),
     (''evaluated_at'', JStr (canonical_utc evaluated_at))]"

definition verification_digest ::
    "reconciliation_scope \<Rightarrow> desired_state \<Rightarrow> observed_state \<Rightarrow> datetime \<Rightarrow> string" where
  "verification_digest s d obs evaluated_at =
     document_digest VERIFICATION_SCHEMA_VERSION (verification_document s d obs evaluated_at)"

subsection \<open>The verification gate\<close>

fun duplicate_refs_from :: "string list \<Rightarrow> state_element list \<Rightarrow> bool" where
  "duplicate_refs_from seen [] = False"
| "duplicate_refs_from seen (e # es) =
     (if se_ref e \<in> set seen then True else duplicate_refs_from (se_ref e # seen) es)"

definition duplicate_refs :: "state_element list \<Rightarrow> bool" where
  "duplicate_refs elements = duplicate_refs_from [] elements"

definition is_str :: "json \<Rightarrow> bool" where
  "is_str v = (case v of JStr _ \<Rightarrow> True | _ \<Rightarrow> False)"

definition malformed_element :: "state_element \<Rightarrow> bool" where
  "malformed_element e =
     (case map_of ALLOWED_FACETS (se_kind e) of
        None \<Rightarrow> True
      | Some allowed \<Rightarrow>
          if se_ref e = [] then True
          else (let names = map fst (se_facets e) in
            if length names \<noteq> card (set names) then True
            else list_ex (\<lambda>(name, value). \<not> is_str value \<or> name \<notin> set allowed) (se_facets e)))"

definition malformed_elements :: "state_element list \<Rightarrow> bool" where
  "malformed_elements elements = list_ex malformed_element elements"

definition endpoint_present :: "string \<Rightarrow> (element_kind \<times> string) list \<Rightarrow> bool" where
  "endpoint_present endpoint present \<longleftrightarrow>
     (EK_node, endpoint) \<in> set present \<or> (EK_network, endpoint) \<in> set present"

definition dangling_edge :: "(element_kind \<times> string) list \<Rightarrow> state_element \<Rightarrow> bool" where
  "dangling_edge present e =
     (if se_kind e \<noteq> EK_edge then False
      else (case decode_edge_ref (se_ref e) of
          (Some source, Some target) \<Rightarrow>
            \<not> endpoint_present source present \<or> \<not> endpoint_present target present
        | _ \<Rightarrow> True))"

definition dangling_edges :: "state_element list \<Rightarrow> bool" where
  "dangling_edges elements =
     (let present = map (\<lambda>e. (se_kind e, se_ref e)) elements in list_ex (dangling_edge present) elements)"

text \<open>\<open>total_seconds()\<close> comparisons are written on microseconds.\<close>

definition age_us :: "datetime \<Rightarrow> datetime \<Rightarrow> int" where
  "age_us now then_at = instant (as_utc now) - instant (as_utc then_at)"

definition verify_inputs ::
    "reconciliation_scope \<Rightarrow> desired_state \<Rightarrow> observed_state \<Rightarrow> datetime \<Rightarrow> refusal_code + verified_pair" where
  "verify_inputs scope desired observed now =
    (if rs_contract_version scope \<noteq> CONTRACT_VERSION then Inl RC_contract_version_unsupported
     else if rs_instance_id scope = [] \<or> rs_provider scope = [] then Inl RC_scope_invalid
     else if rs_max_actions scope < 0 \<or> rs_observation_max_age_seconds scope \<le> 0 then Inl RC_scope_invalid
     else if rs_execution_surface scope \<noteq> execution_surface_value ES_simulator
       then Inl RC_execution_surface_sealed
     else if ds_instance_id desired = [] \<or> \<not> is_content_digest (ds_definition_digest desired)
       then Inl RC_desired_unverified
     else if malformed_elements (ds_elements desired) \<or> duplicate_refs (ds_elements desired)
       then Inl RC_desired_state_inconsistent
     else if dangling_edges (ds_elements desired) then Inl RC_desired_state_inconsistent
     else if ds_instance_id desired \<noteq> rs_instance_id scope \<or> os_instance_id observed \<noteq> rs_instance_id scope
       then Inl RC_instance_mismatch
     else if os_provider observed \<noteq> rs_provider scope then Inl RC_provider_mismatch
     else if \<not> is_content_digest (os_collector_digest observed) then Inl RC_observation_unverified
     else if os_fidelity observed = OF_unverified then Inl RC_observation_unverified
     else if age_us now (os_observed_at observed) < - (MAX_CLOCK_SKEW_SECONDS * us_per_second)
       then Inl RC_observation_unverified
     else if os_fidelity observed \<noteq> OF_complete then Inl RC_observation_incomplete
     else if age_us now (os_observed_at observed) > rs_observation_max_age_seconds scope * us_per_second
       then Inl RC_observation_stale
     else if malformed_elements (os_elements observed) \<or> duplicate_refs (os_elements observed)
       then Inl RC_observed_state_inconsistent
     else if dangling_edges (os_elements observed) then Inl RC_observed_state_inconsistent
     else Inr \<lparr>vp_scope = scope, vp_desired = desired, vp_observed = observed, vp_evaluated_at = now,
            vp_verification_digest = verification_digest scope desired observed now\<rparr>)"

definition require_verified :: "verified_pair \<Rightarrow> refusal_code + unit" where
  "require_verified pair =
     (let expected = verification_digest (vp_scope pair) (vp_desired pair) (vp_observed pair)
            (vp_evaluated_at pair) in
      if expected \<noteq> vp_verification_digest pair then Inl RC_verification_token_invalid else Inr ())"

section \<open>Content addresses bind contents\<close>

lemma is_content_digest_sha256 [simp]: "is_content_digest (sha256_digest text)"
  by (simp add: is_content_digest_def sha256_digest_def startswith_def DIGEST_HEX_LENGTH_def Let_def
      list_all_iff sha256_hexdigest_alphabet)

lemma is_content_digest_document [simp]: "is_content_digest (document_digest v d)"
  by (simp add: document_digest_def)

text \<open>Two different texts with the same SHA-256 value.\<close>

definition sha_collision :: "string \<Rightarrow> string \<Rightarrow> bool" where
  "sha_collision a b \<longleftrightarrow> a \<noteq> b \<and> sha256_hexdigest a = sha256_hexdigest b"

lemma document_digest_binds:
  "document_digest v a = document_digest v b \<Longrightarrow>
   norm_json a = norm_json b \<or> sha_collision (document_text v a) (document_text v b)"
  by (auto simp: document_digest_def sha256_digest_def sha_collision_def document_text_def
      canonical_json_norm)

text \<open>
  The interface every content-addressed artefact of the contract offers: a document under a fixed
  schema version, and the fact that documents with the same canonical form describe the same
  artefact (\<open>same\<close>), for the artefacts that are \<open>good\<close>.
\<close>

locale content_addressed =
  fixes version :: string and doc :: "'a \<Rightarrow> json" and good :: "'a \<Rightarrow> bool" and same :: "'a \<Rightarrow> 'a \<Rightarrow> bool"
  assumes doc_binds: "good x \<Longrightarrow> good y \<Longrightarrow> norm_json (doc x) = norm_json (doc y) \<Longrightarrow> same x y"
begin

definition addr :: "'a \<Rightarrow> string" where
  "addr x = document_digest version (doc x)"

definition collide :: "'a \<Rightarrow> 'a \<Rightarrow> bool" where
  "collide x y \<longleftrightarrow> sha_collision (document_text version (doc x)) (document_text version (doc y))"

lemma addr_binds: "addr x = addr y \<Longrightarrow> good x \<Longrightarrow> good y \<Longrightarrow> \<not> collide x y \<Longrightarrow> same x y"
  using document_digest_binds [of version "doc x" "doc y"] doc_binds
  by (auto simp: addr_def collide_def)

lemma addr_is_content_digest: "is_content_digest (addr x)"
  by (simp add: addr_def)

end

definition string_facets :: "state_element \<Rightarrow> bool" where
  "string_facets e \<longleftrightarrow> (\<forall>p \<in> set (se_facets e). is_str (snd p))"

lemma is_strE: "is_str v \<Longrightarrow> \<exists>s. v = JStr s"
  by (cases v) (simp_all add: is_str_def)

lemma is_str_norm [simp]: "is_str v \<Longrightarrow> norm_json v = v"
  by (auto dest: is_strE)

lemma facet_items_inj:
  assumes "\<forall>p \<in> set fs. is_str (snd p)" and "\<forall>p \<in> set gs. is_str (snd p)"
    and "map (norm_json \<circ> (\<lambda>(name, value). JArr [JStr (facet_name_value name), value])) fs =
         map (norm_json \<circ> (\<lambda>(name, value). JArr [JStr (facet_name_value name), value])) gs"
  shows "fs = gs"
  using assms
proof (induction fs arbitrary: gs)
  case Nil
  then show ?case by simp
next
  case (Cons f fs)
  then obtain g gs' where gs: "gs = g # gs'" by (cases gs) auto
  with Cons have "fs = gs'" by simp
  moreover have "f = g" using Cons.prems gs by (cases f; cases g) simp
  ultimately show ?case using gs by simp
qed

lemma element_document_inj:
  assumes "string_facets e" and "string_facets e'"
    and "norm_json (element_document e) = norm_json (element_document e')"
  shows "e = e'"
proof -
  note field = norm_json_obj_lookup [OF assms(3) [unfolded element_document_def]]
  have "se_kind e = se_kind e'" using field [of "''kind''"] by simp
  moreover have "se_ref e = se_ref e'" using field [of "''ref''"] by simp
  moreover have "se_facets e = se_facets e'"
    using field [of "''facets''"] assms(1,2) by (intro facet_items_inj) (simp_all add: string_facets_def)
  ultimately show ?thesis by simp
qed

lemma element_documents_inj:
  assumes "list_all string_facets es" and "list_all string_facets fs"
    and "map (norm_json \<circ> element_document) es = map (norm_json \<circ> element_document) fs"
  shows "es = fs"
  using assms
proof (induction es arbitrary: fs)
  case Nil
  then show ?case by simp
next
  case (Cons e es)
  then obtain f fs' where fs: "fs = f # fs'" by (cases fs) auto
  with Cons.prems have "e = f" by (intro element_document_inj) simp_all
  moreover have "es = fs'" by (rule Cons.IH) (use Cons.prems fs in simp_all)
  ultimately show ?case using fs by simp
qed

definition same_observation :: "observed_state \<Rightarrow> observed_state \<Rightarrow> bool" where
  "same_observation a b \<longleftrightarrow> instant (os_observed_at a) = instant (os_observed_at b) \<and>
     a\<lparr>os_observed_at := os_observed_at b\<rparr> = b"

interpretation scope_addr: content_addressed SCOPE_SCHEMA_VERSION scope_document "\<lambda>_. True" "(=)"
proof
  fix x y assume *: "norm_json (scope_document x) = norm_json (scope_document y)"
  note field = norm_json_obj_lookup [OF * [unfolded scope_document_def]]
  show "x = y"
    using field [of "''instance_id''"] field [of "''provider''"] field [of "''execution_surface''"]
      field [of "''max_actions''"] field [of "''observation_max_age_seconds''"]
      field [of "''contract_version''"] by simp
qed

interpretation desired_addr: content_addressed DESIRED_STATE_SCHEMA_VERSION desired_document
    "\<lambda>d. list_all string_facets (ds_elements d)" "(=)"
proof
  fix x y assume good: "list_all string_facets (ds_elements x)" "list_all string_facets (ds_elements y)"
    and *: "norm_json (desired_document x) = norm_json (desired_document y)"
  note field = norm_json_obj_lookup [OF * [unfolded desired_document_def]]
  have "ds_elements x = ds_elements y"
    using field [of "''elements''"] good by (intro element_documents_inj) simp_all
  then show "x = y"
    using field [of "''instance_id''"] field [of "''definition_digest''"] by simp
qed

interpretation observed_addr: content_addressed OBSERVED_STATE_SCHEMA_VERSION observed_document
    "\<lambda>obs. list_all string_facets (os_elements obs) \<and> representable (instant (os_observed_at obs))"
    same_observation
proof
  fix x y assume good: "list_all string_facets (os_elements x) \<and> representable (instant (os_observed_at x))"
      "list_all string_facets (os_elements y) \<and> representable (instant (os_observed_at y))"
    and *: "norm_json (observed_document x) = norm_json (observed_document y)"
  note field = norm_json_obj_lookup [OF * [unfolded observed_document_def]]
  have "os_elements x = os_elements y"
    using field [of "''elements''"] good by (intro element_documents_inj) simp_all
  moreover have "instant (os_observed_at x) = instant (os_observed_at y)"
    using field [of "''observed_at''"] good canonical_utc_inject by simp
  ultimately show "same_observation x y"
    using field [of "''instance_id''"] field [of "''provider''"] field [of "''collector_digest''"]
      field [of "''fidelity''"] by (simp add: same_observation_def)
qed

lemma addr_eqs [simp]: "scope_addr.addr = scope_digest" "desired_addr.addr = desired_state_digest"
    "observed_addr.addr = observed_state_digest"
  by (simp_all add: fun_eq_iff scope_addr.addr_def desired_addr.addr_def observed_addr.addr_def
      scope_digest_def desired_state_digest_def observed_state_digest_def)

section \<open>What the gate establishes\<close>

lemma duplicate_refs_from_iff:
  "duplicate_refs_from seen es \<longleftrightarrow> \<not> distinct (map se_ref es) \<or> set seen \<inter> se_ref ` set es \<noteq> {}"
  by (induction es arbitrary: seen) auto

lemma duplicate_refs_iff [simp]: "duplicate_refs es \<longleftrightarrow> \<not> distinct (map se_ref es)"
  by (simp add: duplicate_refs_def duplicate_refs_from_iff)

definition facets_of_kind :: "element_kind \<Rightarrow> facet_name list" where
  "facets_of_kind k = the (map_of FACETS_BY_ELEMENT_KIND k)"

lemma facets_by_kind_total [simp]: "map_of FACETS_BY_ELEMENT_KIND k = Some (facets_of_kind k)"
  by (cases k) (simp_all add: facets_of_kind_def FACETS_BY_ELEMENT_KIND_def)

text \<open>A comparable element: a reference, and distinct string facets its kind compares.\<close>

definition wf_element :: "state_element \<Rightarrow> bool" where
  "wf_element e \<longleftrightarrow> se_ref e \<noteq> [] \<and> distinct (map fst (se_facets e)) \<and> string_facets e \<and>
     fst ` set (se_facets e) \<subseteq> set (facets_of_kind (se_kind e))"

lemma malformed_element_iff [simp]: "malformed_element e \<longleftrightarrow> \<not> wf_element e"
proof -
  have "length (map fst (se_facets e)) \<noteq> card (set (map fst (se_facets e))) \<longleftrightarrow>
      \<not> distinct (map fst (se_facets e))"
    by (metis card_distinct distinct_card)
  then show ?thesis
    by (auto simp: malformed_element_def wf_element_def ALLOWED_FACETS_def string_facets_def
        Let_def list_ex_iff case_prod_beta simp del: length_map set_map)
qed

definition wf_elements :: "state_element list \<Rightarrow> bool" where
  "wf_elements es \<longleftrightarrow> list_all wf_element es \<and> distinct (map se_ref es) \<and> \<not> dangling_edges es"

lemma malformed_elements_iff [simp]: "malformed_elements es \<longleftrightarrow> \<not> list_all wf_element es"
  by (simp add: malformed_elements_def list_ex_iff list_all_iff)

lemma wf_elements_string_facets: "wf_elements es \<Longrightarrow> list_all string_facets es"
  by (auto simp: wf_elements_def list_all_iff wf_element_def)

text \<open>The scope conditions and the observation conditions of the gate, as predicates.\<close>

definition wf_scope :: "reconciliation_scope \<Rightarrow> bool" where
  "wf_scope scope \<longleftrightarrow> rs_contract_version scope = CONTRACT_VERSION \<and> rs_instance_id scope \<noteq> [] \<and>
     rs_provider scope \<noteq> [] \<and> 0 \<le> rs_max_actions scope \<and> 0 < rs_observation_max_age_seconds scope \<and>
     rs_execution_surface scope = execution_surface_value ES_simulator"

definition wf_desired :: "reconciliation_scope \<Rightarrow> desired_state \<Rightarrow> bool" where
  "wf_desired scope desired \<longleftrightarrow> is_content_digest (ds_definition_digest desired) \<and>
     ds_instance_id desired = rs_instance_id scope \<and> wf_elements (ds_elements desired)"

definition wf_observed :: "reconciliation_scope \<Rightarrow> observed_state \<Rightarrow> datetime \<Rightarrow> bool" where
  "wf_observed scope observed now \<longleftrightarrow> os_instance_id observed = rs_instance_id scope \<and>
     os_provider observed = rs_provider scope \<and> is_content_digest (os_collector_digest observed) \<and>
     os_fidelity observed = OF_complete \<and>
     - 60000000 \<le> instant now - instant (os_observed_at observed) \<and>
     instant now - instant (os_observed_at observed) \<le> rs_observation_max_age_seconds scope * 1000000 \<and>
     wf_elements (os_elements observed)"

lemmas gate_preds = wf_scope_def wf_desired_def wf_observed_def wf_elements_def

lemma verify_inputs_Inr [refusal_simps]:
  "verify_inputs scope desired observed now = Inr pair \<longleftrightarrow>
     wf_scope scope \<and> wf_desired scope desired \<and> wf_observed scope observed now \<and>
     pair = \<lparr>vp_scope = scope, vp_desired = desired, vp_observed = observed, vp_evaluated_at = now,
       vp_verification_digest = verification_digest scope desired observed now\<rparr>"
  by (auto simp: verify_inputs_def gate_preds age_us_def MAX_CLOCK_SKEW_SECONDS_def us_per_second_def
      refusal_simps)

lemma require_verified_iff [refusal_simps]:
  "require_verified pair = Inr u \<longleftrightarrow> vp_verification_digest pair =
     verification_digest (vp_scope pair) (vp_desired pair) (vp_observed pair) (vp_evaluated_at pair)"
  by (auto simp: require_verified_def Let_def)

lemma require_verified_verify:
  "verify_inputs scope desired observed now = Inr pair \<Longrightarrow> require_verified pair = Inr ()"
  by (simp add: verify_inputs_Inr require_verified_iff)

section \<open>Edge references decode to their endpoints\<close>

fun has_arrow :: "string \<Rightarrow> bool" where
  "has_arrow (a # b # s) = (a = CHR ''-'' \<and> b = CHR ''>'' \<or> has_arrow (b # s))"
| "has_arrow _ = False"

lemma partition_arrow:
  "\<not> has_arrow a \<Longrightarrow> partition_str ''->'' (a @ ''->'' @ r) = (a, True, r)"
  by (induction a rule: has_arrow.induct) auto

lemma decode_encode_edge_ref:
  assumes "source \<noteq> []" and "target \<noteq> []" and "\<not> has_arrow source"
    and "CHR ''|'' \<notin> set source" and "CHR ''|'' \<notin> set target"
  shows "decode_edge_ref (encode_edge_ref source target kind) = (Some source, Some target)"
proof -
  have "CHR ''|'' \<notin> set (source @ ''->'' @ target)" using assms by simp
  from partition_str_single [OF this, of kind] show ?thesis
    using partition_arrow [OF assms(3), of target] assms(1,2)
    by (simp add: decode_edge_ref_def encode_edge_ref_def EDGE_REF_SEPARATOR_def EDGE_REF_KIND_SEPARATOR_def)
qed

section \<open>The verification token binds its inputs\<close>

definition verification_collision :: "reconciliation_scope \<Rightarrow> desired_state \<Rightarrow> observed_state \<Rightarrow> datetime \<Rightarrow>
    reconciliation_scope \<Rightarrow> desired_state \<Rightarrow> observed_state \<Rightarrow> datetime \<Rightarrow> bool" where
  "verification_collision s d obs t s' d' obs' t' \<longleftrightarrow>
     sha_collision (document_text VERIFICATION_SCHEMA_VERSION (verification_document s d obs t))
       (document_text VERIFICATION_SCHEMA_VERSION (verification_document s' d' obs' t')) \<or>
     sha_collision (document_text SCOPE_SCHEMA_VERSION (scope_document s))
       (document_text SCOPE_SCHEMA_VERSION (scope_document s')) \<or>
     sha_collision (document_text DESIRED_STATE_SCHEMA_VERSION (desired_document d))
       (document_text DESIRED_STATE_SCHEMA_VERSION (desired_document d')) \<or>
     sha_collision (document_text OBSERVED_STATE_SCHEMA_VERSION (observed_document obs))
       (document_text OBSERVED_STATE_SCHEMA_VERSION (observed_document obs'))"

lemma verification_digest_binds:
  assumes eq: "verification_digest s d obs t = verification_digest s' d' obs' t'"
    and strings: "list_all string_facets (ds_elements d)" "list_all string_facets (ds_elements d')"
      "list_all string_facets (os_elements obs)" "list_all string_facets (os_elements obs')"
    and times: "representable (instant t)" "representable (instant t')"
      "representable (instant (os_observed_at obs))" "representable (instant (os_observed_at obs'))"
  shows "s = s' \<and> d = d' \<and> same_observation obs obs' \<and> instant t = instant t' \<or>
    verification_collision s d obs t s' d' obs' t'"
proof (cases "verification_collision s d obs t s' d' obs' t'")
  case False
  from document_digest_binds [OF eq [unfolded verification_digest_def]] False
  have *: "norm_json (verification_document s d obs t) = norm_json (verification_document s' d' obs' t')"
    by (simp add: verification_collision_def)
  note field = norm_json_obj_lookup [OF * [unfolded verification_document_def]]
  have digests: "scope_digest s = scope_digest s'" "desired_state_digest d = desired_state_digest d'"
      "observed_state_digest obs = observed_state_digest obs'" "canonical_utc t = canonical_utc t'"
    using field [of "''scope_digest''"] field [of "''desired_digest''"] field [of "''observed_digest''"]
      field [of "''evaluated_at''"] by simp_all
  note collide = scope_addr.collide_def desired_addr.collide_def observed_addr.collide_def
  have "s = s'" using scope_addr.addr_binds [of s s'] digests False
    by (simp add: verification_collision_def collide)
  moreover have "d = d'" using desired_addr.addr_binds [of d d'] digests False strings
    by (simp add: verification_collision_def collide)
  moreover have "same_observation obs obs'" using observed_addr.addr_binds [of obs obs'] digests False strings times
    by (simp add: verification_collision_def collide)
  moreover have "instant t = instant t'" using digests(4) times canonical_utc_inject by blast
  ultimately show ?thesis by blast
qed simp

end
