(* ===== verification/Recon_Classify.thy ===== *)
theory Recon_Classify
  imports Recon_State "HOL-Library.Multiset"
begin

text \<open>
  Drift classification (\<open>classify.py\<close>): a verified pair becomes a drift report, a deterministically
  ordered list of findings. The lemmas characterise the findings declaratively: which desired
  element gives which finding, that nothing else does, and that an empty report means the
  observation agrees with everything the desired state declares.
\<close>

section \<open>Findings and reports\<close>

definition DRIFT_REPORT_SCHEMA_VERSION :: string where
  "DRIFT_REPORT_SCHEMA_VERSION = ''secp-recon/drift-report/v1''"

record drift_finding =
  df_kind :: drift_kind
  df_reason :: drift_reason
  df_element_kind :: element_kind
  df_element_ref :: string

definition finding_sort_key :: "drift_finding \<Rightarrow> nat \<times> nat \<times> nat \<times> string" where
  "finding_sort_key f = (index_of DRIFT_KIND_ORDER (df_kind f), index_of DRIFT_REASON_ORDER (df_reason f),
     index_of ELEMENT_KIND_ORDER (df_element_kind f), df_element_ref f)"

record drift_report =
  dr_schema_version :: string
  dr_instance_id :: string
  dr_desired_digest :: string
  dr_observed_digest :: string
  dr_findings :: "drift_finding list"
  dr_report_digest :: string

definition counts_by_kind :: "drift_report \<Rightarrow> (drift_kind, nat) dict" where
  "counts_by_kind report = tally DRIFT_KIND_ORDER df_kind (dr_findings report)"

definition counts_by_reason :: "drift_report \<Rightarrow> (drift_reason, nat) dict" where
  "counts_by_reason report = tally DRIFT_REASON_ORDER df_reason (dr_findings report)"

definition kinds_present :: "drift_report \<Rightarrow> drift_kind list" where
  "kinds_present report =
     (let present = map df_kind (dr_findings report) in filter (\<lambda>k. k \<in> set present) DRIFT_KIND_ORDER)"

definition leading_kind :: "drift_report \<Rightarrow> drift_kind option" where
  "leading_kind report =
     (let present = kinds_present report in if present \<noteq> [] then Some (present ! 0) else None)"

section \<open>Classification\<close>

fun compare_facets_loop ::
    "state_element \<Rightarrow> (facet_name, json) dict \<Rightarrow> (facet_name, json) dict \<Rightarrow> facet_name list \<Rightarrow> drift_finding list" where
  "compare_facets_loop desired desired_facets observed_facets [] = []"
| "compare_facets_loop desired desired_facets observed_facets (facet # facets) =
     (let rest = compare_facets_loop desired desired_facets observed_facets facets in
      case map_of desired_facets facet of
        None \<Rightarrow> rest
      | Some want \<Rightarrow>
          (case map_of observed_facets facet of
             None \<Rightarrow> \<lparr>df_kind = DK_indeterminate, df_reason = DR_facet_evidence_absent,
                 df_element_kind = se_kind desired, df_element_ref = se_ref desired\<rparr> # rest
           | Some have_it \<Rightarrow>
               if want \<noteq> have_it
               then \<lparr>df_kind = DK_divergent, df_reason = DIVERGENCE_REASON_BY_FACET facet,
                   df_element_kind = se_kind desired, df_element_ref = se_ref desired\<rparr> # rest
               else rest))"

definition compare_facets :: "state_element \<Rightarrow> state_element \<Rightarrow> drift_finding list" where
  "compare_facets desired observed =
     compare_facets_loop desired (facet_map desired) (facet_map observed) (facets_of_kind (se_kind desired))"

definition desired_findings :: "(string, state_element) dict \<Rightarrow> state_element \<Rightarrow> drift_finding list" where
  "desired_findings observed_by_ref desired =
     (case map_of observed_by_ref (se_ref desired) of
        None \<Rightarrow> [\<lparr>df_kind = DK_missing, df_reason = DR_element_absent,
                  df_element_kind = se_kind desired, df_element_ref = se_ref desired\<rparr>]
      | Some observed \<Rightarrow>
          if se_kind observed \<noteq> se_kind desired
          then [\<lparr>df_kind = DK_identity_conflict, df_reason = DR_element_kind_conflict,
                 df_element_kind = se_kind desired, df_element_ref = se_ref desired\<rparr>]
          else compare_facets desired observed)"

definition unmanaged_findings :: "string list \<Rightarrow> state_element \<Rightarrow> drift_finding list" where
  "unmanaged_findings desired_refs observed =
     (if se_ref observed \<in> set desired_refs then []
      else [\<lparr>df_kind = DK_unmanaged, df_reason = DR_element_unmanaged,
             df_element_kind = se_kind observed, df_element_ref = ''''\<rparr>])"

definition raw_findings :: "state_element list \<Rightarrow> state_element list \<Rightarrow> drift_finding list" where
  "raw_findings desired observed =
     (let observed_by_ref = dict_of (map (\<lambda>e. (se_ref e, e)) observed);
          desired_refs = map se_ref desired
      in concat (map (desired_findings observed_by_ref) desired) @
         concat (map (unmanaged_findings desired_refs) observed))"

definition finding_document :: "drift_finding \<Rightarrow> json" where
  "finding_document f = JArr [JStr (drift_kind_value (df_kind f)), JStr (drift_reason_value (df_reason f)),
     JStr (element_kind_value (df_element_kind f)), JStr (df_element_ref f)]"

definition report_document :: "string \<Rightarrow> string \<Rightarrow> string \<Rightarrow> drift_finding list \<Rightarrow> json" where
  "report_document instance_id desired_digest observed_digest findings = JObj [
     (''instance_id'', JStr instance_id), (''desired_digest'', JStr desired_digest),
     (''observed_digest'', JStr observed_digest), (''findings'', JArr (map finding_document findings))]"

definition classify_drift :: "verified_pair \<Rightarrow> refusal_code + drift_report" where
  "classify_drift pair =
     bindE (require_verified pair) (\<lambda>_.
       let ordered = sort_key finding_sort_key
             (raw_findings (ds_elements (vp_desired pair)) (os_elements (vp_observed pair)));
           desired_digest = desired_state_digest (vp_desired pair);
           observed_digest = observed_state_digest (vp_observed pair)
       in Inr \<lparr>dr_schema_version = DRIFT_REPORT_SCHEMA_VERSION,
            dr_instance_id = ds_instance_id (vp_desired pair),
            dr_desired_digest = desired_digest, dr_observed_digest = observed_digest,
            dr_findings = ordered,
            dr_report_digest = document_digest DRIFT_REPORT_SCHEMA_VERSION
              (report_document (ds_instance_id (vp_desired pair)) desired_digest observed_digest ordered)\<rparr>)"

section \<open>Declarative reading of the findings\<close>

text \<open>The facet a comparison reads, and the two ways a declared facet can fail.\<close>

definition facet_of :: "state_element \<Rightarrow> facet_name \<Rightarrow> json option" where
  "facet_of e f = map_of (facet_map e) f"

definition silent :: "state_element \<Rightarrow> state_element \<Rightarrow> facet_name \<Rightarrow> bool" where
  "silent d obs f \<longleftrightarrow> facet_of d f \<noteq> None \<and> facet_of obs f = None"

definition disagrees :: "state_element \<Rightarrow> state_element \<Rightarrow> facet_name \<Rightarrow> bool" where
  "disagrees d obs f \<longleftrightarrow> facet_of d f \<noteq> None \<and> facet_of obs f \<noteq> None \<and> facet_of d f \<noteq> facet_of obs f"

definition agrees :: "state_element \<Rightarrow> state_element \<Rightarrow> bool" where
  "agrees d obs \<longleftrightarrow> se_kind obs = se_kind d \<and>
     (\<forall>f \<in> set (facets_of_kind (se_kind d)). facet_of d f = None \<or> facet_of obs f = facet_of d f)"

text \<open>Observation and declaration coincide: nothing missing, nothing different, nothing extra.\<close>

definition aligned :: "state_element list \<Rightarrow> state_element list \<Rightarrow> bool" where
  "aligned desired observed \<longleftrightarrow>
     (\<forall>d \<in> set desired. \<exists>obs \<in> set observed. se_ref obs = se_ref d \<and> agrees d obs) \<and>
     se_ref ` set observed \<subseteq> se_ref ` set desired"

definition finding_at :: "state_element \<Rightarrow> drift_kind \<Rightarrow> drift_reason \<Rightarrow> drift_finding" where
  "finding_at d k r = \<lparr>df_kind = k, df_reason = r, df_element_kind = se_kind d, df_element_ref = se_ref d\<rparr>"

lemma finding_at_sel [simp]: "df_kind (finding_at d k r) = k" "df_reason (finding_at d k r) = r"
    "df_element_kind (finding_at d k r) = se_kind d" "df_element_ref (finding_at d k r) = se_ref d"
  by (simp_all add: finding_at_def)

lemma finding_at_inject [simp]: "finding_at d k r = finding_at d k' r' \<longleftrightarrow> k = k' \<and> r = r'"
  by (simp add: finding_at_def)

lemma compare_facets_loop_eq:
  "compare_facets_loop d (facet_map d) (facet_map obs) fs =
     concat (map (\<lambda>f. if silent d obs f then [finding_at d DK_indeterminate DR_facet_evidence_absent]
       else if disagrees d obs f then [finding_at d DK_divergent (DIVERGENCE_REASON_BY_FACET f)] else []) fs)"
  by (induction fs) (simp_all add: Let_def silent_def disagrees_def facet_of_def finding_at_def
      split: option.splits)

lemma compare_facets_eq:
  "compare_facets d obs =
     concat (map (\<lambda>f. if silent d obs f then [finding_at d DK_indeterminate DR_facet_evidence_absent]
       else if disagrees d obs f then [finding_at d DK_divergent (DIVERGENCE_REASON_BY_FACET f)] else [])
       (facets_of_kind (se_kind d)))"
  by (simp add: compare_facets_def compare_facets_loop_eq)

lemma compare_facets_memb:
  "x \<in> set (compare_facets d obs) \<longleftrightarrow> (\<exists>f \<in> set (facets_of_kind (se_kind d)).
     silent d obs f \<and> x = finding_at d DK_indeterminate DR_facet_evidence_absent \<or>
     disagrees d obs f \<and> x = finding_at d DK_divergent (DIVERGENCE_REASON_BY_FACET f))"
  unfolding compare_facets_eq by (auto simp: silent_def disagrees_def split: if_splits)

lemma compare_facets_empty:
  assumes "se_kind obs = se_kind d"
  shows "compare_facets d obs = [] \<longleftrightarrow> agrees d obs"
proof -
  have "compare_facets d obs = [] \<longleftrightarrow> (\<forall>x. x \<notin> set (compare_facets d obs))" by auto
  also have "\<dots> \<longleftrightarrow> (\<forall>f \<in> set (facets_of_kind (se_kind d)). \<not> silent d obs f \<and> \<not> disagrees d obs f)"
    unfolding compare_facets_memb by blast
  also have "\<dots> \<longleftrightarrow> agrees d obs"
    using assms unfolding agrees_def silent_def disagrees_def by metis
  finally show ?thesis .
qed

lemma compare_facets_no_silence:
  assumes "\<forall>f \<in> set (facets_of_kind (se_kind d)). \<not> silent d obs f"
  shows "compare_facets d obs =
    map (\<lambda>f. finding_at d DK_divergent (DIVERGENCE_REASON_BY_FACET f))
      (filter (disagrees d obs) (facets_of_kind (se_kind d)))"
proof -
  have "concat (map (\<lambda>f. if silent d obs f then [finding_at d DK_indeterminate DR_facet_evidence_absent]
       else if disagrees d obs f then [finding_at d DK_divergent (DIVERGENCE_REASON_BY_FACET f)] else []) fs) =
     map (\<lambda>f. finding_at d DK_divergent (DIVERGENCE_REASON_BY_FACET f)) (filter (disagrees d obs) fs)"
    if "\<forall>f \<in> set fs. \<not> silent d obs f" for fs
    using that by (induction fs) auto
  then show ?thesis using assms unfolding compare_facets_eq by simp
qed

text \<open>With distinct references, the by-reference dict finds exactly the observed element.\<close>

definition observed_at :: "state_element list \<Rightarrow> string \<Rightarrow> state_element option" where
  "observed_at observed r = map_of (dict_of (map (\<lambda>e. (se_ref e, e)) observed)) r"

lemma observed_at_Some:
  "distinct (map se_ref observed) \<Longrightarrow> observed_at observed r = Some e \<longleftrightarrow> e \<in> set observed \<and> se_ref e = r"
  unfolding observed_at_def by (subst map_of_dict_of_distinct) (auto simp: comp_def)

lemma observed_at_None: "observed_at observed r = None \<longleftrightarrow> r \<notin> se_ref ` set observed"
  by (simp add: observed_at_def map_of_eq_None_iff image_image)

lemma observed_at_ref: "observed_at observed r = Some e \<Longrightarrow> e \<in> set observed \<and> se_ref e = r"
  unfolding observed_at_def map_of_dict_of by (auto dest!: map_of_SomeD)

definition element_findings :: "state_element list \<Rightarrow> state_element \<Rightarrow> drift_finding list" where
  "element_findings observed d = (case observed_at observed (se_ref d) of
      None \<Rightarrow> [finding_at d DK_missing DR_element_absent]
    | Some obs \<Rightarrow> if se_kind obs \<noteq> se_kind d then [finding_at d DK_identity_conflict DR_element_kind_conflict]
        else compare_facets d obs)"

definition extra_elements :: "state_element list \<Rightarrow> state_element list \<Rightarrow> state_element list" where
  "extra_elements desired observed = filter (\<lambda>e. se_ref e \<notin> se_ref ` set desired) observed"

definition unmanaged_finding :: "state_element \<Rightarrow> drift_finding" where
  "unmanaged_finding e = \<lparr>df_kind = DK_unmanaged, df_reason = DR_element_unmanaged,
     df_element_kind = se_kind e, df_element_ref = ''''\<rparr>"

lemma raw_findings_eq: "raw_findings desired observed =
    concat (map (element_findings observed) desired) @
    map unmanaged_finding (extra_elements desired observed)"
proof -
  have "concat (map (unmanaged_findings (map se_ref desired)) es) =
      map unmanaged_finding (extra_elements desired es)" for es
    by (induction es) (simp_all add: unmanaged_findings_def unmanaged_finding_def extra_elements_def)
  moreover have "desired_findings (dict_of (map (\<lambda>e. (se_ref e, e)) observed)) = element_findings observed"
    by (simp add: fun_eq_iff desired_findings_def element_findings_def observed_at_def finding_at_def
        split: option.splits)
  ultimately show ?thesis by (simp add: raw_findings_def Let_def)
qed

lemma element_findings_target:
  "x \<in> set (element_findings observed d) \<Longrightarrow> df_element_kind x = se_kind d \<and> df_element_ref x = se_ref d"
  by (auto simp: element_findings_def compare_facets_memb split: option.splits if_splits)

lemma element_findings_not_unmanaged: "x \<in> set (element_findings observed d) \<Longrightarrow> df_kind x \<noteq> DK_unmanaged"
  by (auto simp: element_findings_def compare_facets_memb split: option.splits if_splits)

lemma element_findings_reason:
  "x \<in> set (element_findings observed d) \<Longrightarrow> df_reason x \<in> set (DRIFT_REASONS_BY_KIND (df_kind x))"
  by (auto simp: element_findings_def compare_facets_memb divergence_reason_kind
      simp del: DRIFT_REASONS_BY_KIND.simps(5) split: option.splits if_splits)

lemma raw_findings_reason:
  "x \<in> set (raw_findings desired observed) \<Longrightarrow> df_reason x \<in> set (DRIFT_REASONS_BY_KIND (df_kind x))"
  by (auto simp: raw_findings_eq unmanaged_finding_def element_findings_reason
      simp del: DRIFT_REASONS_BY_KIND.simps(5))

lemma raw_findings_target:
  assumes "x \<in> set (raw_findings desired observed)"
  shows "if df_kind x = DK_unmanaged then df_element_ref x = ''''
    else \<exists>d \<in> set desired. df_element_kind x = se_kind d \<and> df_element_ref x = se_ref d"
  using assms element_findings_target element_findings_not_unmanaged
  by (fastforce simp: raw_findings_eq unmanaged_finding_def)

lemma element_findings_empty:
  assumes "distinct (map se_ref observed)"
  shows "element_findings observed d = [] \<longleftrightarrow> (\<exists>obs \<in> set observed. se_ref obs = se_ref d \<and> agrees d obs)"
proof (cases "observed_at observed (se_ref d)")
  case None
  then have "se_ref d \<notin> se_ref ` set observed" by (simp add: observed_at_None)
  then have "\<not> (\<exists>obs \<in> set observed. se_ref obs = se_ref d \<and> agrees d obs)"
    by (metis image_eqI)
  with None show ?thesis by (simp add: element_findings_def)
next
  case (Some obs)
  then have "e = obs" if "e \<in> set observed" "se_ref e = se_ref d" for e
    using that assms observed_at_Some [OF assms, of "se_ref d" e] by simp
  moreover from Some have "obs \<in> set observed" "se_ref obs = se_ref d" by (auto dest: observed_at_ref)
  ultimately have "(\<exists>obs \<in> set observed. se_ref obs = se_ref d \<and> agrees d obs) \<longleftrightarrow> agrees d obs" by blast
  with Some show ?thesis by (auto simp: element_findings_def compare_facets_empty agrees_def)
qed

lemma raw_findings_empty:
  "distinct (map se_ref observed) \<Longrightarrow> raw_findings desired observed = [] \<longleftrightarrow> aligned desired observed"
  by (auto simp: raw_findings_eq element_findings_empty aligned_def extra_elements_def filter_empty_conv)

section \<open>Reports\<close>

lemma classify_drift_Inr [refusal_simps]:
  "classify_drift pair = Inr report \<longleftrightarrow> require_verified pair = Inr () \<and>
     report = \<lparr>dr_schema_version = DRIFT_REPORT_SCHEMA_VERSION,
            dr_instance_id = ds_instance_id (vp_desired pair),
            dr_desired_digest = desired_state_digest (vp_desired pair),
            dr_observed_digest = observed_state_digest (vp_observed pair),
            dr_findings = sort_key finding_sort_key
             (raw_findings (ds_elements (vp_desired pair)) (os_elements (vp_observed pair))),
            dr_report_digest = document_digest DRIFT_REPORT_SCHEMA_VERSION
              (report_document (ds_instance_id (vp_desired pair)) (desired_state_digest (vp_desired pair))
                (observed_state_digest (vp_observed pair)) (sort_key finding_sort_key
             (raw_findings (ds_elements (vp_desired pair)) (os_elements (vp_observed pair)))))\<rparr>"
  by (auto simp: classify_drift_def refusal_simps Let_def)

lemma finding_sort_key_inject: "finding_sort_key f = finding_sort_key g \<longleftrightarrow> f = g"
  using drift_kinds.rank_inject [unfolded drift_kinds.rank_def]
    drift_reasons.rank_inject [unfolded drift_reasons.rank_def]
    element_kinds.rank_inject [unfolded element_kinds.rank_def]
  by (auto simp: finding_sort_key_def)

lemma kinds_present_iff [simp]: "k \<in> set (kinds_present report) \<longleftrightarrow> k \<in> df_kind ` set (dr_findings report)"
  using drift_kinds.complete by (auto simp: kinds_present_def Let_def)

lemma leading_kind_None: "leading_kind report = None \<longleftrightarrow> dr_findings report = []"
proof -
  have "kinds_present report = [] \<longleftrightarrow> set (kinds_present report) = {}" by simp
  also have "\<dots> \<longleftrightarrow> df_kind ` set (dr_findings report) = {}"
    by (simp only: set_eq_iff kinds_present_iff)
  finally show ?thesis by (simp add: leading_kind_def Let_def)
qed

text \<open>The leading kind is the least kind, in \<open>DRIFT_KIND_ORDER\<close>, that occurs in the report.\<close>

lemma first_of_filter:
  assumes "distinct ks" and "filter P ks = k # rest"
  shows "P k \<and> k \<in> set ks \<and> (\<forall>k' \<in> set ks. P k' \<longrightarrow> index_of ks k \<le> index_of ks k')"
  using assms
proof (induction ks)
  case (Cons a ks)
  show ?case
  proof (cases "P a")
    case False
    with Cons have IH: "P k \<and> k \<in> set ks \<and> (\<forall>k' \<in> set ks. P k' \<longrightarrow> index_of ks k \<le> index_of ks k')" by simp
    with False Cons.prems show ?thesis by auto
  qed (use Cons in auto)
qed simp

lemma leading_kind_Some:
  assumes "leading_kind report = Some k"
  shows "k \<in> df_kind ` set (dr_findings report)"
    and "x \<in> set (dr_findings report) \<Longrightarrow> drift_kinds.rank k \<le> drift_kinds.rank (df_kind x)"
proof -
  from assms obtain rest where *: "filter (\<lambda>k. k \<in> set (map df_kind (dr_findings report))) DRIFT_KIND_ORDER = k # rest"
    by (cases "kinds_present report") (auto simp: leading_kind_def kinds_present_def Let_def)
  note first = first_of_filter [OF drift_kinds.once *]
  then show "k \<in> df_kind ` set (dr_findings report)" by simp
  show "drift_kinds.rank k \<le> drift_kinds.rank (df_kind x)" if "x \<in> set (dr_findings report)"
    using that first drift_kinds.complete by (auto simp: drift_kinds.rank_def)
qed

end
