(* ===== verification/Recon_Planner.thy ===== *)
theory Recon_Planner
  imports Recon_Classify
begin

text \<open>
  Reconciliation planning (\<open>planner.py\<close>): a verified pair and its drift report become a plan, or a
  refusal. The planner's grouping loop is related to a declarative specification
  (\<open>required_action\<close>): one create per desired element nobody observed, one update per element whose
  declared facets differ, nothing else.
\<close>

section \<open>Plans\<close>

definition RECONCILIATION_PLAN_SCHEMA_VERSION :: string where
  "RECONCILIATION_PLAN_SCHEMA_VERSION = ''secp-recon/reconciliation-plan/v1''"

definition REFUSING_DRIFT_KINDS :: "(drift_kind \<times> refusal_code) list" where
  "REFUSING_DRIFT_KINDS = [(DK_identity_conflict, RC_identity_conflict_unresolvable),
     (DK_indeterminate, RC_drift_indeterminate)]"

record planned_action =
  pa_kind :: action_kind
  pa_element_kind :: element_kind
  pa_element_ref :: string
  pa_reasons :: "drift_reason list"

record deferred_element =
  de_element_kind :: element_kind
  de_reason :: drift_reason

record reconciliation_plan =
  rp_schema_version :: string
  rp_instance_id :: string
  rp_execution_surface :: string
  rp_disposition :: plan_disposition
  rp_actions :: "planned_action list"
  rp_deferred :: "deferred_element list"
  rp_scope_digest :: string
  rp_desired_digest :: string
  rp_observed_digest :: string
  rp_report_digest :: string
  rp_plan_digest :: string

definition action_counts :: "reconciliation_plan \<Rightarrow> (action_kind, nat) dict" where
  "action_counts plan = tally ACTION_KIND_ORDER pa_kind (rp_actions plan)"

definition element_kind_counts :: "reconciliation_plan \<Rightarrow> (element_kind, nat) dict" where
  "element_kind_counts plan = tally ELEMENT_KIND_ORDER pa_element_kind (rp_actions plan)"

definition action_document :: "planned_action \<Rightarrow> json" where
  "action_document a = JArr [JStr (action_kind_value (pa_kind a)),
     JStr (element_kind_value (pa_element_kind a)), JStr (pa_element_ref a),
     JArr (map (\<lambda>r. JStr (drift_reason_value r)) (pa_reasons a))]"

definition deferred_document :: "deferred_element \<Rightarrow> json" where
  "deferred_document item = JArr [JStr (element_kind_value (de_element_kind item)),
     JStr (drift_reason_value (de_reason item))]"

definition plan_document :: "string \<Rightarrow> string \<Rightarrow> plan_disposition \<Rightarrow> planned_action list \<Rightarrow>
    deferred_element list \<Rightarrow> string \<Rightarrow> string \<Rightarrow> string \<Rightarrow> string \<Rightarrow> json" where
  "plan_document instance_id execution_surface disposition actions deferred scope_dig desired_dig
     observed_dig report_dig = JObj [
     (''instance_id'', JStr instance_id),
     (''execution_surface'', JStr execution_surface),
     (''disposition'', JStr (plan_disposition_value disposition)),
     (''actions'', JArr (map action_document actions)),
     (''deferred'', JArr (map deferred_document deferred)),
     (''scope_digest'', JStr scope_dig),
     (''desired_digest'', JStr desired_dig),
     (''observed_digest'', JStr observed_dig),
     (''report_digest'', JStr report_dig)]"

definition document_of_plan :: "reconciliation_plan \<Rightarrow> json" where
  "document_of_plan plan = plan_document (rp_instance_id plan) (rp_execution_surface plan)
     (rp_disposition plan) (rp_actions plan) (rp_deferred plan) (rp_scope_digest plan)
     (rp_desired_digest plan) (rp_observed_digest plan) (rp_report_digest plan)"

definition plan_digest_of :: "reconciliation_plan \<Rightarrow> string" where
  "plan_digest_of plan = document_digest RECONCILIATION_PLAN_SCHEMA_VERSION (document_of_plan plan)"

definition require_plan_integrity :: "reconciliation_plan \<Rightarrow> refusal_code + unit" where
  "require_plan_integrity plan =
     (if plan_digest_of plan \<noteq> rp_plan_digest plan then Inl RC_plan_integrity_invalid else Inr ())"

definition require_planned_under :: "reconciliation_plan \<Rightarrow> reconciliation_scope \<Rightarrow> refusal_code + unit" where
  "require_planned_under plan scope =
     bindE (require_plan_integrity plan) (\<lambda>_.
       if rp_scope_digest plan \<noteq> scope_digest scope then Inl RC_scope_mismatch
       else if rs_execution_surface scope \<noteq> rp_execution_surface plan then Inl RC_scope_mismatch
       else if int (length (rp_actions plan)) > rs_max_actions scope then Inl RC_change_budget_exceeded
       else Inr ())"

section \<open>Planning\<close>

type_synonym element_key = "element_kind \<times> string"
type_synonym grouping =
  "(element_key, drift_reason list) dict \<times> (element_key, action_kind) dict \<times> deferred_element list"

fun refuse_on :: "(drift_kind \<times> refusal_code) list \<Rightarrow> drift_kind list \<Rightarrow> refusal_code + unit" where
  "refuse_on [] present = Inr ()"
| "refuse_on ((kind, refusal) # ks) present =
     (if kind \<in> set present then Inl refusal else refuse_on ks present)"

definition finding_key :: "drift_finding \<Rightarrow> element_key" where
  "finding_key f = (df_element_kind f, df_element_ref f)"

text \<open>\<open>ACTION_FOR_DRIFT_KIND[finding.kind]\<close>: the lemma \<open>action_for_total\<close> shows the lookup never
  misses on a finding that passed \<open>REFUSING_DRIFT_KINDS\<close> and is not unmanaged.\<close>

definition action_for :: "drift_kind \<Rightarrow> action_kind" where
  "action_for k = the (map_of ACTION_FOR_DRIFT_KIND k)"

definition group_step :: "grouping \<Rightarrow> drift_finding \<Rightarrow> grouping" where
  "group_step g finding = (case g of (reasons_by_element, action_kind_by_element, deferred) \<Rightarrow>
     if df_kind finding = DK_unmanaged
     then (reasons_by_element, action_kind_by_element,
       deferred @ [\<lparr>de_element_kind = df_element_kind finding, de_reason = df_reason finding\<rparr>])
     else (let key = finding_key finding;
               sofar = (case map_of reasons_by_element key of None \<Rightarrow> [] | Some rs \<Rightarrow> rs)
       in (dict_set key (sofar @ [df_reason finding]) reasons_by_element,
           dict_set key (action_for (df_kind finding)) action_kind_by_element, deferred)))"

definition group_findings :: "drift_finding list \<Rightarrow> grouping" where
  "group_findings findings = foldl group_step ([], [], []) findings"

definition action_sort_key :: "planned_action \<Rightarrow> nat \<times> nat \<times> string" where
  "action_sort_key a = (index_of ACTION_KIND_ORDER (pa_kind a),
     index_of ELEMENT_KIND_ORDER (pa_element_kind a), pa_element_ref a)"

definition deferred_sort_key :: "deferred_element \<Rightarrow> nat \<times> string" where
  "deferred_sort_key item = (index_of ELEMENT_KIND_ORDER (de_element_kind item),
     drift_reason_value (de_reason item))"

definition grouped_actions :: "grouping \<Rightarrow> planned_action list" where
  "grouped_actions g = (case g of (reasons_by_element, action_kind_by_element, _) \<Rightarrow>
     sort_key action_sort_key
       (map (\<lambda>(key, reasons). \<lparr>pa_kind = the (map_of action_kind_by_element key),
           pa_element_kind = fst key, pa_element_ref = snd key,
           pa_reasons = sort_key (index_of DRIFT_REASON_ORDER) reasons\<rparr>) reasons_by_element))"

definition grouped_deferred :: "grouping \<Rightarrow> deferred_element list" where
  "grouped_deferred g = (case g of (_, _, deferred) \<Rightarrow> sort_key deferred_sort_key deferred)"

definition disposition_of :: "planned_action list \<Rightarrow> deferred_element list \<Rightarrow> plan_disposition" where
  "disposition_of actions deferred =
     (if deferred \<noteq> [] then PD_operator_decision_required
      else if actions \<noteq> [] then PD_actionable else PD_converged)"

definition assemble_plan :: "verified_pair \<Rightarrow> drift_report \<Rightarrow> planned_action list \<Rightarrow> deferred_element list \<Rightarrow>
    reconciliation_plan" where
  "assemble_plan pair report actions deferred =
     (let disposition = disposition_of actions deferred;
          document = plan_document (rs_instance_id (vp_scope pair)) (rs_execution_surface (vp_scope pair))
            disposition actions deferred (scope_digest (vp_scope pair))
            (desired_state_digest (vp_desired pair)) (observed_state_digest (vp_observed pair))
            (dr_report_digest report)
      in \<lparr>rp_schema_version = RECONCILIATION_PLAN_SCHEMA_VERSION,
          rp_instance_id = rs_instance_id (vp_scope pair),
          rp_execution_surface = rs_execution_surface (vp_scope pair),
          rp_disposition = disposition, rp_actions = actions, rp_deferred = deferred,
          rp_scope_digest = scope_digest (vp_scope pair),
          rp_desired_digest = desired_state_digest (vp_desired pair),
          rp_observed_digest = observed_state_digest (vp_observed pair),
          rp_report_digest = dr_report_digest report,
          rp_plan_digest = document_digest RECONCILIATION_PLAN_SCHEMA_VERSION document\<rparr>)"

definition plan_reconciliation :: "verified_pair \<Rightarrow> drift_report \<Rightarrow> refusal_code + reconciliation_plan" where
  "plan_reconciliation pair report =
     bindE (require_verified pair) (\<lambda>_.
       if dr_desired_digest report \<noteq> desired_state_digest (vp_desired pair) \<or>
          dr_observed_digest report \<noteq> observed_state_digest (vp_observed pair)
       then Inl RC_verification_token_invalid
       else bindE (refuse_on REFUSING_DRIFT_KINDS (kinds_present report)) (\<lambda>_.
         let g = group_findings (dr_findings report); actions = grouped_actions g in
         if int (length actions) > rs_max_actions (vp_scope pair) then Inl RC_change_budget_exceeded
         else Inr (assemble_plan pair report actions (grouped_deferred g))))"

definition plan_from_states ::
    "reconciliation_scope \<Rightarrow> desired_state \<Rightarrow> observed_state \<Rightarrow> datetime \<Rightarrow>
     refusal_code + (verified_pair \<times> drift_report \<times> reconciliation_plan)" where
  "plan_from_states scope desired observed now =
     bindE (verify_inputs scope desired observed now) (\<lambda>pair.
       bindE (classify_drift pair) (\<lambda>report.
         bindE (plan_reconciliation pair report) (\<lambda>plan. Inr (pair, report, plan))))"

section \<open>What the grouping loop computes\<close>

lemma action_for_total:
  "refuse_on REFUSING_DRIFT_KINDS (kinds_present report) = Inr () \<Longrightarrow> f \<in> set (dr_findings report) \<Longrightarrow>
   df_kind f \<noteq> DK_unmanaged \<Longrightarrow> map_of ACTION_FOR_DRIFT_KIND (df_kind f) = Some (action_for (df_kind f))"
  by (cases "df_kind f")
    (auto simp: REFUSING_DRIFT_KINDS_def action_for_def ACTION_FOR_DRIFT_KIND_def image_iff split: if_splits)

lemma action_for_simps [simp]: "action_for DK_missing = AK_create" "action_for DK_divergent = AK_update"
  by (simp_all add: action_for_def ACTION_FOR_DRIFT_KIND_def)

definition at_key :: "element_key \<Rightarrow> drift_finding list \<Rightarrow> drift_finding list" where
  "at_key key fs = filter (\<lambda>f. df_kind f \<noteq> DK_unmanaged \<and> finding_key f = key) fs"

lemma at_key_snoc: "at_key key (fs @ [f]) =
    at_key key fs @ (if df_kind f \<noteq> DK_unmanaged \<and> finding_key f = key then [f] else [])"
  by (simp add: at_key_def)

definition deferral :: "drift_finding \<Rightarrow> deferred_element" where
  "deferral f = \<lparr>de_element_kind = df_element_kind f, de_reason = df_reason f\<rparr>"

lemma at_key_Nil [simp]: "at_key key [] = []"
  by (simp add: at_key_def)

definition reasons_at :: "drift_finding list \<Rightarrow> element_key \<Rightarrow> drift_reason list option" where
  "reasons_at fs key = (if at_key key fs = [] then None else Some (map df_reason (at_key key fs)))"

definition action_kind_at :: "drift_finding list \<Rightarrow> element_key \<Rightarrow> action_kind option" where
  "action_kind_at fs key =
     (if at_key key fs = [] then None else Some (action_for (df_kind (last (at_key key fs)))))"

lemma group_findings_spec:
  assumes "group_findings fs = (R, K, Df)"
  shows "map_of R = reasons_at fs" and "map_of K = action_kind_at fs" and "distinct (dict_keys R)"
    and "Df = map deferral (filter (\<lambda>f. df_kind f = DK_unmanaged) fs)"
proof -
  have "map_of R = reasons_at fs \<and> map_of K = action_kind_at fs \<and>
     distinct (dict_keys R) \<and> Df = map deferral (filter (\<lambda>f. df_kind f = DK_unmanaged) fs)"
    using assms
  proof (induction fs arbitrary: R K Df rule: rev_induct)
    case Nil
    then show ?case by (simp add: group_findings_def reasons_at_def action_kind_at_def fun_eq_iff)
  next
    case (snoc f fs)
    obtain R' K' Df' where g: "group_findings fs = (R', K', Df')" by (cases "group_findings fs")
    from snoc.prems g have step: "group_step (R', K', Df') f = (R, K, Df)" by (simp add: group_findings_def)
    note IH = snoc.IH [OF g]
    show ?case
    proof (cases "df_kind f = DK_unmanaged")
      case True
      with step have "R = R'" "K = K'" "Df = Df' @ [deferral f]" by (auto simp: group_step_def deferral_def)
      with IH True show ?thesis by (simp add: reasons_at_def action_kind_at_def fun_eq_iff at_key_snoc)
    next
      case False
      let ?k = "finding_key f"
      from False step IH have R: "R = dict_set ?k ((case reasons_at fs ?k of None \<Rightarrow> [] | Some rs \<Rightarrow> rs) @ [df_reason f]) R'"
        and K: "K = dict_set ?k (action_for (df_kind f)) K'" and D: "Df = Df'"
        by (auto simp: group_step_def Let_def simp del: map_of_eq_Some_iff)
      have "map_of R = reasons_at (fs @ [f])"
        unfolding R using False IH by (auto simp: reasons_at_def fun_eq_iff at_key_snoc)
      moreover have "map_of K = action_kind_at (fs @ [f])"
        unfolding K using False IH by (auto simp: action_kind_at_def fun_eq_iff at_key_snoc)
      moreover have "distinct (dict_keys R)" unfolding R using IH by simp
      ultimately show ?thesis using D IH False by simp
    qed
  qed
  then show "map_of R = reasons_at fs" and "map_of K = action_kind_at fs" and "distinct (dict_keys R)"
    and "Df = map deferral (filter (\<lambda>f. df_kind f = DK_unmanaged) fs)"
    by simp_all
qed

section \<open>The declarative plan\<close>

text \<open>What the desired element \<open>d\<close> asks of a world in which \<open>observed\<close> was seen.\<close>

definition required_action :: "state_element list \<Rightarrow> state_element \<Rightarrow> planned_action option" where
  "required_action observed d = (case observed_at observed (se_ref d) of
      None \<Rightarrow> Some \<lparr>pa_kind = AK_create, pa_element_kind = se_kind d, pa_element_ref = se_ref d,
                pa_reasons = [DR_element_absent]\<rparr>
    | Some obs \<Rightarrow>
        (case filter (disagrees d obs) (facets_of_kind (se_kind d)) of
           [] \<Rightarrow> None
         | fs \<Rightarrow> Some \<lparr>pa_kind = AK_update, pa_element_kind = se_kind d, pa_element_ref = se_ref d,
                pa_reasons = map DIVERGENCE_REASON_BY_FACET fs\<rparr>))"

definition required_actions :: "state_element list \<Rightarrow> state_element list \<Rightarrow> planned_action list" where
  "required_actions desired observed = List.map_filter (required_action observed) desired"

definition conflicting :: "state_element list \<Rightarrow> state_element \<Rightarrow> bool" where
  "conflicting observed d = (case observed_at observed (se_ref d) of None \<Rightarrow> False | Some obs \<Rightarrow> se_kind obs \<noteq> se_kind d)"

definition unevidenced :: "state_element list \<Rightarrow> state_element \<Rightarrow> bool" where
  "unevidenced observed d = (case observed_at observed (se_ref d) of None \<Rightarrow> False
    | Some obs \<Rightarrow> se_kind obs = se_kind d \<and> list_ex (silent d obs) (facets_of_kind (se_kind d)))"

lemma managed_kind_iff:
  assumes "k \<noteq> DK_unmanaged"
  shows "k \<in> df_kind ` set (raw_findings desired observed) \<longleftrightarrow>
    (\<exists>d \<in> set desired. \<exists>x \<in> set (element_findings observed d). df_kind x = k)"
proof -
  have "k \<notin> df_kind ` set (map unmanaged_finding es)" for es
    using assms by (auto simp: unmanaged_finding_def)
  then have "k \<in> df_kind ` set (raw_findings desired observed) \<longleftrightarrow>
      k \<in> df_kind ` set (concat (map (element_findings observed) desired))"
    by (simp add: raw_findings_eq image_Un)
  also have "\<dots> \<longleftrightarrow> (\<exists>d \<in> set desired. \<exists>x \<in> set (element_findings observed d). df_kind x = k)"
    by auto
  finally show ?thesis .
qed

lemma conflict_kind_iff: "DK_identity_conflict \<in> df_kind ` set (raw_findings desired observed) \<longleftrightarrow>
    list_ex (conflicting observed) desired"
proof -
  have "(\<exists>x \<in> set (element_findings observed d). df_kind x = DK_identity_conflict) \<longleftrightarrow> conflicting observed d" for d
    by (auto simp: element_findings_def conflicting_def compare_facets_memb split: option.splits)
  then show ?thesis by (simp add: managed_kind_iff list_ex_iff)
qed

lemma silence_kind_iff: "DK_indeterminate \<in> df_kind ` set (raw_findings desired observed) \<longleftrightarrow>
    list_ex (unevidenced observed) desired"
proof -
  have "(\<exists>x \<in> set (element_findings observed d). df_kind x = DK_indeterminate) \<longleftrightarrow> unevidenced observed d" for d
    by (auto simp: element_findings_def unevidenced_def compare_facets_memb list_ex_iff Bex_def
        split: option.splits)
  then show ?thesis by (simp add: managed_kind_iff list_ex_iff)
qed

text \<open>The findings at a desired element's key are that element's own findings.\<close>

definition key_of :: "state_element \<Rightarrow> element_key" where
  "key_of d = (se_kind d, se_ref d)"

lemma at_key_append [simp]: "at_key key (fs @ gs) = at_key key fs @ at_key key gs"
  by (simp add: at_key_def)

lemma at_key_unmanaged [simp]: "at_key key (map unmanaged_finding es) = []"
  by (simp add: at_key_def unmanaged_finding_def filter_empty_conv)

lemma at_key_own: "at_key (key_of d) (element_findings observed d) = element_findings observed d"
  unfolding at_key_def
  by (rule filter_True) (auto simp: key_of_def finding_key_def element_findings_target
      dest: element_findings_not_unmanaged)

lemma at_key_other: "key \<noteq> key_of d \<Longrightarrow> at_key key (element_findings observed d) = []"
  by (auto simp: at_key_def filter_empty_conv key_of_def finding_key_def dest: element_findings_target)

lemma at_key_elements:
  "distinct (map se_ref desired) \<Longrightarrow> d \<in> set desired \<Longrightarrow>
   at_key (key_of d) (concat (map (element_findings observed) desired)) = element_findings observed d"
proof (induction desired)
  case (Cons a desired)
  have none: "at_key k (concat (map (element_findings observed) es)) = []" if "k \<notin> key_of ` set es" for k es
    using that by (induction es) (simp_all add: at_key_other)
  show ?case
  proof (cases "d = a")
    case True
    with Cons.prems have "key_of d \<notin> key_of ` set desired" by (auto simp: key_of_def)
    with True show ?thesis by (simp add: at_key_own none)
  next
    case False
    with Cons.prems have "se_ref d \<noteq> se_ref a" by (metis distinct.simps(2) image_eqI list.set_map list.simps(9) set_ConsD)
    then have "key_of d \<noteq> key_of a" by (simp add: key_of_def)
    with False Cons show ?thesis by (simp add: at_key_other)
  qed
qed simp

lemma at_key_nonempty:
  "at_key key (concat (map (element_findings observed) desired)) \<noteq> [] \<Longrightarrow> key \<in> key_of ` set desired"
  by (induction desired) (auto simp: at_key_def filter_empty_conv dest: element_findings_target
      simp: key_of_def finding_key_def)

lemma at_key_sort: "at_key key (sort_key f xs) = sort_key f (at_key key xs)"
  by (simp add: at_key_def filter_sort)

lemma sort_key_reasons_raw:
  "at_key (key_of d) (sort_key finding_sort_key (raw_findings desired observed)) =
    sort_key finding_sort_key (element_findings observed d)"
  if "distinct (map se_ref desired)" "d \<in> set desired"
  using that by (simp add: at_key_sort raw_findings_eq at_key_elements)

lemma facets_reasons_sorted:
  "sorted (map (index_of DRIFT_REASON_ORDER) (map DIVERGENCE_REASON_BY_FACET (filter P (facets_of_kind k))))"
proof -
  have "sorted (map (index_of DRIFT_REASON_ORDER \<circ> DIVERGENCE_REASON_BY_FACET) (facets_of_kind k))"
    by (cases k) (simp_all add: facets_of_kind_def FACETS_BY_ELEMENT_KIND_def DRIFT_REASON_ORDER_def)
  then show ?thesis by (simp add: sorted_filter)
qed

text \<open>The action the grouping loop builds for a key, read off the findings at that key.\<close>

definition action_at :: "drift_finding list \<Rightarrow> element_key \<Rightarrow> planned_action" where
  "action_at fs key = \<lparr>pa_kind = action_for (df_kind (last (at_key key fs))), pa_element_kind = fst key,
     pa_element_ref = snd key, pa_reasons = sort_key (index_of DRIFT_REASON_ORDER) (map df_reason (at_key key fs))\<rparr>"

lemma grouped_actions_eq:
  assumes "group_findings fs = (R, K, Df)"
  shows "grouped_actions (group_findings fs) = sort_key action_sort_key (map (action_at fs) (dict_keys R))"
proof -
  note spec = group_findings_spec [OF assms]
  have "\<lparr>pa_kind = the (map_of K key), pa_element_kind = fst key, pa_element_ref = snd key,
           pa_reasons = sort_key (index_of DRIFT_REASON_ORDER) reasons\<rparr> = action_at fs key"
    if "(key, reasons) \<in> set R" for key reasons
    using map_of_is_SomeI [OF spec(3) that] spec(1,2)
    by (auto simp: action_at_def reasons_at_def action_kind_at_def simp del: map_of_eq_Some_iff split: if_splits)
  then show ?thesis unfolding grouped_actions_def assms
    by (auto intro!: arg_cong [of _ _ "sort_key action_sort_key"])
qed

lemma element_findings_planned:
  assumes "\<not> conflicting observed d" and "\<not> unevidenced observed d"
  shows "element_findings observed d = (case required_action observed d of None \<Rightarrow> []
    | Some a \<Rightarrow> map (finding_at d (if pa_kind a = AK_create then DK_missing else DK_divergent)) (pa_reasons a))"
proof (cases "observed_at observed (se_ref d)")
  case None
  then show ?thesis by (simp add: element_findings_def required_action_def)
next
  case (Some obs)
  with assms have "\<forall>f \<in> set (facets_of_kind (se_kind d)). \<not> silent d obs f" and k: "se_kind obs = se_kind d"
    by (auto simp: conflicting_def unevidenced_def list_ex_iff)
  then have "compare_facets d obs = map (\<lambda>f. finding_at d DK_divergent (DIVERGENCE_REASON_BY_FACET f))
      (filter (disagrees d obs) (facets_of_kind (se_kind d)))"
    by (intro compare_facets_no_silence)
  with Some k show ?thesis
    by (auto simp: element_findings_def required_action_def comp_def split: list.splits)
qed

lemma required_action_target: "required_action observed d = Some a \<Longrightarrow>
    pa_element_kind a = se_kind d \<and> pa_element_ref a = se_ref d"
  by (auto simp: required_action_def split: option.splits list.splits)

lemma required_action_sorted: "required_action observed d = Some a \<Longrightarrow>
    sorted (map (index_of DRIFT_REASON_ORDER) (pa_reasons a)) \<and> pa_reasons a \<noteq> []"
proof (cases "observed_at observed (se_ref d)")
  case (Some obs)
  assume "required_action observed d = Some a"
  with Some facets_reasons_sorted [of "disagrees d obs" "se_kind d"] show ?thesis
    by (auto simp: required_action_def simp del: map_map split: list.splits)
qed (auto simp: required_action_def)

lemma action_at_required:
  assumes "distinct (map se_ref desired)" and "d \<in> set desired"
    and "\<not> conflicting observed d" and "\<not> unevidenced observed d"
    and "required_action observed d = Some a"
  shows "action_at (sort_key finding_sort_key (raw_findings desired observed)) (key_of d) = a"
proof -
  let ?k = "if pa_kind a = AK_create then DK_missing else DK_divergent"
  let ?fs = "sort_key finding_sort_key (map (finding_at d ?k) (pa_reasons a))"
  have fs: "at_key (key_of d) (sort_key finding_sort_key (raw_findings desired observed)) = ?fs"
    using assms by (simp add: sort_key_reasons_raw element_findings_planned)
  have ne: "pa_reasons a \<noteq> []" and so: "sorted (map (index_of DRIFT_REASON_ORDER) (pa_reasons a))"
    using required_action_sorted [OF assms(5)] by auto
  have "last ?fs \<in> set ?fs" using ne by (intro last_in_set) simp
  then have "df_kind (last ?fs) = ?k" by auto
  moreover have "action_for ?k = pa_kind a" by (cases "pa_kind a") simp_all
  moreover have "?fs = map (finding_at d ?k) (pa_reasons a)"
    by (rule sort_key_id_if_sorted) (use so in \<open>auto simp: finding_sort_key_def sorted_map less_eq_prod_def
        elim!: sorted_wrt_mono_rel [rotated]\<close>)
  ultimately show ?thesis
    using fs so required_action_target [OF assms(5)]
    by (simp add: action_at_def key_of_def comp_def sort_key_id_if_sorted)
qed

lemma sort_key_mset_eq:
  "mset xs = mset ys \<Longrightarrow> inj_on f (set xs) \<Longrightarrow> sort_key f xs = sort_key f ys"
  by (rule sort_key_inj_key_eq) simp_all

lemma required_actions_memb: "a \<in> set (required_actions desired observed) \<longleftrightarrow>
    (\<exists>d \<in> set desired. required_action observed d = Some a)"
  by (auto simp: required_actions_def List.map_filter_def image_iff)

lemma required_actions_distinct:
  "distinct (map se_ref desired) \<Longrightarrow> distinct (map pa_element_ref (required_actions desired observed))"
proof (induction desired)
  case (Cons d desired)
  have "pa_element_ref ` set (required_actions desired observed) \<subseteq> se_ref ` set desired"
    by (auto simp: required_actions_memb dest!: required_action_target)
  then have "se_ref d \<notin> pa_element_ref ` set (required_actions desired observed)" using Cons.prems by auto
  moreover have "pa_element_ref a = se_ref d" if "required_action observed d = Some a" for a
    using required_action_target [OF that] by simp
  ultimately show ?case using Cons
    by (simp add: required_actions_def List.map_filter_simps split: option.splits)
qed (simp add: required_actions_def List.map_filter_simps)

lemma distinct_map_imp: "distinct (map f xs) \<Longrightarrow> distinct xs"
  by (simp add: distinct_map)

lemma grouped_actions_required:
  assumes dist: "distinct (map se_ref desired)"
    and ok: "\<not> list_ex (conflicting observed) desired" "\<not> list_ex (unevidenced observed) desired"
  shows "grouped_actions (group_findings (sort_key finding_sort_key (raw_findings desired observed))) =
    sort_key action_sort_key (required_actions desired observed)"
proof -
  let ?fs = "sort_key finding_sort_key (raw_findings desired observed)"
  obtain R K Df where g: "group_findings ?fs = (R, K, Df)" by (cases "group_findings ?fs")
  note spec = group_findings_spec [OF g]
  have planned: "\<not> conflicting observed d \<and> \<not> unevidenced observed d" if "d \<in> set desired" for d
    using ok that by (auto simp: list_ex_iff)
  have own: "at_key (key_of d) ?fs \<noteq> [] \<longleftrightarrow> required_action observed d \<noteq> None" if "d \<in> set desired" for d
    using that dist planned [OF that] required_action_sorted [of observed d]
    by (auto simp: sort_key_reasons_raw element_findings_planned split: option.splits)
  have keys: "key \<in> set (dict_keys R) \<longleftrightarrow> at_key key ?fs \<noteq> []" for key
    using spec(1) by (auto simp: reasons_at_def dom_map_of_conv_image_fst [symmetric] domIff simp del: map_of_eq_Some_iff)
  have key_desired: "\<exists>d \<in> set desired. key = key_of d" if "key \<in> set (dict_keys R)" for key
  proof -
    from that have "at_key key (concat (map (element_findings observed) desired)) \<noteq> []"
      unfolding keys by (simp add: at_key_sort raw_findings_eq)
    then show ?thesis using at_key_nonempty by blast
  qed
  have set_eq: "set (map (action_at ?fs) (dict_keys R)) = set (required_actions desired observed)" (is "?L = ?R")
  proof (intro equalityI subsetI)
    fix a assume "a \<in> ?L"
    then obtain key where key: "key \<in> set (dict_keys R)" "a = action_at ?fs key"
      unfolding set_map [of "action_at ?fs"] by (elim imageE)
    from key_desired [OF key(1)] obtain d where d: "d \<in> set desired" "key = key_of d" by blast
    with own keys key obtain b where b: "required_action observed d = Some b" by auto
    with action_at_required [OF dist d(1)] planned [OF d(1)] d key show "a \<in> ?R"
      by (auto simp: required_actions_memb)
  next
    fix a assume "a \<in> ?R"
    then obtain d where d: "d \<in> set desired" "required_action observed d = Some a"
      by (auto simp: required_actions_memb)
    with own keys have "key_of d \<in> set (dict_keys R)" by auto
    moreover have "action_at ?fs (key_of d) = a"
      using action_at_required [OF dist d(1)] planned [OF d(1)] d by simp
    ultimately show "a \<in> ?L" by (metis image_eqI list.set_map)
  qed
  have distL: "distinct (map (action_at ?fs) (dict_keys R))"
    using spec(3) by (rule distinct_map [THEN iffD2, OF conjI]) (auto simp: inj_on_def action_at_def prod_eq_iff)
  have distR: "distinct (map pa_element_ref (required_actions desired observed))"
    by (rule required_actions_distinct [OF dist])
  have "mset (map (action_at ?fs) (dict_keys R)) = mset (required_actions desired observed)"
    using set_eq distL distinct_map_imp [OF distR] by (metis set_eq_iff_mset_eq_distinct)
  moreover have "inj_on action_sort_key (set (map (action_at ?fs) (dict_keys R)))"
    unfolding set_eq using distR by (auto simp: distinct_map inj_on_def action_sort_key_def)
  ultimately show ?thesis unfolding grouped_actions_eq [OF g] by (rule sort_key_mset_eq)
qed

definition deferred_elements :: "state_element list \<Rightarrow> state_element list \<Rightarrow> deferred_element list" where
  "deferred_elements desired observed = sort_key deferred_sort_key
     (map (\<lambda>e. \<lparr>de_element_kind = se_kind e, de_reason = DR_element_unmanaged\<rparr>) (extra_elements desired observed))"

lemma deferred_sort_key_inj: "inj_on deferred_sort_key A"
  using element_kinds.rank_inject [unfolded element_kinds.rank_def]
  by (auto simp: inj_on_def deferred_sort_key_def)

lemma grouped_deferred_extra:
  "grouped_deferred (group_findings (sort_key finding_sort_key (raw_findings desired observed))) =
    deferred_elements desired observed"
proof -
  let ?fs = "sort_key finding_sort_key (raw_findings desired observed)"
  obtain R K Df where g: "group_findings ?fs = (R, K, Df)" by (cases "group_findings ?fs")
  have none: "filter (\<lambda>f. df_kind f = DK_unmanaged) (concat (map (element_findings observed) desired)) = []"
    by (auto simp: filter_empty_conv dest: element_findings_not_unmanaged)
  have "Df = map deferral (sort_key finding_sort_key (map unmanaged_finding (extra_elements desired observed)))"
    using group_findings_spec(4) [OF g] none
    by (simp add: filter_sort raw_findings_eq unmanaged_finding_def comp_def)
  then have "mset Df = image_mset (deferral \<circ> unmanaged_finding) (mset (extra_elements desired observed))"
    by (simp only: mset_map mset_sort multiset.map_comp)
  also have "deferral \<circ> unmanaged_finding = (\<lambda>e. \<lparr>de_element_kind = se_kind e, de_reason = DR_element_unmanaged\<rparr>)"
    by (simp add: fun_eq_iff deferral_def unmanaged_finding_def)
  finally have "mset Df = mset (map (\<lambda>e. \<lparr>de_element_kind = se_kind e, de_reason = DR_element_unmanaged\<rparr>)
      (extra_elements desired observed))" by simp
  from sort_key_mset_eq [OF this deferred_sort_key_inj] show ?thesis
    by (simp only: g grouped_deferred_def deferred_elements_def prod.case)
qed

text \<open>
  The refinement: on verified inputs the planner's pipeline, findings sorted and grouped through
  two dicts, returns the declarative plan or refuses for the declarative reason.
\<close>

lemma plan_from_states_refines:
  assumes "verify_inputs scope desired observed now = Inr pair"
  shows "plan_from_states scope desired observed now =
    (let D = ds_elements desired; Obs = os_elements observed in
     if list_ex (conflicting Obs) D then Inl RC_identity_conflict_unresolvable
     else if list_ex (unevidenced Obs) D then Inl RC_drift_indeterminate
     else if int (length (required_actions D Obs)) > rs_max_actions scope then Inl RC_change_budget_exceeded
     else (case classify_drift pair of Inl e \<Rightarrow> Inl e
       | Inr report \<Rightarrow> Inr (pair, report, assemble_plan pair report
           (sort_key action_sort_key (required_actions D Obs)) (deferred_elements D Obs))))"
proof -
  from assms have v: "require_verified pair = Inr ()" by (rule require_verified_verify)
  from assms have pair: "vp_scope pair = scope" "vp_desired pair = desired" "vp_observed pair = observed"
    and dist: "distinct (map se_ref (ds_elements desired))"
    by (auto simp: verify_inputs_Inr gate_preds)
  obtain report where r: "classify_drift pair = Inr report" using v by (auto simp: classify_drift_Inr)
  then have fs: "dr_findings report = sort_key finding_sort_key (raw_findings (ds_elements desired) (os_elements observed))"
    and dig: "dr_desired_digest report = desired_state_digest desired"
      "dr_observed_digest report = observed_state_digest observed"
    by (simp_all add: classify_drift_Inr pair)
  have "refuse_on REFUSING_DRIFT_KINDS (kinds_present report) =
      (if list_ex (conflicting (os_elements observed)) (ds_elements desired) then Inl RC_identity_conflict_unresolvable
       else if list_ex (unevidenced (os_elements observed)) (ds_elements desired) then Inl RC_drift_indeterminate
       else Inr ())"
    by (simp add: REFUSING_DRIFT_KINDS_def fs conflict_kind_iff silence_kind_iff)
  then show ?thesis
    using dist by (simp add: plan_from_states_def assms r plan_reconciliation_def v dig pair fs Let_def
        grouped_actions_required grouped_deferred_extra)
qed

section \<open>Plan integrity\<close>

text \<open>The address of a plan binds every field but the schema label and the address itself.\<close>

definition same_plan :: "reconciliation_plan \<Rightarrow> reconciliation_plan \<Rightarrow> bool" where
  "same_plan p q \<longleftrightarrow> p\<lparr>rp_schema_version := rp_schema_version q, rp_plan_digest := rp_plan_digest q\<rparr> = q"

lemma reason_items_inj:
  "map (norm_json \<circ> (\<lambda>r. JStr (drift_reason_value r))) rs = map (norm_json \<circ> (\<lambda>r. JStr (drift_reason_value r))) ss \<Longrightarrow> rs = ss"
  by (drule map_injective) (simp_all add: inj_def)

lemma action_document_inj: "norm_json (action_document a) = norm_json (action_document b) \<Longrightarrow> a = b"
  by (cases a; cases b) (auto simp: action_document_def dest: reason_items_inj)

lemma deferred_document_inj: "norm_json (deferred_document a) = norm_json (deferred_document b) \<Longrightarrow> a = b"
  by (simp add: deferred_document_def)

interpretation plan_addr: content_addressed RECONCILIATION_PLAN_SCHEMA_VERSION document_of_plan
    "\<lambda>_. True" same_plan
proof
  fix x y assume *: "norm_json (document_of_plan x) = norm_json (document_of_plan y)"
  note field = norm_json_obj_lookup [OF * [unfolded document_of_plan_def plan_document_def]]
  have "map (norm_json \<circ> action_document) (rp_actions x) = map (norm_json \<circ> action_document) (rp_actions y)"
    using field [of "''actions''"] by simp
  then have "rp_actions x = rp_actions y"
    by (rule map_injective) (simp add: inj_def action_document_inj)
  moreover have "map (norm_json \<circ> deferred_document) (rp_deferred x) = map (norm_json \<circ> deferred_document) (rp_deferred y)"
    using field [of "''deferred''"] by simp
  then have "rp_deferred x = rp_deferred y"
    by (rule map_injective) (simp add: inj_def deferred_document_inj)
  ultimately show "same_plan x y"
    using field [of "''instance_id''"] field [of "''execution_surface''"] field [of "''disposition''"]
      field [of "''scope_digest''"] field [of "''desired_digest''"] field [of "''observed_digest''"]
      field [of "''report_digest''"] by (simp add: same_plan_def)
qed

lemma plan_addr_eq [simp]: "plan_addr.addr = plan_digest_of"
  by (simp add: fun_eq_iff plan_addr.addr_def plan_digest_of_def)

lemma require_plan_integrity_iff [refusal_simps]:
  "require_plan_integrity plan = Inr u \<longleftrightarrow> rp_plan_digest plan = plan_digest_of plan"
  by (auto simp: require_plan_integrity_def)

lemma require_planned_under_iff [refusal_simps]:
  "require_planned_under plan scope = Inr u \<longleftrightarrow> rp_plan_digest plan = plan_digest_of plan \<and>
     rp_scope_digest plan = scope_digest scope \<and> rp_execution_surface plan = rs_execution_surface scope \<and>
     int (length (rp_actions plan)) \<le> rs_max_actions scope"
  by (auto simp: require_planned_under_def refusal_simps)

lemma assemble_plan_sel [simp]:
  "rp_actions (assemble_plan pair report actions deferred) = actions"
  "rp_deferred (assemble_plan pair report actions deferred) = deferred"
  "rp_disposition (assemble_plan pair report actions deferred) = disposition_of actions deferred"
  "rp_instance_id (assemble_plan pair report actions deferred) = rs_instance_id (vp_scope pair)"
  "rp_execution_surface (assemble_plan pair report actions deferred) = rs_execution_surface (vp_scope pair)"
  "rp_scope_digest (assemble_plan pair report actions deferred) = scope_digest (vp_scope pair)"
  "rp_desired_digest (assemble_plan pair report actions deferred) = desired_state_digest (vp_desired pair)"
  "rp_observed_digest (assemble_plan pair report actions deferred) = observed_state_digest (vp_observed pair)"
  by (simp_all add: assemble_plan_def Let_def)

lemma assemble_plan_integrity [simp]:
  "rp_plan_digest (assemble_plan pair report actions deferred) =
   plan_digest_of (assemble_plan pair report actions deferred)"
  by (simp add: assemble_plan_def plan_digest_of_def document_of_plan_def Let_def)

text \<open>A successful run of the pipeline, in declarative terms.\<close>

lemma plan_from_states_Inr:
  assumes "plan_from_states scope desired observed now = Inr (pair, report, plan)"
  shows "verify_inputs scope desired observed now = Inr pair" and "classify_drift pair = Inr report"
    and "\<not> list_ex (conflicting (os_elements observed)) (ds_elements desired)"
    and "\<not> list_ex (unevidenced (os_elements observed)) (ds_elements desired)"
    and "plan = assemble_plan pair report
      (sort_key action_sort_key (required_actions (ds_elements desired) (os_elements observed)))
      (deferred_elements (ds_elements desired) (os_elements observed))"
    and "int (length (rp_actions plan)) \<le> rs_max_actions scope"
proof -
  from assms show v: "verify_inputs scope desired observed now = Inr pair"
    and r: "classify_drift pair = Inr report" by (auto simp: plan_from_states_def refusal_simps)
  note assms [unfolded plan_from_states_refines [OF v] Let_def r]
  then show "\<not> list_ex (conflicting (os_elements observed)) (ds_elements desired)"
    and "\<not> list_ex (unevidenced (os_elements observed)) (ds_elements desired)"
    and "plan = assemble_plan pair report
      (sort_key action_sort_key (required_actions (ds_elements desired) (os_elements observed)))
      (deferred_elements (ds_elements desired) (os_elements observed))"
    and "int (length (rp_actions plan)) \<le> rs_max_actions scope"
    by (auto split: if_splits)
qed

end
