(* ===== verification/Recon_Execution.thy ===== *)
theory Recon_Execution
  imports Recon_Planner
begin

text \<open>
  Reset intents (\<open>reset.py\<close>), execution authorization, execution reports and measured convergence
  (\<open>execution.py\<close>), and evidence documents (\<open>evidence.py\<close>). Two kinds of exception reach a caller:
  a bounded refusal, and the \<open>ValueError\<close> of \<open>datetime.fromisoformat\<close> on a malformed timestamp.
\<close>

datatype exec_error = Refused refusal_code | Value_error

definition refused :: "refusal_code + 'a \<Rightarrow> exec_error + 'a" where
  "refused m = map_sum Refused id m"

lemma refused_Inr [refusal_simps]: "refused m = Inr x \<longleftrightarrow> m = Inr x"
  by (cases m) (simp_all add: refused_def)

lemma refused_simps [simp]: "refused (Inr x) = Inr x" "refused (Inl e) = Inl (Refused e)"
  by (simp_all add: refused_def)

section \<open>Reset intents (reset.py)\<close>

definition RESET_INTENT_SCHEMA_VERSION :: string where
  "RESET_INTENT_SCHEMA_VERSION = ''secp-recon/reset-intent/v1''"

record reset_intent =
  ri_schema_version :: string
  ri_contract_version :: string
  ri_instance_id :: string
  ri_reset_scope :: reset_scope
  ri_execution_surface :: string
  ri_disposition :: plan_disposition
  ri_desired_digest :: string
  ri_observed_digest :: string
  ri_report_digest :: string
  ri_plan_digest :: string
  ri_action_counts :: "(string \<times> nat) list"
  ri_element_kind_counts :: "(string \<times> nat) list"
  ri_deferred_count :: nat
  ri_issued_at :: string
  ri_expires_at :: string
  ri_intent_digest :: string

text \<open>\<open>{name: count for name, count in counts}\<close> as a document value.\<close>

definition counts_object :: "(string \<times> nat) list \<Rightarrow> json" where
  "counts_object counts = JObj (map (\<lambda>(name, count). (name, JInt (int count))) (dict_of counts))"

definition intent_document :: "reset_intent \<Rightarrow> json" where
  "intent_document i = JObj [
     (''schema_version'', JStr (ri_schema_version i)),
     (''contract_version'', JStr (ri_contract_version i)),
     (''instance_id'', JStr (ri_instance_id i)),
     (''reset_scope'', JStr (reset_scope_value (ri_reset_scope i))),
     (''execution_surface'', JStr (ri_execution_surface i)),
     (''disposition'', JStr (plan_disposition_value (ri_disposition i))),
     (''desired_digest'', JStr (ri_desired_digest i)),
     (''observed_digest'', JStr (ri_observed_digest i)),
     (''report_digest'', JStr (ri_report_digest i)),
     (''plan_digest'', JStr (ri_plan_digest i)),
     (''action_counts'', counts_object (ri_action_counts i)),
     (''element_kind_counts'', counts_object (ri_element_kind_counts i)),
     (''deferred_count'', JInt (int (ri_deferred_count i))),
     (''issued_at'', JStr (ri_issued_at i)),
     (''expires_at'', JStr (ri_expires_at i)),
     (''intent_digest'', JStr (ri_intent_digest i))]"

definition intent_body :: "reconciliation_plan \<Rightarrow> reset_scope \<Rightarrow> (string \<times> nat) list \<Rightarrow> (string \<times> nat) list \<Rightarrow>
    datetime \<Rightarrow> datetime \<Rightarrow> json" where
  "intent_body plan scope acts kinds issued_at expires_at = JObj [
     (''contract_version'', JStr CONTRACT_VERSION),
     (''instance_id'', JStr (rp_instance_id plan)),
     (''reset_scope'', JStr (reset_scope_value scope)),
     (''execution_surface'', JStr (rp_execution_surface plan)),
     (''disposition'', JStr (plan_disposition_value (rp_disposition plan))),
     (''desired_digest'', JStr (rp_desired_digest plan)),
     (''observed_digest'', JStr (rp_observed_digest plan)),
     (''report_digest'', JStr (rp_report_digest plan)),
     (''plan_digest'', JStr (rp_plan_digest plan)),
     (''action_counts'', counts_object acts),
     (''element_kind_counts'', counts_object kinds),
     (''deferred_count'', JInt (int (length (rp_deferred plan)))),
     (''issued_at'', JStr (canonical_utc issued_at)),
     (''expires_at'', JStr (canonical_utc expires_at))]"

definition build_reset_intent :: "reconciliation_plan \<Rightarrow> reset_scope \<Rightarrow> datetime \<Rightarrow> datetime \<Rightarrow>
    refusal_code + reset_intent" where
  "build_reset_intent plan scope issued_at expires_at =
    (if instant (as_utc expires_at) \<le> instant (as_utc issued_at) then Inl RC_reset_window_invalid
     else if rp_actions plan = [] then Inl RC_reset_scope_unsafe
     else if scope = RS_instance \<and> rp_deferred plan \<noteq> [] then Inl RC_reset_scope_unsafe
     else
       (let acts = map (\<lambda>k. (action_kind_value k, the (map_of (action_counts plan) k))) ACTION_KIND_ORDER;
            kinds = map (\<lambda>k. (element_kind_value k, the (map_of (element_kind_counts plan) k))) ELEMENT_KIND_ORDER
        in Inr \<lparr>ri_schema_version = RESET_INTENT_SCHEMA_VERSION, ri_contract_version = CONTRACT_VERSION,
          ri_instance_id = rp_instance_id plan, ri_reset_scope = scope,
          ri_execution_surface = rp_execution_surface plan, ri_disposition = rp_disposition plan,
          ri_desired_digest = rp_desired_digest plan, ri_observed_digest = rp_observed_digest plan,
          ri_report_digest = rp_report_digest plan, ri_plan_digest = rp_plan_digest plan,
          ri_action_counts = acts, ri_element_kind_counts = kinds,
          ri_deferred_count = length (rp_deferred plan),
          ri_issued_at = canonical_utc issued_at, ri_expires_at = canonical_utc expires_at,
          ri_intent_digest = document_digest RESET_INTENT_SCHEMA_VERSION
            (intent_body plan scope acts kinds issued_at expires_at)\<rparr>))"

section \<open>Authorization (execution.py)\<close>

definition parse_datetime :: "string \<Rightarrow> exec_error + datetime" where
  "parse_datetime s = (case fromisoformat s of None \<Rightarrow> Inl Value_error | Some d \<Rightarrow> Inr d)"

definition verify_reset_intent :: "reset_intent \<Rightarrow> reconciliation_plan \<Rightarrow> datetime \<Rightarrow> exec_error + unit" where
  "verify_reset_intent intent plan now =
     bindE (refused (require_plan_integrity plan)) (\<lambda>_.
       if ri_plan_digest intent \<noteq> rp_plan_digest plan then Inl (Refused RC_reset_intent_plan_mismatch)
       else bindE (parse_datetime (ri_issued_at intent)) (\<lambda>issued.
         if instant (as_utc now) < instant (as_utc issued) then Inl (Refused RC_reset_intent_not_yet_valid)
         else bindE (parse_datetime (ri_expires_at intent)) (\<lambda>expires.
           if instant (as_utc now) \<ge> instant (as_utc expires) then Inl (Refused RC_reset_intent_expired)
           else Inr ())))"

definition require_execution_authorized ::
    "reconciliation_plan \<Rightarrow> reset_intent option \<Rightarrow> datetime \<Rightarrow> exec_error + unit" where
  "require_execution_authorized plan intent now =
     (case intent of
        Some i \<Rightarrow> verify_reset_intent i plan now
      | None \<Rightarrow> bindE (refused (require_plan_integrity plan)) (\<lambda>_.
          if rp_actions plan \<noteq> [] then Inl (Refused RC_execution_unauthorized) else Inr ()))"

section \<open>Execution reports (execution.py)\<close>

definition EXECUTION_REPORT_SCHEMA_VERSION :: string where
  "EXECUTION_REPORT_SCHEMA_VERSION = ''secp-recon/execution-report/v1''"
definition CONVERGENCE_VERDICT_SCHEMA_VERSION :: string where
  "CONVERGENCE_VERDICT_SCHEMA_VERSION = ''secp-recon/convergence-verdict/v1''"

record step_outcome =
  so_status :: step_status
  so_kind :: action_kind
  so_element_kind :: element_kind
  so_element_ref :: string
  so_failure_reason :: "step_failure_reason option"

record execution_report =
  er_schema_version :: string
  er_instance_id :: string
  er_execution_surface :: string
  er_outcome :: execution_outcome
  er_steps :: "step_outcome list"
  er_plan_digest :: string
  er_intent_digest :: string
  er_world_digest_before :: string
  er_world_digest_after :: string
  er_operator_next_step :: operator_next_step
  er_executed_at :: string
  er_report_digest :: string

definition counts_by_status :: "execution_report \<Rightarrow> (step_status, nat) dict" where
  "counts_by_status report = tally STEP_STATUS_ORDER so_status (er_steps report)"

definition changed_anything :: "execution_report \<Rightarrow> bool" where
  "changed_anything report \<longleftrightarrow> er_world_digest_before report \<noteq> er_world_digest_after report"

fun next_step_for :: "step_outcome list \<Rightarrow> operator_next_step" where
  "next_step_for [] = NS_none_required"
| "next_step_for (step # steps) =
     (if so_status step = SS_failed
      then (case so_failure_reason step of
              Some r \<Rightarrow> NEXT_STEP_FOR_STEP_FAILURE r
            | None \<Rightarrow> next_step_for steps)
      else next_step_for steps)"

definition outcome_for :: "step_outcome list \<Rightarrow> execution_outcome" where
  "outcome_for steps =
     (if list_ex (\<lambda>s. so_status s = SS_failed) steps then EO_partial
      else if list_ex (\<lambda>s. so_status s = SS_applied) steps then EO_applied
      else EO_no_op)"

definition step_document :: "step_outcome \<Rightarrow> json" where
  "step_document s = JArr [JStr (step_status_value (so_status s)), JStr (action_kind_value (so_kind s)),
     JStr (element_kind_value (so_element_kind s)), JStr (so_element_ref s),
     JStr (case so_failure_reason s of Some r \<Rightarrow> step_failure_reason_value r | None \<Rightarrow> '''')]"

definition build_execution_report :: "string \<Rightarrow> string \<Rightarrow> step_outcome list \<Rightarrow> string \<Rightarrow> string \<Rightarrow> string \<Rightarrow>
    string \<Rightarrow> datetime \<Rightarrow> execution_report" where
  "build_execution_report instance_id surface steps plan_dig intent_dig before after executed_at =
     (let outcome = outcome_for steps; next = next_step_for steps; moment = canonical_utc executed_at;
          body = JObj [
            (''instance_id'', JStr instance_id),
            (''execution_surface'', JStr surface),
            (''outcome'', JStr (execution_outcome_value outcome)),
            (''steps'', JArr (map step_document steps)),
            (''plan_digest'', JStr plan_dig),
            (''intent_digest'', JStr intent_dig),
            (''world_digest_before'', JStr before),
            (''world_digest_after'', JStr after),
            (''operator_next_step'', JStr (operator_next_step_value next)),
            (''executed_at'', JStr moment)]
      in \<lparr>er_schema_version = EXECUTION_REPORT_SCHEMA_VERSION, er_instance_id = instance_id,
          er_execution_surface = surface, er_outcome = outcome, er_steps = steps,
          er_plan_digest = plan_dig, er_intent_digest = intent_dig,
          er_world_digest_before = before, er_world_digest_after = after,
          er_operator_next_step = next, er_executed_at = moment,
          er_report_digest = document_digest EXECUTION_REPORT_SCHEMA_VERSION body\<rparr>)"

section \<open>Convergence (execution.py)\<close>

record convergence_verdict =
  cv_schema_version :: string
  cv_state :: convergence_state
  cv_residual_counts_by_kind :: "(string \<times> nat) list"
  cv_reobserved_digest :: string
  cv_report_digest :: string
  cv_operator_next_step :: operator_next_step
  cv_refusal_code :: string
  cv_verdict_digest :: string

definition converged :: "convergence_verdict \<Rightarrow> bool" where
  "converged v \<longleftrightarrow> cv_state v = CS_converged"

definition verdict :: "convergence_state \<Rightarrow> (string \<times> nat) list \<Rightarrow> string \<Rightarrow> string \<Rightarrow> string \<Rightarrow>
    convergence_verdict" where
  "verdict state residual reobserved_dig report_dig code =
     (let next = NEXT_STEP_FOR_CONVERGENCE state;
          body = JObj [
            (''state'', JStr (convergence_state_value state)),
            (''residual_counts_by_kind'', counts_object residual),
            (''reobserved_digest'', JStr reobserved_dig),
            (''report_digest'', JStr report_dig),
            (''operator_next_step'', JStr (operator_next_step_value next)),
            (''refusal_code'', JStr code)]
      in \<lparr>cv_schema_version = CONVERGENCE_VERDICT_SCHEMA_VERSION, cv_state = state,
          cv_residual_counts_by_kind = residual, cv_reobserved_digest = reobserved_dig,
          cv_report_digest = report_dig, cv_operator_next_step = next, cv_refusal_code = code,
          cv_verdict_digest = document_digest CONVERGENCE_VERDICT_SCHEMA_VERSION body\<rparr>)"

text \<open>
  The gate's refusal is caught and becomes a verdict; \<open>classify_drift\<close> runs outside the handler,
  and its refusal would propagate (\<open>verify_convergence_total\<close> shows it cannot happen).
\<close>

definition verify_convergence :: "reconciliation_scope \<Rightarrow> desired_state \<Rightarrow> observed_state \<Rightarrow> datetime \<Rightarrow>
    refusal_code + convergence_verdict" where
  "verify_convergence scope desired reobserved now =
     (case verify_inputs scope desired reobserved now of
        Inl code \<Rightarrow> Inr (verdict CS_unverifiable (map (\<lambda>k. (drift_kind_value k, 0)) DRIFT_KIND_ORDER)
            (observed_state_digest reobserved) '''' (refusal_code_value code))
      | Inr pair \<Rightarrow> bindE (classify_drift pair) (\<lambda>report.
          let counts = counts_by_kind report;
              residual = map (\<lambda>k. (drift_kind_value k, the (map_of counts k))) DRIFT_KIND_ORDER;
              state = (if dr_findings report = [] then CS_converged else CS_drift_remains)
          in Inr (verdict state residual (dr_observed_digest report) (dr_report_digest report) '''')))"

definition residual_kinds :: "convergence_verdict \<Rightarrow> drift_kind list" where
  "residual_kinds v =
     (let present = map fst (filter (\<lambda>(name, count). count \<noteq> 0) (cv_residual_counts_by_kind v)) in
      filter (\<lambda>k. drift_kind_value k \<in> set present) DRIFT_KIND_ORDER)"

section \<open>Evidence (evidence.py)\<close>

definition RECONCILIATION_EVIDENCE_SCHEMA_VERSION :: string where
  "RECONCILIATION_EVIDENCE_SCHEMA_VERSION = ''secp-recon/reconciliation-evidence/v1''"
definition REFUSAL_EVIDENCE_SCHEMA_VERSION :: string where
  "REFUSAL_EVIDENCE_SCHEMA_VERSION = ''secp-recon/reconciliation-refusal-evidence/v1''"

definition PRODUCER_VERSIONS :: "(string \<times> json) list" where
  "PRODUCER_VERSIONS = [(''contract_version'', JStr CONTRACT_VERSION),
     (''classifier_version'', JStr DRIFT_REPORT_SCHEMA_VERSION),
     (''planner_version'', JStr RECONCILIATION_PLAN_SCHEMA_VERSION)]"

definition coded_counts :: "('k \<Rightarrow> string) \<Rightarrow> ('k, nat) dict \<Rightarrow> 'k list \<Rightarrow> json" where
  "coded_counts code counts order = JObj (map (\<lambda>k. (code k, JInt (int (the (map_of counts k))))) order)"

definition evidence_body :: "reconciliation_scope \<Rightarrow> drift_report \<Rightarrow> reconciliation_plan \<Rightarrow> datetime \<Rightarrow>
    (string \<times> json) list" where
  "evidence_body scope report plan evaluated_at = PRODUCER_VERSIONS @ [
     (''outcome'', JStr ''planned''),
     (''instance_id'', JStr (rs_instance_id scope)),
     (''scope_digest'', JStr (scope_digest scope)),
     (''execution_surface'', JStr (rp_execution_surface plan)),
     (''desired_digest'', JStr (rp_desired_digest plan)),
     (''observed_digest'', JStr (rp_observed_digest plan)),
     (''report_digest'', JStr (rp_report_digest plan)),
     (''plan_digest'', JStr (rp_plan_digest plan)),
     (''disposition'', JStr (plan_disposition_value (rp_disposition plan))),
     (''drift_counts_by_kind'', coded_counts drift_kind_value (counts_by_kind report) DRIFT_KIND_ORDER),
     (''drift_counts_by_reason'', coded_counts drift_reason_value (counts_by_reason report) DRIFT_REASON_ORDER),
     (''action_counts'', coded_counts action_kind_value (action_counts plan) ACTION_KIND_ORDER),
     (''action_element_counts'', coded_counts element_kind_value (element_kind_counts plan) ELEMENT_KIND_ORDER),
     (''deferred_count'', JInt (int (length (rp_deferred plan)))),
     (''evaluated_at'', JStr (canonical_utc evaluated_at))]"

definition build_reconciliation_evidence :: "reconciliation_scope \<Rightarrow> drift_report \<Rightarrow> reconciliation_plan \<Rightarrow>
    datetime \<Rightarrow> (string, json) dict" where
  "build_reconciliation_evidence scope report plan evaluated_at =
     (let body = evidence_body scope report plan evaluated_at in
      [(''schema_version'', JStr RECONCILIATION_EVIDENCE_SCHEMA_VERSION)] @ body @
      [(''evidence_digest'', JStr (document_digest RECONCILIATION_EVIDENCE_SCHEMA_VERSION (JObj body)))])"

definition refusal_body :: "reconciliation_scope \<Rightarrow> refusal_code \<Rightarrow> datetime \<Rightarrow> (string \<times> json) list" where
  "refusal_body scope code evaluated_at = PRODUCER_VERSIONS @ [
     (''outcome'', JStr ''refused''),
     (''instance_id'', JStr (rs_instance_id scope)),
     (''scope_digest'', JStr (scope_digest scope)),
     (''refusal_code'', JStr (refusal_code_value code)),
     (''retryable_with_fresh_observation'', JBool (code \<in> set RETRYABLE_WITH_FRESH_OBSERVATION)),
     (''evaluated_at'', JStr (canonical_utc evaluated_at))]"

definition build_refusal_evidence :: "reconciliation_scope \<Rightarrow> refusal_code \<Rightarrow> datetime \<Rightarrow> (string, json) dict" where
  "build_refusal_evidence scope code evaluated_at =
     (let body = refusal_body scope code evaluated_at in
      [(''schema_version'', JStr REFUSAL_EVIDENCE_SCHEMA_VERSION)] @ body @
      [(''evidence_digest'', JStr (document_digest REFUSAL_EVIDENCE_SCHEMA_VERSION (JObj body)))])"

section \<open>Authorization lemmas\<close>

lemma parse_datetime_canonical [simp]:
  "representable (instant d) \<Longrightarrow>
   parse_datetime (canonical_utc d) = Inr \<lparr>wall_us = instant d, utc_offset = Some 0\<rparr>"
  by (simp add: parse_datetime_def fromisoformat_canonical_utc)

lemma instant_utc [simp]: "instant \<lparr>wall_us = t, utc_offset = Some 0\<rparr> = t"
  by (simp add: instant_def)

lemma build_reset_intent_Inr:
  assumes "build_reset_intent plan scope issued_at expires_at = Inr intent"
  shows "instant issued_at < instant expires_at" and "rp_actions plan \<noteq> []"
    and "scope = RS_instance \<Longrightarrow> rp_deferred plan = []"
    and "ri_plan_digest intent = rp_plan_digest plan"
    and "ri_issued_at intent = canonical_utc issued_at" and "ri_expires_at intent = canonical_utc expires_at"
  using assms by (auto simp: build_reset_intent_def Let_def split: if_splits)

lemma verify_reset_intent_iff [refusal_simps]:
  "verify_reset_intent intent plan now = Inr u \<longleftrightarrow> rp_plan_digest plan = plan_digest_of plan \<and>
     ri_plan_digest intent = rp_plan_digest plan \<and>
     (\<exists>issued expires. fromisoformat (ri_issued_at intent) = Some issued \<and>
        fromisoformat (ri_expires_at intent) = Some expires \<and>
        instant issued \<le> instant now \<and> instant now < instant expires)"
  by (auto simp: verify_reset_intent_def refusal_simps parse_datetime_def split: option.splits)

lemma require_execution_authorized_iff [refusal_simps]:
  "require_execution_authorized plan intent now = Inr u \<longleftrightarrow> rp_plan_digest plan = plan_digest_of plan \<and>
     (case intent of None \<Rightarrow> rp_actions plan = [] | Some i \<Rightarrow> verify_reset_intent i plan now = Inr ())"
  by (auto simp: require_execution_authorized_def refusal_simps split: option.splits)

section \<open>Convergence lemmas\<close>

lemma verdict_sel [simp]: "cv_state (verdict s r o' d c) = s" "cv_refusal_code (verdict s r o' d c) = c"
    "cv_residual_counts_by_kind (verdict s r o' d c) = r" "cv_operator_next_step (verdict s r o' d c) = NEXT_STEP_FOR_CONVERGENCE s"
  by (simp_all add: verdict_def Let_def)

lemma refusal_code_value_inject [simp]: "refusal_code_value a = refusal_code_value b \<longleftrightarrow> a = b"
  by (cases a; cases b) simp_all

lemma verify_convergence_total: "\<exists>v. verify_convergence scope desired reobserved now = Inr v"
proof (cases "verify_inputs scope desired reobserved now")
  case (Inr pair)
  then have "require_verified pair = Inr ()" by (rule require_verified_verify)
  then show ?thesis by (auto simp: verify_convergence_def Inr classify_drift_def Let_def)
qed (simp add: verify_convergence_def)

lemma verify_convergence_Inr:
  assumes "verify_inputs scope desired reobserved now = Inr pair"
    and "verify_convergence scope desired reobserved now = Inr v"
  shows "cv_state v = (if aligned (ds_elements desired) (os_elements reobserved) then CS_converged else CS_drift_remains)"
proof -
  have v: "require_verified pair = Inr ()" using assms(1) by (rule require_verified_verify)
  from assms(1) have "distinct (map se_ref (os_elements reobserved))" "vp_desired pair = desired"
      "vp_observed pair = reobserved"
    by (auto simp: verify_inputs_Inr gate_preds)
  moreover obtain report where r: "classify_drift pair = Inr report" using v by (auto simp: classify_drift_Inr)
  ultimately have "dr_findings report = [] \<longleftrightarrow> aligned (ds_elements desired) (os_elements reobserved)"
    by (simp add: classify_drift_Inr raw_findings_empty)
  with assms(2) show ?thesis
    by (auto simp: verify_convergence_def assms(1) r Let_def)
qed

lemma outcome_for_partial: "outcome_for steps = EO_partial \<longleftrightarrow> SS_failed \<in> so_status ` set steps"
  by (auto simp: outcome_for_def list_ex_iff image_iff) metis+

lemma outcome_for_no_op: "outcome_for steps = EO_no_op \<longleftrightarrow> so_status ` set steps \<subseteq> {SS_not_attempted}"
proof -
  have "s = SS_not_attempted \<longleftrightarrow> s \<noteq> SS_failed \<and> s \<noteq> SS_applied" for s by (cases s) simp_all
  then show ?thesis by (auto simp: outcome_for_def list_ex_iff)
qed

lemma build_execution_report_sel [simp]:
  "er_steps (build_execution_report i sf st p n b a t) = st"
  "er_outcome (build_execution_report i sf st p n b a t) = outcome_for st"
  "er_operator_next_step (build_execution_report i sf st p n b a t) = next_step_for st"
  "er_world_digest_before (build_execution_report i sf st p n b a t) = b"
  "er_world_digest_after (build_execution_report i sf st p n b a t) = a"
  "er_plan_digest (build_execution_report i sf st p n b a t) = p"
  by (simp_all add: build_execution_report_def Let_def)

end
