(* ===== verification/Sim_Executor.thy ===== *)
theory Sim_Executor
  imports Recon_Execution
begin

text \<open>
  The simulator's reconciliation executor (\<open>plugins/simulator/.../reconciliation.py\<close>): a pure
  function over an in-memory world. The lemmas describe the step loop (one status per planned
  action, stop at the first failure, frame condition on the world) and prove that a plan made from
  an observation of the world converges it.
\<close>

section \<open>The executor\<close>

definition SIMULATED_WORLD_SCHEMA_VERSION :: string where
  "SIMULATED_WORLD_SCHEMA_VERSION = ''secp-recon/simulated-world/v1''"
definition EXECUTION_SURFACE :: string where
  "EXECUTION_SURFACE = execution_surface_value ES_simulator"

record simulated_element =
  sm_kind :: element_kind
  sm_ref :: string
  sm_facets :: "(facet_name \<times> json) list"

record simulated_world =
  sw_elements :: "simulated_element list"

definition simulated_element_document :: "simulated_element \<Rightarrow> json" where
  "simulated_element_document e = JObj [
     (''kind'', JStr (element_kind_value (sm_kind e))),
     (''ref'', JStr (sm_ref e)),
     (''facets'', JArr (map (\<lambda>(name, value). JArr [JStr (facet_name_value name), value]) (sm_facets e)))]"

definition world_digest :: "simulated_world \<Rightarrow> string" where
  "world_digest world = document_digest SIMULATED_WORLD_SCHEMA_VERSION
     (JObj [(''elements'', JArr (map simulated_element_document (sw_elements world)))])"

text \<open>
  \<open>bool(attachment) and attachment not in present\<close>. The annotation makes the value a string; a
  value of another shape is no key of the world.
\<close>

definition absent_attachment :: "json \<Rightarrow> (string, simulated_element) dict \<Rightarrow> bool" where
  "absent_attachment attachment present = (case attachment of
      JStr s \<Rightarrow> s \<noteq> [] \<and> s \<notin> set (dict_keys present)
    | JNull \<Rightarrow> False | JBool b \<Rightarrow> b | JInt i \<Rightarrow> i \<noteq> 0 | JArr xs \<Rightarrow> xs \<noteq> [] | JObj kvs \<Rightarrow> kvs \<noteq> [])"

definition unsatisfied_dependency :: "state_element \<Rightarrow> (string, simulated_element) dict \<Rightarrow> bool" where
  "unsatisfied_dependency e present =
     (if se_kind e = EK_node
      then (case map_of (facet_map e) FN_network_attachment of
              None \<Rightarrow> False
            | Some attachment \<Rightarrow> absent_attachment attachment present)
      else if se_kind e = EK_edge
      then (case decode_edge_ref (se_ref e) of
              (Some source, Some target) \<Rightarrow>
                source \<notin> set (dict_keys present) \<or> target \<notin> set (dict_keys present)
            | _ \<Rightarrow> True)
      else False)"

definition step_of :: "planned_action \<Rightarrow> step_status \<Rightarrow> step_failure_reason option \<Rightarrow> step_outcome" where
  "step_of action status reason = \<lparr>so_status = status, so_kind = pa_kind action,
     so_element_kind = pa_element_kind action, so_element_ref = pa_element_ref action,
     so_failure_reason = reason\<rparr>"

fun run_actions :: "(string, state_element) dict \<Rightarrow> (string, simulated_element) dict \<Rightarrow> bool \<Rightarrow>
    planned_action list \<Rightarrow> (string, simulated_element) dict \<times> step_outcome list" where
  "run_actions desired_by_ref current stopped [] = (current, [])"
| "run_actions desired_by_ref current stopped (action # actions) =
     (if stopped
      then (case run_actions desired_by_ref current True actions of (current', steps) \<Rightarrow>
        (current', step_of action SS_not_attempted None # steps))
      else
        (case map_of desired_by_ref (pa_element_ref action) of
           None \<Rightarrow> (case run_actions desired_by_ref current True actions of (current', steps) \<Rightarrow>
             (current', step_of action SS_failed (Some SF_element_not_in_desired) # steps))
         | Some source \<Rightarrow>
             if unsatisfied_dependency source current
             then (case run_actions desired_by_ref current True actions of (current', steps) \<Rightarrow>
               (current', step_of action SS_failed (Some SF_dependency_absent) # steps))
             else (case run_actions desired_by_ref
                 (dict_set (pa_element_ref action)
                   \<lparr>sm_kind = se_kind source, sm_ref = se_ref source, sm_facets = se_facets source\<rparr> current)
                 False actions of (current', steps) \<Rightarrow>
               (current', step_of action SS_applied None # steps))))"

definition by_ref :: "state_element list \<Rightarrow> (string, state_element) dict" where
  "by_ref elements = dict_of (map (\<lambda>e. (se_ref e, e)) elements)"

definition world_by_ref :: "simulated_world \<Rightarrow> (string, simulated_element) dict" where
  "world_by_ref world = dict_of (map (\<lambda>e. (sm_ref e, e)) (sw_elements world))"

definition world_of :: "(string, simulated_element) dict \<Rightarrow> simulated_world" where
  "world_of current = \<lparr>sw_elements = map (\<lambda>r. the (map_of current r)) (sort (dict_keys current))\<rparr>"

definition execute :: "reconciliation_scope \<Rightarrow> reconciliation_plan \<Rightarrow> desired_state \<Rightarrow> simulated_world \<Rightarrow>
    reset_intent option \<Rightarrow> datetime \<Rightarrow> exec_error + (simulated_world \<times> execution_report)" where
  "execute scope plan desired world intent now =
     bindE (require_execution_authorized plan intent now) (\<lambda>_.
     bindE (refused (require_planned_under plan scope)) (\<lambda>_.
       if rp_execution_surface plan \<noteq> EXECUTION_SURFACE then Inl (Refused RC_execution_surface_sealed)
       else if desired_state_digest desired \<noteq> rp_desired_digest plan
         then Inl (Refused RC_verification_token_invalid)
       else (case run_actions (by_ref (ds_elements desired)) (world_by_ref world) False (rp_actions plan) of
         (current, steps) \<Rightarrow>
           let next_world = world_of current in
           Inr (next_world, build_execution_report (rp_instance_id plan) (rp_execution_surface plan) steps
             (rp_plan_digest plan) (case intent of Some i \<Rightarrow> ri_intent_digest i | None \<Rightarrow> '''')
             (world_digest world) (world_digest next_world) now))))"

definition observed_element :: "simulated_element \<Rightarrow> state_element" where
  "observed_element e = \<lparr>se_kind = sm_kind e, se_ref = sm_ref e, se_facets = sm_facets e\<rparr>"

definition observe :: "simulated_world \<Rightarrow> string \<Rightarrow> string \<Rightarrow> string \<Rightarrow> datetime \<Rightarrow> observation_fidelity \<Rightarrow>
    observed_state" where
  "observe world instance_id provider collector_dig at fidelity =
     \<lparr>os_instance_id = instance_id, os_provider = provider, os_collector_digest = collector_dig,
      os_observed_at = at, os_fidelity = fidelity, os_elements = map observed_element (sw_elements world)\<rparr>"

section \<open>The step loop\<close>

lemma step_of_sel [simp]: "so_status (step_of a s r) = s" "so_kind (step_of a s r) = pa_kind a"
    "so_element_kind (step_of a s r) = pa_element_kind a" "so_element_ref (step_of a s r) = pa_element_ref a"
    "so_failure_reason (step_of a s r) = r"
  by (simp_all add: step_of_def)

lemma run_actions_stopped [simp]:
  "run_actions D cur True actions = (cur, map (\<lambda>a. step_of a SS_not_attempted None) actions)"
  by (induction actions) simp_all

text \<open>What a run reports: applied steps, then at most one failure, then steps not attempted.\<close>

definition stop_at_first_failure :: "step_outcome list \<Rightarrow> bool" where
  "stop_at_first_failure steps \<longleftrightarrow> (\<exists>k. map so_status steps = replicate k SS_applied \<or>
     (\<exists>j. map so_status steps = replicate k SS_applied @ SS_failed # replicate j SS_not_attempted))"

lemma stop_at_first_failure_Cons: "stop_at_first_failure steps \<Longrightarrow>
    so_status s = SS_applied \<Longrightarrow> stop_at_first_failure (s # steps)"
  unfolding stop_at_first_failure_def by (metis append_Cons list.simps(9) replicate_Suc)

lemma stop_at_first_failure_fail:
  "so_status s = SS_failed \<Longrightarrow> stop_at_first_failure (s # map (\<lambda>a. step_of a SS_not_attempted None) actions)"
  unfolding stop_at_first_failure_def
  by (rule exI [of _ 0], rule disjI2, rule exI [of _ "length actions"])
    (simp add: comp_def map_replicate_const)

lemma run_actions_shape:
  "run_actions D cur False actions = (cur', steps) \<Longrightarrow>
     map (\<lambda>s. (so_kind s, so_element_kind s, so_element_ref s)) steps =
       map (\<lambda>a. (pa_kind a, pa_element_kind a, pa_element_ref a)) actions \<and> stop_at_first_failure steps"
proof (induction actions arbitrary: cur cur' steps)
  case Nil
  then show ?case by (auto simp: stop_at_first_failure_def intro: exI [of _ 0])
next
  case (Cons a actions)
  show ?case
  proof (cases "\<exists>source. map_of D (pa_element_ref a) = Some source \<and> \<not> unsatisfied_dependency source cur")
    case True
    then obtain source where s: "map_of D (pa_element_ref a) = Some source" "\<not> unsatisfied_dependency source cur" by blast
    obtain cur'' steps' where r: "run_actions D (dict_set (pa_element_ref a)
        \<lparr>sm_kind = se_kind source, sm_ref = se_ref source, sm_facets = se_facets source\<rparr> cur) False actions =
        (cur'', steps')" by fastforce
    from Cons.prems s r have "steps = step_of a SS_applied None # steps'" by simp
    with Cons.IH [OF r] show ?thesis by (simp add: stop_at_first_failure_Cons)
  next
    case False
    then obtain reason where "steps = step_of a SS_failed reason # map (\<lambda>a. step_of a SS_not_attempted None) actions"
      using Cons.prems by (auto split: option.splits if_splits)
    then show ?thesis by (simp add: stop_at_first_failure_fail comp_def)
  qed
qed

definition applied_refs :: "step_outcome list \<Rightarrow> string set" where
  "applied_refs steps = so_element_ref ` {s \<in> set steps. so_status s = SS_applied}"

definition realise :: "state_element \<Rightarrow> simulated_element" where
  "realise d = \<lparr>sm_kind = se_kind d, sm_ref = se_ref d, sm_facets = se_facets d\<rparr>"

lemma observed_realise [simp]: "observed_element (realise d) = d"
  by (simp add: observed_element_def realise_def)

lemma applied_refs_Cons: "applied_refs (s # steps) =
    (if so_status s = SS_applied then insert (so_element_ref s) (applied_refs steps) else applied_refs steps)"
  by (auto simp: applied_refs_def)

lemma run_actions_frame:
  "run_actions D cur False actions = (cur', steps) \<Longrightarrow>
     map_of cur' r = (if r \<in> applied_refs steps then map_option realise (map_of D r) else map_of cur r)"
proof (induction actions arbitrary: cur cur' steps)
  case Nil
  then show ?case by (simp add: applied_refs_def)
next
  case (Cons a actions)
  show ?case
  proof (cases "\<exists>source. map_of D (pa_element_ref a) = Some source \<and> \<not> unsatisfied_dependency source cur")
    case True
    then obtain source where s: "map_of D (pa_element_ref a) = Some source" "\<not> unsatisfied_dependency source cur" by blast
    obtain cur'' steps' where r: "run_actions D (dict_set (pa_element_ref a) (realise source) cur) False actions =
        (cur'', steps')" by fastforce
    from Cons.prems s r have *: "steps = step_of a SS_applied None # steps'" "cur' = cur''"
      by (simp_all add: realise_def)
    from Cons.IH [OF r] s * show ?thesis by (auto simp: applied_refs_Cons)
  next
    case False
    then obtain reason where "steps = step_of a SS_failed reason # map (\<lambda>a. step_of a SS_not_attempted None) actions"
      "cur' = cur"
      using Cons.prems by (auto split: option.splits if_splits)
    then show ?thesis by (auto simp: applied_refs_def)
  qed
qed

lemma run_actions_distinct:
  "run_actions D cur b actions = (cur', steps) \<Longrightarrow> distinct (dict_keys cur) \<Longrightarrow> distinct (dict_keys cur')"
proof (induction D cur b actions arbitrary: cur' steps rule: run_actions.induct)
  case (2 D cur b a actions)
  then show ?case by (cases b) (auto split: option.splits if_splits prod.splits)
qed simp

text \<open>When every action finds its element and its prerequisites, every step applies.\<close>

lemma run_actions_all:
  assumes "\<And>pre a post. actions = pre @ a # post \<Longrightarrow> \<exists>source. map_of D (pa_element_ref a) = Some source \<and>
     (\<forall>present. fst ` set present = fst ` set cur \<union> pa_element_ref ` set pre \<longrightarrow> \<not> unsatisfied_dependency source present)"
  shows "\<exists>cur'. run_actions D cur False actions = (cur', map (\<lambda>a. step_of a SS_applied None) actions)"
  using assms
proof (induction actions arbitrary: cur)
  case (Cons a actions)
  from Cons.prems [of "[]" a actions] obtain source where s: "map_of D (pa_element_ref a) = Some source"
    and "\<not> unsatisfied_dependency source cur" by auto
  moreover have "\<exists>cur'. run_actions D (dict_set (pa_element_ref a) (realise source) cur) False actions =
      (cur', map (\<lambda>a. step_of a SS_applied None) actions)"
  proof (rule Cons.IH)
    fix pre b post assume "actions = pre @ b # post"
    then show "\<exists>source'. map_of D (pa_element_ref b) = Some source' \<and>
        (\<forall>present. fst ` set present = fst ` set (dict_set (pa_element_ref a) (realise source) cur) \<union>
           pa_element_ref ` set pre \<longrightarrow> \<not> unsatisfied_dependency source' present)"
      using Cons.prems [of "a # pre" b post] by simp
  qed
  ultimately show ?case by (auto simp: realise_def)
qed simp

section \<open>Worlds\<close>

definition keyed :: "(string, simulated_element) dict \<Rightarrow> bool" where
  "keyed cur \<longleftrightarrow> distinct (dict_keys cur) \<and> (\<forall>k e. map_of cur k = Some e \<longrightarrow> sm_ref e = k)"

lemma map_of_by_ref: "map_of (by_ref D) r = observed_at D r"
  by (simp add: by_ref_def observed_at_def)

lemma keyed_world [simp]: "keyed (world_by_ref world)"
  by (auto simp: keyed_def world_by_ref_def map_of_dict_of dest!: map_of_SomeD)

lemma keys_world [simp]: "fst ` set (world_by_ref world) = sm_ref ` set (sw_elements world)"
  by (simp add: world_by_ref_def image_image)

lemma observed_refs [simp]: "se_ref ` observed_element ` A = sm_ref ` A"
  by (simp add: image_image observed_element_def)

lemma map_of_world:
  "map_option observed_element (map_of (world_by_ref world) r) = observed_at (map observed_element (sw_elements world)) r"
proof -
  have eq: "map (\<lambda>e. (se_ref e, e)) (map observed_element es) = map (\<lambda>(k, v). (k, observed_element v)) (map (\<lambda>e. (sm_ref e, e)) es)" for es
    by (simp add: observed_element_def)
  show ?thesis
    unfolding world_by_ref_def observed_at_def map_of_dict_of eq rev_map map_of_map by simp
qed

lemma keyed_run:
  assumes "run_actions (by_ref D) cur False actions = (cur', steps)" and "keyed cur"
  shows "keyed cur'"
proof -
  have "sm_ref e = r" if "map_of cur' r = Some e" for r e
    using that assms(2) run_actions_frame [OF assms(1), of r] observed_at_ref [of D r]
    by (auto simp: keyed_def map_of_by_ref realise_def split: if_splits)
  then show ?thesis using run_actions_distinct [OF assms(1)] assms(2) by (simp add: keyed_def)
qed

lemma world_of_refs:
  assumes "keyed cur" shows "map sm_ref (sw_elements (world_of cur)) = sort (dict_keys cur)"
proof -
  have "sm_ref (the (map_of cur r)) = r" if "r \<in> set (dict_keys cur)" for r
    using that assms by (metis domIff dom_map_of_conv_image_fst keyed_def list.set_map option.exhaust_sel)
  then show ?thesis unfolding world_of_def by (simp del: set_map) (rule map_idI, simp)
qed

lemma world_of_memb:
  assumes "keyed cur" shows "e \<in> set (sw_elements (world_of cur)) \<longleftrightarrow> map_of cur (sm_ref e) = Some e"
proof
  assume "e \<in> set (sw_elements (world_of cur))"
  then obtain r where "r \<in> set (dict_keys cur)" "e = the (map_of cur r)" by (auto simp: world_of_def)
  then have "map_of cur r = Some e" by (metis domIff dom_map_of_conv_image_fst list.set_map option.collapse)
  with assms show "map_of cur (sm_ref e) = Some e" by (simp add: keyed_def)
next
  assume *: "map_of cur (sm_ref e) = Some e"
  then have "sm_ref e \<in> set (dict_keys cur)" by (metis domI dom_map_of_conv_image_fst list.set_map)
  with * show "e \<in> set (sw_elements (world_of cur))"
    by (simp add: world_of_def) (metis (no_types, lifting) image_image image_iff option.sel)
qed

lemma world_of_by_ref [simp]:
  assumes "keyed cur" shows "map_of (world_by_ref (world_of cur)) = map_of cur"
proof
  fix r
  have "distinct (map sm_ref (sw_elements (world_of cur)))" using assms by (simp add: world_of_refs keyed_def)
  then have "map_of (world_by_ref (world_of cur)) r = Some e \<longleftrightarrow> map_of cur r = Some e" for e
    unfolding world_by_ref_def using assms world_of_memb [OF assms, of e]
    by (subst map_of_dict_of_distinct) (auto simp: comp_def keyed_def simp del: map_of_eq_Some_iff simp: map_of_map_self_iff)
  then show "map_of (world_by_ref (world_of cur)) r = map_of cur r"
    by (cases "map_of cur r"; cases "map_of (world_by_ref (world_of cur)) r") auto
qed

lemma world_of_cong:
  assumes "map_of cur = map_of cur'" and "keyed cur" and "keyed cur'"
  shows "world_of cur = world_of cur'"
proof -
  have "set (dict_keys cur) = set (dict_keys cur')"
    using assms(1) by (metis dom_map_of_conv_image_fst list.set_map)
  then have "sort (dict_keys cur) = sort (dict_keys cur')"
    using assms(2,3) by (metis keyed_def sorted_list_of_set_sort_remdups distinct_remdups_id)
  with assms(1) show ?thesis by (simp add: world_of_def)
qed

text \<open>Executing nothing on a world the executor produced gives the same world back.\<close>

lemma world_of_world_of: "keyed cur \<Longrightarrow> world_of (world_by_ref (world_of cur)) = world_of cur"
  by (rule world_of_cong) simp_all

section \<open>Prerequisites are planned first\<close>

text \<open>
  A declared network attachment names a declared network. The verification gate does not check
  this; \<open>unresolved_attachment_fails\<close> in the root theory shows what happens without it.
\<close>

definition attachments_resolve :: "state_element list \<Rightarrow> bool" where
  "attachments_resolve D \<longleftrightarrow> list_all (\<lambda>d. se_kind d = EK_node \<longrightarrow>
     (case facet_of d FN_network_attachment of
        Some (JStr s) \<Rightarrow> s = [] \<or> list_ex (\<lambda>n. se_kind n = EK_network \<and> se_ref n = s) D
      | _ \<Rightarrow> True)) D"

lemma sort_key_earlier:
  assumes "sort_key f xs = pre @ a # post" and "x \<in> set xs" and "f x < f a"
  shows "x \<in> set pre"
proof -
  have "sorted (map f (pre @ a # post))" by (metis assms(1) sorted_sort_key)
  then have "\<forall>y \<in> set (a # post). f a \<le> f y" by (auto simp: sorted_append)
  moreover have "x \<in> set (pre @ a # post)" by (metis assms(1,2) set_sort)
  ultimately show ?thesis using assms(3) by (metis Un_iff leD set_append)
qed

lemma prerequisite_present:
  assumes actions: "sort_key action_sort_key (required_actions D Obs) = pre @ a # post"
    and e: "e \<in> set D" "element_kinds.rank (se_kind e) < element_kinds.rank (pa_element_kind a)"
  shows "se_ref e \<in> se_ref ` set Obs \<union> pa_element_ref ` set pre"
proof (cases "observed_at Obs (se_ref e)")
  case None
  let ?c = "\<lparr>pa_kind = AK_create, pa_element_kind = se_kind e, pa_element_ref = se_ref e, pa_reasons = [DR_element_absent]\<rparr>"
  have "?c \<in> set (required_actions D Obs)"
    unfolding required_actions_memb by (rule bexI [OF _ e(1)]) (simp add: required_action_def None)
  moreover have "action_sort_key ?c < action_sort_key a"
    using e(2) by (cases "pa_kind a") (simp_all add: action_sort_key_def less_prod_def element_kinds.rank_def ACTION_KIND_ORDER_def)
  ultimately have "?c \<in> set pre" by (rule sort_key_earlier [OF actions])
  then have "pa_element_ref ?c \<in> pa_element_ref ` set pre" by (rule imageI)
  then show ?thesis by simp
next
  case (Some obs)
  then have "obs \<in> set Obs" "se_ref obs = se_ref e" by (auto dest: observed_at_ref)
  then show ?thesis by (metis UnI1 image_eqI)
qed

lemma element_kind_ranks [simp]: "element_kinds.rank EK_network = 0" "element_kinds.rank EK_node = 1"
    "element_kinds.rank EK_edge = 2"
  unfolding element_kinds.rank_def by (simp_all add: ELEMENT_KIND_ORDER_def)

lemma is_str_facet:
  assumes "wf_element d" and "facet_of d f = Some v" shows "\<exists>s. v = JStr s"
proof -
  from assms have "(f, v) \<in> set (se_facets d)"
    by (auto simp: facet_of_def facet_map_def map_of_dict_of dest!: map_of_SomeD)
  with assms(1) show ?thesis by (auto simp: wf_element_def string_facets_def intro!: is_strE)
qed

lemma dependency_satisfied:
  assumes wf: "wf_elements D" and att: "attachments_resolve D"
    and actions: "sort_key action_sort_key (required_actions D Obs) = pre @ a # post"
    and d: "d \<in> set D" "pa_element_kind a = se_kind d"
    and present: "fst ` set present = se_ref ` set Obs \<union> pa_element_ref ` set pre"
  shows "\<not> unsatisfied_dependency d present"
proof (cases "se_kind d")
  case EK_network
  then show ?thesis by (simp add: unsatisfied_dependency_def)
next
  case EK_node
  show ?thesis
  proof (cases "facet_of d FN_network_attachment")
    case None
    with EK_node show ?thesis by (simp add: unsatisfied_dependency_def facet_of_def)
  next
    case (Some v)
    from wf d(1) have "wf_element d" by (simp add: wf_elements_def list_all_iff)
    from is_str_facet [OF this Some] obtain s where v: "v = JStr s" by blast
    from att d(1) EK_node have "case facet_of d FN_network_attachment of
        Some (JStr s) \<Rightarrow> s = [] \<or> list_ex (\<lambda>n. se_kind n = EK_network \<and> se_ref n = s) D | _ \<Rightarrow> True"
      unfolding attachments_resolve_def list_all_iff by blast
    with Some v have "s = [] \<or> (\<exists>n \<in> set D. se_kind n = EK_network \<and> se_ref n = s)"
      by (simp add: list_ex_iff)
    moreover have "se_ref n \<in> fst ` set present" if "n \<in> set D" "se_kind n = EK_network" for n
      unfolding present by (rule prerequisite_present [OF actions that(1)]) (use that EK_node d in simp)
    ultimately have "s = [] \<or> s \<in> fst ` set present" by blast
    with Some v EK_node show ?thesis
      by (auto simp: unsatisfied_dependency_def facet_of_def absent_attachment_def)
  qed
next
  case EK_edge
  have "\<not> dangling_edge (map (\<lambda>e. (se_kind e, se_ref e)) D) d"
    using wf d(1) by (simp add: wf_elements_def dangling_edges_def list_ex_iff Let_def)
  then obtain src tgt where dec: "decode_edge_ref (se_ref d) = (Some src, Some tgt)"
    and ends: "endpoint_present src (map (\<lambda>e. (se_kind e, se_ref e)) D)" "endpoint_present tgt (map (\<lambda>e. (se_kind e, se_ref e)) D)"
    using EK_edge unfolding dangling_edge_def by (auto split: prod.splits option.splits)
  have "r \<in> fst ` set present" if "endpoint_present r (map (\<lambda>e. (se_kind e, se_ref e)) D)" for r
  proof -
    from that obtain e where e: "e \<in> set D" "se_ref e = r" "se_kind e = EK_node \<or> se_kind e = EK_network"
      by (auto simp: endpoint_present_def)
    have "se_ref e \<in> se_ref ` set Obs \<union> pa_element_ref ` set pre"
      by (rule prerequisite_present [OF actions e(1)]) (use e EK_edge d in auto)
    with e present show ?thesis by simp
  qed
  with ends dec EK_edge show ?thesis by (simp add: unsatisfied_dependency_def)
qed

section \<open>Convergence\<close>

lemma dangling_edges_cong:
  assumes "(\<lambda>e. (se_kind e, se_ref e)) ` set es = (\<lambda>e. (se_kind e, se_ref e)) ` set fs"
  shows "dangling_edges es = dangling_edges fs"
proof -
  define dang where "dang P k r = (if k \<noteq> EK_edge then False else (case decode_edge_ref r of
      (Some source, Some target) \<Rightarrow> \<not> endpoint_present source P \<or> \<not> endpoint_present target P | _ \<Rightarrow> True))"
    for P k r
  have eq: "dangling_edge P e = dang P (se_kind e) (se_ref e)" for P e
    by (simp add: dangling_edge_def dang_def)
  have ends: "endpoint_present r (map (\<lambda>e. (se_kind e, se_ref e)) es) = endpoint_present r (map (\<lambda>e. (se_kind e, se_ref e)) fs)" for r
    unfolding endpoint_present_def set_map assms ..
  have P: "dang (map (\<lambda>e. (se_kind e, se_ref e)) es) = dang (map (\<lambda>e. (se_kind e, se_ref e)) fs)"
    by (intro ext) (simp only: dang_def ends)
  have ex: "(\<exists>e \<in> set xs. dang Q (se_kind e) (se_ref e)) \<longleftrightarrow>
      (\<exists>p \<in> (\<lambda>e. (se_kind e, se_ref e)) ` set xs. dang Q (fst p) (snd p))" for Q xs by simp
  show ?thesis unfolding dangling_edges_def Let_def list_ex_iff eq P ex assms ..
qed

text \<open>The element a desired reference denotes after every planned action applied.\<close>

definition settled :: "state_element list \<Rightarrow> state_element \<Rightarrow> state_element" where
  "settled Obs d = (case required_action Obs d of Some _ \<Rightarrow> d | None \<Rightarrow> the (observed_at Obs (se_ref d)))"

lemma settled_agrees:
  assumes "\<not> conflicting Obs d" and "\<not> unevidenced Obs d"
  shows "agrees d (settled Obs d) \<and> se_ref (settled Obs d) = se_ref d \<and> (settled Obs d = d \<or> settled Obs d \<in> set Obs)"
proof (cases "required_action Obs d")
  case (Some a)
  then show ?thesis by (simp add: settled_def agrees_def)
next
  case None
  then obtain obs where obs: "observed_at Obs (se_ref d) = Some obs"
    by (auto simp: required_action_def split: option.splits)
  with None have no: "\<not> disagrees d obs f" if "f \<in> set (facets_of_kind (se_kind d))" for f
    using that by (auto simp: required_action_def filter_empty_conv split: list.splits)
  from obs assms have si: "\<not> silent d obs f" if "f \<in> set (facets_of_kind (se_kind d))" for f
    using that by (auto simp: conflicting_def unevidenced_def list_ex_iff)
  have "facet_of d f = None \<or> facet_of obs f = facet_of d f" if "f \<in> set (facets_of_kind (se_kind d))" for f
    using no [OF that] si [OF that] by (auto simp: disagrees_def silent_def)
  moreover have "se_kind obs = se_kind d" using assms(1) obs by (simp add: conflicting_def)
  ultimately have "agrees d obs" by (simp add: agrees_def)
  with None obs observed_at_ref [OF obs] show ?thesis by (simp add: settled_def)
qed

lemma map_of_by_ref_desired: "distinct (map se_ref D) \<Longrightarrow> d \<in> set D \<Longrightarrow> map_of (by_ref D) (se_ref d) = Some d"
  by (simp add: map_of_by_ref observed_at_Some)

text \<open>One planned run on the observed world.\<close>

lemma planned_run:
  assumes wf: "wf_elements D" and att: "attachments_resolve D"
    and obs: "Obs = map observed_element (sw_elements world)" "distinct (map se_ref Obs)"
    and ok: "\<not> list_ex (conflicting Obs) D" "\<not> list_ex (unevidenced Obs) D"
    and no_extra: "se_ref ` set Obs \<subseteq> se_ref ` set D"
    and run: "actions = sort_key action_sort_key (required_actions D Obs)"
  obtains cur' where "run_actions (by_ref D) (world_by_ref world) False actions =
      (cur', map (\<lambda>a. step_of a SS_applied None) actions)"
    and "keyed cur'" and "set (map observed_element (sw_elements (world_of cur'))) = settled Obs ` set D"
proof -
  have dist: "distinct (map se_ref D)" using wf by (simp add: wf_elements_def)
  have keys: "fst ` set (world_by_ref world) = se_ref ` set Obs" using obs(1) by simp
  have acts: "set actions = set (required_actions D Obs)" unfolding run by simp
  have "\<exists>cur'. run_actions (by_ref D) (world_by_ref world) False actions = (cur', map (\<lambda>a. step_of a SS_applied None) actions)"
  proof (rule run_actions_all)
    fix pre a post assume split: "actions = pre @ a # post"
    then have "a \<in> set (required_actions D Obs)" using acts by auto
    then obtain d where d: "d \<in> set D" "required_action Obs d = Some a" by (auto simp: required_actions_memb)
    note tgt = required_action_target [OF d(2)]
    have "\<not> unsatisfied_dependency d present"
      if "fst ` set present = fst ` set (world_by_ref world) \<union> pa_element_ref ` set pre" for present
      using dependency_satisfied [OF wf att split [unfolded run] d(1)] tgt that keys by simp
    with tgt map_of_by_ref_desired [OF dist d(1)]
    show "\<exists>source. map_of (by_ref D) (pa_element_ref a) = Some source \<and>
        (\<forall>present. fst ` set present = fst ` set (world_by_ref world) \<union> pa_element_ref ` set pre \<longrightarrow>
          \<not> unsatisfied_dependency source present)" by auto
  qed
  then obtain cur' where r: "run_actions (by_ref D) (world_by_ref world) False actions =
      (cur', map (\<lambda>a. step_of a SS_applied None) actions)" by blast
  have keyed: "keyed cur'" by (rule keyed_run [OF r keyed_world])
  have touched: "applied_refs (map (\<lambda>a. step_of a SS_applied None) actions) = pa_element_ref ` set actions"
  proof -
    have "{s \<in> set (map (\<lambda>a. step_of a SS_applied None) actions). so_status s = SS_applied} =
        (\<lambda>a. step_of a SS_applied None) ` set actions" by auto
    then show ?thesis by (simp add: applied_refs_def image_image)
  qed
  have at: "map_option observed_element (map_of cur' (se_ref d)) = Some (settled Obs d)" if d: "d \<in> set D" for d
  proof (cases "required_action Obs d")
    case None
    have "se_ref d \<notin> pa_element_ref ` set actions"
    proof
      assume "se_ref d \<in> pa_element_ref ` set actions"
      then obtain d' a where "d' \<in> set D" "required_action Obs d' = Some a" "pa_element_ref a = se_ref d"
        by (auto simp: acts required_actions_memb)
      then have "d' = d" using required_action_target dist d by (metis distinct_map inj_onD)
      with None show False using \<open>required_action Obs d' = Some a\<close> by simp
    qed
    then have "map_of cur' (se_ref d) = map_of (world_by_ref world) (se_ref d)"
      using run_actions_frame [OF r, of "se_ref d"] touched by simp
    moreover from None have "observed_at Obs (se_ref d) \<noteq> None"
      by (auto simp: required_action_def split: option.splits)
    ultimately show ?thesis using map_of_world [of world "se_ref d"] obs(1) None by (auto simp: settled_def)
  next
    case (Some a)
    then have "a \<in> set actions" using d by (auto simp: acts required_actions_memb)
    then have "se_ref d \<in> pa_element_ref ` set actions" using required_action_target [OF Some] by (metis image_eqI)
    then have "map_of cur' (se_ref d) = Some (realise d)"
      using run_actions_frame [OF r, of "se_ref d"] touched map_of_by_ref_desired [OF dist d] by simp
    then show ?thesis using Some by (simp add: settled_def)
  qed
  have dom: "r \<in> se_ref ` set D" if "map_of cur' r = Some e" for r e
  proof (cases "r \<in> pa_element_ref ` set actions")
    case True
    then show ?thesis using required_action_target by (fastforce simp: acts required_actions_memb)
  next
    case False
    then have "map_of (world_by_ref world) r = Some e" using run_actions_frame [OF r, of r] touched that by simp
    then have "r \<in> se_ref ` set Obs" using keys by (metis domI dom_map_of_conv_image_fst)
    with no_extra show ?thesis by blast
  qed
  have "set (map observed_element (sw_elements (world_of cur'))) = settled Obs ` set D"
  proof (intro equalityI subsetI)
    fix x assume "x \<in> set (map observed_element (sw_elements (world_of cur')))"
    then obtain e where e: "x = observed_element e" "map_of cur' (sm_ref e) = Some e"
      using world_of_memb [OF keyed] by auto
    from dom [OF e(2)] obtain d where "d \<in> set D" "sm_ref e = se_ref d" by auto
    with at e show "x \<in> settled Obs ` set D" by (metis image_eqI option.sel option.simps(9))
  next
    fix x assume "x \<in> settled Obs ` set D"
    then obtain d where d: "d \<in> set D" "x = settled Obs d" by blast
    with at [OF d(1)] obtain e where e: "map_of cur' (se_ref d) = Some e" "observed_element e = x" by auto
    with keyed have "e \<in> set (sw_elements (world_of cur'))" by (simp add: world_of_memb keyed_def)
    with e(2) show "x \<in> set (map observed_element (sw_elements (world_of cur')))" by auto
  qed
  with that r keyed show ?thesis by blast
qed

text \<open>
  The re-observation of a settled world passes the element checks of the gate and is aligned with
  the desired state.
\<close>

lemma settled_world:
  assumes wf: "wf_elements D" "wf_elements Obs"
    and ok: "\<not> list_ex (conflicting Obs) D" "\<not> list_ex (unevidenced Obs) D"
    and new: "set New = settled Obs ` set D" "distinct (map se_ref New)"
  shows "wf_elements New" and "aligned D New"
proof -
  have ag: "agrees d (settled Obs d) \<and> se_ref (settled Obs d) = se_ref d \<and>
      (settled Obs d = d \<or> settled Obs d \<in> set Obs)" if "d \<in> set D" for d
    by (rule settled_agrees) (use ok that in \<open>auto simp: list_ex_iff\<close>)
  have "list_all wf_element New"
    using new(1) ag wf by (auto simp: wf_elements_def list_all_iff) metis+
  moreover have "(\<lambda>e. (se_kind e, se_ref e)) ` set New = (\<lambda>e. (se_kind e, se_ref e)) ` set D"
    unfolding new(1) image_image by (rule image_cong) (use ag in \<open>auto simp: agrees_def\<close>)
  then have "\<not> dangling_edges New" using wf(1) dangling_edges_cong [of New D] by (simp add: wf_elements_def)
  ultimately show "wf_elements New" using new(2) by (simp add: wf_elements_def)
  have "se_ref ` set New = se_ref ` set D"
    unfolding new(1) image_image by (rule image_cong) (use ag in auto)
  then show "aligned D New" unfolding aligned_def new(1) using ag by blast
qed

lemma deferred_elements_empty: "deferred_elements D Obs = [] \<longleftrightarrow> se_ref ` set Obs \<subseteq> se_ref ` set D"
  by (auto simp: deferred_elements_def extra_elements_def filter_empty_conv)

lemma aligned_no_drift:
  assumes "aligned D Obs" and "distinct (map se_ref Obs)"
  shows "required_actions D Obs = []" and "deferred_elements D Obs = []"
    and "\<not> list_ex (conflicting Obs) D" and "\<not> list_ex (unevidenced Obs) D"
proof -
  have at: "\<exists>obs. observed_at Obs (se_ref d) = Some obs \<and> agrees d obs" if "d \<in> set D" for d
    using assms that unfolding aligned_def by (metis observed_at_Some)
  have "required_action Obs d = None \<and> \<not> conflicting Obs d \<and> \<not> unevidenced Obs d" if d: "d \<in> set D" for d
  proof -
    from at [OF d] obtain obs where o: "observed_at Obs (se_ref d) = Some obs" "agrees d obs" by blast
    then have "filter (disagrees d obs) (facets_of_kind (se_kind d)) = []"
      by (auto simp: filter_empty_conv agrees_def disagrees_def)
    with o show ?thesis
      by (auto simp: required_action_def conflicting_def unevidenced_def agrees_def list_ex_iff silent_def)
  qed
  then show "required_actions D Obs = []" "\<not> list_ex (conflicting Obs) D" "\<not> list_ex (unevidenced Obs) D"
    by (auto simp: required_actions_def List.map_filter_def list_ex_iff filter_empty_conv)
  show "deferred_elements D Obs = []" using assms(1) by (simp add: deferred_elements_empty aligned_def)
qed

section \<open>The reconciliation cycle\<close>

lemma observe_sel [simp]: "os_elements (observe w i p c t f) = map observed_element (sw_elements w)"
    "os_instance_id (observe w i p c t f) = i" "os_provider (observe w i p c t f) = p"
    "os_collector_digest (observe w i p c t f) = c" "os_observed_at (observe w i p c t f) = t"
    "os_fidelity (observe w i p c t f) = f"
  by (simp_all add: observe_def)

lemma execute_Inr [refusal_simps]:
  "execute scope plan desired world intent now = Inr (world', er) \<longleftrightarrow>
     require_execution_authorized plan intent now = Inr () \<and> require_planned_under plan scope = Inr () \<and>
     rp_execution_surface plan = EXECUTION_SURFACE \<and> desired_state_digest desired = rp_desired_digest plan \<and>
     (\<exists>cur steps. run_actions (by_ref (ds_elements desired)) (world_by_ref world) False (rp_actions plan) = (cur, steps) \<and>
        world' = world_of cur \<and> er = build_execution_report (rp_instance_id plan) (rp_execution_surface plan) steps
             (rp_plan_digest plan) (case intent of Some i \<Rightarrow> ri_intent_digest i | None \<Rightarrow> '''')
             (world_digest world) (world_digest world') now)"
  by (auto simp: execute_def bindE_Inr guard_Inr refused_Inr Let_def split: prod.splits)

lemma execute_planned:
  assumes plan: "plan_from_states scope desired (observe world i p c t OF_complete) now = Inr (pair, report, plan)"
    and clean: "rp_deferred plan = []" and att: "attachments_resolve (ds_elements desired)"
    and auth: "require_execution_authorized plan intent now' = Inr ()"
  obtains world' er where "execute scope plan desired world intent now' = Inr (world', er)"
    and "map so_status (er_steps er) = replicate (length (rp_actions plan)) SS_applied"
    and "wf_elements (map observed_element (sw_elements world'))"
    and "aligned (ds_elements desired) (map observed_element (sw_elements world'))"
    and "world_of (world_by_ref world') = world'"
proof -
  let ?Obs = "map observed_element (sw_elements world)"
  note p = plan_from_states_Inr [OF plan, unfolded observe_sel]
  have wf: "wf_scope scope" "wf_elements (ds_elements desired)" "wf_elements ?Obs"
    and pair: "vp_scope pair = scope" "vp_desired pair = desired"
    using p(1) by (auto simp: verify_inputs_Inr wf_desired_def wf_observed_def)
  from p(5) clean have extra: "se_ref ` set ?Obs \<subseteq> se_ref ` set (ds_elements desired)"
    by (simp add: deferred_elements_empty)
  have acts: "rp_actions plan = sort_key action_sort_key (required_actions (ds_elements desired) ?Obs)"
    using p(5) by simp
  have dist: "distinct (map se_ref ?Obs)" using wf(3) by (simp add: wf_elements_def)
  obtain cur where run: "run_actions (by_ref (ds_elements desired)) (world_by_ref world) False (rp_actions plan) =
      (cur, map (\<lambda>a. step_of a SS_applied None) (rp_actions plan))"
    and cur: "keyed cur" and new: "set (map observed_element (sw_elements (world_of cur))) = settled ?Obs ` set (ds_elements desired)"
    using planned_run [OF wf(2) att refl dist p(3,4) extra acts] by blast
  have "map se_ref (map observed_element (sw_elements (world_of cur))) = sort (dict_keys cur)"
    using world_of_refs [OF cur] by (simp add: comp_def observed_element_def)
  then have "distinct (map se_ref (map observed_element (sw_elements (world_of cur))))"
    using cur by (simp only: distinct_sort keyed_def)
  note settled = settled_world [OF wf(2,3) p(3,4) new this]
  have "require_planned_under plan scope = Inr ()" "rp_execution_surface plan = EXECUTION_SURFACE"
      "desired_state_digest desired = rp_desired_digest plan"
    using p(5,6) wf(1) by (simp_all add: refusal_simps pair wf_scope_def EXECUTION_SURFACE_def)
  with auth run have "\<exists>er. execute scope plan desired world intent now' = Inr (world_of cur, er) \<and>
      er_steps er = map (\<lambda>a. step_of a SS_applied None) (rp_actions plan)"
    by (simp add: execute_Inr)
  then obtain er where "execute scope plan desired world intent now' = Inr (world_of cur, er)"
      "er_steps er = map (\<lambda>a. step_of a SS_applied None) (rp_actions plan)" by blast
  with that settled world_of_world_of [OF cur] show ?thesis by (simp add: comp_def map_replicate_const)
qed

lemma reobserve_verified:
  assumes "wf_scope scope" and "wf_desired scope desired"
    and "wf_elements (map observed_element (sw_elements world))" and "is_content_digest c"
    and "- 60000000 \<le> instant now - instant t"
    and "instant now - instant t \<le> rs_observation_max_age_seconds scope * 1000000"
  shows "\<exists>pair. verify_inputs scope desired (observe world (rs_instance_id scope) (rs_provider scope) c t OF_complete) now = Inr pair"
  using assms by (simp add: verify_inputs_Inr wf_observed_def)

text \<open>Once the observation is aligned, planning finds nothing to do and executing that plan is a no-op.\<close>

lemma aligned_plan:
  assumes v: "verify_inputs scope desired observed now = Inr pair"
    and al: "aligned (ds_elements desired) (os_elements observed)"
  obtains report plan where "plan_from_states scope desired observed now = Inr (pair, report, plan)"
    and "rp_actions plan = []" and "rp_deferred plan = []" and "rp_disposition plan = PD_converged"
proof -
  have dist: "distinct (map se_ref (os_elements observed))" and bud: "0 \<le> rs_max_actions scope"
    using v by (auto simp: verify_inputs_Inr gate_preds)
  obtain report where r: "classify_drift pair = Inr report"
    using require_verified_verify [OF v] by (auto simp: classify_drift_Inr)
  note no_drift = aligned_no_drift [OF al dist]
  have "plan_from_states scope desired observed now = Inr (pair, report, assemble_plan pair report [] [])"
    unfolding plan_from_states_refines [OF v] Let_def no_drift using no_drift(3,4) bud r by simp
  then show ?thesis by (rule that) (simp_all add: disposition_of_def)
qed

end
