(* ===== verification/Recon_Example.thy ===== *)
theory Recon_Example
  imports Sim_Executor
begin

text \<open>
  A small concrete reconciliation on which the properties are exercised: a desired network, a node
  attached to it and an edge between the two, against a world that holds only the network, under
  another name.
\<close>

definition ex_scope :: reconciliation_scope where
  "ex_scope = \<lparr>rs_instance_id = ''i1'', rs_provider = ''sim'', rs_execution_surface = ''simulator'',
     rs_max_actions = 5, rs_observation_max_age_seconds = 300, rs_contract_version = CONTRACT_VERSION\<rparr>"

definition ex_net :: state_element where
  "ex_net = \<lparr>se_kind = EK_network, se_ref = ''net'', se_facets = [(FN_name, JStr ''lan'')]\<rparr>"

definition ex_node :: state_element where
  "ex_node = \<lparr>se_kind = EK_node, se_ref = ''web'',
     se_facets = [(FN_name, JStr ''web''), (FN_network_attachment, JStr ''net'')]\<rparr>"

definition ex_edge :: state_element where
  "ex_edge = \<lparr>se_kind = EK_edge, se_ref = ''web->net|member'', se_facets = []\<rparr>"

definition ex_desired :: desired_state where
  "ex_desired = \<lparr>ds_instance_id = ''i1'', ds_definition_digest = sha256_digest ''definition'',
     ds_elements = [ex_net, ex_node, ex_edge]\<rparr>"

definition ex_world :: simulated_world where
  "ex_world = \<lparr>sw_elements = [\<lparr>sm_kind = EK_network, sm_ref = ''net'', sm_facets = [(FN_name, JStr ''old'')]\<rparr>]\<rparr>"

definition at_second :: "int \<Rightarrow> datetime" where
  "at_second s = \<lparr>wall_us = s * 1000000, utc_offset = None\<rparr>"

definition ex_observation :: observed_state where
  "ex_observation = observe ex_world ''i1'' ''sim'' (sha256_digest ''collector'') (at_second 1000) OF_complete"

lemma instant_at_second [simp]: "instant (at_second s) = s * 1000000"
  by (simp add: instant_def at_second_def)

lemma ex_representable [simp]: "representable 1000000000" "representable 2000000000"
  by (simp_all add: representable_def us_per_day_def)

lemma ex_parse [simp]: "fromisoformat (canonical_utc (at_second 1000)) = Some \<lparr>wall_us = 1000000000, utc_offset = Some 0\<rparr>"
    "fromisoformat (canonical_utc (at_second 2000)) = Some \<lparr>wall_us = 2000000000, utc_offset = Some 0\<rparr>"
  by (simp_all add: fromisoformat_canonical_utc)

lemmas ex_elements = ex_net_def ex_node_def ex_edge_def

lemma ex_edge_decodes: "decode_edge_ref ''web->net|member'' = (Some ''web'', Some ''net'')"
  by code_simp

lemma ex_wf_desired: "wf_elements (ds_elements ex_desired)"
  by (simp add: wf_elements_def ex_desired_def ex_elements wf_element_def string_facets_def is_str_def
      facets_of_kind_def FACETS_BY_ELEMENT_KIND_def dangling_edges_def dangling_edge_def ex_edge_decodes
      endpoint_present_def Let_def)

lemma ex_observed_elements: "os_elements ex_observation =
    [\<lparr>se_kind = EK_network, se_ref = ''net'', se_facets = [(FN_name, JStr ''old'')]\<rparr>]"
  by (simp add: ex_observation_def observe_def ex_world_def observed_element_def)

lemma ex_wf_observed: "wf_elements (os_elements ex_observation)"
  by (simp add: wf_elements_def ex_observed_elements wf_element_def string_facets_def is_str_def
      facets_of_kind_def FACETS_BY_ELEMENT_KIND_def dangling_edges_def dangling_edge_def Let_def)

definition ex_pair :: verified_pair where
  "ex_pair = \<lparr>vp_scope = ex_scope, vp_desired = ex_desired, vp_observed = ex_observation,
     vp_evaluated_at = at_second 1010,
     vp_verification_digest = verification_digest ex_scope ex_desired ex_observation (at_second 1010)\<rparr>"

lemma ex_verified: "verify_inputs ex_scope ex_desired ex_observation (at_second 1010) = Inr ex_pair"
  using ex_wf_desired ex_wf_observed
  by (simp add: verify_inputs_Inr wf_scope_def wf_desired_def wf_observed_def ex_pair_def ex_scope_def
      ex_observation_def observe_def) (simp add: ex_desired_def)

lemma ex_at: "observed_at (os_elements ex_observation) r =
    (if r = ''net'' then Some \<lparr>se_kind = EK_network, se_ref = ''net'', se_facets = [(FN_name, JStr ''old'')]\<rparr> else None)"
  by (simp add: ex_observed_elements observed_at_def dict_of_def)

lemmas ex_facets = facet_of_def facet_map_def dict_of_def facets_of_kind_def FACETS_BY_ELEMENT_KIND_def

lemma ex_no_conflict: "\<not> list_ex (conflicting (os_elements ex_observation)) (ds_elements ex_desired)"
  by (simp add: conflicting_def ex_desired_def ex_elements ex_at)

lemma ex_evidenced: "\<not> list_ex (unevidenced (os_elements ex_observation)) (ds_elements ex_desired)"
  by (simp add: unevidenced_def ex_desired_def ex_elements ex_at silent_def ex_facets)

lemma ex_required: "required_actions (ds_elements ex_desired) (os_elements ex_observation) =
   [\<lparr>pa_kind = AK_update, pa_element_kind = EK_network, pa_element_ref = ''net'', pa_reasons = [DR_facet_name_mismatch]\<rparr>,
    \<lparr>pa_kind = AK_create, pa_element_kind = EK_node, pa_element_ref = ''web'', pa_reasons = [DR_element_absent]\<rparr>,
    \<lparr>pa_kind = AK_create, pa_element_kind = EK_edge, pa_element_ref = ''web->net|member'', pa_reasons = [DR_element_absent]\<rparr>]"
  by (simp add: required_actions_def List.map_filter_simps required_action_def ex_desired_def ex_elements
      ex_at disagrees_def ex_facets)

lemma ex_deferred: "deferred_elements (ds_elements ex_desired) (os_elements ex_observation) = []"
  by (simp add: deferred_elements_def extra_elements_def ex_observed_elements ex_desired_def ex_elements)

definition ex_report :: drift_report where
  "ex_report = projr (classify_drift ex_pair)"

lemma ex_classified: "classify_drift ex_pair = Inr ex_report"
proof -
  obtain r where "classify_drift ex_pair = Inr r"
    using require_verified_verify [OF ex_verified] by (auto simp: classify_drift_Inr)
  then show ?thesis by (simp add: ex_report_def)
qed

definition ex_plan :: reconciliation_plan where
  "ex_plan = assemble_plan ex_pair ex_report
     (sort_key action_sort_key (required_actions (ds_elements ex_desired) (os_elements ex_observation))) []"

lemma ex_planned: "plan_from_states ex_scope ex_desired ex_observation (at_second 1010) =
    Inr (ex_pair, ex_report, ex_plan)"
  unfolding plan_from_states_refines [OF ex_verified] Let_def
  by (simp add: ex_no_conflict ex_evidenced ex_classified ex_plan_def ex_deferred)
    (simp add: ex_required ex_scope_def)

lemma ex_plan_actions: "rp_actions ex_plan \<noteq> []" "rp_deferred ex_plan = []"
  by (simp_all add: ex_plan_def ex_required)

lemma ex_attachments: "attachments_resolve (ds_elements ex_desired)"
  by (simp add: attachments_resolve_def ex_desired_def ex_elements ex_facets)

definition ex_intent :: reset_intent where
  "ex_intent = projr (build_reset_intent ex_plan RS_instance (at_second 1000) (at_second 2000))"

lemma ex_intent_built: "build_reset_intent ex_plan RS_instance (at_second 1000) (at_second 2000) = Inr ex_intent"
proof -
  obtain i where "build_reset_intent ex_plan RS_instance (at_second 1000) (at_second 2000) = Inr i"
    by (simp add: build_reset_intent_def ex_plan_actions Let_def)
  then show ?thesis by (simp add: ex_intent_def)
qed

text \<open>The same desired state with its elements listed in another order.\<close>

definition ex_shuffled :: desired_state where
  "ex_shuffled = ex_desired\<lparr>ds_elements := [ex_edge, ex_node, ex_net]\<rparr>"

lemma ex_shuffled_set: "set (ds_elements ex_shuffled) = set (ds_elements ex_desired)"
  by (auto simp: ex_shuffled_def ex_desired_def)

lemma ex_shuffled_wf: "wf_elements (ds_elements ex_shuffled)"
proof -
  have "distinct (map se_ref (ds_elements ex_shuffled))" by (simp add: ex_shuffled_def ex_elements)
  moreover have "dangling_edges (ds_elements ex_shuffled) = dangling_edges (ds_elements ex_desired)"
    by (rule dangling_edges_cong) (simp only: ex_shuffled_set)
  moreover have "list_all wf_element (ds_elements ex_shuffled)"
    using ex_wf_desired unfolding wf_elements_def list_all_iff ex_shuffled_set by blast
  ultimately show ?thesis using ex_wf_desired by (simp add: wf_elements_def)
qed

lemma ex_shuffled_planned:
  "\<exists>pair report plan. plan_from_states ex_scope ex_shuffled ex_observation (at_second 1010) = Inr (pair, report, plan)"
proof -
  obtain pair where v: "verify_inputs ex_scope ex_shuffled ex_observation (at_second 1010) = Inr pair"
    using ex_verified ex_shuffled_wf
    by (auto simp: verify_inputs_Inr wf_desired_def) (simp_all add: ex_shuffled_def)
  obtain report where "classify_drift pair = Inr report"
    using require_verified_verify [OF v] by (auto simp: classify_drift_Inr)
  moreover have "\<not> list_ex (conflicting (os_elements ex_observation)) (ds_elements ex_shuffled)"
      "\<not> list_ex (unevidenced (os_elements ex_observation)) (ds_elements ex_shuffled)"
    using ex_no_conflict ex_evidenced unfolding list_ex_iff ex_shuffled_set by blast+
  moreover have "length (required_actions (ds_elements ex_shuffled) (os_elements ex_observation)) \<le> 5"
    by (simp add: ex_shuffled_def required_actions_def List.map_filter_simps split: option.splits)
  ultimately show ?thesis
    unfolding plan_from_states_refines [OF v] Let_def by (simp add: ex_scope_def)
qed

text \<open>A desired node attached to a network nobody declares.\<close>

definition ex_orphan_node :: state_element where
  "ex_orphan_node = \<lparr>se_kind = EK_node, se_ref = ''web'', se_facets = [(FN_network_attachment, JStr ''ghost'')]\<rparr>"

definition ex_orphan :: desired_state where
  "ex_orphan = \<lparr>ds_instance_id = ''i1'', ds_definition_digest = sha256_digest ''definition'',
     ds_elements = [ex_orphan_node]\<rparr>"

definition ex_orphan_action :: planned_action where
  "ex_orphan_action = \<lparr>pa_kind = AK_create, pa_element_kind = EK_node, pa_element_ref = ''web'', pa_reasons = [DR_element_absent]\<rparr>"

lemma ex_orphan_planned:
  "\<exists>pair report plan. plan_from_states ex_scope ex_orphan (observe \<lparr>sw_elements = []\<rparr> ''i1'' ''sim''
     (sha256_digest ''collector'') (at_second 1000) OF_complete) (at_second 1010) = Inr (pair, report, plan) \<and>
   rp_actions plan = [ex_orphan_action] \<and> rp_deferred plan = []"
proof -
  let ?obs = "observe \<lparr>sw_elements = []\<rparr> ''i1'' ''sim'' (sha256_digest ''collector'') (at_second 1000) OF_complete"
  have wf: "wf_elements [ex_orphan_node]" "wf_elements []"
    by (simp_all add: wf_elements_def ex_orphan_node_def wf_element_def string_facets_def is_str_def
        facets_of_kind_def FACETS_BY_ELEMENT_KIND_def dangling_edges_def dangling_edge_def Let_def)
  obtain pair where v: "verify_inputs ex_scope ex_orphan ?obs (at_second 1010) = Inr pair"
    using wf by (simp add: verify_inputs_Inr wf_scope_def wf_desired_def wf_observed_def ex_scope_def ex_orphan_def)
  obtain report where "classify_drift pair = Inr report"
    using require_verified_verify [OF v] by (auto simp: classify_drift_Inr)
  moreover have none: "observed_at [] r = None" for r by (simp add: observed_at_None)
  ultimately show ?thesis
    unfolding plan_from_states_refines [OF v] Let_def
    by (simp add: ex_orphan_def conflicting_def unevidenced_def required_actions_def List.map_filter_simps
        required_action_def none ex_orphan_node_def ex_orphan_action_def deferred_elements_def extra_elements_def)
      (simp add: ex_scope_def)
qed

lemma ex_orphan_run:
  "run_actions (by_ref (ds_elements ex_orphan)) (world_by_ref \<lparr>sw_elements = []\<rparr>) False [ex_orphan_action] =
   ([], [step_of ex_orphan_action SS_failed (Some SF_dependency_absent)])"
  by (simp add: ex_orphan_def by_ref_def world_by_ref_def dict_of_def ex_orphan_action_def ex_orphan_node_def
      unsatisfied_dependency_def facet_map_def absent_attachment_def)

end
