(* ===== verification/Recon_Properties.thy ===== *)
theory Recon_Properties
  imports Recon_Example
begin

text \<open>
  Properties of the single stages of reconciliation: the verification gate, classification, the
  plan and its digest, authorization, the step loop and the measured verdict.
\<close>

section \<open>Supporting lemmas\<close>

lemma raw_findings_exact:
  assumes "distinct (map se_ref Obs)"
  shows "x \<in> set (raw_findings D Obs) \<longleftrightarrow>
    (\<exists>d \<in> set D. se_ref d \<notin> se_ref ` set Obs \<and> x = finding_at d DK_missing DR_element_absent) \<or>
    (\<exists>d \<in> set D. \<exists>obs \<in> set Obs. se_ref obs = se_ref d \<and>
       (se_kind obs \<noteq> se_kind d \<and> x = finding_at d DK_identity_conflict DR_element_kind_conflict \<or>
        se_kind obs = se_kind d \<and> (\<exists>f \<in> set (facets_of_kind (se_kind d)).
          silent d obs f \<and> x = finding_at d DK_indeterminate DR_facet_evidence_absent \<or>
          disagrees d obs f \<and> x = finding_at d DK_divergent (DIVERGENCE_REASON_BY_FACET f)))) \<or>
    (\<exists>obs \<in> set Obs. se_ref obs \<notin> se_ref ` set D \<and> x = unmanaged_finding obs)"
proof -
  have el: "x \<in> set (element_findings Obs d) \<longleftrightarrow>
      se_ref d \<notin> se_ref ` set Obs \<and> x = finding_at d DK_missing DR_element_absent \<or>
      (\<exists>obs \<in> set Obs. se_ref obs = se_ref d \<and>
       (se_kind obs \<noteq> se_kind d \<and> x = finding_at d DK_identity_conflict DR_element_kind_conflict \<or>
        se_kind obs = se_kind d \<and> x \<in> set (compare_facets d obs)))" for d
  proof (cases "observed_at Obs (se_ref d)")
    case None
    then have none: "se_ref d \<notin> se_ref ` set Obs" by (simp add: observed_at_None)
    then have "se_ref obs \<noteq> se_ref d" if "obs \<in> set Obs" for obs using that by (metis imageI)
    with None none show ?thesis by (auto simp: element_findings_def)
  next
    case (Some obs)
    then have obs: "obs \<in> set Obs" "se_ref obs = se_ref d" by (auto dest: observed_at_ref)
    have only: "obs' = obs" if "obs' \<in> set Obs" "se_ref obs' = se_ref d" for obs'
      using that obs assms by (metis distinct_map inj_onD)
    from obs have "se_ref d \<in> se_ref ` set Obs" by (metis imageI)
    moreover have one: "(\<exists>obs' \<in> set Obs. se_ref obs' = se_ref d \<and> P obs') \<longleftrightarrow> P obs" for P
      using obs only by blast
    ultimately show ?thesis unfolding one by (simp add: element_findings_def Some)
  qed
  have "x \<in> set (raw_findings D Obs) \<longleftrightarrow> (\<exists>d \<in> set D. x \<in> set (element_findings Obs d)) \<or>
      (\<exists>obs \<in> set Obs. se_ref obs \<notin> se_ref ` set D \<and> x = unmanaged_finding obs)"
    by (auto simp: raw_findings_eq extra_elements_def)
  then show ?thesis unfolding el compare_facets_memb by blast
qed

lemma observed_at_perm:
  assumes "mset Obs = mset Obs'" and "distinct (map se_ref Obs)"
  shows "observed_at Obs = observed_at Obs'"
proof
  fix r
  have set: "set Obs = set Obs'" using assms(1) by (rule mset_eq_setD)
  have "mset (map se_ref Obs) = mset (map se_ref Obs')" using assms(1) by simp
  from mset_eq_imp_distinct_iff [OF this] have dist: "distinct (map se_ref Obs')" using assms(2) by (rule iffD1)
  have "observed_at Obs r = Some e \<longleftrightarrow> observed_at Obs' r = Some e" for e
    using set observed_at_Some [OF assms(2)] observed_at_Some [OF dist] by simp
  then show "observed_at Obs r = observed_at Obs' r"
    by (metis not_Some_eq)
qed

lemma required_actions_perm:
  assumes "mset D = mset D'" and "mset Obs = mset Obs'" and "distinct (map se_ref Obs)"
  shows "mset (required_actions D Obs) = mset (required_actions D' Obs')"
proof -
  have eq: "required_action Obs = required_action Obs'"
    by (simp add: fun_eq_iff required_action_def observed_at_perm [OF assms(2,3)])
  have "mset (required_actions E Obs'') = image_mset the (filter_mset (\<lambda>a. a \<noteq> None)
      (image_mset (required_action Obs'') (mset E)))" for E Obs''
    by (induction E) (auto simp: required_actions_def List.map_filter_simps split: option.splits)
  then show ?thesis using eq assms(1) by simp
qed

lemma action_sort_key_inj: "inj_on action_sort_key (set (required_actions D Obs))"
  if "distinct (map se_ref D)"
proof (rule inj_onI)
  fix a b assume ab: "a \<in> set (required_actions D Obs)" "b \<in> set (required_actions D Obs)"
    and "action_sort_key a = action_sort_key b"
  then have "pa_element_ref a = pa_element_ref b" by (simp add: action_sort_key_def)
  with ab required_actions_distinct [OF that, of Obs] show "a = b" by (metis distinct_map inj_onD)
qed

lemma deferred_elements_perm:
  assumes "mset D = mset D'" and "mset Obs = mset Obs'"
  shows "deferred_elements D Obs = deferred_elements D' Obs'"
proof -
  have "set D = set D'" using assms(1) by (metis mset_eq_setD)
  then have "mset (extra_elements D Obs) = mset (extra_elements D' Obs')"
    using assms(2) by (simp add: extra_elements_def)
  then show ?thesis unfolding deferred_elements_def
    by (intro sort_key_mset_eq deferred_sort_key_inj) simp
qed

section \<open>The gate\<close>


text \<open>
  A verification token binds its inputs. If two verified pairs carry the same token and both
  pass \<open>require_verified\<close>, they hold the same scope, the same desired state, the same observation
  (as an instant) and the same evaluation instant, unless SHA-256 collides on one of the four
  document texts.
\<close>

theorem verification_token_binds:
  assumes "require_verified p = Inr ()" and "require_verified q = Inr ()"
    and "vp_verification_digest p = vp_verification_digest q"
    and "list_all string_facets (ds_elements (vp_desired p))" "list_all string_facets (ds_elements (vp_desired q))"
      "list_all string_facets (os_elements (vp_observed p))" "list_all string_facets (os_elements (vp_observed q))"
    and "representable (instant (vp_evaluated_at p))" "representable (instant (vp_evaluated_at q))"
      "representable (instant (os_observed_at (vp_observed p)))" "representable (instant (os_observed_at (vp_observed q)))"
  shows "vp_scope p = vp_scope q \<and> vp_desired p = vp_desired q \<and>
      same_observation (vp_observed p) (vp_observed q) \<and> instant (vp_evaluated_at p) = instant (vp_evaluated_at q) \<or>
    verification_collision (vp_scope p) (vp_desired p) (vp_observed p) (vp_evaluated_at p)
      (vp_scope q) (vp_desired q) (vp_observed q) (vp_evaluated_at q)"
  by (rule verification_digest_binds) (use assms in \<open>simp_all add: require_verified_iff\<close>)

theorem verification_token_binds_witness:
  "vp_scope ex_pair = vp_scope ex_pair \<and> vp_desired ex_pair = vp_desired ex_pair \<and>
      same_observation (vp_observed ex_pair) (vp_observed ex_pair) \<and>
      instant (vp_evaluated_at ex_pair) = instant (vp_evaluated_at ex_pair) \<or>
    verification_collision (vp_scope ex_pair) (vp_desired ex_pair) (vp_observed ex_pair) (vp_evaluated_at ex_pair)
      (vp_scope ex_pair) (vp_desired ex_pair) (vp_observed ex_pair) (vp_evaluated_at ex_pair)"
proof -
  have "vp_desired ex_pair = ex_desired" "vp_observed ex_pair = ex_observation" "vp_evaluated_at ex_pair = at_second 1010"
    "os_observed_at ex_observation = at_second 1000" by (simp_all add: ex_pair_def ex_observation_def observe_def)
  moreover have "representable 1010000000" by (simp add: representable_def us_per_day_def)
  ultimately show ?thesis
    using verification_token_binds [of ex_pair ex_pair] require_verified_verify [OF ex_verified]
      wf_elements_string_facets [OF ex_wf_desired] wf_elements_string_facets [OF ex_wf_observed]
    by simp
qed

section \<open>Classification\<close>

text \<open>
  C27: drift classification is complete and sound. For verified inputs the findings of the report
  are exactly: one \<open>missing\<close> per desired element without an observed one, one \<open>identity_conflict\<close>
  where the kinds differ, one \<open>indeterminate\<close> or one \<open>divergent\<close> (with the facet's own reason) per
  declared facet that is unobserved or different, and one anonymous \<open>unmanaged\<close> per observed
  element that is not desired; the report is empty exactly when observation and desired state agree.
\<close>

theorem drift_findings_exact:
  assumes "verify_inputs scope desired observed now = Inr pair" and "classify_drift pair = Inr report"
  shows "(\<forall>x. x \<in> set (dr_findings report) \<longleftrightarrow>
    (\<exists>d \<in> set (ds_elements desired). se_ref d \<notin> se_ref ` set (os_elements observed) \<and>
       x = finding_at d DK_missing DR_element_absent) \<or>
    (\<exists>d \<in> set (ds_elements desired). \<exists>obs \<in> set (os_elements observed). se_ref obs = se_ref d \<and>
       (se_kind obs \<noteq> se_kind d \<and> x = finding_at d DK_identity_conflict DR_element_kind_conflict \<or>
        se_kind obs = se_kind d \<and> (\<exists>f \<in> set (facets_of_kind (se_kind d)).
          silent d obs f \<and> x = finding_at d DK_indeterminate DR_facet_evidence_absent \<or>
          disagrees d obs f \<and> x = finding_at d DK_divergent (DIVERGENCE_REASON_BY_FACET f)))) \<or>
    (\<exists>obs \<in> set (os_elements observed). se_ref obs \<notin> se_ref ` set (ds_elements desired) \<and>
       x = unmanaged_finding obs)) \<and>
    (dr_findings report = [] \<longleftrightarrow> aligned (ds_elements desired) (os_elements observed))"
proof -
  have pair: "vp_desired pair = desired" "vp_observed pair = observed"
    and dist: "distinct (map se_ref (os_elements observed))"
    using assms(1) by (auto simp: verify_inputs_Inr gate_preds)
  have f: "dr_findings report = sort_key finding_sort_key (raw_findings (ds_elements desired) (os_elements observed))"
    using assms(2) pair by (simp add: classify_drift_Inr)
  then have mem: "x \<in> set (dr_findings report) \<longleftrightarrow> x \<in> set (raw_findings (ds_elements desired) (os_elements observed))"
    for x by simp
  have "dr_findings report = [] \<longleftrightarrow> aligned (ds_elements desired) (os_elements observed)"
    using raw_findings_empty [OF dist] f by simp
  then show ?thesis unfolding mem raw_findings_exact [OF dist] by blast
qed

theorem drift_findings_exact_witness:
  "finding_at ex_node DK_missing DR_element_absent \<in> set (dr_findings ex_report) \<and> dr_findings ex_report \<noteq> []"
proof -
  have "ex_node \<in> set (ds_elements ex_desired)" "se_ref ex_node \<notin> se_ref ` set (os_elements ex_observation)"
    by (simp_all add: ex_desired_def ex_observed_elements ex_node_def)
  then have "finding_at ex_node DK_missing DR_element_absent \<in> set (dr_findings ex_report)"
    using drift_findings_exact [OF ex_verified ex_classified] by blast
  then show ?thesis by auto
qed

text \<open>
  The drift report is canonical. Findings are strictly ordered by severity, reason, element kind
  and reference where they differ, each reason belongs to its kind, the two count tables name every
  kind and reason once and add up to the number of findings, and the leading kind is the most severe
  one present.
\<close>

theorem drift_report_canonical:
  assumes "classify_drift pair = Inr report"
  shows "sorted (map finding_sort_key (dr_findings report)) \<and>
    list_all (\<lambda>x. df_reason x \<in> set (DRIFT_REASONS_BY_KIND (df_kind x))) (dr_findings report) \<and>
    sum_list (map snd (counts_by_kind report)) = length (dr_findings report) \<and>
    sum_list (map snd (counts_by_reason report)) = length (dr_findings report) \<and>
    map_of (counts_by_kind report) k = Some (length (filter (\<lambda>x. df_kind x = k) (dr_findings report))) \<and>
    (case leading_kind report of None \<Rightarrow> dr_findings report = []
     | Some l \<Rightarrow> l \<in> df_kind ` set (dr_findings report) \<and>
         list_all (\<lambda>x. drift_kinds.rank l \<le> drift_kinds.rank (df_kind x)) (dr_findings report))"
proof -
  have f: "dr_findings report = sort_key finding_sort_key
      (raw_findings (ds_elements (vp_desired pair)) (os_elements (vp_observed pair)))"
    using assms by (simp add: classify_drift_Inr)
  show ?thesis
    using leading_kind_Some [of report] leading_kind_None [of report]
    by (auto simp: counts_by_kind_def counts_by_reason_def drift_kinds.tally_total drift_reasons.tally_total
        drift_kinds.tally_count list_all_iff split: option.splits)
      (simp_all add: f raw_findings_reason)
qed

theorem drift_report_canonical_witness:
  "sorted (map finding_sort_key (dr_findings ex_report)) \<and>
    list_all (\<lambda>x. df_reason x \<in> set (DRIFT_REASONS_BY_KIND (df_kind x))) (dr_findings ex_report) \<and>
    sum_list (map snd (counts_by_kind ex_report)) = length (dr_findings ex_report)"
  using drift_report_canonical [OF ex_classified] by simp

section \<open>Plans\<close>

text \<open>
  C29: a plan does not depend on the order in which elements are listed. Two accepted inputs whose
  desired elements and whose observed elements are permutations of each other lead to the same
  actions in the same order, the same deferred elements and the same disposition.
\<close>

theorem plan_order_insensitive:
  assumes "plan_from_states scope desired observed now = Inr (pair, report, plan)"
    and "plan_from_states scope' desired' observed' now' = Inr (pair', report', plan')"
    and "mset (ds_elements desired) = mset (ds_elements desired')"
    and "mset (os_elements observed) = mset (os_elements observed')"
  shows "rp_actions plan = rp_actions plan' \<and> rp_deferred plan = rp_deferred plan' \<and>
    rp_disposition plan = rp_disposition plan'"
proof -
  note p = plan_from_states_Inr [OF assms(1)] and q = plan_from_states_Inr [OF assms(2)]
  have dist: "distinct (map se_ref (ds_elements desired))" "distinct (map se_ref (os_elements observed))"
    using p(1) by (auto simp: verify_inputs_Inr gate_preds)
  have "mset (required_actions (ds_elements desired) (os_elements observed)) =
      mset (required_actions (ds_elements desired') (os_elements observed'))"
    using required_actions_perm [OF assms(3,4) dist(2)] .
  then have "sort_key action_sort_key (required_actions (ds_elements desired) (os_elements observed)) =
      sort_key action_sort_key (required_actions (ds_elements desired') (os_elements observed'))"
    by (rule sort_key_mset_eq) (rule action_sort_key_inj [OF dist(1)])
  then show ?thesis using p(5) q(5) deferred_elements_perm [OF assms(3,4)] by simp
qed

theorem plan_order_insensitive_witness:
  "\<exists>pair report plan. plan_from_states ex_scope ex_shuffled ex_observation (at_second 1010) = Inr (pair, report, plan) \<and>
    rp_actions plan = rp_actions ex_plan \<and> rp_deferred plan = rp_deferred ex_plan \<and>
    rp_disposition plan = rp_disposition ex_plan"
proof -
  obtain pair report plan where
    p: "plan_from_states ex_scope ex_shuffled ex_observation (at_second 1010) = Inr (pair, report, plan)"
    using ex_shuffled_planned by blast
  have "mset (ds_elements ex_shuffled) = mset (ds_elements ex_desired)"
    by (simp add: ex_shuffled_def ex_desired_def)
  from plan_order_insensitive [OF p ex_planned this] p show ?thesis by blast
qed

text \<open>
  Plans are tamper evident. If two plans pass the integrity check and carry the same plan
  digest, they agree in every field the digest covers: instance, surface, disposition, actions,
  deferred elements and the four bound digests, unless SHA-256 collides on the two documents.
\<close>

theorem plan_tamper_evident:
  assumes "require_plan_integrity p = Inr ()" and "require_plan_integrity q = Inr ()"
    and "rp_plan_digest p = rp_plan_digest q"
  shows "same_plan p q \<or>
    sha_collision (document_text RECONCILIATION_PLAN_SCHEMA_VERSION (document_of_plan p))
      (document_text RECONCILIATION_PLAN_SCHEMA_VERSION (document_of_plan q))"
  using plan_addr.addr_binds [of p q] assms by (auto simp: require_plan_integrity_iff plan_addr.collide_def)

theorem plan_tamper_evident_witness:
  "same_plan ex_plan ex_plan \<or>
    sha_collision (document_text RECONCILIATION_PLAN_SCHEMA_VERSION (document_of_plan ex_plan))
      (document_text RECONCILIATION_PLAN_SCHEMA_VERSION (document_of_plan ex_plan))"
  using plan_tamper_evident [of ex_plan ex_plan]
  by (simp add: require_plan_integrity_iff ex_plan_def)

section \<open>Authorization and execution\<close>

text \<open>
  C24: nothing is executed without authorization. The executor accepts a plan exactly when its
  digest is intact; it was planned under this scope, on the simulator surface, within the scope's
  budget and for this desired state; and either it has no action or an intent for this very plan is
  presented inside its window.
\<close>

theorem execution_authorized_exactly:
  "(\<exists>result. execute scope plan desired world intent now = Inr result) \<longleftrightarrow>
     rp_plan_digest plan = plan_digest_of plan \<and>
     (case intent of None \<Rightarrow> rp_actions plan = []
      | Some i \<Rightarrow> ri_plan_digest i = rp_plan_digest plan \<and>
          (\<exists>issued expires. fromisoformat (ri_issued_at i) = Some issued \<and>
             fromisoformat (ri_expires_at i) = Some expires \<and>
             instant issued \<le> instant now \<and> instant now < instant expires)) \<and>
     rp_scope_digest plan = scope_digest scope \<and> rp_execution_surface plan = rs_execution_surface scope \<and>
     int (length (rp_actions plan)) \<le> rs_max_actions scope \<and>
     rp_execution_surface plan = EXECUTION_SURFACE \<and> desired_state_digest desired = rp_desired_digest plan"
proof -
  obtain cur steps where "run_actions (by_ref (ds_elements desired)) (world_by_ref world) False (rp_actions plan) = (cur, steps)"
    by fastforce
  then show ?thesis by (auto simp: execute_Inr refusal_simps split: option.splits)
qed

text \<open>
  C23: the step loop stops at the first failure and changes only what it reports. An accepted
  execution reports one step per planned action, in plan order; the statuses are applied steps,
  then at most one failure, then steps not attempted; an element of the resulting world is the
  desired element where a step applied and the previous element everywhere else; and the resulting
  world is listed by reference, without duplicates.
\<close>

theorem execution_steps_and_frame:
  assumes "execute scope plan desired world intent now = Inr (world', er)"
  shows "map (\<lambda>s. (so_kind s, so_element_kind s, so_element_ref s)) (er_steps er) =
      map (\<lambda>a. (pa_kind a, pa_element_kind a, pa_element_ref a)) (rp_actions plan) \<and>
    stop_at_first_failure (er_steps er) \<and>
    map_of (world_by_ref world') r = (if r \<in> applied_refs (er_steps er)
      then map_option realise (map_of (by_ref (ds_elements desired)) r) else map_of (world_by_ref world) r) \<and>
    sorted (map sm_ref (sw_elements world')) \<and> distinct (map sm_ref (sw_elements world'))"
proof -
  from assms obtain cur where run: "run_actions (by_ref (ds_elements desired)) (world_by_ref world) False (rp_actions plan) =
      (cur, er_steps er)" and w: "world' = world_of cur" by (auto simp: execute_Inr)
  have k: "keyed cur" by (rule keyed_run [OF run keyed_world])
  then show ?thesis
    using run_actions_shape [OF run] run_actions_frame [OF run, of r] w
    by (simp add: world_of_refs keyed_def)
qed

theorem execution_steps_and_frame_witness:
  "\<exists>world' er. execute ex_scope ex_plan ex_desired ex_world (Some ex_intent) (at_second 1500) = Inr (world', er) \<and>
    map (\<lambda>s. (so_kind s, so_element_kind s, so_element_ref s)) (er_steps er) =
      map (\<lambda>a. (pa_kind a, pa_element_kind a, pa_element_ref a)) (rp_actions ex_plan) \<and>
    stop_at_first_failure (er_steps er) \<and> sorted (map sm_ref (sw_elements world'))"
proof -
  have auth: "require_execution_authorized ex_plan (Some ex_intent) (at_second 1500) = Inr ()"
    using build_reset_intent_Inr(4-6) [OF ex_intent_built] by (simp add: refusal_simps ex_plan_def)
  from execute_planned [OF ex_planned [unfolded ex_observation_def] ex_plan_actions(2) ex_attachments auth]
  obtain world' er where ex: "execute ex_scope ex_plan ex_desired ex_world (Some ex_intent) (at_second 1500) = Inr (world', er)"
    by blast
  with execution_steps_and_frame [OF ex] show ?thesis by blast
qed

text \<open>
  An intent authorises exactly its window. An intent built for a plan from \<open>issued_at\<close> to
  \<open>expires_at\<close> is accepted for that plan, after its timestamps went through ISO text and back,
  exactly at the instants from \<open>issued_at\<close> up to but not including \<open>expires_at\<close>.
\<close>

theorem reset_intent_window:
  assumes "build_reset_intent plan scope issued_at expires_at = Inr intent"
    and "rp_plan_digest plan = plan_digest_of plan"
    and "representable (instant issued_at)" and "representable (instant expires_at)"
  shows "verify_reset_intent intent plan now = Inr () \<longleftrightarrow>
    instant issued_at \<le> instant now \<and> instant now < instant expires_at"
  using build_reset_intent_Inr(4-6) [OF assms(1)] assms(2-)
  by (simp add: verify_reset_intent_iff fromisoformat_canonical_utc)

theorem reset_intent_window_witness:
  "verify_reset_intent ex_intent ex_plan (at_second 1000) = Inr () \<and>
   verify_reset_intent ex_intent ex_plan (at_second 2000) \<noteq> Inr ()"
  using reset_intent_window [OF ex_intent_built, of "at_second 1000"]
    reset_intent_window [OF ex_intent_built, of "at_second 2000"] by (simp add: ex_plan_def)

text \<open>
  A verdict is measured, never assumed. \<open>verify_convergence\<close> always returns a verdict; it says
  \<open>converged\<close> exactly when the re-observation passes the gate and agrees with the desired state,
  \<open>unverifiable\<close> exactly when the gate refuses, and the operator's
  next step is the one tabulated for that state.
\<close>

theorem convergence_is_measured:
  "\<exists>v. verify_convergence scope desired reobserved now = Inr v \<and>
    (converged v \<longleftrightarrow> wf_scope scope \<and> wf_desired scope desired \<and> wf_observed scope reobserved now \<and>
      aligned (ds_elements desired) (os_elements reobserved)) \<and>
    (cv_state v = CS_unverifiable \<longleftrightarrow> \<not> (wf_scope scope \<and> wf_desired scope desired \<and> wf_observed scope reobserved now)) \<and>
    cv_operator_next_step v = NEXT_STEP_FOR_CONVERGENCE (cv_state v)"
proof -
  obtain v where v: "verify_convergence scope desired reobserved now = Inr v" using verify_convergence_total by blast
  show ?thesis
  proof (cases "verify_inputs scope desired reobserved now")
    case (Inl code)
    then have "\<not> (wf_scope scope \<and> wf_desired scope desired \<and> wf_observed scope reobserved now)"
      using verify_inputs_Inr [of scope desired reobserved now] by (metis sum.distinct(1))
    moreover from Inl v have "cv_state v = CS_unverifiable" "cv_operator_next_step v = NEXT_STEP_FOR_CONVERGENCE (cv_state v)"
      by (auto simp: verify_convergence_def)
    ultimately show ?thesis using v by (auto simp: converged_def)
  next
    case (Inr pair)
    then have "wf_scope scope \<and> wf_desired scope desired \<and> wf_observed scope reobserved now"
      by (simp add: verify_inputs_Inr)
    moreover have "cv_state v = (if aligned (ds_elements desired) (os_elements reobserved) then CS_converged else CS_drift_remains)"
      by (rule verify_convergence_Inr [OF Inr v])
    moreover have "cv_operator_next_step v = NEXT_STEP_FOR_CONVERGENCE (cv_state v)"
      using v Inr by (auto simp: verify_convergence_def bindE_Inr Let_def)
    ultimately show ?thesis using v by (auto simp: converged_def)
  qed
qed

section \<open>Texts\<close>

text \<open>
  An edge reference decodes to its endpoints. For a non-empty source without the arrow and
  without the kind separator, and a non-empty target without the kind separator, decoding an
  encoded reference gives source and target back, whatever the edge kind.
\<close>

theorem edge_ref_round_trip:
  assumes "source \<noteq> []" and "target \<noteq> []" and "\<not> has_arrow source"
    and "CHR ''|'' \<notin> set source" and "CHR ''|'' \<notin> set target"
  shows "decode_edge_ref (encode_edge_ref source target kind) = (Some source, Some target)"
  by (rule decode_encode_edge_ref [OF assms])

theorem edge_ref_round_trip_witness:
  "decode_edge_ref (encode_edge_ref ''web'' ''net'' ''member'') = (Some ''web'', Some ''net'')"
  using edge_ref_round_trip [of "''web''" "''net''" "''member''"] by simp

text \<open>
  Canonical JSON is injective. Two documents have the same canonical text exactly when they
  are equal up to the order of object keys, so a digest over the text covers every field.
\<close>

theorem canonical_json_injective:
  "canonical_json a = canonical_json b \<longleftrightarrow> norm_json a = norm_json b"
  by (rule canonical_json_norm)

text \<open>
  Timestamps survive their canonical text. Every instant of the years 1 to 9999 is printed by
  \<open>canonical_utc\<close> to a text that \<open>fromisoformat\<close> parses back to the same instant, so two
  representable instants have the same text exactly when they are equal.
\<close>

theorem canonical_utc_round_trip:
  assumes "representable (instant d)" and "representable (instant e)"
  shows "fromisoformat (canonical_utc d) = Some \<lparr>wall_us = instant d, utc_offset = Some 0\<rparr> \<and>
    (canonical_utc d = canonical_utc e \<longleftrightarrow> instant d = instant e)"
  using fromisoformat_canonical_utc [OF assms(1)] canonical_utc_inject [OF assms]
  by (auto simp: canonical_utc_def)

theorem canonical_utc_round_trip_witness:
  "fromisoformat (canonical_utc (at_second 1000)) = Some \<lparr>wall_us = 1000000000, utc_offset = Some 0\<rparr> \<and>
   canonical_utc (at_second 1000) \<noteq> canonical_utc (at_second 2000)"
  using canonical_utc_round_trip [of "at_second 1000" "at_second 2000"] by simp

section \<open>Limits of the checks\<close>

text \<open>
  C34: the intent's own digest is never recomputed. The verification of a reset intent compares the
  plan digest and reads the two timestamps as they stand, so an intent whose expiry was moved, with
  its \<open>intent_digest\<close> left as it was, is accepted at an instant at which the intent that was built
  is already expired.
\<close>

theorem intent_expiry_unprotected:
  assumes "build_reset_intent plan scope issued_at expires_at = Inr intent"
    and "rp_plan_digest plan = plan_digest_of plan"
    and "representable (instant issued_at)" "representable (instant expires_at)" "representable (instant later)"
    and "instant expires_at \<le> instant now" and "instant now < instant later"
  shows "verify_reset_intent intent plan now \<noteq> Inr () \<and>
    verify_reset_intent (intent\<lparr>ri_expires_at := canonical_utc later\<rparr>) plan now = Inr () \<and>
    ri_intent_digest (intent\<lparr>ri_expires_at := canonical_utc later\<rparr>) = ri_intent_digest intent"
  using build_reset_intent_Inr(1,4-6) [OF assms(1)] assms(2-)
  by (auto simp: verify_reset_intent_iff fromisoformat_canonical_utc)

theorem intent_expiry_unprotected_witness:
  "verify_reset_intent ex_intent ex_plan (at_second 2000) \<noteq> Inr () \<and>
   verify_reset_intent (ex_intent\<lparr>ri_expires_at := canonical_utc (at_second 3000)\<rparr>) ex_plan (at_second 2000) = Inr ()"
proof -
  have "representable 3000000000" by (simp add: representable_def us_per_day_def)
  then show ?thesis
    using intent_expiry_unprotected [OF ex_intent_built, of "at_second 3000" "at_second 2000"]
    by (simp add: ex_plan_def)
qed


end
