(* ===== verification/Plugin_Contract.thy ===== *)
theory Plugin_Contract
  imports Py_Datetime
begin

text \<open>
  The plugin contract (\<open>contracts/plugin-api/secp_plugin_api/v1\<close>): the provider-neutral topology
  and result models, the \<open>ResourcePort\<close> interface as a locale, and the control plane's
  implementation of it over its projection tables
  (\<open>apps/worker/secp_worker/resource_port.py\<close>), which interprets the locale. Instance ids are
  canonical UUID text, on which \<open>_as_uuid\<close> is the identity; kind columns hold enum values; a query
  returns rows with equal sort keys in insertion order.
\<close>

section \<open>Models (models.py)\<close>

datatype node_kind = NK_attacker | NK_target | NK_sensor | NK_service | NK_gateway

fun node_kind_value :: "node_kind \<Rightarrow> string" where
  "node_kind_value NK_attacker = ''attacker''"
| "node_kind_value NK_target = ''target''"
| "node_kind_value NK_sensor = ''sensor''"
| "node_kind_value NK_service = ''service''"
| "node_kind_value NK_gateway = ''gateway''"

datatype edge_kind = GK_network | GK_monitors | GK_reaches

fun edge_kind_value :: "edge_kind \<Rightarrow> string" where
  "edge_kind_value GK_network = ''network''"
| "edge_kind_value GK_monitors = ''monitors''"
| "edge_kind_value GK_reaches = ''reaches''"

record topology_network =
  tn_ref :: string
  tn_name :: string
  tn_cidr :: string
  tn_team_ref :: "string option"
  tn_isolated :: bool

record topology_node =
  td_ref :: string
  td_name :: string
  td_kind :: node_kind
  td_role :: string
  td_image :: string
  td_network_ref :: string
  td_ip_address :: string
  td_attributes :: "(string, string) dict"

record topology_edge =
  te_source_ref :: string
  te_target_ref :: string
  te_kind :: edge_kind

record instance_topology =
  it_networks :: "topology_network list"
  it_nodes :: "topology_node list"
  it_edges :: "topology_edge list"

definition empty_topology :: instance_topology where
  "empty_topology = \<lparr>it_networks = [], it_nodes = [], it_edges = []\<rparr>"

record target_instance =
  ti_instance_id :: string
  ti_instance_ref :: string
  ti_team_ref :: string
  ti_team_index :: int

record instance_plan =
  ip_instance_id :: string
  ip_instance_ref :: string
  ip_team_ref :: string
  ip_desired :: instance_topology
  ip_summary :: "(string \<times> nat) list"

record plugin_plan =
  pp_plugin :: string
  pp_contract_version :: string
  pp_instances :: "instance_plan list"

definition total_nodes :: "plugin_plan \<Rightarrow> nat" where
  "total_nodes p = sum_list (map (\<lambda>i. length (it_nodes (ip_desired i))) (pp_instances p))"

definition total_networks :: "plugin_plan \<Rightarrow> nat" where
  "total_networks p = sum_list (map (\<lambda>i. length (it_networks (ip_desired i))) (pp_instances p))"

record validation_result =
  vr_ok :: bool
  vr_errors :: "string list"
  vr_warnings :: "string list"

record apply_result =
  ar_ok :: bool
  ar_instances_applied :: "string list"
  ar_created :: "(string, nat) dict"
  ar_message :: string

record reset_result =
  rr_ok :: bool
  rr_instance_id :: string
  rr_idempotent_noop :: bool
  rr_message :: string

record destroy_result =
  dd_ok :: bool
  dd_instances_destroyed :: "string list"
  dd_idempotent_noop :: bool
  dd_message :: string

record plugin_observed_state =
  po_instance_id :: string
  po_lifecycle_state :: string
  po_nodes_total :: nat
  po_nodes_up :: nat
  po_networks_total :: nat
  po_topology :: instance_topology

record health_report =
  hr_name :: string
  hr_version :: string
  hr_contract_version :: string
  hr_healthy :: bool
  hr_capabilities :: "string list"
  hr_simulated :: bool
  hr_detail :: string

section \<open>The resource port (contract.py)\<close>

text \<open>
  What a plugin may rely on: a replaced topology reads back (in the port's normal form \<open>norm\<close>), a
  cleared one reads back empty, and neither operation touches another instance.
\<close>

locale resource_port =
  fixes replace :: "string \<Rightarrow> instance_topology \<Rightarrow> 's \<Rightarrow> 's"
    and clear :: "string \<Rightarrow> 's \<Rightarrow> 's"
    and read :: "string \<Rightarrow> 's \<Rightarrow> instance_topology"
    and norm :: "instance_topology \<Rightarrow> instance_topology"
  assumes read_replace: "read i (replace i t s) = norm t"
    and read_replace_other: "j \<noteq> i \<Longrightarrow> read j (replace i t s) = read j s"
    and read_clear: "read i (clear i s) = empty_topology"
    and read_clear_other: "j \<noteq> i \<Longrightarrow> read j (clear i s) = read j s"
begin

definition replace_all :: "(string \<times> instance_topology) list \<Rightarrow> 's \<Rightarrow> 's" where
  "replace_all its s = foldl (\<lambda>s (i, t). replace i t s) s its"

definition clear_all :: "string list \<Rightarrow> 's \<Rightarrow> 's" where
  "clear_all is s = foldl (\<lambda>s i. clear i s) s is"

lemma read_replace_all:
  "read j (replace_all its s) = (case map_of (rev its) j of None \<Rightarrow> read j s | Some t \<Rightarrow> norm t)"
proof (induction its arbitrary: s)
  case Nil
  then show ?case by (simp add: replace_all_def)
next
  case (Cons p its)
  have "replace_all (p # its) s = replace_all its (replace (fst p) (snd p) s)"
    by (simp add: replace_all_def case_prod_beta)
  with Cons show ?case
    by (cases p) (auto simp: read_replace read_replace_other map_add_def split: option.splits)
qed

lemma read_clear_all: "read j (clear_all is s) = (if j \<in> set is then empty_topology else read j s)"
proof (induction "is" arbitrary: s)
  case Nil
  then show ?case by (simp add: clear_all_def)
next
  case (Cons i "is")
  have "clear_all (i # is) s = clear_all is (clear i s)" by (simp add: clear_all_def)
  with Cons show ?case by (auto simp: read_clear read_clear_other)
qed

end

section \<open>The projection tables (resource_port.py)\<close>

record network_row =
  nr_instance_id :: string
  nr_ref :: string
  nr_name :: string
  nr_cidr :: string
  nr_team_ref :: "string option"
  nr_isolated :: bool
  nr_status :: string
  nr_provider :: string
  nr_provider_resource_type :: string
  nr_source :: string
  nr_simulated :: bool
  nr_observed_at :: datetime

record node_row =
  dr_instance :: string
  dr_ref :: string
  dr_name :: string
  dr_kind :: node_kind
  dr_role :: string
  dr_image :: string
  dr_network_ref :: string
  dr_ip_address :: string
  dr_status :: string
  dr_provider :: string
  dr_provider_resource_type :: string
  dr_source :: string
  dr_simulated :: bool
  dr_observed_at :: datetime
  dr_attributes :: "(string, string) dict"

record edge_row =
  gr_instance_id :: string
  gr_source_ref :: string
  gr_target_ref :: string
  gr_kind :: edge_kind
  gr_provider :: string
  gr_source :: string
  gr_simulated :: bool

record projection_db =
  db_networks :: "network_row list"
  db_nodes :: "node_row list"
  db_edges :: "edge_row list"

text \<open>The adapter object: its provenance fields, and the clock reading of \<open>_utcnow()\<close>.\<close>

record resource_port_cfg =
  rc_provider :: string
  rc_simulated :: bool
  rc_now :: datetime

definition clear_instance_topology :: "string \<Rightarrow> projection_db \<Rightarrow> projection_db" where
  "clear_instance_topology iid db =
     db\<lparr>db_edges := filter (\<lambda>r. gr_instance_id r \<noteq> iid) (db_edges db),
        db_nodes := filter (\<lambda>r. dr_instance r \<noteq> iid) (db_nodes db),
        db_networks := filter (\<lambda>r. nr_instance_id r \<noteq> iid) (db_networks db)\<rparr>"

definition network_row_of :: "resource_port_cfg \<Rightarrow> string \<Rightarrow> topology_network \<Rightarrow> network_row" where
  "network_row_of cfg iid net = \<lparr>nr_instance_id = iid, nr_ref = tn_ref net, nr_name = tn_name net,
     nr_cidr = tn_cidr net, nr_team_ref = tn_team_ref net, nr_isolated = tn_isolated net,
     nr_status = ''up'', nr_provider = rc_provider cfg, nr_provider_resource_type = ''network'',
     nr_source = rc_provider cfg, nr_simulated = rc_simulated cfg, nr_observed_at = rc_now cfg\<rparr>"

definition node_row_of :: "resource_port_cfg \<Rightarrow> string \<Rightarrow> topology_node \<Rightarrow> node_row" where
  "node_row_of cfg iid node = \<lparr>dr_instance = iid, dr_ref = td_ref node, dr_name = td_name node,
     dr_kind = td_kind node, dr_role = td_role node, dr_image = td_image node,
     dr_network_ref = td_network_ref node, dr_ip_address = td_ip_address node, dr_status = ''up'',
     dr_provider = rc_provider cfg, dr_provider_resource_type = ''node'', dr_source = rc_provider cfg,
     dr_simulated = rc_simulated cfg, dr_observed_at = rc_now cfg, dr_attributes = td_attributes node\<rparr>"

definition edge_row_of :: "resource_port_cfg \<Rightarrow> string \<Rightarrow> topology_edge \<Rightarrow> edge_row" where
  "edge_row_of cfg iid edge = \<lparr>gr_instance_id = iid, gr_source_ref = te_source_ref edge,
     gr_target_ref = te_target_ref edge, gr_kind = te_kind edge, gr_provider = rc_provider cfg,
     gr_source = rc_provider cfg, gr_simulated = rc_simulated cfg\<rparr>"

definition replace_instance_topology ::
    "resource_port_cfg \<Rightarrow> string \<Rightarrow> instance_topology \<Rightarrow> projection_db \<Rightarrow> projection_db" where
  "replace_instance_topology cfg iid topology db =
     (let db = clear_instance_topology iid db in
      db\<lparr>db_networks := db_networks db @ map (network_row_of cfg iid) (it_networks topology),
         db_nodes := db_nodes db @ map (node_row_of cfg iid) (it_nodes topology),
         db_edges := db_edges db @ map (edge_row_of cfg iid) (it_edges topology)\<rparr>)"

definition network_of_row :: "network_row \<Rightarrow> topology_network" where
  "network_of_row r = \<lparr>tn_ref = nr_ref r, tn_name = nr_name r, tn_cidr = nr_cidr r,
     tn_team_ref = nr_team_ref r, tn_isolated = nr_isolated r\<rparr>"

definition node_of_row :: "node_row \<Rightarrow> topology_node" where
  "node_of_row r = \<lparr>td_ref = dr_ref r, td_name = dr_name r, td_kind = dr_kind r, td_role = dr_role r,
     td_image = dr_image r, td_network_ref = dr_network_ref r, td_ip_address = dr_ip_address r,
     td_attributes = dr_attributes r\<rparr>"

definition edge_of_row :: "edge_row \<Rightarrow> topology_edge" where
  "edge_of_row r = \<lparr>te_source_ref = gr_source_ref r, te_target_ref = gr_target_ref r, te_kind = gr_kind r\<rparr>"

definition read_instance_topology :: "string \<Rightarrow> projection_db \<Rightarrow> instance_topology" where
  "read_instance_topology iid db = \<lparr>
     it_networks = map network_of_row (sort_key nr_ref (filter (\<lambda>r. nr_instance_id r = iid) (db_networks db))),
     it_nodes = map node_of_row (sort_key dr_ref (filter (\<lambda>r. dr_instance r = iid) (db_nodes db))),
     it_edges = map edge_of_row (sort_key (\<lambda>r. (gr_source_ref r, gr_target_ref r))
       (filter (\<lambda>r. gr_instance_id r = iid) (db_edges db)))\<rparr>"

text \<open>What a stored topology reads back as: the same elements, ordered by reference.\<close>

definition normal_topology :: "instance_topology \<Rightarrow> instance_topology" where
  "normal_topology t = \<lparr>it_networks = sort_key tn_ref (it_networks t),
     it_nodes = sort_key td_ref (it_nodes t),
     it_edges = sort_key (\<lambda>e. (te_source_ref e, te_target_ref e)) (it_edges t)\<rparr>"

lemma map_sort_key: "(\<And>x. g (f x) = x) \<Longrightarrow> (\<And>x. k (f x) = h x) \<Longrightarrow> map g (sort_key k (map f xs)) = sort_key h xs"
proof -
  assume g: "\<And>x. g (f x) = x" and k: "\<And>x. k (f x) = h x"
  have ins: "insort_key k (f x) (map f ys) = map f (insort_key h x ys)" for x ys
    by (induction ys) (simp_all add: k)
  have "sort_key k (map f xs) = map f (sort_key h xs)"
    by (induction xs) (simp_all add: ins)
  then show ?thesis by (simp add: g map_idI comp_def)
qed

lemma row_round_trip [simp]:
  "network_of_row (network_row_of cfg i n) = n" "node_of_row (node_row_of cfg i d) = d"
  "edge_of_row (edge_row_of cfg i e) = e"
  by (simp_all add: network_of_row_def network_row_of_def node_of_row_def node_row_of_def
      edge_of_row_def edge_row_of_def)

lemma row_keys [simp]:
  "nr_ref (network_row_of cfg i n) = tn_ref n" "dr_ref (node_row_of cfg i d) = td_ref d"
  "gr_source_ref (edge_row_of cfg i e) = te_source_ref e" "gr_target_ref (edge_row_of cfg i e) = te_target_ref e"
  "nr_instance_id (network_row_of cfg i n) = i" "dr_instance (node_row_of cfg i d) = i"
  "gr_instance_id (edge_row_of cfg i e) = i"
  by (simp_all add: network_row_of_def node_row_of_def edge_row_of_def)

interpretation sql_port: resource_port "replace_instance_topology cfg" clear_instance_topology
    read_instance_topology normal_topology for cfg
proof
  fix i j t s
  have none: "filter (\<lambda>x. f x = i) (filter (\<lambda>x. f x \<noteq> i) xs) = []" for f :: "'x \<Rightarrow> string" and xs
    by (simp add: filter_empty_conv)
  show "read_instance_topology i (replace_instance_topology cfg i t s) = normal_topology t"
    by (simp add: read_instance_topology_def replace_instance_topology_def clear_instance_topology_def
        normal_topology_def Let_def none comp_def map_sort_key)
  show "read_instance_topology i (clear_instance_topology i s) = empty_topology"
    by (simp add: read_instance_topology_def clear_instance_topology_def empty_topology_def)
  assume "j \<noteq> i"
  then have other: "(\<lambda>x. f x \<noteq> i \<and> f x = j) = (\<lambda>x. f x = j)" for f :: "'x \<Rightarrow> string" by auto
  show "read_instance_topology j (replace_instance_topology cfg i t s) = read_instance_topology j s"
    "read_instance_topology j (clear_instance_topology i s) = read_instance_topology j s"
    using \<open>j \<noteq> i\<close> by (simp_all add: read_instance_topology_def replace_instance_topology_def
        clear_instance_topology_def Let_def comp_def other)
qed

end
