(* ===== verification/Ipv4.thy ===== *)
theory Ipv4
  imports Py_Text
begin

text \<open>
  The IPv4 half of the standard library's \<open>ipaddress\<close> module, as far as the sources use it:
  dotted-quad text, \<open>ip_network(text, strict)\<close>, \<open>subnets\<close>, \<open>hosts\<close>, \<open>overlaps\<close>. An address is a
  natural number below $2^{32}$; a network is its base address and prefix length. Netmask-notation
  suffixes and IPv6 text are read as errors.
\<close>

section \<open>Text\<close>

fun split_char :: "char \<Rightarrow> string \<Rightarrow> string list" where
  "split_char c [] = [[]]"
| "split_char c (x # s) = (if x = c then [] # split_char c s
     else (case split_char c s of [] \<Rightarrow> [[x]] | w # ws \<Rightarrow> (x # w) # ws))"

definition octet_ok :: "string \<Rightarrow> bool" where
  "octet_ok s \<longleftrightarrow> s \<noteq> [] \<and> list_all is_digit s \<and> length s \<le> 3 \<and>
     (s \<noteq> ''0'' \<longrightarrow> hd s \<noteq> CHR ''0'') \<and> read_nat s \<le> 255"

definition ip_str :: "nat \<Rightarrow> string" where
  "ip_str n = join ''.'' [show_nat (n div 16777216), show_nat (n div 65536 mod 256),
     show_nat (n div 256 mod 256), show_nat (n mod 256)]"

definition parse_ip :: "string \<Rightarrow> nat option" where
  "parse_ip s = (case split_char CHR ''.'' s of
      [a, b, c, d] \<Rightarrow>
        if octet_ok a \<and> octet_ok b \<and> octet_ok c \<and> octet_ok d
        then Some (((read_nat a * 256 + read_nat b) * 256 + read_nat c) * 256 + read_nat d)
        else None
    | _ \<Rightarrow> None)"

record ip_net =
  nw_addr :: nat
  nw_prefix :: nat

definition block_size :: "nat \<Rightarrow> nat" where
  "block_size p = 2 ^ (32 - p)"

definition net_of :: "nat \<Rightarrow> nat \<Rightarrow> ip_net" where
  "net_of a p = \<lparr>nw_addr = a div block_size p * block_size p, nw_prefix = p\<rparr>"

definition net_str :: "ip_net \<Rightarrow> string" where
  "net_str n = ip_str (nw_addr n) @ ''/'' @ show_nat (nw_prefix n)"

text \<open>\<open>None\<close> is the \<open>ValueError\<close>. A missing prefix means a single address.\<close>

definition ip_network :: "bool \<Rightarrow> string \<Rightarrow> ip_net option" where
  "ip_network strict s = (case split_char CHR ''/'' s of
      [a] \<Rightarrow> (case parse_ip a of None \<Rightarrow> None | Some n \<Rightarrow> Some (net_of n 32))
    | [a, m] \<Rightarrow>
        (case parse_ip a of
           None \<Rightarrow> None
         | Some n \<Rightarrow>
             if m \<noteq> [] \<and> list_all is_digit m \<and> read_nat m \<le> 32
             then (if strict \<and> nw_addr (net_of n (read_nat m)) \<noteq> n then None
                   else Some (net_of n (read_nat m)))
             else None)
    | _ \<Rightarrow> None)"

section \<open>Networks\<close>

definition net_contains :: "ip_net \<Rightarrow> nat \<Rightarrow> bool" where
  "net_contains n a \<longleftrightarrow> a div block_size (nw_prefix n) * block_size (nw_prefix n) = nw_addr n"

definition broadcast :: "ip_net \<Rightarrow> nat" where
  "broadcast n = nw_addr n + block_size (nw_prefix n) - 1"

definition overlaps :: "ip_net \<Rightarrow> ip_net \<Rightarrow> bool" where
  "overlaps n m \<longleftrightarrow> net_contains n (nw_addr m) \<or> net_contains n (broadcast m) \<or>
     net_contains m (nw_addr n) \<or> net_contains m (broadcast n)"

definition subnets :: "nat \<Rightarrow> ip_net \<Rightarrow> ip_net list option" where
  "subnets new_prefix n =
     (if nw_prefix n = 32 then Some [n]
      else if new_prefix < nw_prefix n \<or> 32 < new_prefix then None
      else Some (map (\<lambda>i. \<lparr>nw_addr = nw_addr n + i * block_size new_prefix, nw_prefix = new_prefix\<rparr>)
             [0..<2 ^ (new_prefix - nw_prefix n)]))"

definition hosts :: "ip_net \<Rightarrow> nat list" where
  "hosts n = (if nw_prefix n = 32 then [nw_addr n]
     else if nw_prefix n = 31 then [nw_addr n, broadcast n]
     else [nw_addr n + 1..<broadcast n])"

text \<open>A network as the library represents one: aligned, and inside the address space.\<close>

definition wf_net :: "ip_net \<Rightarrow> bool" where
  "wf_net n \<longleftrightarrow> nw_prefix n \<le> 32 \<and> block_size (nw_prefix n) dvd nw_addr n \<and>
     nw_addr n + block_size (nw_prefix n) \<le> 2 ^ 32"

definition net_range :: "ip_net \<Rightarrow> nat set" where
  "net_range n = {nw_addr n..<nw_addr n + block_size (nw_prefix n)}"

section \<open>Printing and reading back\<close>

lemma split_char_nonempty [simp]: "split_char c s \<noteq> []"
  by (cases s) (auto split: list.splits)

lemma split_char_none: "c \<notin> set s \<Longrightarrow> split_char c s = [s]"
  by (induction s) auto

lemma split_char_append: "c \<notin> set a \<Longrightarrow> split_char c (a @ c # s) = a # split_char c s"
  by (induction a) auto

lemma show_nat_not: "\<not> is_digit c \<Longrightarrow> c \<notin> set (show_nat n)"
  using show_nat_digits by blast

lemma not_digit [simp]: "\<not> is_digit CHR ''.''" "\<not> is_digit CHR ''/''"
  by (simp_all add: is_digit_def)

lemma show_nat_small: "n < 10 \<Longrightarrow> show_nat n = [digit_char n]"
  by (simp add: show_nat.simps)

lemma show_nat_step: "10 \<le> n \<Longrightarrow> show_nat n = show_nat (n div 10) @ [digit_char (n mod 10)]"
  by (subst show_nat.simps) simp

lemma zero_digit: "digit_char 0 = CHR ''0''" and read_zero: "read_nat ''0'' = 0"
  by code_simp+

lemma digit_char_zero: "n < 10 \<Longrightarrow> digit_char n = CHR ''0'' \<longleftrightarrow> n = 0"
proof -
  assume n: "n < 10"
  have "n = 0" if "digit_char n = CHR ''0''"
  proof -
    have "digit_value (digit_char n) = digit_value (digit_char 0)" by (simp only: that zero_digit)
    then show ?thesis using n by (simp only: digit_value_char)
  qed
  then show ?thesis using zero_digit by blast
qed

lemma show_nat_hd_zero: "0 < n \<Longrightarrow> hd (show_nat n) \<noteq> CHR ''0''"
proof (induction n rule: show_nat.induct)
  case (1 n)
  show ?case
  proof (cases "n < 10")
    case True
    with 1 show ?thesis by (simp add: show_nat_small digit_char_zero)
  next
    case False
    with 1 show ?thesis by (simp add: show_nat_step)
  qed
qed

lemma show_nat_length: "n < 1000 \<Longrightarrow> length (show_nat n) \<le> 3"
  by (cases "n < 10"; cases "n div 10 < 10")
    (simp_all add: show_nat_small show_nat_step [of n] show_nat_step [of "n div 10"] div_less)

lemma octet_ok_show: "n < 256 \<Longrightarrow> octet_ok (show_nat n)"
  using show_nat_digits [of _ n] show_nat_length [of n] show_nat_hd_zero [of n]
  by (cases "n = 0") (auto simp: octet_ok_def list_all_iff show_nat_small zero_digit read_zero is_digit_def)

lemma ip_parts:
  assumes "n < (2::nat) ^ 32"
  shows "n div 16777216 < 256"
    and "((n div 16777216 * 256 + n div 65536 mod 256) * 256 + n div 256 mod 256) * 256 + n mod 256 = n"
proof -
  show "n div 16777216 < 256" using assms by simp
  have "n div 65536 div 256 = n div 16777216" "n div 256 div 256 = n div 65536"
    by (simp_all add: div_mult2_eq [symmetric])
  then show "((n div 16777216 * 256 + n div 65536 mod 256) * 256 + n div 256 mod 256) * 256 + n mod 256 = n"
    using div_mult_mod_eq [of n 256] div_mult_mod_eq [of "n div 256" 256] div_mult_mod_eq [of "n div 65536" 256]
    by metis
qed

lemma parse_ip_str [simp]: "n < 2 ^ 32 \<Longrightarrow> parse_ip (ip_str n) = Some n"
proof -
  assume n: "n < 2 ^ 32"
  let ?a = "show_nat (n div 16777216)" and ?b = "show_nat (n div 65536 mod 256)"
    and ?c = "show_nat (n div 256 mod 256)" and ?d = "show_nat (n mod 256)"
  have "ip_str n = ?a @ CHR ''.'' # ?b @ CHR ''.'' # ?c @ CHR ''.'' # ?d" by (simp add: ip_str_def)
  then have "split_char CHR ''.'' (ip_str n) = [?a, ?b, ?c, ?d]"
    by (simp add: split_char_append split_char_none show_nat_not)
  moreover have "octet_ok ?a" "octet_ok ?b" "octet_ok ?c" "octet_ok ?d"
    using ip_parts(1) [OF n] by (simp_all add: octet_ok_show)
  ultimately show ?thesis using ip_parts(2) [OF n] by (simp add: parse_ip_def)
qed

lemma ip_str_inject: "m < 2 ^ 32 \<Longrightarrow> n < 2 ^ 32 \<Longrightarrow> ip_str m = ip_str n \<longleftrightarrow> m = n"
  by (metis option.inject parse_ip_str)

lemma ip_str_chars: "CHR ''/'' \<notin> set (ip_str n)"
  by (simp add: ip_str_def show_nat_not)

lemma net_of_wf: "wf_net n \<Longrightarrow> net_of (nw_addr n) (nw_prefix n) = n"
  by (simp add: net_of_def wf_net_def)

lemma block_size_pos [simp]: "0 < block_size p" "block_size p \<noteq> 0"
  by (simp_all add: block_size_def)

lemma ip_network_net_str: "wf_net n \<Longrightarrow> ip_network strict (net_str n) = Some n"
proof -
  assume wf: "wf_net n"
  then have a: "nw_addr n < 2 ^ 32" using block_size_pos(1) [of "nw_prefix n"] unfolding wf_net_def by linarith
  have "split_char CHR ''/'' (net_str n) = [ip_str (nw_addr n), show_nat (nw_prefix n)]"
    by (simp add: net_str_def split_char_append ip_str_chars split_char_none show_nat_not)
  with wf a net_of_wf [OF wf] show ?thesis
    by (simp add: ip_network_def wf_net_def list_all_iff show_nat_digits)
qed

section \<open>Overlap\<close>

lemma div_eq_iff: "0 < b \<Longrightarrow> a div b = k \<longleftrightarrow> b * k \<le> a \<and> a < b * k + (b::nat)"
  by (metis add.commute div_nat_eqI dividend_less_times_div mult.commute mult_Suc mult_Suc_right times_div_less_eq_dividend)

lemma net_contains_iff: "wf_net n \<Longrightarrow> net_contains n a \<longleftrightarrow> a \<in> net_range n"
proof -
  assume "wf_net n"
  then obtain k where k: "nw_addr n = block_size (nw_prefix n) * k" by (auto simp: wf_net_def)
  let ?b = "block_size (nw_prefix n)"
  have "a div ?b * ?b = ?b * k \<longleftrightarrow> a div ?b = k" by (simp add: mult.commute)
  also have "\<dots> \<longleftrightarrow> ?b * k \<le> a \<and> a < ?b * k + ?b" by (simp add: div_eq_iff)
  finally show ?thesis using k by (simp add: net_contains_def net_range_def)
qed

lemma interval_overlap:
  fixes a b p q :: nat
  assumes "0 < p" and "0 < q"
  shows "a \<le> b \<and> b < a + p \<or> a \<le> b + q - 1 \<and> b + q - 1 < a + p \<or>
     b \<le> a \<and> a < b + q \<or> b \<le> a + p - 1 \<and> a + p - 1 < b + q \<longleftrightarrow> {a..<a + p} \<inter> {b..<b + q} \<noteq> {}"
proof -
  have "{a..<a + p} \<inter> {b..<b + q} \<noteq> {} \<longleftrightarrow> a < b + q \<and> b < a + p"
  proof
    assume "a < b + q \<and> b < a + p"
    then have "max a b \<in> {a..<a + p} \<inter> {b..<b + q}" using assms by auto
    then show "{a..<a + p} \<inter> {b..<b + q} \<noteq> {}" by blast
  qed auto
  moreover have "a \<le> b \<and> b < a + p \<or> a \<le> b + q - 1 \<and> b + q - 1 < a + p \<or>
     b \<le> a \<and> a < b + q \<or> b \<le> a + p - 1 \<and> a + p - 1 < b + q \<longleftrightarrow> a < b + q \<and> b < a + p"
    using assms by arith
  ultimately show ?thesis by simp
qed

lemma overlaps_iff: "wf_net n \<Longrightarrow> wf_net m \<Longrightarrow> overlaps n m \<longleftrightarrow> net_range n \<inter> net_range m \<noteq> {}"
  using interval_overlap [of "block_size (nw_prefix n)" "block_size (nw_prefix m)" "nw_addr n" "nw_addr m"]
  by (simp add: overlaps_def net_contains_iff broadcast_def net_range_def)

section \<open>Carving subnets\<close>

lemma block_size_split: "p \<le> q \<Longrightarrow> q \<le> 32 \<Longrightarrow> block_size p = 2 ^ (q - p) * block_size q"
  by (simp add: block_size_def power_add [symmetric])

lemma subnets_nth:
  assumes "subnets q n = Some ns" and "wf_net n" and "nw_prefix n < 32" and "i < length ns"
  shows "ns ! i = \<lparr>nw_addr = nw_addr n + i * block_size q, nw_prefix = q\<rparr>" and "wf_net (ns ! i)"
    and "net_range (ns ! i) \<subseteq> net_range n"
proof -
  from assms have q: "nw_prefix n \<le> q" "q \<le> 32" and ns: "ns = map (\<lambda>i. \<lparr>nw_addr = nw_addr n + i * block_size q,
      nw_prefix = q\<rparr>) [0..<2 ^ (q - nw_prefix n)]"
    by (auto simp: subnets_def split: if_splits)
  then have i: "i < 2 ^ (q - nw_prefix n)" using assms(4) by simp
  with ns show nth: "ns ! i = \<lparr>nw_addr = nw_addr n + i * block_size q, nw_prefix = q\<rparr>" by simp
  have split: "block_size (nw_prefix n) = 2 ^ (q - nw_prefix n) * block_size q"
    by (rule block_size_split) (use q in auto)
  have "(i + 1) * block_size q \<le> 2 ^ (q - nw_prefix n) * block_size q"
    by (rule mult_right_mono) (use i in auto)
  then have fit: "i * block_size q + block_size q \<le> block_size (nw_prefix n)" using split by simp
  have "block_size q dvd nw_addr n"
    using assms(2) split by (metis dvd_mult_right wf_net_def dvd_trans dvd_triv_right)
  then have dvd: "block_size q dvd nw_addr n + i * block_size q" by simp
  have top: "nw_addr n + block_size (nw_prefix n) \<le> 2 ^ 32" using assms(2) by (simp add: wf_net_def)
  show "wf_net (ns ! i)" unfolding nth wf_net_def using dvd q(2) fit top by simp
  show "net_range (ns ! i) \<subseteq> net_range n" unfolding nth net_range_def using fit by auto
qed

lemma subnets_disjoint:
  assumes "subnets q n = Some ns" and "wf_net n" and "nw_prefix n < 32"
    and "i < length ns" and "j < length ns" and "i \<noteq> j"
  shows "net_range (ns ! i) \<inter> net_range (ns ! j) = {}"
proof -
  note nth = subnets_nth(1) [OF assms(1-3)]
  have step: "i * block_size q + block_size q \<le> j * block_size q" if "i < j" for i j
  proof -
    have "(i + 1) * block_size q \<le> j * block_size q" by (rule mult_right_mono) (use that in auto)
    then show ?thesis by simp
  qed
  show ?thesis using assms(6) step [of i j] step [of j i]
    by (cases "i < j") (auto simp: nth assms(4,5) net_range_def)
qed

section \<open>Parsed networks are well formed\<close>

lemma parse_ip_bound: "parse_ip s = Some n \<Longrightarrow> n < 2 ^ 32"
  by (auto simp: parse_ip_def octet_ok_def split: list.splits if_splits)

lemma net_of_well_formed:
  assumes "n < 2 ^ 32" and "p \<le> 32"
  shows "wf_net (net_of n p)"
proof -
  have split: "(2::nat) ^ 32 = block_size p * 2 ^ p"
    using assms(2) by (simp add: block_size_def power_add [symmetric])
  have "n div block_size p < 2 ^ p"
    using assms(1) unfolding split by (metis block_size_pos(2) div_less_iff_less_mult mult.commute block_size_pos(1))
  then have "(n div block_size p + 1) * block_size p \<le> 2 ^ p * block_size p"
    by (intro mult_right_mono) auto
  then show ?thesis using assms(2) split by (simp add: wf_net_def net_of_def mult.commute)
qed

lemma ip_network_wf: "ip_network strict s = Some n \<Longrightarrow> wf_net n"
  by (auto simp: ip_network_def split: list.splits option.splits if_splits
      intro!: net_of_well_formed dest: parse_ip_bound)

end
