(* ===== verification/Simulator_Plugin.thy ===== *)
theory Simulator_Plugin
  imports Plugin_Contract Ipv4
begin

text \<open>
  The scenario definition models (\<open>contracts/scenario-schema/.../v1alpha1/models.py\<close>), as far as
  the simulator reads them, and the simulator plugin
  (\<open>plugins/simulator/secp_plugin_simulator/plugin.py\<close>). \<open>validate_definition\<close> runs a JSON-Schema
  validator and pydantic, which are not part of the sources; it is a parameter, and what the code
  relies on is \<open>definition_valid\<close>, the constraints written in \<open>models.py\<close>. Side-effecting methods
  thread the state of a resource port through.
\<close>

section \<open>Scenario definitions (v1alpha1/models.py)\<close>

datatype isolation_policy = IP_strict | IP_shared
datatype cidr_strategy = CS_per_team | CS_shared

record network_spec =
  ns_name :: string
  ns_cidr_strategy :: cidr_strategy
  ns_base_cidr :: "string option"
  ns_isolated :: bool

record role_spec =
  rl_name :: string
  rl_kind :: node_kind
  rl_image :: string
  rl_network :: string
  rl_count :: nat
  rl_vulnerability_packs :: "string list"

record definition_spec =
  sp_team_count :: nat
  sp_isolation_policy :: isolation_policy
  sp_networks :: "network_spec list"
  sp_roles :: "role_spec list"
  sp_required_plugins :: "string list"

text \<open>The name pattern \<open>^[a-z0-9]([-a-z0-9]*[a-z0-9])?$\<close>.\<close>

definition name_char :: "char \<Rightarrow> bool" where
  "name_char c \<longleftrightarrow> is_digit c \<or> 97 \<le> (of_char c :: nat) \<and> (of_char c :: nat) \<le> 122"

definition valid_name :: "string \<Rightarrow> bool" where
  "valid_name s \<longleftrightarrow> s \<noteq> [] \<and> name_char (hd s) \<and> name_char (last s) \<and>
     list_all (\<lambda>c. name_char c \<or> c = CHR ''-'') s"

definition roles_reference_declared_networks :: "definition_spec \<Rightarrow> bool" where
  "roles_reference_declared_networks sp =
     list_all (\<lambda>r. rl_network r \<in> set (map ns_name (sp_networks sp))) (sp_roles sp)"

definition definition_valid :: "definition_spec \<Rightarrow> bool" where
  "definition_valid sp \<longleftrightarrow> 1 \<le> sp_team_count sp \<and> sp_team_count sp \<le> 64 \<and>
     sp_networks sp \<noteq> [] \<and> sp_roles sp \<noteq> [] \<and> sp_required_plugins sp \<noteq> [] \<and>
     list_all (\<lambda>n. valid_name (ns_name n)) (sp_networks sp) \<and>
     list_all (\<lambda>r. valid_name (rl_name r) \<and> 1 \<le> rl_count r \<and> rl_count r \<le> 16) (sp_roles sp) \<and>
     roles_reference_declared_networks sp"

section \<open>Planning (plugin.py)\<close>

definition PLUGIN_NAME :: string where "PLUGIN_NAME = ''simulator''"
definition PLUGIN_VERSION :: string where "PLUGIN_VERSION = ''0.1.0''"
definition PLUGIN_CONTRACT_VERSION :: string where "PLUGIN_CONTRACT_VERSION = ''1''"
definition DEFAULT_BASE_CIDR :: string where "DEFAULT_BASE_CIDR = ''10.20.0.0/16''"

datatype plan_error = Plan_value_error | Plan_key_error | Schema_error "string list"

definition sim_health :: health_report where
  "sim_health = \<lparr>hr_name = PLUGIN_NAME, hr_version = PLUGIN_VERSION,
     hr_contract_version = PLUGIN_CONTRACT_VERSION, hr_healthy = True,
     hr_capabilities = [''validate'', ''plan'', ''apply'', ''status'', ''reset'', ''destroy'', ''health''],
     hr_simulated = True,
     hr_detail = ''Simulated provider. Creates only database records, never real infra.''\<rparr>"

definition sim_validate :: "('raw \<Rightarrow> string list + definition_spec) \<Rightarrow> 'raw \<Rightarrow> validation_result" where
  "sim_validate validate_definition raw = (case validate_definition raw of
      Inl errors \<Rightarrow> \<lparr>vr_ok = False, vr_errors = errors, vr_warnings = []\<rparr>
    | Inr sp \<Rightarrow> \<lparr>vr_ok = True, vr_errors = [], vr_warnings =
        (if PLUGIN_NAME \<notin> set (sp_required_plugins sp)
         then [''definition does not list 'simulator' in requiredPlugins; the simulator can still realise it'']
         else [])\<rparr>)"

definition base_network :: "network_spec \<Rightarrow> plan_error + ip_net" where
  "base_network net =
     (let text = (case ns_base_cidr net of None \<Rightarrow> DEFAULT_BASE_CIDR
          | Some s \<Rightarrow> if s = [] then DEFAULT_BASE_CIDR else s)
      in case ip_network False text of None \<Rightarrow> Inl Plan_value_error | Some n \<Rightarrow> Inr n)"

definition allocate_cidr :: "network_spec \<Rightarrow> int \<Rightarrow> plan_error + string" where
  "allocate_cidr net team_index =
     bindE (base_network net) (\<lambda>base.
       case subnets 24 base of
         None \<Rightarrow> Inl Plan_value_error
       | Some ns \<Rightarrow>
           if ns_cidr_strategy net = CS_shared then Inr (net_str (hd ns))
           else if 0 \<le> team_index \<and> team_index < int (length ns) then Inr (net_str (ns ! nat team_index))
           else Inl Plan_value_error)"

definition host_ip :: "string \<Rightarrow> nat \<Rightarrow> plan_error + string" where
  "host_ip cidr host = (case ip_network False cidr of
      None \<Rightarrow> Inl Plan_value_error
    | Some n \<Rightarrow> if nw_addr n + host < 2 ^ 32 then Inr (ip_str (nw_addr n + host)) else Inl Plan_value_error)"

definition plan_network :: "definition_spec \<Rightarrow> target_instance \<Rightarrow> network_spec \<Rightarrow> plan_error + topology_network" where
  "plan_network sp target net =
     bindE (allocate_cidr net (ti_team_index target)) (\<lambda>cidr.
       Inr \<lparr>tn_ref = ns_name net, tn_name = ti_team_ref target @ ''-'' @ ns_name net, tn_cidr = cidr,
            tn_team_ref = (if ns_cidr_strategy net = CS_per_team then Some (ti_team_ref target) else None),
            tn_isolated = (ns_isolated net \<and> sp_isolation_policy sp = IP_strict)\<rparr>)"

fun plan_networks :: "definition_spec \<Rightarrow> target_instance \<Rightarrow> network_spec list \<Rightarrow> plan_error + topology_network list" where
  "plan_networks sp target [] = Inr []"
| "plan_networks sp target (net # nets) =
     bindE (plan_network sp target net) (\<lambda>t.
       bindE (plan_networks sp target nets) (\<lambda>ts. Inr (t # ts)))"

definition node_ref :: "role_spec \<Rightarrow> nat \<Rightarrow> string" where
  "node_ref role i = (if rl_count role > 1 then rl_name role @ ''-'' @ show_nat i else rl_name role)"

definition plan_node :: "target_instance \<Rightarrow> role_spec \<Rightarrow> nat \<Rightarrow> string \<Rightarrow> topology_node" where
  "plan_node target role i ip = \<lparr>td_ref = node_ref role i, td_name = ti_team_ref target @ ''-'' @ node_ref role i,
     td_kind = rl_kind role, td_role = rl_name role, td_image = rl_image role,
     td_network_ref = rl_network role, td_ip_address = ip,
     td_attributes = [(''team_ref'', ti_team_ref target),
       (''vulnerability_packs'', join '','' (rl_vulnerability_packs role))]\<rparr>"

type_synonym host_counters = "(string, nat) dict"

text \<open>The inner loop over \<open>range(role.count)\<close>, from index \<open>i\<close> on.\<close>

fun plan_hosts :: "target_instance \<Rightarrow> role_spec \<Rightarrow> string \<Rightarrow> nat list \<Rightarrow> host_counters \<Rightarrow>
    plan_error + (topology_node list \<times> host_counters)" where
  "plan_hosts target role cidr [] counters = Inr ([], counters)"
| "plan_hosts target role cidr (i # is) counters =
     (case map_of counters (rl_network role) of
        None \<Rightarrow> Inl Plan_key_error
      | Some host \<Rightarrow>
          bindE (host_ip cidr host) (\<lambda>ip.
            bindE (plan_hosts target role cidr is (dict_set (rl_network role) (host + 1) counters))
              (\<lambda>(nodes, counters'). Inr (plan_node target role i ip # nodes, counters'))))"

fun plan_roles :: "target_instance \<Rightarrow> (string, topology_network) dict \<Rightarrow> role_spec list \<Rightarrow> host_counters \<Rightarrow>
    plan_error + topology_node list" where
  "plan_roles target networks_by_name [] counters = Inr []"
| "plan_roles target networks_by_name (role # roles) counters =
     (case map_of networks_by_name (rl_network role) of
        None \<Rightarrow> Inl Plan_key_error
      | Some net \<Rightarrow>
          bindE (plan_hosts target role (tn_cidr net) [0..<rl_count role] counters) (\<lambda>(nodes, counters').
            bindE (plan_roles target networks_by_name roles counters') (\<lambda>rest. Inr (nodes @ rest))))"

definition attachment_edge :: "topology_node \<Rightarrow> topology_edge" where
  "attachment_edge n = \<lparr>te_source_ref = td_ref n, te_target_ref = td_network_ref n, te_kind = GK_network\<rparr>"

definition monitor_edges :: "topology_node list \<Rightarrow> topology_edge list" where
  "monitor_edges nodes =
     (let sensor_refs = map td_ref (filter (\<lambda>n. td_kind n = NK_sensor) nodes);
          monitored = map td_ref (filter (\<lambda>n. td_kind n = NK_target \<or> td_kind n = NK_attacker) nodes)
      in concat (map (\<lambda>s. map (\<lambda>m. \<lparr>te_source_ref = s, te_target_ref = m, te_kind = GK_monitors\<rparr>) monitored) sensor_refs))"

definition initial_counters :: "definition_spec \<Rightarrow> host_counters" where
  "initial_counters sp = dict_of (map (\<lambda>n. (ns_name n, 10)) (sp_networks sp))"

definition plan_instance :: "definition_spec \<Rightarrow> target_instance \<Rightarrow> plan_error + instance_plan" where
  "plan_instance sp target =
     bindE (plan_networks sp target (sp_networks sp)) (\<lambda>networks.
       let networks_by_name = dict_of (map (\<lambda>t. (tn_ref t, t)) networks) in
       bindE (plan_roles target networks_by_name (sp_roles sp) (initial_counters sp)) (\<lambda>nodes.
         let edges = map attachment_edge nodes @ monitor_edges nodes in
         Inr \<lparr>ip_instance_id = ti_instance_id target, ip_instance_ref = ti_instance_ref target,
              ip_team_ref = ti_team_ref target,
              ip_desired = \<lparr>it_networks = networks, it_nodes = nodes, it_edges = edges\<rparr>,
              ip_summary = [(''networks'', length networks), (''nodes'', length nodes), (''edges'', length edges)]\<rparr>))"

fun plan_instances :: "definition_spec \<Rightarrow> target_instance list \<Rightarrow> plan_error + instance_plan list" where
  "plan_instances sp [] = Inr []"
| "plan_instances sp (target # targets) =
     bindE (plan_instance sp target) (\<lambda>p. bindE (plan_instances sp targets) (\<lambda>ps. Inr (p # ps)))"

definition sim_plan :: "('raw \<Rightarrow> string list + definition_spec) \<Rightarrow> 'raw \<Rightarrow> target_instance list \<Rightarrow> plan_error + plugin_plan" where
  "sim_plan validate_definition raw targets =
     (case validate_definition raw of
        Inl errors \<Rightarrow> Inl (Schema_error errors)
      | Inr sp \<Rightarrow> bindE (plan_instances sp (sort_key ti_team_index targets)) (\<lambda>instances.
          Inr \<lparr>pp_plugin = PLUGIN_NAME, pp_contract_version = PLUGIN_CONTRACT_VERSION, pp_instances = instances\<rparr>))"

section \<open>Operations on the resource port (plugin.py)\<close>

text \<open>
  The methods take the port's operations as arguments, as the plugin takes a context, and
  return the new port state with the result.
\<close>

definition sim_status :: "(string \<Rightarrow> 's \<Rightarrow> instance_topology) \<Rightarrow> string \<Rightarrow> 's \<Rightarrow> plugin_observed_state" where
  "sim_status read instance_id s =
     (let topo = read instance_id s in
      \<lparr>po_instance_id = instance_id,
       po_lifecycle_state = (if it_nodes topo \<noteq> [] then ''running'' else ''destroyed''),
       po_nodes_total = length (it_nodes topo), po_nodes_up = length (it_nodes topo),
       po_networks_total = length (it_networks topo), po_topology = topo\<rparr>)"

definition apply_step :: "(string \<Rightarrow> instance_topology \<Rightarrow> 's \<Rightarrow> 's) \<Rightarrow> 's \<times> string list \<times> nat \<times> nat \<times> nat \<Rightarrow>
    instance_plan \<Rightarrow> 's \<times> string list \<times> nat \<times> nat \<times> nat" where
  "apply_step replace acc p = (case acc of (s, applied, nets, nodes, edges) \<Rightarrow>
     (replace (ip_instance_id p) (ip_desired p) s, applied @ [ip_instance_id p],
      nets + length (it_networks (ip_desired p)), nodes + length (it_nodes (ip_desired p)),
      edges + length (it_edges (ip_desired p))))"

definition apply_plan :: "(string \<Rightarrow> instance_topology \<Rightarrow> 's \<Rightarrow> 's) \<Rightarrow> plugin_plan \<Rightarrow> 's \<Rightarrow> 's \<times> apply_result" where
  "apply_plan replace p s =
     (case foldl (apply_step replace) (s, [], 0, 0, 0) (pp_instances p) of (s', applied, nets, nodes, edges) \<Rightarrow>
       (s', \<lparr>ar_ok = True, ar_instances_applied = applied,
             ar_created = [(''networks'', nets), (''nodes'', nodes), (''edges'', edges)],
             ar_message = ''realised '' @ show_nat (length applied) @ '' simulated instance(s)''\<rparr>))"

definition topology_equal :: "instance_topology \<Rightarrow> instance_topology \<Rightarrow> bool" where
  "topology_equal a b \<longleftrightarrow> a = b"

definition sim_reset :: "(string \<Rightarrow> instance_topology \<Rightarrow> 's \<Rightarrow> 's) \<Rightarrow> (string \<Rightarrow> 's \<Rightarrow> instance_topology) \<Rightarrow>
    plugin_plan \<Rightarrow> string \<Rightarrow> 's \<Rightarrow> 's \<times> reset_result" where
  "sim_reset replace read p instance_id s =
     (case find (\<lambda>i. ip_instance_id i = instance_id) (pp_instances p) of
        None \<Rightarrow> (s, \<lparr>rr_ok = False, rr_instance_id = instance_id, rr_idempotent_noop = False,
                  rr_message = ''instance not found in plan''\<rparr>)
      | Some instance_plan \<Rightarrow>
          (let before = read instance_id s;
               s' = replace instance_id (ip_desired instance_plan) s;
               after = read instance_id s'
           in (s', \<lparr>rr_ok = True, rr_instance_id = instance_id,
                rr_idempotent_noop = topology_equal before after, rr_message = ''reset to baseline''\<rparr>)))"

definition destroy_step :: "(string \<Rightarrow> 's \<Rightarrow> 's) \<Rightarrow> (string \<Rightarrow> 's \<Rightarrow> instance_topology) \<Rightarrow>
    's \<times> string list \<times> bool \<Rightarrow> string \<Rightarrow> 's \<times> string list \<times> bool" where
  "destroy_step clear read acc instance_id = (case acc of (s, destroyed, any_present) \<Rightarrow>
     let existing = read instance_id s in
     (clear instance_id s, destroyed @ [instance_id],
      any_present \<or> it_nodes existing \<noteq> [] \<or> it_networks existing \<noteq> []))"

definition sim_destroy :: "(string \<Rightarrow> 's \<Rightarrow> 's) \<Rightarrow> (string \<Rightarrow> 's \<Rightarrow> instance_topology) \<Rightarrow> string list \<Rightarrow> 's \<Rightarrow>
    's \<times> destroy_result" where
  "sim_destroy clear read instance_ids s =
     (case foldl (destroy_step clear read) (s, [], False) instance_ids of (s', destroyed, any_present) \<Rightarrow>
       (s', \<lparr>dd_ok = True, dd_instances_destroyed = destroyed, dd_idempotent_noop = \<not> any_present,
             dd_message = ''cleared simulated topology''\<rparr>))"

section \<open>Subnet allocation\<close>

lemma base_network_wf: "base_network net = Inr base \<Longrightarrow> wf_net base"
  by (auto simp: base_network_def Let_def split: option.splits intro: ip_network_wf)

lemma subnets_element:
  assumes "subnets 24 base = Some ns" and "wf_net base" and "n \<in> set ns"
  shows "wf_net n" and "net_range n \<subseteq> net_range base" and "nw_prefix n = 24 \<or> base = n \<and> nw_prefix n = 32"
proof -
  show "wf_net n" "net_range n \<subseteq> net_range base" "nw_prefix n = 24 \<or> base = n \<and> nw_prefix n = 32"
  proof (atomize (full), cases "nw_prefix base = 32")
    case True
    with assms show "wf_net n \<and> net_range n \<subseteq> net_range base \<and> (nw_prefix n = 24 \<or> base = n \<and> nw_prefix n = 32)"
      by (auto simp: subnets_def)
  next
    case False
    with assms(2) have "nw_prefix base < 32" by (simp add: wf_net_def)
    moreover from assms(3) obtain i where "i < length ns" "n = ns ! i" by (auto simp: in_set_conv_nth)
    ultimately show "wf_net n \<and> net_range n \<subseteq> net_range base \<and> (nw_prefix n = 24 \<or> base = n \<and> nw_prefix n = 32)"
      using subnets_nth [OF assms(1,2), of i] by simp
  qed
qed

lemma subnets_nonempty: "subnets 24 base = Some ns \<Longrightarrow> ns \<noteq> []"
  by (auto simp: subnets_def split: if_splits)

lemma allocate_cidr_Inr:
  assumes "allocate_cidr net k = Inr cidr"
  obtains base n ns where "base_network net = Inr base" "subnets 24 base = Some ns" "n \<in> set ns"
    "cidr = net_str n" "wf_net n" "ip_network False cidr = Some n" "net_range n \<subseteq> net_range base"
    "ns_cidr_strategy net = CS_per_team \<Longrightarrow> 0 \<le> k \<and> nat k < length ns \<and> n = ns ! nat k"
    "ns_cidr_strategy net = CS_shared \<Longrightarrow> n = hd ns"
proof -
  from assms obtain base ns where b: "base_network net = Inr base" "subnets 24 base = Some ns"
    by (auto simp: allocate_cidr_def refusal_simps split: option.splits)
  define n where "n = (if ns_cidr_strategy net = CS_shared then hd ns else ns ! nat k)"
  have n: "n \<in> set ns" "cidr = net_str n" "ns_cidr_strategy net = CS_per_team \<Longrightarrow> 0 \<le> k \<and> nat k < length ns"
    using assms b subnets_nonempty [OF b(2)]
    by (auto simp: allocate_cidr_def n_def split: if_splits)
  note wf = subnets_element [OF b(2) base_network_wf [OF b(1)] n(1)]
  show ?thesis
    by (rule that [OF b n(1,2) wf(1) _ wf(2)]) (use n wf(1) in \<open>auto simp: n_def ip_network_net_str\<close>)
qed

text \<open>Two teams never receive overlapping per-team segments of the same declared network.\<close>

lemma per_team_disjoint:
  assumes "allocate_cidr net j = Inr a" and "allocate_cidr net k = Inr b" and "j \<noteq> k"
    and "ns_cidr_strategy net = CS_per_team"
  shows "\<exists>m n. ip_network False a = Some m \<and> ip_network False b = Some n \<and> \<not> overlaps m n"
proof -
  from allocate_cidr_Inr [OF assms(1)] assms(4) obtain base ns where
    m: "base_network net = Inr base" "subnets 24 base = Some ns" "wf_net (ns ! nat j)" "ip_network False a = Some (ns ! nat j)"
      "0 \<le> j" "nat j < length ns" by metis
  from allocate_cidr_Inr [OF assms(2)] assms(4) m(1,2) have
    n: "wf_net (ns ! nat k)" "ip_network False b = Some (ns ! nat k)" "0 \<le> k" "nat k < length ns"
    by (metis Inr_inject option.inject)+
  have wf: "wf_net base" by (rule base_network_wf [OF m(1)])
  have "nw_prefix base < 32"
  proof (rule ccontr)
    assume "\<not> nw_prefix base < 32"
    with wf m(2) have "length ns = 1" by (auto simp: subnets_def wf_net_def)
    with m(5,6) n(3,4) assms(3) show False by simp
  qed
  from subnets_disjoint [OF m(2) wf this m(6) n(4)] assms(3) m(5) n(3)
  have "net_range (ns ! nat j) \<inter> net_range (ns ! nat k) = {}" by (simp add: eq_nat_nat_iff)
  with m n show ?thesis by (simp add: overlaps_iff)
qed

section \<open>Host addresses\<close>

definition hosts_on :: "role_spec list \<Rightarrow> string \<Rightarrow> nat" where
  "hosts_on roles name = sum_list (map (\<lambda>r. if rl_network r = name then rl_count r else 0) roles)"

lemma plan_hosts_Inr:
  assumes "plan_hosts target role cidr is counters = Inr (nodes, counters')"
    and "map_of counters (rl_network role) = Some c"
    and "ip_network False cidr = Some net"
  shows "nodes = map (\<lambda>(i, h). plan_node target role i (ip_str (nw_addr net + h))) (zip is [c..<c + length is]) \<and>
    map_of counters' = (map_of counters)(rl_network role \<mapsto> c + length is) \<and>
    (is \<noteq> [] \<longrightarrow> nw_addr net + c + length is \<le> 2 ^ 32)"
  using assms
proof (induction "is" arbitrary: counters c nodes)
  case Nil
  then show ?case by auto
next
  case (Cons i "is")
  from Cons.prems obtain rest where
    rest: "plan_hosts target role cidr is (dict_set (rl_network role) (c + 1) counters) = Inr (rest, counters')"
    and nodes: "nodes = plan_node target role i (ip_str (nw_addr net + c)) # rest" and b: "nw_addr net + c < 2 ^ 32"
    by (auto simp: refusal_simps host_ip_def split: if_splits)
  have "[c..<c + length (i # is)] = c # [c + 1..<c + 1 + length is]" by (subst upt_conv_Cons) simp_all
  with Cons.IH [OF rest _ Cons.prems(3), of "c + 1"] nodes b show ?case by (auto simp: fun_eq_iff)
qed

text \<open>Where a planned node sits: its network, and the host number it was given there.\<close>

definition placed :: "(string, topology_network) dict \<Rightarrow> host_counters \<Rightarrow> role_spec list \<Rightarrow> topology_node \<Rightarrow> nat \<Rightarrow> bool" where
  "placed nbn counters roles n h \<longleftrightarrow> (\<exists>t net c. map_of nbn (td_network_ref n) = Some t \<and>
     ip_network False (tn_cidr t) = Some net \<and> td_ip_address n = ip_str (nw_addr net + h) \<and>
     nw_addr net + h < 2 ^ 32 \<and> map_of counters (td_network_ref n) = Some c \<and> c \<le> h \<and>
     h < c + hosts_on roles (td_network_ref n))"

lemma hosts_on_Cons [simp]: "hosts_on (r # roles) name =
    (if rl_network r = name then rl_count r else 0) + hosts_on roles name"
  by (simp add: hosts_on_def)

lemma placed_first:
  assumes nodes: "plan_hosts target r (tn_cidr t) [0..<rl_count r] counters = Inr (nodes, counters')"
    and c: "map_of counters (rl_network r) = Some c" and t: "map_of nbn (rl_network r) = Some t"
    and net: "ip_network False (tn_cidr t) = Some net" and n: "n \<in> set nodes"
  shows "td_network_ref n = rl_network r \<and> (\<exists>h. placed nbn counters (r # roles) n h \<and> h < c + rl_count r)"
proof -
  note spec = plan_hosts_Inr [OF nodes c net]
  from n spec obtain i h where *: "n = plan_node target r i (ip_str (nw_addr net + h))" "c \<le> h" "h < c + rl_count r"
    by (auto dest!: set_zip_rightD)
  have "rl_count r \<noteq> 0" using *(2,3) by auto
  with spec have "nw_addr net + c + rl_count r \<le> 2 ^ 32" by simp
  with * c t net show ?thesis unfolding placed_def by (intro conjI exI [of _ h]) (auto simp: plan_node_def)
qed

lemma plan_hosts_counters:
  assumes "plan_hosts target r cidr is counters = Inr (nodes, counters')"
    and "map_of counters (rl_network r) = Some c" and "ip_network False cidr = Some net"
  shows "map_of counters' = (map_of counters)(rl_network r \<mapsto> c + length is)"
  using plan_hosts_Inr [OF assms] by simp

lemma plan_roles_placed:
  assumes "plan_roles target nbn roles counters = Inr nodes"
    and "\<forall>t \<in> ran (map_of nbn). ip_network False (tn_cidr t) \<noteq> None"
    and "\<forall>r \<in> set roles. map_of counters (rl_network r) \<noteq> None"
  shows "(\<forall>n \<in> set nodes. \<exists>h. placed nbn counters roles n h) \<and>
    distinct (map (\<lambda>n. (td_network_ref n, td_ip_address n)) nodes)"
  using assms
proof (induction roles arbitrary: counters nodes)
  case Nil
  then show ?case by simp
next
  case (Cons r roles)
  from Cons.prems(1) obtain t first counters' rest where
    t: "map_of nbn (rl_network r) = Some t"
    and first: "plan_hosts target r (tn_cidr t) [0..<rl_count r] counters = Inr (first, counters')"
    and rest: "plan_roles target nbn roles counters' = Inr rest" and nodes: "nodes = first @ rest"
    by (auto simp: refusal_simps split: option.splits)
  from Cons.prems(3) obtain c where c: "map_of counters (rl_network r) = Some c" by auto
  from Cons.prems(2) t obtain net where net: "ip_network False (tn_cidr t) = Some net" by (auto simp: ran_def)
  note counters' = plan_hosts_counters [OF first c net]
  note spec = plan_hosts_Inr [OF first c net]
  from Cons.IH [OF rest Cons.prems(2)] Cons.prems(3) counters'
  have IH: "\<forall>n \<in> set rest. \<exists>h. placed nbn counters' roles n h"
    "distinct (map (\<lambda>n. (td_network_ref n, td_ip_address n)) rest)" by auto
  have late: "\<exists>h. placed nbn counters (r # roles) n h \<and> (td_network_ref n = rl_network r \<longrightarrow> c + rl_count r \<le> h)"
    if n: "n \<in> set rest" for n
  proof -
    from IH(1) n obtain h where h: "placed nbn counters' roles n h" by blast
    then show ?thesis using c
      by (intro exI [of _ h]) (auto simp: placed_def counters' split: if_splits)
  qed
  have early: "td_network_ref n = rl_network r \<and> (\<exists>h. placed nbn counters (r # roles) n h \<and> h < c + rl_count r)"
    if "n \<in> set first" for n by (rule placed_first [OF first c t net that])
  have "distinct (map (\<lambda>n. (td_network_ref n, td_ip_address n)) first)"
  proof -
    let ?hs = "[c..<c + rl_count r]"
    have map: "map (\<lambda>n. (td_network_ref n, td_ip_address n)) first = map (\<lambda>h. (rl_network r, ip_str (nw_addr net + h))) ?hs"
    proof -
      have "map (\<lambda>n. (td_network_ref n, td_ip_address n)) first =
          map (\<lambda>(i, h). (rl_network r, ip_str (nw_addr net + h))) (zip [0..<rl_count r] ?hs)"
        using spec by (simp add: plan_node_def case_prod_beta)
      also have "\<dots> = map (\<lambda>h. (rl_network r, ip_str (nw_addr net + h))) (map snd (zip [0..<rl_count r] ?hs))"
        unfolding map_map by (rule map_cong) auto
      finally show ?thesis by (simp del: map_map)
    qed
    have "inj_on (\<lambda>h. (rl_network r, ip_str (nw_addr net + h))) (set ?hs)"
      using spec by (auto simp: inj_on_def ip_str_inject)
    then show ?thesis unfolding map by (simp add: distinct_map)
  qed
  moreover have "(td_network_ref n, td_ip_address n) \<noteq> (td_network_ref m, td_ip_address m)"
    if "n \<in> set first" "m \<in> set rest" for n m
  proof
    assume eq: "(td_network_ref n, td_ip_address n) = (td_network_ref m, td_ip_address m)"
    from early [OF that(1)] obtain h where "placed nbn counters (r # roles) n h" "h < c + rl_count r"
      and ref: "td_network_ref n = rl_network r" by blast
    moreover from late [OF that(2)] eq ref obtain h' where "placed nbn counters (r # roles) m h'" "c + rl_count r \<le> h'" by auto
    ultimately show False using eq by (auto simp: placed_def ip_str_inject)
  qed
  ultimately have "distinct (map (\<lambda>n. (td_network_ref n, td_ip_address n)) nodes)"
    using IH(2) unfolding nodes map_append distinct_append by (auto simp: disjoint_iff)
  moreover have "\<forall>n \<in> set nodes. \<exists>h. placed nbn counters (r # roles) n h"
    using early late unfolding nodes by auto
  ultimately show ?case by blast
qed

section \<open>Planned references\<close>

definition role_refs :: "role_spec list \<Rightarrow> string list" where
  "role_refs roles = concat (map (\<lambda>r. map (node_ref r) [0..<rl_count r]) roles)"

definition planned_refs :: "definition_spec \<Rightarrow> string list" where
  "planned_refs sp = map ns_name (sp_networks sp) @ role_refs (sp_roles sp)"

lemma plan_networks_Inr:
  "plan_networks sp target nets = Inr ts \<Longrightarrow>
     map tn_ref ts = map ns_name nets \<and> (\<forall>t \<in> set ts. \<exists>net \<in> set nets. plan_network sp target net = Inr t)"
proof (induction nets arbitrary: ts)
  case (Cons net nets)
  then obtain t ts' where t: "plan_network sp target net = Inr t" and ts': "plan_networks sp target nets = Inr ts'"
    and ts: "ts = t # ts'" by (auto simp: refusal_simps)
  have "tn_ref t = ns_name net" using t by (auto simp: plan_network_def refusal_simps)
  with Cons.IH [OF ts'] t ts show ?case by auto
qed simp

lemma plan_network_cidr:
  assumes "plan_network sp target net = Inr t"
  shows "allocate_cidr net (ti_team_index target) = Inr (tn_cidr t)"
  using assms by (auto simp: plan_network_def refusal_simps)

lemma plan_networks_cidr:
  assumes "plan_networks sp target nets = Inr ts" and "t \<in> set ts"
  shows "\<exists>n. ip_network False (tn_cidr t) = Some n"
proof -
  from plan_networks_Inr [OF assms(1)] assms(2) obtain net where "plan_network sp target net = Inr t" by blast
  from allocate_cidr_Inr [OF plan_network_cidr [OF this]] show ?thesis by metis
qed

lemma plan_hosts_refs:
  "plan_hosts target r cidr is counters = Inr (nodes, counters') \<Longrightarrow>
     map td_ref nodes = map (node_ref r) is \<and> (\<forall>n \<in> set nodes. td_network_ref n = rl_network r)"
  by (induction "is" arbitrary: counters nodes)
    (auto simp: refusal_simps plan_node_def split: option.splits)

lemma plan_roles_refs:
  "plan_roles target nbn roles counters = Inr nodes \<Longrightarrow>
     map td_ref nodes = role_refs roles \<and> (\<forall>n \<in> set nodes. td_network_ref n \<in> rl_network ` set roles)"
proof (induction roles arbitrary: counters nodes)
  case (Cons r roles)
  from Cons.prems obtain t first counters' rest where "map_of nbn (rl_network r) = Some t"
    and first: "plan_hosts target r (tn_cidr t) [0..<rl_count r] counters = Inr (first, counters')"
    and rest: "plan_roles target nbn roles counters' = Inr rest" and nodes: "nodes = first @ rest"
    by (auto simp: refusal_simps split: option.splits)
  with plan_hosts_refs [OF first] Cons.IH [OF rest] show ?case by (auto simp: role_refs_def)
qed (simp add: role_refs_def)

lemma plan_instance_Inr:
  assumes "plan_instance sp target = Inr p"
  obtains networks nodes where "plan_networks sp target (sp_networks sp) = Inr networks"
    "plan_roles target (dict_of (map (\<lambda>t. (tn_ref t, t)) networks)) (sp_roles sp) (initial_counters sp) = Inr nodes"
    "ip_desired p = \<lparr>it_networks = networks, it_nodes = nodes, it_edges = map attachment_edge nodes @ monitor_edges nodes\<rparr>"
  using assms by (auto simp: plan_instance_def refusal_simps Let_def)

lemma initial_counters_lookup:
  "map_of (initial_counters sp) name = (if name \<in> ns_name ` set (sp_networks sp) then Some 10 else None)"
proof -
  have "map_of (rev (map (\<lambda>n. (ns_name n, 10)) ns)) name = (if name \<in> ns_name ` set ns then Some (10::nat) else None)" for ns
    by (induction ns) (auto simp: map_add_def)
  from this [of "sp_networks sp"] show ?thesis by (simp only: initial_counters_def map_of_dict_of)
qed

lemma networks_by_name_ran: "t \<in> ran (map_of (dict_of (map (\<lambda>t. (tn_ref t, t)) networks))) \<Longrightarrow> t \<in> set networks"
  by (auto simp: map_of_dict_of ran_def dest!: map_of_SomeD)

section \<open>Operations on the port\<close>

lemma apply_plan_state:
  "fst (apply_plan replace p s) = foldl (\<lambda>s (i, t). replace i t s) s
     (map (\<lambda>ip. (ip_instance_id ip, ip_desired ip)) (pp_instances p))"
proof -
  have "fst (foldl (apply_step replace) (s, a, b, c, d) ips) =
      foldl (\<lambda>s (i, t). replace i t s) s (map (\<lambda>ip. (ip_instance_id ip, ip_desired ip)) ips)" for s a b c d ips
    by (induction ips arbitrary: s a b c d) (simp_all add: apply_step_def)
  from this [of s "[]" 0 0 0 "pp_instances p"] show ?thesis
    by (cases "foldl (apply_step replace) (s, [], 0, 0, 0) (pp_instances p)") (simp add: apply_plan_def)
qed

lemma destroy_state:
  "fst (sim_destroy clear read is s) = foldl (\<lambda>s i. clear i s) s is \<and>
   dd_instances_destroyed (snd (sim_destroy clear read is s)) = is"
proof -
  have "fst (foldl (destroy_step clear read) (s, a, b) is) = foldl (\<lambda>s i. clear i s) s is \<and>
      fst (snd (foldl (destroy_step clear read) (s, a, b) is)) = a @ is" for s a b
    by (induction "is" arbitrary: s a b) (simp_all add: destroy_step_def Let_def)
  from this [of s "[]" False] show ?thesis
    by (cases "foldl (destroy_step clear read) (s, [], False) is") (simp add: sim_destroy_def)
qed

lemma destroy_noop:
  assumes "\<And>i j s. i \<in> set is \<Longrightarrow> j \<in> set is \<Longrightarrow> read j s = empty_topology \<Longrightarrow> read j (clear i s) = empty_topology"
    and "\<forall>i \<in> set is. read i s = empty_topology"
  shows "dd_idempotent_noop (snd (sim_destroy clear read is s))"
proof -
  have "\<not> snd (snd (foldl (destroy_step clear read) (s, a, False) is'))"
    if "\<forall>i \<in> set is. read i s = empty_topology" "set is' \<subseteq> set is" for s a is'
    using that
  proof (induction is' arbitrary: s a)
    case (Cons i is')
    have "\<forall>j \<in> set is. read j (clear i s) = empty_topology" using Cons.prems assms(1) by auto
    with Cons show ?case by (simp add: destroy_step_def Let_def empty_topology_def)
  qed simp
  from this [of s "is" "[]"] assms(2) show ?thesis
    by (cases "foldl (destroy_step clear read) (s, [], False) is") (simp add: sim_destroy_def)
qed

text \<open>The three operations on the control plane's own port.\<close>

lemma sql_apply_read:
  "read_instance_topology j (fst (apply_plan (replace_instance_topology cfg) p s)) =
     (case map_of (rev (map (\<lambda>ip. (ip_instance_id ip, ip_desired ip)) (pp_instances p))) j of
        None \<Rightarrow> read_instance_topology j s | Some t \<Rightarrow> normal_topology t)"
  unfolding apply_plan_state sql_port.replace_all_def [symmetric] by (rule sql_port.read_replace_all)

lemma sql_destroy_read:
  "read_instance_topology j (fst (sim_destroy clear_instance_topology read_instance_topology is s)) =
     (if j \<in> set is then empty_topology else read_instance_topology j s)"
  unfolding destroy_state [THEN conjunct1] sql_port.clear_all_def [symmetric] by (rule sql_port.read_clear_all)

lemma sql_clear_keeps_empty:
  "read_instance_topology j s = empty_topology \<Longrightarrow> read_instance_topology j (clear_instance_topology i s) = empty_topology"
  using sql_port.read_clear [of i s] sql_port.read_clear_other [of j i s] by (cases "j = i") simp_all

lemma normal_topology_idem [simp]: "normal_topology (normal_topology t) = normal_topology t"
  by (simp add: normal_topology_def sort_key_id_if_sorted)

end
