(* ===== verification/Topology_Adapter.thy ===== *)
theory Topology_Adapter
  imports Simulator_Plugin Sim_Executor
begin

text \<open>
  The seam between the plugin contract's topology and reconciliation state
  (\<open>topology_adapter.py\<close>). The lemmas show that the topology the simulator plans for a valid
  definition with unambiguous references projects to a desired state the verification gate
  accepts, whose attachments all resolve.
\<close>

definition ISOLATION_ISOLATED :: string where "ISOLATION_ISOLATED = ''isolated''"
definition ISOLATION_SHARED :: string where "ISOLATION_SHARED = ''shared''"

definition network_element :: "topology_network \<Rightarrow> state_element" where
  "network_element network = \<lparr>se_kind = EK_network, se_ref = tn_ref network, se_facets = [
     (FN_name, JStr (tn_name network)),
     (FN_address_space, JStr (tn_cidr network)),
     (FN_isolation, JStr (if tn_isolated network then ISOLATION_ISOLATED else ISOLATION_SHARED)),
     (FN_team_binding, JStr (case tn_team_ref network of None \<Rightarrow> '''' | Some t \<Rightarrow> t))]\<rparr>"

definition node_element :: "topology_node \<Rightarrow> state_element" where
  "node_element node = \<lparr>se_kind = EK_node, se_ref = td_ref node, se_facets = [
     (FN_name, JStr (td_name node)),
     (FN_node_class, JStr (node_kind_value (td_kind node))),
     (FN_role, JStr (td_role node)),
     (FN_image, JStr (td_image node)),
     (FN_network_attachment, JStr (td_network_ref node)),
     (FN_address, JStr (td_ip_address node)),
     (FN_attributes, JStr (facet_digest (td_attributes node)))]\<rparr>"

definition edge_element :: "topology_edge \<Rightarrow> state_element" where
  "edge_element edge = \<lparr>se_kind = EK_edge,
     se_ref = encode_edge_ref (te_source_ref edge) (te_target_ref edge) (edge_kind_value (te_kind edge)),
     se_facets = []\<rparr>"

definition topology_elements :: "instance_topology \<Rightarrow> state_element list" where
  "topology_elements topology = map network_element (it_networks topology) @
     map node_element (it_nodes topology) @ map edge_element (it_edges topology)"

definition desired_from_topology :: "string \<Rightarrow> string \<Rightarrow> instance_topology \<Rightarrow> desired_state" where
  "desired_from_topology instance_id definition_digest topology =
     \<lparr>ds_instance_id = instance_id, ds_definition_digest = definition_digest,
      ds_elements = topology_elements topology\<rparr>"

definition observed_from_topology :: "string \<Rightarrow> string \<Rightarrow> string \<Rightarrow> datetime \<Rightarrow> observation_fidelity \<Rightarrow>
    instance_topology \<Rightarrow> observed_state" where
  "observed_from_topology instance_id provider collector_digest at fidelity topology =
     \<lparr>os_instance_id = instance_id, os_provider = provider, os_collector_digest = collector_digest,
      os_observed_at = at, os_fidelity = fidelity, os_elements = topology_elements topology\<rparr>"

section \<open>Names are safe inside edge references\<close>

definition safe_ref :: "string \<Rightarrow> bool" where
  "safe_ref s \<longleftrightarrow> s \<noteq> [] \<and> CHR ''|'' \<notin> set s \<and> CHR ''>'' \<notin> set s"

lemma no_arrow: "CHR ''>'' \<notin> set s \<Longrightarrow> \<not> has_arrow s"
  by (induction s rule: has_arrow.induct) auto

lemma name_char_safe: "name_char c \<Longrightarrow> c \<noteq> CHR ''|'' \<and> c \<noteq> CHR ''>''"
  by (auto simp: name_char_def is_digit_def)

lemma valid_name_safe: "valid_name s \<Longrightarrow> safe_ref s"
  using name_char_safe by (fastforce simp: valid_name_def safe_ref_def list_all_iff)

lemma digits_safe: "CHR ''|'' \<notin> set (show_nat i)" "CHR ''>'' \<notin> set (show_nat i)"
  by (simp_all add: show_nat_not is_digit_def)

lemma node_ref_safe: "valid_name (rl_name r) \<Longrightarrow> safe_ref (node_ref r i)"
  using valid_name_safe [of "rl_name r"] digits_safe [of i]
  by (auto simp: node_ref_def safe_ref_def)

lemma decode_safe_edge: "safe_ref s \<Longrightarrow> safe_ref t \<Longrightarrow> decode_edge_ref (encode_edge_ref s t k) = (Some s, Some t)"
  by (simp add: safe_ref_def decode_encode_edge_ref no_arrow)

lemma edge_kind_value_inject [simp]: "edge_kind_value a = edge_kind_value b \<longleftrightarrow> a = b"
  by (cases a; cases b) simp_all

lemma encode_safe_inject:
  assumes "safe_ref s" "safe_ref t" "safe_ref s'" "safe_ref t'"
    and "encode_edge_ref s t k = encode_edge_ref s' t' k'"
  shows "s = s' \<and> t = t' \<and> k = k'"
proof -
  have "s = s' \<and> t = t'" using decode_safe_edge assms by (metis option.inject prod.inject)
  with assms(5) show ?thesis by (simp add: encode_edge_ref_def)
qed

lemma encode_has_bar: "CHR ''|'' \<in> set (encode_edge_ref s t k)"
  by (simp add: encode_edge_ref_def EDGE_REF_KIND_SEPARATOR_def)

section \<open>A planned topology is well formed\<close>

lemma wf_projected [simp]: "wf_element (network_element n) \<longleftrightarrow> tn_ref n \<noteq> []"
    "wf_element (node_element d) \<longleftrightarrow> td_ref d \<noteq> []" "wf_element (edge_element e)"
  by (simp_all add: wf_element_def network_element_def node_element_def edge_element_def string_facets_def
      is_str_def facets_of_kind_def FACETS_BY_ELEMENT_KIND_def encode_edge_ref_def EDGE_REF_SEPARATOR_def)

lemma projected_sel [simp]: "se_ref (network_element n) = tn_ref n" "se_ref (node_element d) = td_ref d"
    "se_kind (network_element n) = EK_network" "se_kind (node_element d) = EK_node" "se_kind (edge_element e) = EK_edge"
    "se_ref (edge_element e) = encode_edge_ref (te_source_ref e) (te_target_ref e) (edge_kind_value (te_kind e))"
  by (simp_all add: network_element_def node_element_def edge_element_def)

text \<open>The shape every planned topology has.\<close>

definition shaped :: "instance_topology \<Rightarrow> bool" where
  "shaped t \<longleftrightarrow> distinct (map tn_ref (it_networks t) @ map td_ref (it_nodes t)) \<and>
     list_all safe_ref (map tn_ref (it_networks t) @ map td_ref (it_nodes t)) \<and>
     (\<forall>d \<in> set (it_nodes t). td_network_ref d \<in> tn_ref ` set (it_networks t)) \<and>
     it_edges t = map attachment_edge (it_nodes t) @ monitor_edges (it_nodes t)"

lemma monitor_edges_memb: "e \<in> set (monitor_edges nodes) \<longleftrightarrow> te_kind e = GK_monitors \<and>
    te_source_ref e \<in> td_ref ` {n \<in> set nodes. td_kind n = NK_sensor} \<and>
    te_target_ref e \<in> td_ref ` {n \<in> set nodes. td_kind n = NK_target \<or> td_kind n = NK_attacker}"
  by (cases e) (auto simp: monitor_edges_def Let_def image_iff)

lemma distinct_product:
  assumes "distinct xs" and "distinct ys" and "\<And>a b a' b'. f a b = f a' b' \<longleftrightarrow> a = a' \<and> b = b'"
  shows "distinct (concat (map (\<lambda>x. map (f x) ys) xs))"
  using assms(1)
proof (induction xs)
  case (Cons x xs)
  have "distinct (map (f x) ys)" using assms(2,3) by (simp add: distinct_map inj_on_def)
  with Cons show ?case by (auto simp: assms(3))
qed simp

lemma distinct_map_filter_sub: "distinct (map f xs) \<Longrightarrow> distinct (map f (filter P xs))"
  by (induction xs) auto

lemma distinct_monitor_edges: "distinct (map td_ref nodes) \<Longrightarrow> distinct (monitor_edges nodes)"
  unfolding monitor_edges_def Let_def by (rule distinct_product) (auto intro: distinct_map_filter_sub)

lemma shaped_edge_ends:
  assumes "shaped t" and "e \<in> set (it_edges t)"
  shows "te_source_ref e \<in> td_ref ` set (it_nodes t)"
    and "te_target_ref e \<in> td_ref ` set (it_nodes t) \<union> tn_ref ` set (it_networks t)"
    and "safe_ref (te_source_ref e)" and "safe_ref (te_target_ref e)"
proof -
  from assms have "e \<in> attachment_edge ` set (it_nodes t) \<or> e \<in> set (monitor_edges (it_nodes t))"
    by (auto simp: shaped_def)
  then show s: "te_source_ref e \<in> td_ref ` set (it_nodes t)"
    and t: "te_target_ref e \<in> td_ref ` set (it_nodes t) \<union> tn_ref ` set (it_networks t)"
    using assms(1) by (auto simp: attachment_edge_def monitor_edges_memb shaped_def)
  with assms(1) show "safe_ref (te_source_ref e)" "safe_ref (te_target_ref e)"
    by (auto simp: shaped_def list_all_iff)
qed

lemma shaped_edges_distinct:
  assumes "shaped t" shows "distinct (map (se_ref \<circ> edge_element) (it_edges t))"
proof -
  have nodes: "distinct (map td_ref (it_nodes t))" using assms by (simp add: shaped_def)
  have "distinct (map attachment_edge (it_nodes t))"
  proof -
    have "distinct (map te_source_ref (map attachment_edge (it_nodes t)))"
      using nodes by (simp add: comp_def attachment_edge_def)
    then show ?thesis by (simp only: distinct_map)
  qed
  moreover have "set (map attachment_edge (it_nodes t)) \<inter> set (monitor_edges (it_nodes t)) = {}"
    by (auto simp: monitor_edges_memb attachment_edge_def)
  ultimately have "distinct (it_edges t)"
    using assms distinct_monitor_edges [OF nodes] by (simp add: shaped_def)
  moreover have "inj_on (se_ref \<circ> edge_element) (set (it_edges t))"
  proof (rule inj_onI)
    fix e e' assume e: "e \<in> set (it_edges t)" "e' \<in> set (it_edges t)" and eq: "(se_ref \<circ> edge_element) e = (se_ref \<circ> edge_element) e'"
    from encode_safe_inject [OF shaped_edge_ends(3,4) [OF assms e(1)] shaped_edge_ends(3,4) [OF assms e(2)]] eq
    have "te_source_ref e = te_source_ref e'" "te_target_ref e = te_target_ref e'" "te_kind e = te_kind e'"
      by (metis comp_apply projected_sel(6) edge_kind_value_inject)+
    then show "e = e'" by simp
  qed
  ultimately show ?thesis by (simp add: distinct_map)
qed

lemma shaped_wf:
  assumes "shaped t" shows "wf_elements (topology_elements t)"
proof -
  let ?E = "topology_elements t"
  have "list_all wf_element ?E"
    using assms by (auto simp: topology_elements_def list_all_iff shaped_def safe_ref_def)
  moreover have "distinct (map se_ref ?E)"
  proof -
    have "r \<notin> set (map (se_ref \<circ> edge_element) (it_edges t))" if "safe_ref r" for r
      using that encode_has_bar by (auto simp: safe_ref_def)
    then have "set (map tn_ref (it_networks t) @ map td_ref (it_nodes t)) \<inter> set (map (se_ref \<circ> edge_element) (it_edges t)) = {}"
      using assms unfolding shaped_def list_all_iff by blast
    moreover have "map se_ref ?E = (map tn_ref (it_networks t) @ map td_ref (it_nodes t)) @ map (se_ref \<circ> edge_element) (it_edges t)"
      by (simp add: topology_elements_def comp_def)
    moreover have "distinct (map tn_ref (it_networks t) @ map td_ref (it_nodes t))"
      using assms by (simp only: shaped_def)
    ultimately show ?thesis
      using shaped_edges_distinct [OF assms] by (simp only: distinct_append)
  qed
  moreover have "\<not> dangling_edge (map (\<lambda>e. (se_kind e, se_ref e)) ?E) x" if "x \<in> set ?E" for x
  proof (cases "se_kind x = EK_edge")
    case True
    with that obtain e where e: "e \<in> set (it_edges t)" "x = edge_element e" by (auto simp: topology_elements_def)
    note ends = shaped_edge_ends [OF assms e(1)]
    have "endpoint_present (te_source_ref e) (map (\<lambda>e. (se_kind e, se_ref e)) ?E)"
      "endpoint_present (te_target_ref e) (map (\<lambda>e. (se_kind e, se_ref e)) ?E)"
      using ends(1,2) by (auto simp: endpoint_present_def topology_elements_def image_iff)
    with e ends(3,4) show ?thesis by (simp add: dangling_edge_def decode_safe_edge)
  qed (simp add: dangling_edge_def)
  ultimately show ?thesis by (auto simp: wf_elements_def dangling_edges_def list_ex_iff Let_def)
qed

lemma shaped_attachments:
  assumes "shaped t" shows "attachments_resolve (topology_elements t)"
proof -
  have facet: "facet_of (node_element d) FN_network_attachment = Some (JStr (td_network_ref d))" for d
    by (simp add: facet_of_def facet_map_def dict_of_def node_element_def)
  have net: "list_ex (\<lambda>n. se_kind n = EK_network \<and> se_ref n = td_network_ref d) (topology_elements t)"
    if "d \<in> set (it_nodes t)" for d
  proof -
    from assms that obtain n where "n \<in> set (it_networks t)" "tn_ref n = td_network_ref d"
      unfolding shaped_def by (metis imageE)
    then show ?thesis unfolding list_ex_iff
      by (intro bexI [of _ "network_element n"]) (simp_all add: topology_elements_def)
  qed
  have "\<exists>d \<in> set (it_nodes t). x = node_element d" if "x \<in> set (topology_elements t)" "se_kind x = EK_node" for x
    using that by (auto simp: topology_elements_def)
  then show ?thesis
    unfolding attachments_resolve_def list_all_iff using facet net by fastforce
qed

lemma plan_instance_shaped:
  assumes "definition_valid sp" and "distinct (planned_refs sp)" and "plan_instance sp target = Inr p"
  shows "shaped (ip_desired p)"
proof -
  from plan_instance_Inr [OF assms(3)] obtain networks nodes where
    nets: "plan_networks sp target (sp_networks sp) = Inr networks"
    and nodes: "plan_roles target (dict_of (map (\<lambda>t. (tn_ref t, t)) networks)) (sp_roles sp) (initial_counters sp) = Inr nodes"
    and topo: "ip_desired p = \<lparr>it_networks = networks, it_nodes = nodes,
        it_edges = map attachment_edge nodes @ monitor_edges nodes\<rparr>" .
  have refs: "map tn_ref networks = map ns_name (sp_networks sp)" "map td_ref nodes = role_refs (sp_roles sp)"
    using plan_networks_Inr [OF nets] plan_roles_refs [OF nodes] by auto
  have dist: "distinct (map tn_ref networks @ map td_ref nodes)" using assms(2) by (simp only: refs planned_refs_def)
  have safe: "list_all safe_ref (map tn_ref networks @ map td_ref nodes)"
    unfolding refs using assms(1)
    by (auto simp: list_all_iff role_refs_def definition_valid_def valid_name_safe node_ref_safe)
  have "td_network_ref d \<in> tn_ref ` set networks" if "d \<in> set nodes" for d
  proof -
    have "td_network_ref d \<in> set (map ns_name (sp_networks sp))"
      using plan_roles_refs [OF nodes] that assms(1)
      by (auto simp: definition_valid_def roles_reference_declared_networks_def list_all_iff)
    then show ?thesis by (simp only: refs(1) [symmetric] set_map)
  qed
  with dist safe topo show ?thesis by (simp add: shaped_def)
qed

end
