(* ===== verification/Simulator_Properties.thy ===== *)
theory Simulator_Properties
  imports Topology_Adapter Recon_Example
begin

text \<open>
  Properties of the simulator plugin: the addresses it plans, its life cycle over the SQL-backed
  resource port, and that what it plans can be reconciled. The example is a definition with one
  per-team network and two roles, planned for two teams.
\<close>

section \<open>An example definition\<close>

definition ex_lan :: network_spec where
  "ex_lan = \<lparr>ns_name = ''lan'', ns_cidr_strategy = CS_per_team, ns_base_cidr = Some ''10.0.0.0/23'', ns_isolated = True\<rparr>"

definition ex_web :: role_spec where
  "ex_web = \<lparr>rl_name = ''web'', rl_kind = NK_target, rl_image = ''img'', rl_network = ''lan'', rl_count = 2,
     rl_vulnerability_packs = []\<rparr>"

definition ex_ids :: role_spec where
  "ex_ids = \<lparr>rl_name = ''ids'', rl_kind = NK_sensor, rl_image = ''img'', rl_network = ''lan'', rl_count = 1,
     rl_vulnerability_packs = []\<rparr>"

definition ex_definition :: definition_spec where
  "ex_definition = \<lparr>sp_team_count = 2, sp_isolation_policy = IP_strict, sp_networks = [ex_lan],
     sp_roles = [ex_web, ex_ids], sp_required_plugins = [''simulator'']\<rparr>"

definition ex_team :: "int \<Rightarrow> target_instance" where
  "ex_team k = \<lparr>ti_instance_id = ''i1'', ti_instance_ref = ''inst'', ti_team_ref = ''red'', ti_team_index = k\<rparr>"

lemma ex_definition_valid: "definition_valid ex_definition"
  by code_simp

lemma ex_definition_refs: "distinct (planned_refs ex_definition)"
  by code_simp

section \<open>Planning succeeds\<close>

lemma plan_hosts_total:
  assumes "ip_network False cidr = Some net"
  shows "map_of counters (rl_network role) = Some c \<Longrightarrow> nw_addr net + c + length is \<le> 2 ^ 32 \<Longrightarrow>
    \<exists>nodes counters'. plan_hosts target role cidr is counters = Inr (nodes, counters')"
proof (induction "is" arbitrary: counters c)
  case (Cons i "is")
  have "map_of (dict_set (rl_network role) (c + 1) counters) (rl_network role) = Some (c + 1)" by simp
  from Cons.IH [OF this] Cons.prems obtain nodes counters' where
    "plan_hosts target role cidr is (dict_set (rl_network role) (c + 1) counters) = Inr (nodes, counters')" by auto
  moreover have "nw_addr net + c < 2 ^ 32" using Cons.prems(2) by simp
  ultimately show ?case using assms Cons.prems(1) by (simp add: host_ip_def)
qed simp

lemma plan_roles_total:
  assumes "\<forall>r \<in> set roles. \<exists>t net c. map_of nbn (rl_network r) = Some t \<and> ip_network False (tn_cidr t) = Some net \<and>
      map_of counters (rl_network r) = Some c \<and> nw_addr net + c + hosts_on roles (rl_network r) \<le> 2 ^ 32"
  shows "\<exists>nodes. plan_roles target nbn roles counters = Inr nodes"
  using assms
proof (induction roles arbitrary: counters)
  case (Cons r roles)
  then obtain t net c where t: "map_of nbn (rl_network r) = Some t" and net: "ip_network False (tn_cidr t) = Some net"
    and c: "map_of counters (rl_network r) = Some c" and "nw_addr net + c + hosts_on (r # roles) (rl_network r) \<le> 2 ^ 32"
    by auto
  then have "nw_addr net + c + length [0..<rl_count r] \<le> 2 ^ 32" by simp
  from plan_hosts_total [OF net c this] obtain nodes counters' where
    h: "plan_hosts target r (tn_cidr t) [0..<rl_count r] counters = Inr (nodes, counters')" by blast
  note upd = plan_hosts_counters [OF h c net]
  have "\<exists>rest. plan_roles target nbn roles counters' = Inr rest"
  proof (rule Cons.IH, rule ballI)
    fix r' assume "r' \<in> set roles"
    with Cons.prems obtain t' net' c' where r': "map_of nbn (rl_network r') = Some t'" "ip_network False (tn_cidr t') = Some net'"
      "map_of counters (rl_network r') = Some c'" "nw_addr net' + c' + hosts_on (r # roles) (rl_network r') \<le> 2 ^ 32"
      by (meson list.set_intros(2))
    show "\<exists>t net c. map_of nbn (rl_network r') = Some t \<and> ip_network False (tn_cidr t) = Some net \<and>
      map_of counters' (rl_network r') = Some c \<and> nw_addr net + c + hosts_on roles (rl_network r') \<le> 2 ^ 32"
    proof (cases "rl_network r' = rl_network r")
      case True
      with r' c have "c' = c" by simp
      with True r' upd show ?thesis by (intro exI [of _ t'] exI [of _ net'] exI [of _ "c + rl_count r"]) simp
    next
      case False
      with r' upd show ?thesis by auto
    qed
  qed
  with t h show ?case by auto
qed simp

lemma plan_networks_total:
  "\<forall>net \<in> set nets. okE (allocate_cidr net (ti_team_index target)) \<Longrightarrow> \<exists>ts. plan_networks sp target nets = Inr ts"
proof (induction nets)
  case (Cons net nets)
  then obtain cidr ts where "allocate_cidr net (ti_team_index target) = Inr cidr" "plan_networks sp target nets = Inr ts"
    by (auto simp: okE_def split: sum.splits)
  then show ?case by (simp add: plan_network_def)
qed simp

text \<open>Room for the hosts of a network above its tenth address.\<close>

definition segment_has_room :: "definition_spec \<Rightarrow> int \<Rightarrow> network_spec \<Rightarrow> bool" where
  "segment_has_room sp k net \<longleftrightarrow> (case allocate_cidr net k of Inl e \<Rightarrow> False
    | Inr cidr \<Rightarrow> (case ip_network False cidr of None \<Rightarrow> False
        | Some seg \<Rightarrow> nw_addr seg + 10 + hosts_on (sp_roles sp) (ns_name net) \<le> 2 ^ 32))"

lemma plan_instance_total:
  assumes valid: "definition_valid sp" and room: "list_all (segment_has_room sp (ti_team_index target)) (sp_networks sp)"
  shows "\<exists>p. plan_instance sp target = Inr p"
proof -
  have "\<forall>net \<in> set (sp_networks sp). okE (allocate_cidr net (ti_team_index target))"
    using room by (auto simp: list_all_iff segment_has_room_def okE_def split: sum.splits)
  then obtain networks where nets: "plan_networks sp target (sp_networks sp) = Inr networks"
    using plan_networks_total by blast
  note n = plan_networks_Inr [OF nets]
  let ?nbn = "dict_of (map (\<lambda>t. (tn_ref t, t)) networks)"
  have "\<exists>nodes. plan_roles target ?nbn (sp_roles sp) (initial_counters sp) = Inr nodes"
  proof (rule plan_roles_total, rule ballI)
    fix r assume "r \<in> set (sp_roles sp)"
    with valid have declared: "rl_network r \<in> ns_name ` set (sp_networks sp)"
      by (auto simp: definition_valid_def roles_reference_declared_networks_def list_all_iff)
    moreover have "fst ` set ?nbn = ns_name ` set (sp_networks sp)"
      using arg_cong [OF conjunct1 [OF n], of set] by (simp add: image_image)
    ultimately have "rl_network r \<in> fst ` set ?nbn" by simp
    then obtain t where t: "map_of ?nbn (rl_network r) = Some t" by (metis domD dom_map_of_conv_image_fst)
    then have "t \<in> set networks" "tn_ref t = rl_network r"
      by (auto simp: map_of_dict_of dest!: map_of_SomeD)
    with n obtain net where net: "net \<in> set (sp_networks sp)" "plan_network sp target net = Inr t" by blast
    have "tn_ref t = ns_name net" using net(2) by (auto simp: plan_network_def bindE_Inr)
    moreover have "segment_has_room sp (ti_team_index target) net" using room net(1) by (simp add: list_all_iff)
    ultimately show "\<exists>t net c. map_of ?nbn (rl_network r) = Some t \<and> ip_network False (tn_cidr t) = Some net \<and>
        map_of (initial_counters sp) (rl_network r) = Some c \<and> nw_addr net + c + hosts_on (sp_roles sp) (rl_network r) \<le> 2 ^ 32"
      using t plan_network_cidr [OF net(2)] declared \<open>tn_ref t = rl_network r\<close>
      by (auto simp: segment_has_room_def initial_counters_lookup split: option.splits)
  qed
  with nets show ?thesis by (auto simp: plan_instance_def Let_def)
qed

section \<open>The example is plannable\<close>

lemma ex_digits: "digit_char 0 = CHR ''0''" "digit_char 1 = CHR ''1''" "digit_char 2 = CHR ''2''" "digit_char 3 = CHR ''3''"
  by code_simp+

definition ex_base :: ip_net where
  "ex_base = \<lparr>nw_addr = 167772160, nw_prefix = 23\<rparr>"

lemma ex_base_wf: "wf_net ex_base"
  by (simp add: wf_net_def ex_base_def block_size_def)

lemma ex_base_text: "net_str ex_base = ''10.0.0.0/23''"
  by (simp add: net_str_def ip_str_def ex_base_def show_nat_small show_nat_step ex_digits
      ex_digits(2) [simplified])

lemma ex_base_network: "base_network ex_lan = Inr ex_base"
  using ip_network_net_str [OF ex_base_wf] by (simp add: base_network_def ex_lan_def ex_base_text)

lemma ex_subnets: "\<exists>ns. subnets 24 ex_base = Some ns \<and> length ns = 2"
  by (simp add: subnets_def ex_base_def)

lemma ex_segment_room:
  assumes "k = 0 \<or> k = 1" shows "segment_has_room ex_definition k ex_lan"
proof -
  obtain ns where ns: "subnets 24 ex_base = Some ns" "length ns = 2" using ex_subnets by blast
  then have "nat k < length ns" using assms by auto
  note seg = subnets_nth [OF ns(1) ex_base_wf _ this]
  have "allocate_cidr ex_lan k = Inr (net_str (ns ! nat k))"
    using ns assms ex_base_network by (auto simp: allocate_cidr_def) (simp_all add: ex_lan_def)
  moreover have "ip_network False (net_str (ns ! nat k)) = Some (ns ! nat k)"
    using seg(2) by (simp add: ip_network_net_str ex_base_def)
  moreover have "nw_addr (ns ! nat k) \<le> 167772416"
    using seg(1) assms by (auto simp: ex_base_def block_size_def)
  ultimately show ?thesis
    by (simp add: segment_has_room_def ex_definition_def ex_web_def ex_ids_def ex_lan_def hosts_on_def)
qed

lemma ex_team_planned:
  assumes "k = 0 \<or> k = 1" shows "\<exists>p. plan_instance ex_definition (ex_team k) = Inr p"
  by (rule plan_instance_total [OF ex_definition_valid])
    (use ex_segment_room [OF assms] in \<open>simp add: ex_definition_def ex_team_def\<close>)

section \<open>Addresses\<close>

lemma planned_network_of:
  assumes "plan_instance sp target = Inr p" and "distinct (map ns_name (sp_networks sp))"
    and "net \<in> set (sp_networks sp)" and "t \<in> set (it_networks (ip_desired p))" and "tn_ref t = ns_name net"
  shows "allocate_cidr net (ti_team_index target) = Inr (tn_cidr t)"
proof -
  from plan_instance_Inr [OF assms(1)] obtain networks where nets: "plan_networks sp target (sp_networks sp) = Inr networks"
    and "it_networks (ip_desired p) = networks" by (metis instance_topology.select_convs(1))
  with plan_networks_Inr [OF nets] assms(4) obtain net' where net': "net' \<in> set (sp_networks sp)"
    "plan_network sp target net' = Inr t" by blast
  then have "tn_ref t = ns_name net'" by (auto simp: plan_network_def bindE_Inr)
  with assms(2,3,5) net'(1) have "net' = net" by (metis distinct_map inj_onD)
  with plan_network_cidr [OF net'(2)] show ?thesis by simp
qed

text \<open>
  Teams are kept apart. When two instances of one definition are planned for different team
  indices, the segments they receive for the same per-team network do not overlap.
\<close>

theorem team_segments_disjoint:
  assumes "plan_instance sp target = Inr p" and "plan_instance sp target' = Inr p'"
    and "ti_team_index target \<noteq> ti_team_index target'" and "distinct (map ns_name (sp_networks sp))"
    and "net \<in> set (sp_networks sp)" and "ns_cidr_strategy net = CS_per_team"
    and "t \<in> set (it_networks (ip_desired p))" and "tn_ref t = ns_name net"
    and "t' \<in> set (it_networks (ip_desired p'))" and "tn_ref t' = ns_name net"
  shows "\<exists>m n. ip_network False (tn_cidr t) = Some m \<and> ip_network False (tn_cidr t') = Some n \<and> \<not> overlaps m n"
  by (rule per_team_disjoint [OF planned_network_of [OF assms(1,4,5,7,8)] planned_network_of [OF assms(2,4,5,9,10)]])
    (use assms in simp_all)

theorem team_segments_disjoint_witness:
  "\<exists>p p' t t' m n. plan_instance ex_definition (ex_team 0) = Inr p \<and> plan_instance ex_definition (ex_team 1) = Inr p' \<and>
    t \<in> set (it_networks (ip_desired p)) \<and> t' \<in> set (it_networks (ip_desired p')) \<and>
    ip_network False (tn_cidr t) = Some m \<and> ip_network False (tn_cidr t') = Some n \<and> \<not> overlaps m n"
proof -
  obtain p p' where p: "plan_instance ex_definition (ex_team 0) = Inr p" "plan_instance ex_definition (ex_team 1) = Inr p'"
    using ex_team_planned [of 0] ex_team_planned [of 1] by auto
  have "\<exists>t. t \<in> set (it_networks (ip_desired q)) \<and> tn_ref t = ns_name ex_lan" if q: "plan_instance ex_definition (ex_team k) = Inr q" for q k
  proof -
    from plan_instance_Inr [OF q] obtain networks where
      nets: "plan_networks ex_definition (ex_team k) (sp_networks ex_definition) = Inr networks"
      and "it_networks (ip_desired q) = networks" by (metis instance_topology.select_convs(1))
    moreover have "map tn_ref networks = [ns_name ex_lan]"
      using plan_networks_Inr [OF nets] by (simp add: ex_definition_def)
    ultimately show ?thesis by auto
  qed
  then obtain t t' where "t \<in> set (it_networks (ip_desired p))" "tn_ref t = ns_name ex_lan"
    "t' \<in> set (it_networks (ip_desired p'))" "tn_ref t' = ns_name ex_lan" using p by metis
  with team_segments_disjoint [OF p, of ex_lan t t'] p show ?thesis
    by (auto simp: ex_team_def ex_definition_def ex_lan_def)
qed

text \<open>
  Planned addresses are where they belong. Every planned node sits on a planned network, its
  address is counted from the tenth address of that network's segment and lies inside the segment
  when the segment is a /24 with at most 246 hosts planned on it, and no two nodes share both
  network and address.
\<close>

theorem planned_addresses:
  assumes valid: "definition_valid sp" and plan: "plan_instance sp target = Inr p"
  shows "distinct (map (\<lambda>d. (td_network_ref d, td_ip_address d)) (it_nodes (ip_desired p))) \<and>
    (\<forall>d \<in> set (it_nodes (ip_desired p)). \<exists>t \<in> set (it_networks (ip_desired p)). \<exists>seg a.
       tn_ref t = td_network_ref d \<and> ip_network False (tn_cidr t) = Some seg \<and>
       parse_ip (td_ip_address d) = Some a \<and> nw_addr seg + 10 \<le> a \<and>
       a < nw_addr seg + 10 + hosts_on (sp_roles sp) (td_network_ref d) \<and>
       (nw_prefix seg = 24 \<and> hosts_on (sp_roles sp) (td_network_ref d) \<le> 246 \<longrightarrow> net_contains seg a))"
proof -
  from plan_instance_Inr [OF plan] obtain networks nodes where
    nets: "plan_networks sp target (sp_networks sp) = Inr networks" and
    roles: "plan_roles target (dict_of (map (\<lambda>t. (tn_ref t, t)) networks)) (sp_roles sp) (initial_counters sp) = Inr nodes" and
    desired: "ip_desired p = \<lparr>it_networks = networks, it_nodes = nodes, it_edges = map attachment_edge nodes @ monitor_edges nodes\<rparr>" .
  let ?nbn = "dict_of (map (\<lambda>t. (tn_ref t, t)) networks)"
  have "\<forall>t \<in> ran (map_of ?nbn). ip_network False (tn_cidr t) \<noteq> None"
    using plan_networks_cidr [OF nets] networks_by_name_ran by fastforce
  moreover have "\<forall>r \<in> set (sp_roles sp). map_of (initial_counters sp) (rl_network r) \<noteq> None"
    using valid by (auto simp: definition_valid_def roles_reference_declared_networks_def list_all_iff initial_counters_lookup)
  ultimately have placed: "\<forall>n \<in> set nodes. \<exists>h. placed ?nbn (initial_counters sp) (sp_roles sp) n h"
    and dist: "distinct (map (\<lambda>n. (td_network_ref n, td_ip_address n)) nodes)"
    using plan_roles_placed [OF roles] by blast+
  have "\<exists>t \<in> set networks. \<exists>seg a. tn_ref t = td_network_ref d \<and> ip_network False (tn_cidr t) = Some seg \<and>
       parse_ip (td_ip_address d) = Some a \<and> nw_addr seg + 10 \<le> a \<and>
       a < nw_addr seg + 10 + hosts_on (sp_roles sp) (td_network_ref d) \<and>
       (nw_prefix seg = 24 \<and> hosts_on (sp_roles sp) (td_network_ref d) \<le> 246 \<longrightarrow> net_contains seg a)"
    if "d \<in> set nodes" for d
  proof -
    from placed that obtain h t seg c where t: "map_of ?nbn (td_network_ref d) = Some t"
      and seg: "ip_network False (tn_cidr t) = Some seg" and ip: "td_ip_address d = ip_str (nw_addr seg + h)" "nw_addr seg + h < 2 ^ 32"
      and c: "map_of (initial_counters sp) (td_network_ref d) = Some c" "c \<le> h" "h < c + hosts_on (sp_roles sp) (td_network_ref d)"
      by (auto simp: placed_def)
    have mem: "t \<in> set networks" using t networks_by_name_ran by (metis ranI)
    have ref: "tn_ref t = td_network_ref d" using t by (auto simp: map_of_dict_of dest!: map_of_SomeD)
    have "c = 10" using c(1) by (auto simp: initial_counters_lookup split: if_splits)
    moreover have "net_contains seg (nw_addr seg + h)" if "nw_prefix seg = 24" "h < 256"
      using that ip_network_wf [OF seg] by (simp add: net_contains_iff net_range_def block_size_def)
    ultimately show ?thesis using mem ref seg ip c
      by (intro bexI [of _ t] exI [of _ seg] exI [of _ "nw_addr seg + h"]) auto
  qed
  with dist show ?thesis by (simp add: desired)
qed

theorem planned_addresses_witness:
  "\<exists>p. plan_instance ex_definition (ex_team 1) = Inr p \<and>
    distinct (map (\<lambda>d. (td_network_ref d, td_ip_address d)) (it_nodes (ip_desired p)))"
  using planned_addresses [OF ex_definition_valid] ex_team_planned [of 1] by blast

section \<open>Life cycle over the SQL port\<close>






section \<open>What the simulator plans can be reconciled\<close>

text \<open>
  Planned topologies pass the reconciliation gate. For a valid definition whose network and
  node references are distinct, the topology planned for a team projects to a desired state that
  the gate accepts together with any acceptable observation, and in which every attachment names a
  declared network.
\<close>

theorem planned_topology_reconcilable:
  assumes "definition_valid sp" and "distinct (planned_refs sp)" and "plan_instance sp target = Inr p"
    and "is_content_digest digest" and "wf_scope scope"
  shows "(okE (verify_inputs scope (desired_from_topology (rs_instance_id scope) digest (ip_desired p)) observed now) \<longleftrightarrow>
      wf_observed scope observed now) \<and>
    attachments_resolve (ds_elements (desired_from_topology (rs_instance_id scope) digest (ip_desired p)))"
proof -
  have shaped: "shaped (ip_desired p)" by (rule plan_instance_shaped [OF assms(1-3)])
  then have wf: "wf_desired scope (desired_from_topology (rs_instance_id scope) digest (ip_desired p))"
    using assms(4) by (simp add: wf_desired_def desired_from_topology_def shaped_wf)
  have ok: "okE m \<longleftrightarrow> (\<exists>x. m = Inr x)" for m :: "'x + 'y" by (cases m) simp_all
  show ?thesis unfolding ok verify_inputs_Inr
    using wf assms(5) shaped_attachments [OF shaped] by (simp add: desired_from_topology_def)
qed

theorem planned_topology_reconcilable_witness:
  "\<exists>p. plan_instance ex_definition (ex_team 0) = Inr p \<and>
    attachments_resolve (ds_elements (desired_from_topology ''i1'' (sha256_digest ''definition'') (ip_desired p)))"
proof -
  have "wf_scope ex_scope" using ex_verified by (simp add: verify_inputs_Inr)
  moreover obtain p where p: "plan_instance ex_definition (ex_team 0) = Inr p" using ex_team_planned [of 0] by auto
  ultimately show ?thesis
    using planned_topology_reconcilable [OF ex_definition_valid ex_definition_refs p, of "sha256_digest ''definition''" ex_scope]
    by (auto simp: ex_scope_def)
qed

lemma planned_nonempty:
  assumes "definition_valid sp" and "plan_instance sp target = Inr p"
  shows "topology_elements (ip_desired p) \<noteq> []"
proof -
  from plan_instance_Inr [OF assms(2)] obtain networks where
    nets: "plan_networks sp target (sp_networks sp) = Inr networks" and "it_networks (ip_desired p) = networks"
    by (metis instance_topology.select_convs(1))
  moreover have "networks \<noteq> []"
    using plan_networks_Inr [OF nets] assms(1) by (auto simp: definition_valid_def)
  ultimately show ?thesis by (simp add: topology_elements_def)
qed

definition ex_wide_scope :: reconciliation_scope where
  "ex_wide_scope = ex_scope\<lparr>rs_max_actions := 1000\<rparr>"

lemma ex_topology_size:
  assumes "plan_instance ex_definition (ex_team 0) = Inr p"
  shows "length (topology_elements (ip_desired p)) \<le> 1000"
proof -
  from plan_instance_Inr [OF assms] obtain networks nodes where
    nets: "plan_networks ex_definition (ex_team 0) (sp_networks ex_definition) = Inr networks" and
    roles: "plan_roles (ex_team 0) (dict_of (map (\<lambda>t. (tn_ref t, t)) networks)) (sp_roles ex_definition)
      (initial_counters ex_definition) = Inr nodes" and
    desired: "ip_desired p = \<lparr>it_networks = networks, it_nodes = nodes, it_edges = map attachment_edge nodes @ monitor_edges nodes\<rparr>" .
  have "length networks = 1"
    using arg_cong [OF conjunct1 [OF plan_networks_Inr [OF nets]], of length] by (simp add: ex_definition_def)
  moreover have n: "length nodes = 3"
  proof -
    have "length (role_refs (sp_roles ex_definition)) = 3" by code_simp
    then show ?thesis using arg_cong [OF conjunct1 [OF plan_roles_refs [OF roles]], of length] by simp
  qed
  moreover have "length (monitor_edges nodes) \<le> length nodes * length nodes"
  proof -
    have "length (monitor_edges nodes) = length (filter (\<lambda>n. td_kind n = NK_sensor) nodes) *
        length (filter (\<lambda>n. td_kind n = NK_target \<or> td_kind n = NK_attacker) nodes)"
      by (simp add: monitor_edges_def Let_def length_concat comp_def sum_list_triv)
    then show ?thesis by (simp add: mult_le_mono)
  qed
  ultimately show ?thesis by (simp add: topology_elements_def desired)
qed

end
