(* ===== verification/Ipam_Ledger.thy ===== *)
theory Ipam_Ledger
  imports Canonical_Json Sha256 Ipv4
begin

text \<open>
  The Proxmox allocation ledger (\<open>apps/api/secp_api/range_providers/proxmox_ipam.py\<close>) with the
  ownership stamp it allocates for (\<open>proxmox_model.py\<close>). An operation of the ledger object returns
  the new ledger with its result, or the exception it raised; an exception leaves the ledger as it
  was. The message of an \<open>AllocationError\<close> is not kept, the prerequisite of an
  \<open>AllocationBlocked\<close> is.
\<close>

section \<open>Python conversions\<close>

definition py_space :: "char \<Rightarrow> bool" where
  "py_space c \<longleftrightarrow> (let n = (of_char c :: nat) in
     9 \<le> n \<and> n \<le> 13 \<or> 28 \<le> n \<and> n \<le> 32 \<or> n = 133 \<or> n = 160)"

definition py_strip :: "string \<Rightarrow> string" where
  "py_strip s = rev (dropWhile py_space (rev (dropWhile py_space s)))"

text \<open>\<open>int(text)\<close>: surrounding white space, a sign, digit groups joined by single underscores.\<close>

definition py_digits :: "string \<Rightarrow> nat option" where
  "py_digits s = (if list_all (\<lambda>g. g \<noteq> [] \<and> list_all is_digit g) (split_char CHR ''_'' s)
     then Some (read_nat (filter (\<lambda>c. c \<noteq> CHR ''_'') s)) else None)"

definition py_int :: "string \<Rightarrow> int option" where
  "py_int s = (case py_strip s of
      [] \<Rightarrow> None
    | c # r \<Rightarrow>
        if c = CHR ''-'' then map_option (\<lambda>n. - int n) (py_digits r)
        else if c = CHR ''+'' then map_option int (py_digits r)
        else map_option int (py_digits (c # r)))"

text \<open>\<open>repr(text)\<close> and \<open>str(value)\<close>/\<open>repr(value)\<close> of JSON values.\<close>

definition repr_char :: "char \<Rightarrow> char \<Rightarrow> string" where
  "repr_char q c = (let n = (of_char c :: nat) in
     if c = q \<or> n = 92 then [CHR 0x5C, c]
     else if n = 10 then [CHR 0x5C, CHR ''n'']
     else if n = 13 then [CHR 0x5C, CHR ''r'']
     else if n = 9 then [CHR 0x5C, CHR ''t'']
     else if n < 32 \<or> 127 \<le> n \<and> n \<le> 160 \<or> n = 173
       then [CHR 0x5C, CHR ''x'', hex_digit (n div 16), hex_digit (n mod 16)]
     else [c])"

definition py_repr :: "string \<Rightarrow> string" where
  "py_repr s = (let q = (if CHR 0x27 \<in> set s \<and> CHR 0x22 \<notin> set s then CHR 0x22 else CHR 0x27)
     in q # concat (map (repr_char q) s) @ [q])"

fun json_repr :: "json \<Rightarrow> string" where
  "json_repr JNull = ''None''"
| "json_repr (JBool b) = (if b then ''True'' else ''False'')"
| "json_repr (JInt i) = show_int i"
| "json_repr (JStr s) = py_repr s"
| "json_repr (JArr xs) = ''['' @ join '', '' (map json_repr xs) @ '']''"
| "json_repr (JObj kvs) = CHR 0x7B # join '', '' (map (\<lambda>(k, v). py_repr k @ '': '' @ json_repr v) kvs) @ [CHR 0x7D]"

definition json_str :: "json \<Rightarrow> string" where
  "json_str v = (case v of JStr s \<Rightarrow> s | _ \<Rightarrow> json_repr v)"

text \<open>\<open>int(value)\<close>; \<open>None\<close> stands for \<open>TypeError\<close> and \<open>ValueError\<close>.\<close>

definition json_int :: "json \<Rightarrow> int option" where
  "json_int v = (case v of JInt i \<Rightarrow> Some i | JBool b \<Rightarrow> Some (if b then 1 else 0) | JStr s \<Rightarrow> py_int s | _ \<Rightarrow> None)"

fun json_truthy :: "json \<Rightarrow> bool" where
  "json_truthy JNull = False"
| "json_truthy (JBool b) = b"
| "json_truthy (JInt i) = (i \<noteq> 0)"
| "json_truthy (JStr s) = (s \<noteq> [])"
| "json_truthy (JArr xs) = (xs \<noteq> [])"
| "json_truthy (JObj kvs) = (kvs \<noteq> [])"

definition utf8 :: "string \<Rightarrow> string" where
  "utf8 s = concat (map (\<lambda>c. let n = (of_char c :: nat) in
     if n < 128 then [c] else [char_of (192 + n div 64), char_of (128 + n mod 64)]) s)"

section \<open>Ownership and prerequisites (proxmox_model.py)\<close>

definition VMID_MIN :: int where "VMID_MIN = 100"
definition VMID_MAX :: int where "VMID_MAX = 999999999"
definition VLAN_MIN :: int where "VLAN_MIN = 2"
definition VLAN_MAX :: int where "VLAN_MAX = 4094"

type_synonym alloc_scope = "string \<times> string \<times> string \<times> string \<times> int"

record ownership =
  ow_organization_id :: string
  ow_target_id :: string
  ow_range_id :: string
  ow_generation :: int
  ow_operation_generation :: int
  ow_resource_kind :: string
  ow_team_ref :: "string option"

definition ownership_valid :: "ownership \<Rightarrow> bool" where
  "ownership_valid ow \<longleftrightarrow> ow_organization_id ow \<noteq> [] \<and> ow_target_id ow \<noteq> [] \<and> ow_range_id ow \<noteq> [] \<and>
     0 \<le> ow_generation ow \<and> 0 \<le> ow_operation_generation ow"

definition as_tags :: "ownership \<Rightarrow> (string, string) dict" where
  "as_tags ow = sort_key id ([
     (''secp.org'', ow_organization_id ow), (''secp.target'', ow_target_id ow),
     (''secp.range'', ow_range_id ow), (''secp.generation'', show_int (ow_generation ow)),
     (''secp.operation_generation'', show_int (ow_operation_generation ow)),
     (''secp.kind'', ow_resource_kind ow)] @
     (case ow_team_ref ow of None \<Rightarrow> [] | Some t \<Rightarrow> [(''secp.team'', t)]))"

definition scope_key :: "ownership \<Rightarrow> alloc_scope" where
  "scope_key ow = (ow_organization_id ow, ow_target_id ow, ow_range_id ow,
     (case ow_team_ref ow of None \<Rightarrow> '''' | Some t \<Rightarrow> t), ow_generation ow)"

record missing_prerequisite =
  mp_reason_id :: string
  mp_observation :: string
  mp_detail :: string

section \<open>Allocations\<close>

datatype allocation_kind = VK_vmid | VK_lxc_id | VK_mac | VK_subnet | VK_guest_address | VK_gateway_address
  | VK_vlan_tag | VK_vnet_name | VK_zone_name | VK_resource_name | VK_firewall_object_name | VK_remote_state_key

fun allocation_kind_value :: "allocation_kind \<Rightarrow> string" where
  "allocation_kind_value VK_vmid = ''vmid''"
| "allocation_kind_value VK_lxc_id = ''lxc_id''"
| "allocation_kind_value VK_mac = ''mac''"
| "allocation_kind_value VK_subnet = ''subnet''"
| "allocation_kind_value VK_guest_address = ''guest_address''"
| "allocation_kind_value VK_gateway_address = ''gateway_address''"
| "allocation_kind_value VK_vlan_tag = ''vlan_tag''"
| "allocation_kind_value VK_vnet_name = ''vnet_name''"
| "allocation_kind_value VK_zone_name = ''zone_name''"
| "allocation_kind_value VK_resource_name = ''resource_name''"
| "allocation_kind_value VK_firewall_object_name = ''firewall_object_name''"
| "allocation_kind_value VK_remote_state_key = ''remote_state_key''"

definition ALLOCATION_KINDS :: "allocation_kind list" where
  "ALLOCATION_KINDS = [VK_vmid, VK_lxc_id, VK_mac, VK_subnet, VK_guest_address, VK_gateway_address,
     VK_vlan_tag, VK_vnet_name, VK_zone_name, VK_resource_name, VK_firewall_object_name, VK_remote_state_key]"

definition allocation_kind_of :: "json \<Rightarrow> allocation_kind option" where
  "allocation_kind_of v = (case v of JStr s \<Rightarrow> find (\<lambda>k. allocation_kind_value k = s) ALLOCATION_KINDS | _ \<Rightarrow> None)"

type_synonym alloc_key = "alloc_scope \<times> allocation_kind \<times> string"

record allocation =
  al_kind :: allocation_kind
  al_scope :: alloc_scope
  al_purpose :: string
  al_value :: string

definition allocation_key :: "allocation \<Rightarrow> alloc_key" where
  "allocation_key a = (al_scope a, al_kind a, al_purpose a)"

definition allocation_as_dict :: "allocation \<Rightarrow> json" where
  "allocation_as_dict a = (case al_scope a of (organization_id, target_id, range_id, team_ref, generation) \<Rightarrow> JObj [
     (''kind'', JStr (allocation_kind_value (al_kind a))),
     (''organization_id'', JStr organization_id),
     (''target_id'', JStr target_id),
     (''range_id'', JStr range_id),
     (''team_ref'', JStr team_ref),
     (''generation'', JInt generation),
     (''purpose'', JStr (al_purpose a)),
     (''value'', JStr (al_value a))])"

datatype alloc_error = Allocation_error | Allocation_blocked missing_prerequisite | Alloc_value_error | Alloc_index_error

definition allocation_from_dict :: "json \<Rightarrow> alloc_error + allocation" where
  "allocation_from_dict payload = (case payload of
      JObj d \<Rightarrow>
        (case (map_of d ''kind'', map_of d ''organization_id'', map_of d ''target_id'', map_of d ''range_id'',
               map_of d ''team_ref'', map_of d ''generation'', map_of d ''purpose'', map_of d ''value'') of
           (Some k, Some org, Some target, Some rng, Some team, Some gen, Some purpose, Some val) \<Rightarrow>
             (case (allocation_kind_of k, json_int gen) of
                (Some kind, Some generation) \<Rightarrow>
                  Inr \<lparr>al_kind = kind, al_scope = (json_str org, json_str target, json_str rng, json_str team, generation),
                       al_purpose = json_str purpose, al_value = json_str val\<rparr>
              | _ \<Rightarrow> Inl Allocation_error)
         | _ \<Rightarrow> Inl Allocation_error)
    | _ \<Rightarrow> Inl Allocation_error)"

record ipam_pools =
  pl_vmid_min :: int
  pl_vmid_max :: int
  pl_supernet :: string
  pl_segment_prefix :: nat
  pl_vlan_min :: int
  pl_vlan_max :: int

text \<open>The checks of \<open>__post_init__\<close>: a pools object exists only when they pass.\<close>

definition pools_post_init :: "ipam_pools \<Rightarrow> alloc_error + unit" where
  "pools_post_init p =
    (if \<not> (VMID_MIN \<le> pl_vmid_min p \<and> pl_vmid_min p \<le> pl_vmid_max p \<and> pl_vmid_max p \<le> VMID_MAX)
       then Inl Allocation_error
     else if \<not> (VLAN_MIN \<le> pl_vlan_min p \<and> pl_vlan_min p \<le> pl_vlan_max p \<and> pl_vlan_max p \<le> VLAN_MAX)
       then Inl Allocation_error
     else (case ip_network True (pl_supernet p) of
         None \<Rightarrow> Inl Alloc_value_error
       | Some supernet \<Rightarrow>
           if pl_segment_prefix p \<le> nw_prefix supernet then Inl Allocation_error
           else if pl_segment_prefix p > 30 then Inl Allocation_error
           else Inr ()))"

definition candidate_subnets :: "ipam_pools \<Rightarrow> alloc_error + ip_net list" where
  "candidate_subnets p = (case ip_network True (pl_supernet p) of
      None \<Rightarrow> Inl Alloc_value_error
    | Some supernet \<Rightarrow> (case subnets (pl_segment_prefix p) supernet of None \<Rightarrow> Inl Alloc_value_error | Some ns \<Rightarrow> Inr ns))"

text \<open>\<open>int.from_bytes(sha256(payload).digest()[:8], "big")\<close>, read from the first 16 hex digits.\<close>

definition digest_offset :: "alloc_scope \<Rightarrow> string \<Rightarrow> string \<Rightarrow> nat" where
  "digest_offset scope purpose salt =
     (case scope of (organization_id, target_id, range_id, team_ref, generation) \<Rightarrow>
      let payload = join [CHR 0x1F] [organization_id, target_id, range_id, team_ref, show_int generation, purpose, salt]
      in foldl (\<lambda>a c. a * 16 + hex_value c) 0 (take 16 (sha256_hexdigest (utf8 payload))))"

section \<open>The ledger\<close>

record ledger =
  lg_by_key :: "(alloc_key, allocation) dict"
  lg_sealed :: bool

fun ledger_load :: "allocation list \<Rightarrow> (alloc_key, allocation) dict \<Rightarrow> alloc_error + (alloc_key, allocation) dict" where
  "ledger_load [] d = Inr d"
| "ledger_load (a # as) d =
     (if allocation_key a \<in> set (dict_keys d) then Inl Allocation_error
      else ledger_load as (dict_set (allocation_key a) a d))"

definition ledger_init :: "allocation list \<Rightarrow> bool \<Rightarrow> alloc_error + ledger" where
  "ledger_init allocations is_sealed =
     bindE (ledger_load allocations []) (\<lambda>d. Inr \<lparr>lg_by_key = d, lg_sealed = is_sealed\<rparr>)"

definition seal :: "ledger \<Rightarrow> ledger" where
  "seal l = l\<lparr>lg_sealed := True\<rparr>"

definition ledger_all :: "ledger \<Rightarrow> allocation list" where
  "ledger_all l = sort_key (\<lambda>a. (allocation_kind_value (al_kind a), al_scope a, al_purpose a)) (map snd (lg_by_key l))"

definition values_of :: "ledger \<Rightarrow> allocation_kind \<Rightarrow> string list" where
  "values_of l kind = map al_value (filter (\<lambda>a. al_kind a = kind) (ledger_all l))"

definition ledger_get :: "ledger \<Rightarrow> alloc_scope \<Rightarrow> allocation_kind \<Rightarrow> string \<Rightarrow> allocation option" where
  "ledger_get l scope kind purpose = map_of (lg_by_key l) (scope, kind, purpose)"

definition ledger_content_hash :: "ledger \<Rightarrow> string" where
  "ledger_content_hash l = sha256_hexdigest (canonical_json (JArr (map allocation_as_dict (ledger_all l))))"

definition to_manifest :: "ledger \<Rightarrow> json" where
  "to_manifest l = JObj [
     (''version'', JInt 1),
     (''sealed'', JBool (lg_sealed l)),
     (''allocations'', JArr (map allocation_as_dict (ledger_all l))),
     (''ledger_hash'', JStr (ledger_content_hash l))]"

fun from_dicts :: "json list \<Rightarrow> alloc_error + allocation list" where
  "from_dicts [] = Inr []"
| "from_dicts (r # rs) = bindE (allocation_from_dict r) (\<lambda>a. bindE (from_dicts rs) (\<lambda>as. Inr (a # as)))"

definition from_manifest :: "json \<Rightarrow> alloc_error + ledger" where
  "from_manifest payload = (case payload of
      JObj d \<Rightarrow>
        if map_of d ''version'' \<noteq> Some (JInt 1) \<and> map_of d ''version'' \<noteq> Some (JBool True) then Inl Allocation_error
        else (case map_of d ''allocations'' of
            Some (JArr records) \<Rightarrow>
              bindE (from_dicts records) (\<lambda>allocations.
              bindE (ledger_init allocations False) (\<lambda>l.
                let expected = (case map_of d ''ledger_hash'' of None \<Rightarrow> JNull | Some v \<Rightarrow> v) in
                if expected \<noteq> JNull \<and> expected \<noteq> JStr (ledger_content_hash l) then Inl Allocation_error
                else Inr (if (case map_of d ''sealed'' of None \<Rightarrow> False | Some v \<Rightarrow> json_truthy v) then seal l else l)))
          | _ \<Rightarrow> Inl Allocation_error)
    | _ \<Rightarrow> Inl Allocation_error)"

definition ledger_record :: "allocation \<Rightarrow> ledger \<Rightarrow> alloc_error + ledger" where
  "ledger_record a l = (case map_of (lg_by_key l) (allocation_key a) of
      Some existing \<Rightarrow> Inr l
    | None \<Rightarrow> if lg_sealed l then Inl Allocation_error
        else Inr (l\<lparr>lg_by_key := dict_set (allocation_key a) a (lg_by_key l)\<rparr>))"

definition reserved :: "ledger \<Rightarrow> allocation_kind \<Rightarrow> string list" where
  "reserved l kind = map al_value (filter (\<lambda>a. al_kind a = kind) (map snd (lg_by_key l)))"

text \<open>\<open>{int(v) for v in values}\<close>, which raises on the first malformed value.\<close>

fun ints_of :: "string list \<Rightarrow> alloc_error + int list" where
  "ints_of [] = Inr []"
| "ints_of (v # vs) = (case py_int v of None \<Rightarrow> Inl Alloc_value_error
     | Some i \<Rightarrow> bindE (ints_of vs) (\<lambda>is. Inr (i # is)))"

definition int_of_value :: "string \<Rightarrow> alloc_error + int" where
  "int_of_value v = (case py_int v of None \<Rightarrow> Inl Alloc_value_error | Some i \<Rightarrow> Inr i)"

text \<open>The deterministic walk: the first candidate, counted from \<open>start\<close> and wrapping, that is free.\<close>

definition walk :: "nat \<Rightarrow> nat \<Rightarrow> (nat \<Rightarrow> 'a) \<Rightarrow> ('a \<Rightarrow> bool) \<Rightarrow> 'a option" where
  "walk span start candidate free = find free (map (\<lambda>step. candidate ((start + step) mod span)) [0..<span])"

definition blocked_for :: "string \<Rightarrow> string \<Rightarrow> string \<Rightarrow> alloc_error" where
  "blocked_for reason field detail = Allocation_blocked \<lparr>mp_reason_id = reason, mp_observation = field, mp_detail = detail\<rparr>"

definition fresh :: "allocation_kind \<Rightarrow> alloc_scope \<Rightarrow> string \<Rightarrow> string \<Rightarrow> allocation" where
  "fresh kind scope purpose v = \<lparr>al_kind = kind, al_scope = scope, al_purpose = purpose, al_value = v\<rparr>"

definition allocate_int :: "ownership \<Rightarrow> allocation_kind \<Rightarrow> string \<Rightarrow> int \<Rightarrow> int \<Rightarrow> int list option \<Rightarrow> string \<Rightarrow> string \<Rightarrow>
    ledger \<Rightarrow> alloc_error + (int \<times> ledger)" where
  "allocate_int ow kind purpose low high observed_in_use observation_field reason_id l =
     (case observed_in_use of
        None \<Rightarrow> Inl (blocked_for reason_id observation_field
          (''cannot allocate '' @ allocation_kind_value kind @ '' for '' @ py_repr purpose @
           '': the set of values already in use on the target was never observed, so availability is unknown''))
      | Some observed \<Rightarrow>
          (let scope = scope_key ow in
           case ledger_get l scope kind purpose of
             Some existing \<Rightarrow> bindE (int_of_value (al_value existing)) (\<lambda>i. Inr (i, l))
           | None \<Rightarrow>
               (let span = high - low + 1 in
                if span \<le> 0 then Inl Allocation_error
                else bindE (ints_of (reserved l kind)) (\<lambda>ours.
                  let taken = ours @ observed; n = nat span;
                      start = digest_offset scope purpose (allocation_kind_value kind) mod n in
                  case walk n start (\<lambda>k. low + int k) (\<lambda>c. c \<notin> set taken) of
                    None \<Rightarrow> Inl Allocation_error
                  | Some candidate \<Rightarrow>
                      bindE (ledger_record (fresh kind scope purpose (show_int candidate)) l) (\<lambda>l'. Inr (candidate, l'))))))"

definition allocate_vmid :: "ownership \<Rightarrow> string \<Rightarrow> ipam_pools \<Rightarrow> int list option \<Rightarrow> bool \<Rightarrow> ledger \<Rightarrow>
    alloc_error + (int \<times> ledger)" where
  "allocate_vmid ow purpose pools observed_vmids lxc l =
     (let kind = (if lxc then VK_lxc_id else VK_vmid) in
      case observed_vmids of
        None \<Rightarrow> Inl (blocked_for ''proxmox.vmid_inventory_missing'' ''TargetObservation.vmids_in_use''
          (''cannot allocate a guest id for '' @ py_repr purpose @
           '': the cluster's existing VM/CT ids were never observed, so a collision cannot be ruled out''))
      | Some observed \<Rightarrow>
          (let scope = scope_key ow in
           case ledger_get l scope kind purpose of
             Some existing \<Rightarrow> bindE (int_of_value (al_value existing)) (\<lambda>i. Inr (i, l))
           | None \<Rightarrow>
               bindE (ints_of (reserved l VK_vmid)) (\<lambda>vms.
               bindE (ints_of (reserved l VK_lxc_id)) (\<lambda>cts.
                 let taken = vms @ cts @ observed; n = nat (pl_vmid_max pools - pl_vmid_min pools + 1);
                     start = digest_offset scope purpose (allocation_kind_value kind) mod n in
                 case walk n start (\<lambda>k. pl_vmid_min pools + int k) (\<lambda>c. c \<notin> set taken) of
                   None \<Rightarrow> Inl Allocation_error
                 | Some candidate \<Rightarrow>
                     bindE (ledger_record (fresh kind scope purpose (show_int candidate)) l) (\<lambda>l'. Inr (candidate, l'))))))"

fun networks_of :: "bool \<Rightarrow> string list \<Rightarrow> alloc_error + ip_net list" where
  "networks_of strict [] = Inr []"
| "networks_of strict (c # cs) = (case ip_network strict c of None \<Rightarrow> Inl Alloc_value_error
     | Some n \<Rightarrow> bindE (networks_of strict cs) (\<lambda>ns. Inr (n # ns)))"

definition network_of_value :: "string \<Rightarrow> alloc_error + ip_net" where
  "network_of_value v = (case ip_network True v of None \<Rightarrow> Inl Alloc_value_error | Some n \<Rightarrow> Inr n)"

definition allocate_subnet :: "ownership \<Rightarrow> string \<Rightarrow> ipam_pools \<Rightarrow> string list option \<Rightarrow> string list \<Rightarrow> ledger \<Rightarrow>
    alloc_error + (ip_net \<times> ledger)" where
  "allocate_subnet ow purpose pools observed_subnets management_cidrs l =
     (case observed_subnets of
        None \<Rightarrow> Inl (blocked_for ''proxmox.subnet_inventory_missing'' ''TargetObservation.subnets_in_use''
          (''cannot allocate a subnet for '' @ py_repr purpose @
           '': the networks already routed on the target were never observed, so an overlap cannot be ruled out''))
      | Some observed \<Rightarrow>
          (let scope = scope_key ow in
           case ledger_get l scope VK_subnet purpose of
             Some existing \<Rightarrow> bindE (network_of_value (al_value existing)) (\<lambda>n. Inr (n, l))
           | None \<Rightarrow>
               bindE (networks_of False observed) (\<lambda>seen.
               bindE (networks_of True management_cidrs) (\<lambda>management.
               bindE (networks_of True (reserved l VK_subnet)) (\<lambda>ours.
               bindE (candidate_subnets pools) (\<lambda>candidates.
                 let blocked = seen @ management @ ours; span = length candidates in
                 if span = 0 then Inl Allocation_error
                 else
                  (let start = digest_offset scope purpose (allocation_kind_value VK_subnet) mod span in
                   case walk span start (\<lambda>k. candidates ! k) (\<lambda>c. \<not> list_ex (overlaps c) blocked) of
                     None \<Rightarrow> Inl Allocation_error
                   | Some candidate \<Rightarrow>
                       bindE (ledger_record (fresh VK_subnet scope purpose (net_str candidate)) l) (\<lambda>l'. Inr (candidate, l')))))))))"

text \<open>\<open>hosts[offset]\<close> with Python's negative indices.\<close>

definition py_index :: "'a list \<Rightarrow> int \<Rightarrow> alloc_error + 'a" where
  "py_index xs i = (if 0 \<le> i \<and> i < int (length xs) then Inr (xs ! nat i)
     else if - int (length xs) \<le> i \<and> i < 0 then Inr (xs ! nat (int (length xs) + i))
     else Inl Alloc_index_error)"

definition address_of_value :: "string \<Rightarrow> alloc_error + nat" where
  "address_of_value v = (case parse_ip v of None \<Rightarrow> Inl Alloc_value_error | Some a \<Rightarrow> Inr a)"

definition addresses_taken :: "ledger \<Rightarrow> string list" where
  "addresses_taken l = map al_value (filter (\<lambda>a. al_kind a = VK_guest_address \<or> al_kind a = VK_gateway_address)
     (map snd (lg_by_key l)))"

definition allocate_address :: "ownership \<Rightarrow> string \<Rightarrow> ip_net \<Rightarrow> allocation_kind \<Rightarrow> int option \<Rightarrow> ledger \<Rightarrow>
    alloc_error + (nat \<times> ledger)" where
  "allocate_address ow purpose subnet kind offset l =
     (let scope = scope_key ow in
      case ledger_get l scope kind purpose of
        Some existing \<Rightarrow> bindE (address_of_value (al_value existing)) (\<lambda>a. Inr (a, l))
      | None \<Rightarrow>
          (let hs = hosts subnet; taken = addresses_taken l in
           if hs = [] then Inl Allocation_error
           else bindE
             (case offset of
                Some off \<Rightarrow>
                  if off \<ge> int (length hs) then Inl Allocation_error
                  else bindE (py_index hs off) (\<lambda>chosen.
                    if ip_str chosen \<in> set taken then Inl Allocation_error else Inr chosen)
              | None \<Rightarrow>
                  (let span = length hs; start = digest_offset scope purpose (allocation_kind_value kind) mod span in
                   case walk span start (\<lambda>k. hs ! k) (\<lambda>c. ip_str c \<notin> set taken) of
                     None \<Rightarrow> Inl Allocation_error | Some c \<Rightarrow> Inr c))
             (\<lambda>chosen. bindE (ledger_record (fresh kind scope purpose (ip_str chosen)) l) (\<lambda>l'. Inr (chosen, l')))))"

definition upper_hex_digit :: "nat \<Rightarrow> char" where
  "upper_hex_digit n = upper_char (hex_digit n)"

definition hex_octet :: "nat \<Rightarrow> string" where
  "hex_octet n = [upper_hex_digit (n div 16), upper_hex_digit (n mod 16)]"

text \<open>\<open>LOCAL_MAC_OUI\<close> is 02:53:45; the suffix is 24 bits wide.\<close>

definition mac_str :: "nat \<Rightarrow> string" where
  "mac_str suffix = join '':'' (map hex_octet [2, 83, 69, suffix div 65536 mod 256, suffix div 256 mod 256, suffix mod 256])"

definition allocate_mac :: "ownership \<Rightarrow> string \<Rightarrow> string list option \<Rightarrow> ledger \<Rightarrow> alloc_error + (string \<times> ledger)" where
  "allocate_mac ow purpose observed_macs l =
     (case observed_macs of
        None \<Rightarrow> Inl (blocked_for ''proxmox.mac_inventory_missing'' ''TargetObservation.macs_in_use''
          (''cannot allocate a MAC for '' @ py_repr purpose @
           '': existing guest MACs were never observed, so a layer-2 collision cannot be ruled out''))
      | Some observed \<Rightarrow>
          (let scope = scope_key ow in
           case ledger_get l scope VK_mac purpose of
             Some existing \<Rightarrow> Inr (al_value existing, l)
           | None \<Rightarrow>
               (let taken = map (\<lambda>m. upper m) observed @ reserved l VK_mac;
                    base = digest_offset scope purpose (allocation_kind_value VK_mac) in
                case find (\<lambda>c. c \<notin> set taken) (map (\<lambda>step. mac_str ((base + step) mod 16777216)) [0..<1048576]) of
                  None \<Rightarrow> Inl Allocation_error
                | Some candidate \<Rightarrow>
                    bindE (ledger_record (fresh VK_mac scope purpose candidate) l) (\<lambda>l'. Inr (candidate, l')))))"

definition hex_byte :: "nat \<Rightarrow> string" where
  "hex_byte n = [hex_digit (n div 16), hex_digit (n mod 16)]"

definition name_attempt :: "string \<Rightarrow> nat option \<Rightarrow> nat \<Rightarrow> string" where
  "name_attempt base max_length n =
     (let discriminator = hex_byte (n mod 256);
          trimmed = (case max_length of None \<Rightarrow> base | Some m \<Rightarrow> take (m - length discriminator) base)
      in trimmed @ discriminator)"

definition allocate_name :: "ownership \<Rightarrow> string \<Rightarrow> allocation_kind \<Rightarrow> string \<Rightarrow> string list option \<Rightarrow> string \<Rightarrow> string \<Rightarrow>
    nat option \<Rightarrow> ledger \<Rightarrow> alloc_error + (string \<times> ledger)" where
  "allocate_name ow purpose kind candidate observed_names observation_field reason_id max_length l =
     (case observed_names of
        None \<Rightarrow> Inl (blocked_for reason_id observation_field
          (''cannot allocate a name for '' @ py_repr purpose @
           '': existing object names on the target were never observed, so a collision cannot be ruled out''))
      | Some observed \<Rightarrow>
          (let scope = scope_key ow in
           case ledger_get l scope kind purpose of
             Some existing \<Rightarrow> Inr (al_value existing, l)
           | None \<Rightarrow>
               (let taken = map (\<lambda>n. lower n) observed @ map (\<lambda>v. lower v) (reserved l kind);
                    base = (case max_length of None \<Rightarrow> candidate | Some m \<Rightarrow> take m candidate) in
                bindE
                  (if lower base \<notin> set taken then Inr base
                   else (let digest = digest_offset scope purpose (allocation_kind_value kind) in
                     case find (\<lambda>a. lower a \<notin> set taken) (map (\<lambda>step. name_attempt base max_length (digest + step)) [0..<256]) of
                       None \<Rightarrow> Inl Allocation_error | Some a \<Rightarrow> Inr a))
                  (\<lambda>chosen. bindE (ledger_record (fresh kind scope purpose chosen) l) (\<lambda>l'. Inr (chosen, l'))))))"

definition key_char :: "char \<Rightarrow> bool" where
  "key_char c \<longleftrightarrow> is_digit c \<or> 97 \<le> (of_char c :: nat) \<and> (of_char c :: nat) \<le> 122"

definition state_key_ok :: "string \<Rightarrow> bool" where
  "state_key_ok s \<longleftrightarrow> s \<noteq> [] \<and> length s \<le> 191 \<and> key_char (hd s) \<and>
     list_all (\<lambda>c. key_char c \<or> c \<in> set ''/_.-'') (tl s)"

definition key_part :: "string \<Rightarrow> string" where
  "key_part part = map (\<lambda>c. if c = CHR '' '' then CHR ''-'' else c) (lower (py_strip part))"

definition allocate_remote_state_key :: "ownership \<Rightarrow> string \<Rightarrow> ledger \<Rightarrow> alloc_error + (string \<times> ledger)" where
  "allocate_remote_state_key ow purpose l =
     (let scope = scope_key ow in
      case ledger_get l scope VK_remote_state_key purpose of
        Some existing \<Rightarrow> Inr (al_value existing, l)
      | None \<Rightarrow>
          (case scope of (organization_id, target_id, range_id, team_ref, generation) \<Rightarrow>
            let parts = [''secp'', organization_id, target_id, range_id] @ (if team_ref \<noteq> [] then [team_ref] else []) @
                  [''g'' @ show_int generation];
                key = join ''/'' (map key_part parts)
            in if \<not> state_key_ok key then Inl Allocation_error
               else bindE (ledger_record (fresh VK_remote_state_key scope purpose key) l) (\<lambda>l'. Inr (key, l'))))"

definition release :: "alloc_scope \<Rightarrow> allocation_kind \<Rightarrow> string \<Rightarrow> bool \<Rightarrow> ledger \<Rightarrow> alloc_error + (allocation \<times> ledger)" where
  "release scope kind purpose absence_proved l =
     (case map_of (lg_by_key l) (scope, kind, purpose) of
        None \<Rightarrow> Inl Allocation_error
      | Some a \<Rightarrow> if \<not> absence_proved then Inl Allocation_error
          else Inr (a, l\<lparr>lg_by_key := dict_del (scope, kind, purpose) (lg_by_key l)\<rparr>))"

text \<open>\<open>AllocationRequestLog.run\<close>: a block is collected once and turned into \<open>None\<close>; any other
  exception propagates.\<close>

definition log_run :: "(alloc_error + 'a) \<Rightarrow> missing_prerequisite list \<Rightarrow> alloc_error + ('a option \<times> missing_prerequisite list)" where
  "log_run thunk blocked = (case thunk of
      Inr v \<Rightarrow> Inr (Some v, blocked)
    | Inl (Allocation_blocked p) \<Rightarrow> Inr (None, if p \<in> set blocked then blocked else blocked @ [p])
    | Inl e \<Rightarrow> Inl e)"

end
