(* ===== verification/Ipam_Invariants.thy ===== *)
theory Ipam_Invariants
  imports Ipam_Ledger
begin

text \<open>
  What the ledger guarantees. Each allocator satisfies the contract of the locale
  \<open>ledger_allocator\<close> (record once, never touch another entry, nothing new once sealed); the
  reachable ledgers are those built from the empty one by the allocators, sealing and proved
  releases, and every reachable ledger is free of conflicts.
\<close>

section \<open>The deterministic walk\<close>

lemma find_map_Some: "find P (map f xs) = Some y \<Longrightarrow> \<exists>x \<in> set xs. y = f x \<and> P y"
  by (induction xs) (auto split: if_splits)

lemma find_map_None: "find P (map f xs) = None \<longleftrightarrow> (\<forall>x \<in> set xs. \<not> P (f x))"
  by (auto simp: find_None_iff)

lemma walk_Some:
  assumes "walk span start candidate free = Some c"
  shows "free c \<and> (\<exists>k < span. c = candidate k)"
proof -
  from find_map_Some [OF assms [unfolded walk_def]] obtain step where
    "step < span" "c = candidate ((start + step) mod span)" "free c" by auto
  then show ?thesis by (metis gr_implies_not0 mod_less_divisor neq0_conv)
qed

text \<open>A full lap visits every candidate, so failing means the pool is exhausted.\<close>

lemma lap_covers: "k < span \<Longrightarrow> \<exists>step < span. (start + step) mod span = (k::nat)"
proof -
  assume k: "k < span"
  let ?s = "start mod span"
  have s: "?s < span" using k by auto
  show ?thesis
  proof (cases "?s \<le> k")
    case True
    have "(start + (k - ?s)) mod span = (?s + (k - ?s)) mod span" by (rule mod_add_left_eq [symmetric])
    also have "\<dots> = k" using True k by simp
    finally show ?thesis using k by (intro exI [of _ "k - ?s"]) simp
  next
    case False
    have "(start + (span + k - ?s)) mod span = (?s + (span + k - ?s)) mod span" by (rule mod_add_left_eq [symmetric])
    also have "?s + (span + k - ?s) = span + k" using s by simp
    also have "(span + k) mod span = k" using k by simp
    finally show ?thesis using False s by (intro exI [of _ "span + k - ?s"]) simp
  qed
qed

lemma walk_None: "walk span start candidate free = None \<longleftrightarrow> (\<forall>k < span. \<not> free (candidate k))"
proof -
  have "walk span start candidate free = None \<longleftrightarrow> (\<forall>step < span. \<not> free (candidate ((start + step) mod span)))"
    unfolding walk_def find_map_None by auto
  also have "\<dots> \<longleftrightarrow> (\<forall>k < span. \<not> free (candidate k))"
  proof
    assume *: "\<forall>step < span. \<not> free (candidate ((start + step) mod span))"
    show "\<forall>k < span. \<not> free (candidate k)" using * lap_covers [of _ span start] by metis
  qed auto
  finally show ?thesis .
qed

section \<open>Reading back recorded integers\<close>

lemma digit_not_space: "is_digit c \<Longrightarrow> \<not> py_space c"
  by (auto simp: is_digit_def py_space_def Let_def)

lemma minus_not_space: "\<not> py_space CHR ''-''"
  by (simp add: py_space_def)

lemma py_strip_id:
  assumes "s \<noteq> []" and "\<not> py_space (hd s)" and "\<not> py_space (last s)"
  shows "py_strip s = s"
proof -
  have "dropWhile py_space s = s" using assms by (cases s) auto
  moreover have "dropWhile py_space (rev s) = rev s" using assms by (cases "rev s") (auto simp: last_rev [symmetric] hd_rev)
  ultimately show ?thesis by (simp add: py_strip_def)
qed

lemma underscore_not_digit [simp]: "\<not> is_digit CHR ''_''"
  by (simp add: is_digit_def)

lemma py_digits_show: "py_digits (show_nat n) = Some n"
proof -
  have "CHR ''_'' \<notin> set (show_nat n)" by (simp add: show_nat_not)
  moreover from this have "filter (\<lambda>c. c \<noteq> CHR ''_'') (show_nat n) = show_nat n" by (simp add: filter_id_conv) metis
  ultimately show ?thesis by (simp add: py_digits_def split_char_none list_all_iff show_nat_digits)
qed

lemma py_int_show [simp]: "py_int (show_int i) = Some i"
proof -
  have last: "is_digit (last (show_nat n))" for n by (rule show_nat_digits, rule last_in_set) simp
  have hd: "is_digit (hd (show_nat n))" for n by (rule show_nat_hd)
  show ?thesis
  proof (cases "i < 0")
    case True
    then have "py_strip (show_int i) = CHR ''-'' # show_nat (nat (- i))"
      unfolding show_int_def by (subst py_strip_id) (simp_all add: digit_not_space last minus_not_space)
    with True show ?thesis by (simp add: py_int_def py_digits_show)
  next
    case False
    then have strip: "py_strip (show_int i) = show_nat (nat i)"
      unfolding show_int_def by (subst py_strip_id) (simp_all add: digit_not_space last hd)
    obtain c r where cr: "show_nat (nat i) = c # r" by (cases "show_nat (nat i)") simp_all
    have "is_digit c" using hd [of "nat i"] cr by simp
    then have "c \<noteq> CHR ''-''" "c \<noteq> CHR ''+''" by (auto simp: is_digit_def)
    then show ?thesis using False strip cr py_digits_show [of "nat i"] by (simp add: py_int_def)
  qed
qed

section \<open>The allocator contract\<close>

definition entry :: "alloc_key \<Rightarrow> string \<Rightarrow> allocation" where
  "entry key v = (case key of (scope, kind, purpose) \<Rightarrow> fresh kind scope purpose v)"

lemma key_entry [simp]: "allocation_key (entry key v) = key" "allocation_key (fresh kind scope purpose v) = (scope, kind, purpose)"
    "al_value (entry key v) = v" "al_kind (entry key v) = fst (snd key)"
  by (simp_all add: allocation_key_def entry_def fresh_def split: prod.splits)

lemma fresh_entry: "fresh kind scope purpose v = entry (scope, kind, purpose) v"
  by (simp add: entry_def)

locale ledger_allocator =
  fixes alloc :: "ledger \<Rightarrow> alloc_error + ('v \<times> ledger)" and key :: alloc_key and shown :: "'v \<Rightarrow> string"
    and usable :: bool
  assumes outcome: "alloc l = Inr (v, l') \<Longrightarrow> map_of (lg_by_key l) key \<noteq> None \<and> l' = l \<or>
      map_of (lg_by_key l) key = None \<and> \<not> lg_sealed l \<and>
        l' = l\<lparr>lg_by_key := dict_set key (entry key (shown v)) (lg_by_key l)\<rparr>"
    and again: "usable \<Longrightarrow> alloc l = Inr (v, l') \<Longrightarrow> alloc l' = Inr (v, l')"
begin

lemma sealed_frozen: "lg_sealed l \<Longrightarrow> alloc l = Inr (v, l') \<Longrightarrow> l' = l"
  using outcome by blast

lemma keeps: "alloc l = Inr (v, l') \<Longrightarrow> map_of (lg_by_key l) k = Some a \<Longrightarrow> map_of (lg_by_key l') k = Some a"
  using outcome [of l v l'] by auto

lemma recorded: "alloc l = Inr (v, l') \<Longrightarrow> map_of (lg_by_key l') key \<noteq> None"
  using outcome [of l v l'] by auto

lemma only_key: "alloc l = Inr (v, l') \<Longrightarrow> k \<noteq> key \<Longrightarrow> map_of (lg_by_key l') k = map_of (lg_by_key l) k"
  using outcome [of l v l'] by auto

lemma keeps_seal: "alloc l = Inr (v, l') \<Longrightarrow> lg_sealed l' = lg_sealed l"
  using outcome [of l v l'] by auto

end

lemma ledger_record_Inr:
  "ledger_record a l = Inr l' \<Longrightarrow> map_of (lg_by_key l) (allocation_key a) = None \<Longrightarrow>
   \<not> lg_sealed l \<and> l' = l\<lparr>lg_by_key := dict_set (allocation_key a) a (lg_by_key l)\<rparr>"
  by (auto simp: ledger_record_def split: if_splits)

lemma record_entry:
  assumes "ledger_record (fresh kind scope purpose v) l = Inr l'" and "ledger_get l scope kind purpose = None"
  shows "map_of (lg_by_key l) (scope, kind, purpose) = None \<and> \<not> lg_sealed l \<and>
    l' = l\<lparr>lg_by_key := dict_set (scope, kind, purpose) (entry (scope, kind, purpose) v) (lg_by_key l)\<rparr>"
  using ledger_record_Inr [OF assms(1)] assms(2) by (simp add: ledger_get_def fresh_entry)

lemma bind_pair_Inr: "bindE m (\<lambda>x. Inr (f x, l)) = Inr (v, l') \<longleftrightarrow> (\<exists>x. m = Inr x \<and> v = f x \<and> l' = l)"
  by (auto simp: bindE_Inr)

lemma allocate_int_fresh:
  assumes "allocate_int ow kind purpose low high obs field reason l = Inr (v, l')"
    and "ledger_get l (scope_key ow) kind purpose = None"
  shows "\<exists>observed ours. obs = Some observed \<and> ints_of (reserved l kind) = Inr ours \<and>
    v \<notin> set ours \<and> v \<notin> set observed \<and> low \<le> v \<and> v \<le> high \<and>
    ledger_record (fresh kind (scope_key ow) purpose (show_int v)) l = Inr l'"
proof -
  from assms obtain observed ours where obs: "obs = Some observed" "ints_of (reserved l kind) = Inr ours"
    and pos: "0 < high - low + 1"
    and w: "walk (nat (high - low + 1)) (digest_offset (scope_key ow) purpose (allocation_kind_value kind) mod nat (high - low + 1))
        (\<lambda>k. low + int k) (\<lambda>c. c \<notin> set (ours @ observed)) = Some v"
    and r: "ledger_record (fresh kind (scope_key ow) purpose (show_int v)) l = Inr l'"
    by (auto simp: allocate_int_def Let_def bindE_Inr split: option.splits if_splits)
  from walk_Some [OF w] obtain k where k: "k < nat (high - low + 1)" "v = low + int k" "v \<notin> set (ours @ observed)" by auto
  then have "low \<le> v" "v \<le> high" by linarith+
  with obs k(3) r show ?thesis by simp
qed

lemma allocate_int_existing:
  assumes "ledger_get l (scope_key ow) kind purpose = Some a"
  shows "allocate_int ow kind purpose low high obs field reason l = Inr (v, l') \<longleftrightarrow>
    (\<exists>observed. obs = Some observed) \<and> py_int (al_value a) = Some v \<and> l' = l"
  using assms by (auto simp: allocate_int_def int_of_value_def bindE_Inr split: option.splits)

lemma allocate_vmid_fresh:
  assumes "allocate_vmid ow purpose pools obs lxc l = Inr (v, l')"
    and "ledger_get l (scope_key ow) (if lxc then VK_lxc_id else VK_vmid) purpose = None"
  shows "\<exists>observed vms cts. obs = Some observed \<and> ints_of (reserved l VK_vmid) = Inr vms \<and>
    ints_of (reserved l VK_lxc_id) = Inr cts \<and> v \<notin> set vms \<and> v \<notin> set cts \<and> v \<notin> set observed \<and>
    pl_vmid_min pools \<le> v \<and> v \<le> pl_vmid_max pools \<and>
    ledger_record (fresh (if lxc then VK_lxc_id else VK_vmid) (scope_key ow) purpose (show_int v)) l = Inr l'"
proof -
  let ?n = "nat (pl_vmid_max pools - pl_vmid_min pools + 1)"
  from assms obtain observed vms cts where obs: "obs = Some observed" "ints_of (reserved l VK_vmid) = Inr vms"
      "ints_of (reserved l VK_lxc_id) = Inr cts"
    and w: "walk ?n (digest_offset (scope_key ow) purpose (allocation_kind_value (if lxc then VK_lxc_id else VK_vmid)) mod ?n)
        (\<lambda>k. pl_vmid_min pools + int k) (\<lambda>c. c \<notin> set (vms @ cts @ observed)) = Some v"
    and r: "ledger_record (fresh (if lxc then VK_lxc_id else VK_vmid) (scope_key ow) purpose (show_int v)) l = Inr l'"
    by (auto simp: allocate_vmid_def Let_def bindE_Inr split: option.splits)
  from walk_Some [OF w] obtain k where k: "k < ?n" "v = pl_vmid_min pools + int k"
      "v \<notin> set (vms @ cts @ observed)" by auto
  then have "pl_vmid_min pools \<le> v" "v \<le> pl_vmid_max pools" by linarith+
  with obs k(3) r show ?thesis by simp
qed

lemma allocate_vmid_existing:
  assumes "ledger_get l (scope_key ow) (if lxc then VK_lxc_id else VK_vmid) purpose = Some a"
  shows "allocate_vmid ow purpose pools obs lxc l = Inr (v, l') \<longleftrightarrow>
    (\<exists>observed. obs = Some observed) \<and> py_int (al_value a) = Some v \<and> l' = l"
  using assms by (cases lxc) (auto simp: allocate_vmid_def int_of_value_def bindE_Inr Let_def split: option.splits)

lemma record_get:
  assumes "ledger_record (fresh kind scope purpose v) l = Inr l'" and "ledger_get l scope kind purpose = None"
  shows "ledger_get l' scope kind purpose = Some (entry (scope, kind, purpose) v)"
  using record_entry [OF assms] by (auto simp: ledger_get_def)

lemma ledger_allocatorI:
  assumes fresh: "\<And>l v l'. alloc l = Inr (v, l') \<Longrightarrow> ledger_get l scope kind purpose = None \<Longrightarrow>
      ledger_record (fresh kind scope purpose (shown v)) l = Inr l' \<and> (usable \<longrightarrow> reads (shown v) v)"
    and existing: "\<And>l a v l'. ledger_get l scope kind purpose = Some a \<Longrightarrow>
      alloc l = Inr (v, l') \<longleftrightarrow> ok \<and> reads (al_value a) v \<and> l' = l"
    and ok: "\<And>l v l'. alloc l = Inr (v, l') \<Longrightarrow> ok"
  shows "ledger_allocator alloc (scope, kind, purpose) shown usable"
proof
  fix l v l' assume a: "alloc l = Inr (v, l')"
  show "map_of (lg_by_key l) (scope, kind, purpose) \<noteq> None \<and> l' = l \<or>
      map_of (lg_by_key l) (scope, kind, purpose) = None \<and> \<not> lg_sealed l \<and>
      l' = l\<lparr>lg_by_key := dict_set (scope, kind, purpose) (entry (scope, kind, purpose) (shown v)) (lg_by_key l)\<rparr>"
  proof (cases "ledger_get l scope kind purpose")
    case None
    with fresh [OF a None] show ?thesis using record_entry [OF _ None] by blast
  next
    case (Some b)
    with a show ?thesis by (simp add: existing ledger_get_def)
  qed
  show "alloc l' = Inr (v, l')" if usable
  proof (cases "ledger_get l scope kind purpose")
    case None
    with fresh [OF a None] that record_get [OF _ None] ok [OF a] show ?thesis by (auto simp: existing)
  next
    case (Some b)
    with a show ?thesis by (auto simp: existing)
  qed
qed

interpretation int_alloc: ledger_allocator "allocate_int ow kind purpose low high obs field reason"
    "(scope_key ow, kind, purpose)" show_int True for ow kind purpose low high obs field reason
  by (rule ledger_allocatorI [where reads = "\<lambda>s i. py_int s = Some i" and ok = "\<exists>observed. obs = Some observed"])
    (use allocate_int_fresh allocate_int_existing in \<open>fastforce, simp add: allocate_int_existing,
      fastforce simp: allocate_int_def split: option.splits\<close>)

interpretation vmid_alloc: ledger_allocator "allocate_vmid ow purpose pools obs lxc"
    "(scope_key ow, if lxc then VK_lxc_id else VK_vmid, purpose)" show_int True for ow purpose pools obs lxc
  by (rule ledger_allocatorI [where reads = "\<lambda>s i. py_int s = Some i" and ok = "\<exists>observed. obs = Some observed"])
    (use allocate_vmid_fresh allocate_vmid_existing in \<open>fastforce, simp add: allocate_vmid_existing,
      fastforce simp: allocate_vmid_def Let_def split: option.splits\<close>)

subsection \<open>Subnets\<close>

lemma networks_of_wf: "networks_of strict cs = Inr ns \<Longrightarrow> n \<in> set ns \<Longrightarrow> wf_net n"
  by (induction cs arbitrary: ns) (auto simp: bindE_Inr ip_network_wf split: option.splits)

lemma networks_of_memb: "networks_of strict cs = Inr ns \<Longrightarrow> c \<in> set cs \<Longrightarrow> \<exists>n \<in> set ns. ip_network strict c = Some n"
  by (induction cs arbitrary: ns) (auto simp: bindE_Inr split: option.splits)

lemma candidate_subnets_wf:
  assumes "candidate_subnets pools = Inr ns" and "n \<in> set ns"
  shows "wf_net n"
proof -
  from assms(1) obtain sup where sup: "ip_network True (pl_supernet pools) = Some sup" "subnets (pl_segment_prefix pools) sup = Some ns"
    by (auto simp: candidate_subnets_def split: option.splits)
  have wf: "wf_net sup" by (rule ip_network_wf [OF sup(1)])
  show ?thesis
  proof (cases "nw_prefix sup = 32")
    case True
    with sup(2) have "ns = [sup]" by (simp add: subnets_def)
    with assms(2) wf show ?thesis by simp
  next
    case False
    with wf have "nw_prefix sup < 32" by (simp add: wf_net_def)
    with subnets_nth(2) [OF sup(2) wf] assms(2) show ?thesis by (auto simp: in_set_conv_nth)
  qed
qed

lemma allocate_subnet_fresh:
  assumes "allocate_subnet ow purpose pools obs management l = Inr (v, l')"
    and "ledger_get l (scope_key ow) VK_subnet purpose = None"
  shows "\<exists>observed seen mgmt ours candidates. obs = Some observed \<and> networks_of False observed = Inr seen \<and>
    networks_of True management = Inr mgmt \<and> networks_of True (reserved l VK_subnet) = Inr ours \<and>
    candidate_subnets pools = Inr candidates \<and> v \<in> set candidates \<and>
    (\<forall>n \<in> set (seen @ mgmt @ ours). \<not> overlaps v n) \<and>
    ledger_record (fresh VK_subnet (scope_key ow) purpose (net_str v)) l = Inr l'"
proof -
  from assms obtain observed seen mgmt ours candidates where
    o: "obs = Some observed" "networks_of False observed = Inr seen" "networks_of True management = Inr mgmt"
      "networks_of True (reserved l VK_subnet) = Inr ours" "candidate_subnets pools = Inr candidates"
    and w: "walk (length candidates) (digest_offset (scope_key ow) purpose (allocation_kind_value VK_subnet) mod length candidates)
        (\<lambda>k. candidates ! k) (\<lambda>c. \<not> list_ex (overlaps c) (seen @ mgmt @ ours)) = Some v"
    and r: "ledger_record (fresh VK_subnet (scope_key ow) purpose (net_str v)) l = Inr l'"
    by (auto simp: allocate_subnet_def Let_def bindE_Inr split: option.splits if_splits)
  from walk_Some [OF w] have "v \<in> set candidates" "\<forall>n \<in> set (seen @ mgmt @ ours). \<not> overlaps v n"
    by (auto simp: list_ex_iff)
  with o r show ?thesis by blast
qed

lemma allocate_subnet_existing:
  assumes "ledger_get l (scope_key ow) VK_subnet purpose = Some a"
  shows "allocate_subnet ow purpose pools obs management l = Inr (v, l') \<longleftrightarrow>
    (\<exists>observed. obs = Some observed) \<and> ip_network True (al_value a) = Some v \<and> l' = l"
  using assms by (auto simp: allocate_subnet_def network_of_value_def bindE_Inr Let_def split: option.splits)

interpretation subnet_alloc: ledger_allocator "allocate_subnet ow purpose pools obs management"
    "(scope_key ow, VK_subnet, purpose)" net_str True for ow purpose pools obs management
proof (rule ledger_allocatorI [where reads = "\<lambda>s n. ip_network True s = Some n" and ok = "\<exists>observed. obs = Some observed"],
    goal_cases)
  case (1 l v l')
  with allocate_subnet_fresh [OF 1] show ?case by (auto simp: ip_network_net_str candidate_subnets_wf)
next
  case (2 l a v l')
  then show ?case by (rule allocate_subnet_existing)
next
  case (3 l v l')
  then show ?case by (auto simp: allocate_subnet_def split: option.splits)
qed

subsection \<open>Addresses\<close>

lemma hosts_in_net:
  assumes "wf_net n" and "a \<in> set (hosts n)"
  shows "a \<in> net_range n" and "a < 2 ^ 32"
proof -
  have pos: "0 < block_size (nw_prefix n)" by simp
  from assms show "a \<in> net_range n"
    using pos block_size_pos(1) [of 31] by (auto simp: hosts_def net_range_def broadcast_def simp del: block_size_pos split: if_splits)
  with assms(1) show "a < 2 ^ 32" by (auto simp: net_range_def wf_net_def)
qed

lemma py_index_memb: "py_index xs i = Inr x \<Longrightarrow> x \<in> set xs"
  by (auto simp: py_index_def split: if_splits)

lemma allocate_address_fresh:
  assumes "allocate_address ow purpose subnet kind offset l = Inr (v, l')"
    and "ledger_get l (scope_key ow) kind purpose = None"
  shows "v \<in> set (hosts subnet) \<and> ip_str v \<notin> set (addresses_taken l) \<and>
    ledger_record (fresh kind (scope_key ow) purpose (ip_str v)) l = Inr l'"
proof -
  from assms obtain chosen where chosen: "(case offset of
      Some off \<Rightarrow> if off \<ge> int (length (hosts subnet)) then Inl Allocation_error
        else bindE (py_index (hosts subnet) off) (\<lambda>chosen. if ip_str chosen \<in> set (addresses_taken l) then Inl Allocation_error else Inr chosen)
    | None \<Rightarrow> (case walk (length (hosts subnet)) (digest_offset (scope_key ow) purpose (allocation_kind_value kind) mod length (hosts subnet))
          (\<lambda>k. hosts subnet ! k) (\<lambda>c. ip_str c \<notin> set (addresses_taken l)) of None \<Rightarrow> Inl Allocation_error | Some c \<Rightarrow> Inr c)) =
      (Inr chosen :: alloc_error + nat)"
    and r: "ledger_record (fresh kind (scope_key ow) purpose (ip_str chosen)) l = Inr l'" "v = chosen"
    by (auto simp: allocate_address_def Let_def bindE_Inr split: option.splits if_splits)
  have "chosen \<in> set (hosts subnet) \<and> ip_str chosen \<notin> set (addresses_taken l)"
  proof (cases offset)
    case None
    with chosen show ?thesis by (auto dest!: walk_Some split: option.splits)
  next
    case (Some off)
    with chosen show ?thesis by (auto simp: bindE_Inr dest: py_index_memb split: if_splits)
  qed
  with r show ?thesis by simp
qed

lemma allocate_address_existing:
  assumes "ledger_get l (scope_key ow) kind purpose = Some a"
  shows "allocate_address ow purpose subnet kind offset l = Inr (v, l') \<longleftrightarrow> parse_ip (al_value a) = Some v \<and> l' = l"
  using assms by (auto simp: allocate_address_def address_of_value_def bindE_Inr Let_def split: option.splits)

interpretation address_alloc: ledger_allocator "allocate_address ow purpose subnet kind offset"
    "(scope_key ow, kind, purpose)" ip_str "wf_net subnet" for ow purpose subnet kind offset
proof (rule ledger_allocatorI [where reads = "\<lambda>s a. parse_ip s = Some a" and ok = True], goal_cases)
  case (1 l v l')
  with allocate_address_fresh [OF 1] hosts_in_net(2) [of subnet v] show ?case by auto
next
  case (2 l a v l')
  then show ?case by (simp add: allocate_address_existing)
qed simp

subsection \<open>Names, hardware addresses and state keys\<close>

lemma allocate_mac_fresh:
  assumes "allocate_mac ow purpose obs l = Inr (v, l')" and "ledger_get l (scope_key ow) VK_mac purpose = None"
  shows "\<exists>observed. obs = Some observed \<and> v \<notin> set (map (\<lambda>m. upper m) observed) \<and> v \<notin> set (reserved l VK_mac) \<and>
    (\<exists>k. v = mac_str (k mod 16777216)) \<and> ledger_record (fresh VK_mac (scope_key ow) purpose v) l = Inr l'"
  using assms by (auto simp: allocate_mac_def Let_def bindE_Inr dest!: find_map_Some split: option.splits)

lemma allocate_mac_existing:
  assumes "ledger_get l (scope_key ow) VK_mac purpose = Some a"
  shows "allocate_mac ow purpose obs l = Inr (v, l') \<longleftrightarrow> (\<exists>observed. obs = Some observed) \<and> al_value a = v \<and> l' = l"
  using assms by (auto simp: allocate_mac_def Let_def split: option.splits)

interpretation mac_alloc: ledger_allocator "allocate_mac ow purpose obs" "(scope_key ow, VK_mac, purpose)"
    "\<lambda>v. v" True for ow purpose obs
proof (rule ledger_allocatorI [where reads = "(=)" and ok = "\<exists>observed. obs = Some observed"], goal_cases)
  case (1 l v l')
  with allocate_mac_fresh [OF 1] show ?case by blast
next
  case (2 l a v l')
  then show ?case by (rule allocate_mac_existing)
next
  case (3 l v l')
  then show ?case by (auto simp: allocate_mac_def split: option.splits)
qed

lemma allocate_name_fresh:
  assumes "allocate_name ow purpose kind candidate obs field reason max_length l = Inr (v, l')"
    and "ledger_get l (scope_key ow) kind purpose = None"
  shows "\<exists>observed. obs = Some observed \<and> lower v \<notin> set (map (\<lambda>n. lower n) observed) \<and>
    lower v \<notin> set (map (\<lambda>n. lower n) (reserved l kind)) \<and>
    ledger_record (fresh kind (scope_key ow) purpose v) l = Inr l'"
proof -
  let ?base = "case max_length of None \<Rightarrow> candidate | Some m \<Rightarrow> take m candidate"
  from assms obtain observed where obs: "obs = Some observed" by (auto simp: allocate_name_def split: option.splits)
  let ?taken = "map (\<lambda>n. lower n) observed @ map (\<lambda>v. lower v) (reserved l kind)"
  from assms obs have chosen: "(if lower ?base \<notin> set ?taken then Inr ?base
      else (case find (\<lambda>a. lower a \<notin> set ?taken) (map (\<lambda>step. name_attempt ?base max_length
          (digest_offset (scope_key ow) purpose (allocation_kind_value kind) + step)) [0..<256]) of
        None \<Rightarrow> Inl Allocation_error | Some a \<Rightarrow> Inr a)) = (Inr v :: alloc_error + string)"
    and r: "ledger_record (fresh kind (scope_key ow) purpose v) l = Inr l'"
    by (auto simp: allocate_name_def Let_def bindE_Inr)
  from chosen have "lower v \<notin> set ?taken"
    by (auto dest!: find_map_Some simp del: set_map split: if_splits option.splits)
  with obs r show ?thesis by simp
qed

lemma allocate_name_existing:
  assumes "ledger_get l (scope_key ow) kind purpose = Some a"
  shows "allocate_name ow purpose kind candidate obs field reason max_length l = Inr (v, l') \<longleftrightarrow>
    (\<exists>observed. obs = Some observed) \<and> al_value a = v \<and> l' = l"
  using assms by (auto simp: allocate_name_def Let_def split: option.splits)

interpretation name_alloc: ledger_allocator "allocate_name ow purpose kind candidate obs field reason max_length"
    "(scope_key ow, kind, purpose)" "\<lambda>v. v" True for ow purpose kind candidate obs field reason max_length
proof (rule ledger_allocatorI [where reads = "(=)" and ok = "\<exists>observed. obs = Some observed"], goal_cases)
  case (1 l v l')
  with allocate_name_fresh [OF 1] show ?case by blast
next
  case (2 l a v l')
  then show ?case by (rule allocate_name_existing)
next
  case (3 l v l')
  then show ?case by (auto simp: allocate_name_def split: option.splits)
qed

lemma allocate_key_fresh:
  assumes "allocate_remote_state_key ow purpose l = Inr (v, l')"
    and "ledger_get l (scope_key ow) VK_remote_state_key purpose = None"
  shows "state_key_ok v \<and> ledger_record (fresh VK_remote_state_key (scope_key ow) purpose v) l = Inr l'"
  using assms by (auto simp: allocate_remote_state_key_def Let_def bindE_Inr split: option.splits prod.splits if_splits)

lemma allocate_key_existing:
  assumes "ledger_get l (scope_key ow) VK_remote_state_key purpose = Some a"
  shows "allocate_remote_state_key ow purpose l = Inr (v, l') \<longleftrightarrow> al_value a = v \<and> l' = l"
  using assms by (auto simp: allocate_remote_state_key_def Let_def)

interpretation key_alloc: ledger_allocator "allocate_remote_state_key ow purpose"
    "(scope_key ow, VK_remote_state_key, purpose)" "\<lambda>v. v" True for ow purpose
proof (rule ledger_allocatorI [where reads = "(=)" and ok = True], goal_cases)
  case (1 l v l')
  with allocate_key_fresh [OF 1] show ?case by blast
next
  case (2 l a v l')
  then show ?case by (simp add: allocate_key_existing)
qed simp

section \<open>Reachable ledgers\<close>

definition empty_ledger :: ledger where
  "empty_ledger = \<lparr>lg_by_key = [], lg_sealed = False\<rparr>"

definition NAME_KINDS :: "allocation_kind set" where
  "NAME_KINDS = {VK_vnet_name, VK_zone_name, VK_resource_name, VK_firewall_object_name}"

text \<open>
  One call on a ledger object, by the kinds of identifier the compiler asks each allocator for:
  integers for VLAN tags, addresses for guests and gateways, names for the four name kinds.
\<close>

inductive ledger_step :: "ledger \<Rightarrow> ledger \<Rightarrow> bool" where
  step_vlan: "allocate_int ow VK_vlan_tag purpose low high obs field reason l = Inr (i, l') \<Longrightarrow> ledger_step l l'"
| step_vmid: "allocate_vmid ow purpose pools obs lxc l = Inr (i, l') \<Longrightarrow> ledger_step l l'"
| step_subnet: "allocate_subnet ow purpose pools nets management l = Inr (n, l') \<Longrightarrow> ledger_step l l'"
| step_address: "allocate_address ow purpose subnet kind offset l = Inr (a, l') \<Longrightarrow>
     kind \<in> {VK_guest_address, VK_gateway_address} \<Longrightarrow> ledger_step l l'"
| step_mac: "allocate_mac ow purpose macs l = Inr (m, l') \<Longrightarrow> ledger_step l l'"
| step_name: "allocate_name ow purpose kind candidate names field reason max_length l = Inr (s, l') \<Longrightarrow>
     kind \<in> NAME_KINDS \<Longrightarrow> ledger_step l l'"
| step_key: "allocate_remote_state_key ow purpose l = Inr (s, l') \<Longrightarrow> ledger_step l l'"
| step_seal: "ledger_step l (seal l)"
| step_release: "release scope kind purpose True l = Inr (a, l') \<Longrightarrow> ledger_step l l'"

inductive_cases ledger_stepE: "ledger_step l l'"

inductive ledger_reachable :: "ledger \<Rightarrow> bool" where
  reach_empty: "ledger_reachable empty_ledger"
| reach_step: "ledger_reachable l \<Longrightarrow> ledger_step l l' \<Longrightarrow> ledger_reachable l'"

section \<open>Conflicts\<close>

definition guest_kind :: "allocation_kind \<Rightarrow> bool" where
  "guest_kind k \<longleftrightarrow> k = VK_vmid \<or> k = VK_lxc_id"

definition address_kind :: "allocation_kind \<Rightarrow> bool" where
  "address_kind k \<longleftrightarrow> k = VK_guest_address \<or> k = VK_gateway_address"

definition subnets_clash :: "string \<Rightarrow> string \<Rightarrow> bool" where
  "subnets_clash v w = (case (ip_network True v, ip_network True w) of
     (Some n, Some m) \<Rightarrow> overlaps n m | _ \<Rightarrow> True)"

text \<open>When two recorded identifiers would collide on the cluster.\<close>

definition clash :: "allocation \<Rightarrow> allocation \<Rightarrow> bool" where
  "clash a b \<longleftrightarrow>
     guest_kind (al_kind a) \<and> guest_kind (al_kind b) \<and> py_int (al_value a) = py_int (al_value b) \<or>
     al_kind a = VK_vlan_tag \<and> al_kind b = VK_vlan_tag \<and> py_int (al_value a) = py_int (al_value b) \<or>
     al_kind a = VK_mac \<and> al_kind b = VK_mac \<and> al_value a = al_value b \<or>
     address_kind (al_kind a) \<and> address_kind (al_kind b) \<and> al_value a = al_value b \<or>
     al_kind a = VK_subnet \<and> al_kind b = VK_subnet \<and> subnets_clash (al_value a) (al_value b) \<or>
     al_kind a \<in> NAME_KINDS \<and> al_kind a = al_kind b \<and> lower (al_value a) = lower (al_value b)"

definition conflict_free :: "ledger \<Rightarrow> bool" where
  "conflict_free l \<longleftrightarrow> distinct (dict_keys (lg_by_key l)) \<and>
     (\<forall>k a. map_of (lg_by_key l) k = Some a \<longrightarrow> allocation_key a = k) \<and>
     (\<forall>k k' a b. map_of (lg_by_key l) k = Some a \<longrightarrow> map_of (lg_by_key l) k' = Some b \<longrightarrow> k \<noteq> k' \<longrightarrow> \<not> clash a b)"

lemma overlaps_sym: "overlaps n m = overlaps m n"
  by (auto simp: overlaps_def)

lemma subnets_clash_sym: "subnets_clash v w = subnets_clash w v"
  by (cases "ip_network True v"; cases "ip_network True w") (simp_all add: subnets_clash_def overlaps_sym)

lemma clash_sym: "clash a b = clash b a"
  unfolding clash_def using subnets_clash_sym [of "al_value a" "al_value b"] by metis

lemma conflict_freeI:
  assumes "distinct (dict_keys (lg_by_key l))" and "\<And>k a. map_of (lg_by_key l) k = Some a \<Longrightarrow> allocation_key a = k"
    and "\<And>k k' a b. map_of (lg_by_key l) k = Some a \<Longrightarrow> map_of (lg_by_key l) k' = Some b \<Longrightarrow> k \<noteq> k' \<Longrightarrow> \<not> clash a b"
  shows "conflict_free l"
  unfolding conflict_free_def using assms by blast

lemma conflict_freeD:
  assumes "conflict_free l"
  shows "distinct (dict_keys (lg_by_key l))" and "map_of (lg_by_key l) k = Some a \<Longrightarrow> allocation_key a = k"
    and "map_of (lg_by_key l) k = Some a \<Longrightarrow> map_of (lg_by_key l) k' = Some b \<Longrightarrow> k \<noteq> k' \<Longrightarrow> \<not> clash a b"
  using assms unfolding conflict_free_def by blast+

lemma conflict_free_add:
  assumes cf: "conflict_free l" and new: "map_of (lg_by_key l) key = None"
    and ok: "\<And>k b. map_of (lg_by_key l) k = Some b \<Longrightarrow> \<not> clash (entry key v) b"
  shows "conflict_free (l\<lparr>lg_by_key := dict_set key (entry key v) (lg_by_key l)\<rparr>)"
proof (rule conflict_freeI)
  let ?d = "dict_set key (entry key v) (lg_by_key l)"
  show "distinct (dict_keys (lg_by_key (l\<lparr>lg_by_key := ?d\<rparr>)))" using conflict_freeD(1) [OF cf] by simp
  fix k a assume k: "map_of (lg_by_key (l\<lparr>lg_by_key := ?d\<rparr>)) k = Some a"
  show "allocation_key a = k"
  proof (cases "k = key")
    case False
    with k conflict_freeD(2) [OF cf] show ?thesis by simp
  next
    case True
    with k have "a = entry key v" by simp
    with True show ?thesis by simp
  qed
  fix k' b assume k': "map_of (lg_by_key (l\<lparr>lg_by_key := ?d\<rparr>)) k' = Some b" and ne: "k \<noteq> k'"
  consider "k = key" "k' \<noteq> key" | "k \<noteq> key" "k' = key" | "k \<noteq> key" "k' \<noteq> key" using ne by blast
  then show "\<not> clash a b"
  proof cases
    case 1
    with k k' ok [of k' b] show ?thesis by simp
  next
    case 2
    with k k' ok [of k a] show ?thesis by (simp add: clash_sym [of a])
  next
    case 3
    with k k' conflict_freeD(3) [OF cf _ _ ne] show ?thesis by simp
  qed
qed

text \<open>Any allocator whose fresh value clashes with nothing recorded preserves freedom from conflict.\<close>

context ledger_allocator
begin

lemma preserves_conflict_free:
  assumes "conflict_free l" and "alloc l = Inr (v, l')"
    and "\<And>k b. map_of (lg_by_key l) key = None \<Longrightarrow> map_of (lg_by_key l) k = Some b \<Longrightarrow> \<not> clash (entry key (shown v)) b"
  shows "conflict_free l'"
  using outcome [OF assms(2)]
proof
  assume "map_of (lg_by_key l) key \<noteq> None \<and> l' = l"
  with assms(1) show ?thesis by simp
next
  assume new: "map_of (lg_by_key l) key = None \<and> \<not> lg_sealed l \<and>
      l' = l\<lparr>lg_by_key := dict_set key (entry key (shown v)) (lg_by_key l)\<rparr>"
  with conflict_free_add [OF assms(1)] assms(3) show ?thesis by simp
qed

end

lemma reserved_memb: "map_of (lg_by_key l) k = Some b \<Longrightarrow> al_kind b = kind \<Longrightarrow> al_value b \<in> set (reserved l kind)"
  by (force simp: reserved_def dest!: map_of_SomeD)

lemma addresses_taken_memb:
  "map_of (lg_by_key l) k = Some b \<Longrightarrow> address_kind (al_kind b) \<Longrightarrow> al_value b \<in> set (addresses_taken l)"
  by (force simp: addresses_taken_def address_kind_def dest!: map_of_SomeD)

lemma ints_of_memb: "ints_of vs = Inr is \<Longrightarrow> v \<in> set vs \<Longrightarrow> \<exists>i \<in> set is. py_int v = Some i"
  by (induction vs arbitrary: "is") (auto simp: bindE_Inr split: option.splits)

lemma clash_number:
  assumes "ints_of (reserved l kind) = Inr ours" and "i \<notin> set ours"
    and "map_of (lg_by_key l) k = Some b" and "al_kind b = kind"
  shows "py_int (al_value b) \<noteq> Some i"
  using ints_of_memb [OF assms(1) reserved_memb [OF assms(3,4)]] assms(2) by auto

lemmas kind_predicates = guest_kind_def address_kind_def NAME_KINDS_def

lemma vlan_keeps:
  assumes "conflict_free l" and a: "allocate_int ow VK_vlan_tag purpose low high obs field reason l = Inr (i, l')"
  shows "conflict_free l'"
proof (rule int_alloc.preserves_conflict_free [OF assms])
  fix k b assume new: "map_of (lg_by_key l) (scope_key ow, VK_vlan_tag, purpose) = None" and b: "map_of (lg_by_key l) k = Some b"
  from allocate_int_fresh [OF a] new obtain ours where "ints_of (reserved l VK_vlan_tag) = Inr ours" "i \<notin> set ours"
    by (auto simp: ledger_get_def)
  from clash_number [OF this b] show "\<not> clash (entry (scope_key ow, VK_vlan_tag, purpose) (show_int i)) b"
    by (auto simp: clash_def kind_predicates)
qed

lemma vmid_keeps:
  assumes "conflict_free l" and a: "allocate_vmid ow purpose pools obs lxc l = Inr (i, l')"
  shows "conflict_free l'"
proof (rule vmid_alloc.preserves_conflict_free [OF assms])
  let ?kind = "if lxc then VK_lxc_id else VK_vmid"
  fix k b assume new: "map_of (lg_by_key l) (scope_key ow, ?kind, purpose) = None" and b: "map_of (lg_by_key l) k = Some b"
  from allocate_vmid_fresh [OF a] new obtain vms cts where i: "ints_of (reserved l VK_vmid) = Inr vms" "i \<notin> set vms"
      "ints_of (reserved l VK_lxc_id) = Inr cts" "i \<notin> set cts"
    by (auto simp: ledger_get_def)
  from clash_number [OF i(1,2) b] clash_number [OF i(3,4) b] show "\<not> clash (entry (scope_key ow, ?kind, purpose) (show_int i)) b"
    by (cases lxc) (auto simp: clash_def kind_predicates)
qed

lemma subnet_keeps:
  assumes "conflict_free l" and a: "allocate_subnet ow purpose pools obs management l = Inr (n, l')"
  shows "conflict_free l'"
proof (rule subnet_alloc.preserves_conflict_free [OF assms])
  fix k b assume new: "map_of (lg_by_key l) (scope_key ow, VK_subnet, purpose) = None" and b: "map_of (lg_by_key l) k = Some b"
  from allocate_subnet_fresh [OF a] new obtain ours candidates where o: "networks_of True (reserved l VK_subnet) = Inr ours"
      "candidate_subnets pools = Inr candidates" "n \<in> set candidates" "\<forall>m \<in> set ours. \<not> overlaps n m"
    by (auto simp: ledger_get_def)
  have "ip_network True (net_str n) = Some n" using o(2,3) by (simp add: ip_network_net_str candidate_subnets_wf)
  with o(4) networks_of_memb [OF o(1) reserved_memb [OF b]]
  show "\<not> clash (entry (scope_key ow, VK_subnet, purpose) (net_str n)) b"
    by (fastforce simp: clash_def kind_predicates subnets_clash_def)
qed

lemma address_keeps:
  assumes "conflict_free l" and a: "allocate_address ow purpose subnet kind offset l = Inr (v, l')"
    and kind: "kind \<in> {VK_guest_address, VK_gateway_address}"
  shows "conflict_free l'"
proof (rule address_alloc.preserves_conflict_free [OF assms(1,2)])
  fix k b assume new: "map_of (lg_by_key l) (scope_key ow, kind, purpose) = None" and b: "map_of (lg_by_key l) k = Some b"
  from allocate_address_fresh [OF a] new have "ip_str v \<notin> set (addresses_taken l)" by (simp add: ledger_get_def)
  with addresses_taken_memb [OF b] kind show "\<not> clash (entry (scope_key ow, kind, purpose) (ip_str v)) b"
    by (auto simp: clash_def kind_predicates)
qed

lemma mac_keeps:
  assumes "conflict_free l" and a: "allocate_mac ow purpose obs l = Inr (v, l')"
  shows "conflict_free l'"
proof (rule mac_alloc.preserves_conflict_free [OF assms])
  fix k b assume new: "map_of (lg_by_key l) (scope_key ow, VK_mac, purpose) = None" and b: "map_of (lg_by_key l) k = Some b"
  from allocate_mac_fresh [OF a] new have "v \<notin> set (reserved l VK_mac)" by (auto simp: ledger_get_def)
  with reserved_memb [OF b] show "\<not> clash (entry (scope_key ow, VK_mac, purpose) v) b"
    by (auto simp: clash_def kind_predicates)
qed

lemma name_keeps:
  assumes "conflict_free l" and a: "allocate_name ow purpose kind candidate obs field reason max_length l = Inr (v, l')"
    and kind: "kind \<in> NAME_KINDS"
  shows "conflict_free l'"
proof (rule name_alloc.preserves_conflict_free [OF assms(1,2)])
  fix k b assume new: "map_of (lg_by_key l) (scope_key ow, kind, purpose) = None" and b: "map_of (lg_by_key l) k = Some b"
  from allocate_name_fresh [OF a] new have "lower v \<notin> (\<lambda>n. lower n) ` set (reserved l kind)" by (auto simp: ledger_get_def)
  with reserved_memb [OF b, of kind] have "al_kind b = kind \<Longrightarrow> lower v \<noteq> lower (al_value b)" by blast
  with kind show "\<not> clash (entry (scope_key ow, kind, purpose) v) b"
    by (auto simp: clash_def kind_predicates)
qed

lemma key_keeps:
  assumes "conflict_free l" and "allocate_remote_state_key ow purpose l = Inr (v, l')"
  shows "conflict_free l'"
  by (rule key_alloc.preserves_conflict_free [OF assms]) (auto simp: clash_def kind_predicates)

lemma release_keeps:
  assumes "conflict_free l" and "release scope kind purpose proved l = Inr (a, l')"
  shows "conflict_free l'"
proof -
  note cf = conflict_freeD [OF assms(1)]
  have l': "map_of (lg_by_key l') = (map_of (lg_by_key l))((scope, kind, purpose) := None)"
    "distinct (dict_keys (lg_by_key l'))"
    using assms(2) cf(1) by (auto simp: release_def split: option.splits if_splits)
  have keep: "map_of (lg_by_key l) k = Some b" if "map_of (lg_by_key l') k = Some b" for k b
    using that unfolding l' by (metis fun_upd_apply option.distinct(1))
  show ?thesis by (rule conflict_freeI) (use l'(2) keep cf(2,3) in blast)+
qed

lemma seal_keeps: "conflict_free l \<Longrightarrow> conflict_free (seal l)"
  by (simp add: conflict_free_def seal_def)

lemma ledger_step_keeps: "ledger_step l l' \<Longrightarrow> conflict_free l \<Longrightarrow> conflict_free l'"
  by (induction rule: ledger_step.induct)
    (blast intro: vlan_keeps vmid_keeps subnet_keeps address_keeps mac_keeps name_keeps key_keeps seal_keeps release_keeps)+

lemma reachable_conflict_free: "ledger_reachable l \<Longrightarrow> conflict_free l"
proof (induction rule: ledger_reachable.induct)
  case reach_empty
  show ?case by (rule conflict_freeI) (simp_all add: empty_ledger_def)
qed (rule ledger_step_keeps)

section \<open>Sealing\<close>

definition entries_within :: "ledger \<Rightarrow> ledger \<Rightarrow> bool" where
  "entries_within l' l \<longleftrightarrow> (\<forall>k a. map_of (lg_by_key l') k = Some a \<longrightarrow> map_of (lg_by_key l) k = Some a)"

lemma release_within:
  assumes "release scope kind purpose proved l = Inr (a, l')" and "distinct (dict_keys (lg_by_key l))"
  shows "entries_within l' l \<and> lg_sealed l' = lg_sealed l"
proof -
  have l': "map_of (lg_by_key l') = (map_of (lg_by_key l))((scope, kind, purpose) := None)" "lg_sealed l' = lg_sealed l"
    using assms by (auto simp: release_def split: option.splits if_splits)
  then show ?thesis unfolding entries_within_def by (metis fun_upd_apply option.distinct(1))
qed

lemma sealed_step:
  assumes "ledger_step l l'" and "lg_sealed l" and "distinct (dict_keys (lg_by_key l))"
  shows "lg_sealed l' \<and> entries_within l' l"
proof -
  have same: "lg_sealed l' \<and> entries_within l' l" if "l' = l" using that assms(2) by (simp add: entries_within_def)
  from assms(1) show ?thesis
  proof cases
    case step_seal
    then show ?thesis by (simp add: seal_def entries_within_def)
  next
    case step_release
    with release_within assms(2,3) show ?thesis by blast
  next
    case step_vlan
    from int_alloc.sealed_frozen [OF assms(2) step_vlan] show ?thesis by (rule same)
  next
    case step_vmid
    from vmid_alloc.sealed_frozen [OF assms(2) step_vmid] show ?thesis by (rule same)
  next
    case step_subnet
    from subnet_alloc.sealed_frozen [OF assms(2) step_subnet] show ?thesis by (rule same)
  next
    case step_address
    from address_alloc.sealed_frozen [OF assms(2) step_address(1)] show ?thesis by (rule same)
  next
    case step_mac
    from mac_alloc.sealed_frozen [OF assms(2) step_mac] show ?thesis by (rule same)
  next
    case step_name
    from name_alloc.sealed_frozen [OF assms(2) step_name(1)] show ?thesis by (rule same)
  next
    case step_key
    from key_alloc.sealed_frozen [OF assms(2) step_key] show ?thesis by (rule same)
  qed
qed

section \<open>The manifest\<close>

lemma allocation_kind_value_inject [simp]: "allocation_kind_value a = allocation_kind_value b \<longleftrightarrow> a = b"
  by (cases a; cases b) simp_all

lemma allocation_kind_of_value [simp]: "allocation_kind_of (JStr (allocation_kind_value k)) = Some k"
  by (cases k) (simp_all add: allocation_kind_of_def ALLOCATION_KINDS_def)

lemma allocation_round_trip [simp]: "allocation_from_dict (allocation_as_dict a) = Inr a"
  by (simp add: allocation_from_dict_def allocation_as_dict_def json_str_def json_int_def split: prod.splits)

lemma from_dicts_round_trip [simp]: "from_dicts (map allocation_as_dict as) = Inr as"
  by (induction as) simp_all

lemma ledger_load_distinct:
  "distinct (map allocation_key as) \<Longrightarrow> set (map allocation_key as) \<inter> set (dict_keys d) = {} \<Longrightarrow>
   ledger_load as d = Inr (d @ map (\<lambda>a. (allocation_key a, a)) as)"
proof (induction as arbitrary: d)
  case (Cons a as)
  have "dict_set k v d = d @ [(k, v)]" if "k \<notin> fst ` set d" for k v and d :: "(alloc_key, allocation) dict"
    using that by (induction d) auto
  with Cons.prems have "dict_set (allocation_key a) a d = d @ [(allocation_key a, a)]" by auto
  with Cons.prems Cons.IH [of "d @ [(allocation_key a, a)]"] show ?case by auto
qed simp

definition entry_order :: "allocation \<Rightarrow> string \<times> alloc_scope \<times> string" where
  "entry_order a = (allocation_kind_value (al_kind a), al_scope a, al_purpose a)"

lemma ledger_all_order: "ledger_all l = sort_key entry_order (map snd (lg_by_key l))"
  by (simp add: ledger_all_def entry_order_def [abs_def])

definition keyed_ledger :: "ledger \<Rightarrow> bool" where
  "keyed_ledger l \<longleftrightarrow> distinct (dict_keys (lg_by_key l)) \<and> (\<forall>p \<in> set (lg_by_key l). allocation_key (snd p) = fst p)"

lemma conflict_free_keyed:
  assumes "conflict_free l" shows "keyed_ledger l"
proof -
  note cf = conflict_freeD(1,2) [OF assms]
  have "allocation_key (snd p) = fst p" if "p \<in> set (lg_by_key l)" for p
    using cf(2) [of "fst p" "snd p"] map_of_is_SomeI [OF cf(1), of "fst p" "snd p"] that by simp
  with cf(1) show ?thesis by (simp add: keyed_ledger_def)
qed

lemma keyed_ledger_keys: "keyed_ledger l \<Longrightarrow> map allocation_key (map snd (lg_by_key l)) = dict_keys (lg_by_key l)"
  by (simp add: keyed_ledger_def)

definition reload :: "ledger \<Rightarrow> bool \<Rightarrow> ledger" where
  "reload l s = \<lparr>lg_by_key = map (\<lambda>a. (allocation_key a, a)) (ledger_all l), lg_sealed = s\<rparr>"

lemma ledger_init_all:
  assumes "keyed_ledger l" shows "ledger_init (ledger_all l) s = Inr (reload l s)"
proof -
  have "distinct (map allocation_key (map snd (lg_by_key l)))"
    using assms unfolding keyed_ledger_keys [OF assms] by (simp add: keyed_ledger_def)
  then have "distinct (map allocation_key (ledger_all l))" by (simp only: ledger_all_order distinct_map_sort_key)
  then show ?thesis by (simp add: ledger_init_def ledger_load_distinct reload_def)
qed

lemma ledger_all_reload [simp]: "ledger_all (reload l s) = ledger_all l"
  by (simp add: reload_def ledger_all_order comp_def sort_key_id_if_sorted)

lemma content_hash_reload [simp]: "ledger_content_hash (reload l s) = ledger_content_hash l"
  by (simp add: ledger_content_hash_def)

text \<open>The reloaded ledger answers every lookup as the stored one.\<close>

lemma map_of_reload:
  assumes "keyed_ledger l" shows "map_of (lg_by_key (reload l s)) = map_of (lg_by_key l)"
proof -
  have "map (\<lambda>a. (allocation_key a, a)) (map snd (lg_by_key l)) = lg_by_key l"
    unfolding map_map by (rule map_idI) (use assms in \<open>auto simp: keyed_ledger_def\<close>)
  then have "(\<lambda>a. (allocation_key a, a)) ` set (ledger_all l) = set (lg_by_key l)"
    by (metis (no_types, lifting) ledger_all_order list.set_map set_sort)
  moreover have "distinct (map allocation_key (ledger_all l))"
    using assms keyed_ledger_keys [OF assms] by (simp only: ledger_all_order distinct_map_sort_key keyed_ledger_def)
  ultimately show ?thesis
    by (intro map_of_inject_set [THEN iffD2]) (use assms in \<open>auto simp: reload_def comp_def keyed_ledger_def\<close>)
qed

lemma seal_reload [simp]: "seal (reload l s) = reload l True"
  by (simp add: seal_def reload_def)

lemma from_manifest_hashed:
  assumes "keyed_ledger l"
  shows "from_manifest (JObj [(''version'', JInt 1), (''sealed'', JBool s),
      (''allocations'', JArr (map allocation_as_dict (ledger_all l))), (''ledger_hash'', JStr (ledger_content_hash l))]) =
    Inr (reload l s)"
  using ledger_init_all [OF assms] by (simp add: from_manifest_def Let_def seal_reload)

text \<open>A hash of the stored records binds them.\<close>

lemma allocation_as_dict_inj:
  assumes "norm_json (allocation_as_dict a) = norm_json (allocation_as_dict b)" shows "a = b"
proof -
  obtain o1 t1 r1 m1 g1 where sa: "al_scope a = (o1, t1, r1, m1, g1)" by (cases "al_scope a")
  obtain o2 t2 r2 m2 g2 where sb: "al_scope b = (o2, t2, r2, m2, g2)" by (cases "al_scope b")
  note field = norm_json_obj_lookup [OF assms [unfolded allocation_as_dict_def sa sb prod.case]]
  show ?thesis
    using field [of "''kind''"] field [of "''organization_id''"] field [of "''target_id''"] field [of "''range_id''"]
      field [of "''team_ref''"] field [of "''generation''"] field [of "''purpose''"] field [of "''value''"]
      sa sb by simp
qed

lemma allocation_dicts_inj:
  "map (norm_json \<circ> allocation_as_dict) as = map (norm_json \<circ> allocation_as_dict) bs \<Longrightarrow> as = bs"
  by (rule map_injective) (auto simp: inj_def allocation_as_dict_inj)

definition ledger_text :: "ledger \<Rightarrow> string" where
  "ledger_text l = canonical_json (JArr (map allocation_as_dict (ledger_all l)))"

lemma content_hash_binds:
  assumes "ledger_content_hash l = ledger_content_hash m"
  shows "ledger_all l = ledger_all m \<or> ledger_text l \<noteq> ledger_text m \<and> sha256_hexdigest (ledger_text l) = sha256_hexdigest (ledger_text m)"
proof (cases "ledger_text l = ledger_text m")
  case True
  then have "map (norm_json \<circ> allocation_as_dict) (ledger_all l) = map (norm_json \<circ> allocation_as_dict) (ledger_all m)"
    by (simp add: ledger_text_def canonical_json_norm)
  from allocation_dicts_inj [OF this] show ?thesis by simp
next
  case False
  with assms show ?thesis by (simp add: ledger_content_hash_def ledger_text_def)
qed

section \<open>Exhaustion\<close>

lemma allocate_int_total:
  assumes "ledger_get l (scope_key ow) kind purpose = None" and "\<not> lg_sealed l" and "low \<le> high"
    and "ints_of (reserved l kind) = Inr ours"
  shows "(\<exists>v l'. allocate_int ow kind purpose low high (Some observed) field reason l = Inr (v, l')) \<longleftrightarrow>
    (\<exists>v. low \<le> v \<and> v \<le> high \<and> v \<notin> set ours \<and> v \<notin> set observed)"
proof -
  let ?n = "nat (high - low + 1)"
  let ?w = "walk ?n (digest_offset (scope_key ow) purpose (allocation_kind_value kind) mod ?n)
    (\<lambda>k. low + int k) (\<lambda>c. c \<notin> set (ours @ observed))"
  have rec: "\<exists>l'. ledger_record (fresh kind (scope_key ow) purpose (show_int v)) l = Inr l'" for v
    using assms(1,2) by (simp add: ledger_record_def ledger_get_def)
  have "(\<exists>v l'. allocate_int ow kind purpose low high (Some observed) field reason l = Inr (v, l')) \<longleftrightarrow> ?w \<noteq> None"
    using assms rec by (fastforce simp: allocate_int_def Let_def bindE_Inr split: option.splits)
  also have "\<dots> \<longleftrightarrow> (\<exists>k < ?n. low + int k \<notin> set (ours @ observed))" by (simp add: walk_None)
  also have "\<dots> \<longleftrightarrow> (\<exists>v. low \<le> v \<and> v \<le> high \<and> v \<notin> set (ours @ observed))"
  proof
    assume "\<exists>k < ?n. low + int k \<notin> set (ours @ observed)"
    then obtain k where k: "k < ?n" "low + int k \<notin> set (ours @ observed)" by blast
    then have "low + int k \<le> high" using assms(3) by linarith
    with k show "\<exists>v. low \<le> v \<and> v \<le> high \<and> v \<notin> set (ours @ observed)" by (intro exI [of _ "low + int k"]) simp
  next
    assume "\<exists>v. low \<le> v \<and> v \<le> high \<and> v \<notin> set (ours @ observed)"
    then obtain v where v: "low \<le> v" "v \<le> high" "v \<notin> set (ours @ observed)" by blast
    then have "nat (v - low) < ?n" "low + int (nat (v - low)) = v" by linarith+
    with v(3) show "\<exists>k < ?n. low + int k \<notin> set (ours @ observed)" by metis
  qed
  finally show ?thesis by auto
qed

end
