(* ===== verification/Ipam_Properties.thy ===== *)
theory Ipam_Properties
  imports Ipam_Invariants
begin

text \<open>
  Properties of the allocation ledger over every sequence of calls: no two recorded identifiers
  collide, a sealed ledger only shrinks, allocation is idempotent, complete and refuses when the
  target was not observed, and a manifest restores the ledger it was written from.
\<close>

section \<open>An example ledger\<close>

definition ex_owner :: ownership where
  "ex_owner = \<lparr>ow_organization_id = ''org'', ow_target_id = ''pve'', ow_range_id = ''r1'', ow_generation = 1,
     ow_operation_generation = 1, ow_resource_kind = ''vm'', ow_team_ref = None\<rparr>"

definition ex_vlan :: "string \<Rightarrow> ledger \<Rightarrow> alloc_error + (int \<times> ledger)" where
  "ex_vlan purpose = allocate_int ex_owner VK_vlan_tag purpose 2 4094 (Some []) ''vlans'' ''vlans_unknown''"

lemma ex_vlan_empty: "\<exists>v l. ex_vlan ''a'' empty_ledger = Inr (v, l)"
  unfolding ex_vlan_def
  by (subst allocate_int_total [where ours = "[]"])
    (simp_all add: ledger_get_def empty_ledger_def reserved_def exI [of _ "2::int"])

lemma ex_vlan_reachable:
  assumes "ex_vlan ''a'' empty_ledger = Inr (v, l)"
  shows "ledger_reachable l" and "map_of (lg_by_key l) (scope_key ex_owner, VK_vlan_tag, ''a'') \<noteq> None" and "\<not> lg_sealed l"
proof -
  have a: "allocate_int ex_owner VK_vlan_tag ''a'' 2 4094 (Some []) ''vlans'' ''vlans_unknown'' empty_ledger = Inr (v, l)"
    using assms by (simp add: ex_vlan_def)
  show "ledger_reachable l" by (rule reach_step [OF reach_empty step_vlan [OF a]])
  show "map_of (lg_by_key l) (scope_key ex_owner, VK_vlan_tag, ''a'') \<noteq> None" by (rule int_alloc.recorded [OF a])
  show "\<not> lg_sealed l" using int_alloc.keeps_seal [OF a] by (simp add: empty_ledger_def)
qed

lemma ex_vlan_second:
  assumes first: "ex_vlan ''a'' empty_ledger = Inr (v, l)"
  shows "\<exists>w m. ex_vlan ''b'' l = Inr (w, m)"
proof -
  have a: "allocate_int ex_owner VK_vlan_tag ''a'' 2 4094 (Some []) ''vlans'' ''vlans_unknown'' empty_ledger = Inr (v, l)"
    using first by (simp add: ex_vlan_def)
  have l: "l = empty_ledger\<lparr>lg_by_key := [((scope_key ex_owner, VK_vlan_tag, ''a''), entry (scope_key ex_owner, VK_vlan_tag, ''a'') (show_int v))]\<rparr>"
    using int_alloc.outcome [OF a] by (simp add: empty_ledger_def)
  then have "ints_of (reserved l VK_vlan_tag) = Inr [v]" by (simp add: reserved_def)
  moreover have "ledger_get l (scope_key ex_owner) VK_vlan_tag ''b'' = None" "\<not> lg_sealed l"
    using l by (simp_all add: ledger_get_def empty_ledger_def)
  moreover have "\<exists>u. 2 \<le> u \<and> u \<le> 4094 \<and> u \<noteq> v" for v :: int
    by (cases "v = 2") (auto intro: exI [of _ "2::int"] exI [of _ "3::int"])
  ultimately show ?thesis unfolding ex_vlan_def by (subst allocate_int_total [where ours = "[v]"]) simp_all
qed

section \<open>Safety of the ledger\<close>

text \<open>
  C19: allocated identifiers never collide. In every ledger that calls of the allocators, \<open>seal\<close> and
  proven releases can produce from the empty one, entries are stored under their own key and two
  different entries never clash: guest ids are unique across VMs and containers, VLAN tags, MAC
  addresses and host addresses are unique, subnets do not overlap, and names of one kind differ even
  when case is ignored.
\<close>

theorem ledger_never_conflicts:
  assumes "ledger_reachable l"
    and "map_of (lg_by_key l) k = Some a" and "map_of (lg_by_key l) k' = Some b" and "k \<noteq> k'"
  shows "allocation_key a = k \<and> \<not> clash a b"
  using conflict_freeD(2,3) [OF reachable_conflict_free [OF assms(1)]] assms(2-) by blast

theorem ledger_never_conflicts_witness:
  "\<exists>l k k' a b. ledger_reachable l \<and> k \<noteq> k' \<and> map_of (lg_by_key l) k = Some a \<and> map_of (lg_by_key l) k' = Some b \<and>
    \<not> clash a b"
proof -
  obtain v l where l: "ex_vlan ''a'' empty_ledger = Inr (v, l)" using ex_vlan_empty by blast
  then obtain w m where m: "ex_vlan ''b'' l = Inr (w, m)" using ex_vlan_second by blast
  note m' = m [unfolded ex_vlan_def]
  have reach: "ledger_reachable m" by (rule reach_step [OF ex_vlan_reachable(1) [OF l] step_vlan [OF m']])
  obtain a b where "map_of (lg_by_key m) (scope_key ex_owner, VK_vlan_tag, ''a'') = Some a"
      "map_of (lg_by_key m) (scope_key ex_owner, VK_vlan_tag, ''b'') = Some b"
    using int_alloc.recorded [OF m'] int_alloc.keeps [OF m'] ex_vlan_reachable(2) [OF l] by blast
  then show ?thesis
    using ledger_never_conflicts [OF reach] reach
    by (intro exI [of _ m] exI [of _ "(scope_key ex_owner, VK_vlan_tag, ''a'')"] exI [of _ "(scope_key ex_owner, VK_vlan_tag, ''b'')"]
        exI [of _ a] exI [of _ b]) simp
qed

text \<open>
  C28: a sealed ledger is frozen. Once a reachable ledger is sealed, no sequence of calls unseals it,
  adds an entry or changes one; entries can only disappear, by proven release.
\<close>

theorem sealed_ledger_frozen:
  assumes "ledger_reachable l" and "lg_sealed l" and "ledger_step\<^sup>*\<^sup>* l l'"
  shows "lg_sealed l' \<and> entries_within l' l"
proof -
  have "ledger_reachable l' \<and> lg_sealed l' \<and> entries_within l' l"
    using assms(3)
  proof (induction rule: rtranclp_induct)
    case base
    then show ?case using assms(1,2) by (simp add: entries_within_def)
  next
    case (step m n)
    then have "lg_sealed n \<and> entries_within n m"
      using sealed_step [OF step.hyps(2)] conflict_freeD(1) [OF reachable_conflict_free] by blast
    with step show ?case by (auto simp: entries_within_def intro: reach_step)
  qed
  then show ?thesis by blast
qed

theorem sealed_ledger_frozen_witness:
  "\<exists>l. ledger_reachable l \<and> lg_by_key l \<noteq> [] \<and> lg_sealed (seal l) \<and> entries_within (seal (seal l)) (seal l)"
proof -
  obtain v l where l: "ex_vlan ''a'' empty_ledger = Inr (v, l)" using ex_vlan_empty by blast
  have reach: "ledger_reachable (seal l)" by (rule reach_step [OF ex_vlan_reachable(1) [OF l] step_seal])
  have "ledger_step\<^sup>*\<^sup>* (seal l) (seal (seal l))" using step_seal by blast
  from sealed_ledger_frozen [OF reach _ this] ex_vlan_reachable [OF l] show ?thesis
    by (intro exI [of _ l]) (auto simp: seal_def)
qed

text \<open>
  An unobserved target blocks allocation. Without the observation that says which values are in
  use, no allocator that depends on the target returns a value: each is blocked with the missing
  observation named, and the ledger is not touched.
\<close>

theorem unobserved_target_blocks:
  "(\<exists>d. allocate_int ow kind purpose low high None field reason l =
      Inl (Allocation_blocked \<lparr>mp_reason_id = reason, mp_observation = field, mp_detail = d\<rparr>)) \<and>
   (\<exists>p. allocate_vmid ow purpose pools None lxc l = Inl (Allocation_blocked p)) \<and>
   (\<exists>p. allocate_subnet ow purpose pools None management l = Inl (Allocation_blocked p)) \<and>
   (\<exists>p. allocate_mac ow purpose None l = Inl (Allocation_blocked p)) \<and>
   (\<exists>d. allocate_name ow purpose kind candidate None field reason max_length l =
      Inl (Allocation_blocked \<lparr>mp_reason_id = reason, mp_observation = field, mp_detail = d\<rparr>))"
  by (simp add: allocate_int_def allocate_vmid_def allocate_subnet_def allocate_mac_def allocate_name_def
      blocked_for_def Let_def)

text \<open>
  Allocation is idempotent. Asking an allocator again with the same arguments, on the ledger
  the first call left, returns the same value and leaves the ledger as it is.
\<close>

theorem allocation_idempotent:
  "(allocate_int ow kind purpose low high obs field reason l = Inr (i, l') \<longrightarrow>
      allocate_int ow kind purpose low high obs field reason l' = Inr (i, l')) \<and>
   (allocate_vmid ow purpose pools obs lxc l = Inr (i, l') \<longrightarrow>
      allocate_vmid ow purpose pools obs lxc l' = Inr (i, l')) \<and>
   (allocate_subnet ow purpose pools nets management l = Inr (n, l') \<longrightarrow>
      allocate_subnet ow purpose pools nets management l' = Inr (n, l')) \<and>
   (wf_net subnet \<and> allocate_address ow purpose subnet kind offset l = Inr (a, l') \<longrightarrow>
      allocate_address ow purpose subnet kind offset l' = Inr (a, l')) \<and>
   (allocate_mac ow purpose macs l = Inr (s, l') \<longrightarrow> allocate_mac ow purpose macs l' = Inr (s, l')) \<and>
   (allocate_name ow purpose kind candidate names field reason max_length l = Inr (s, l') \<longrightarrow>
      allocate_name ow purpose kind candidate names field reason max_length l' = Inr (s, l')) \<and>
   (allocate_remote_state_key ow purpose l = Inr (s, l') \<longrightarrow> allocate_remote_state_key ow purpose l' = Inr (s, l'))"
  by (intro conjI impI)
    (erule int_alloc.again [OF TrueI] vmid_alloc.again [OF TrueI] subnet_alloc.again [OF TrueI]
       mac_alloc.again [OF TrueI] name_alloc.again [OF TrueI] key_alloc.again [OF TrueI] |
     elim conjE, erule (1) address_alloc.again)+

theorem allocation_idempotent_witness:
  "\<exists>v l. ex_vlan ''a'' empty_ledger = Inr (v, l) \<and> ex_vlan ''a'' l = Inr (v, l)"
proof -
  obtain v l where l: "ex_vlan ''a'' empty_ledger = Inr (v, l)" using ex_vlan_empty by blast
  with allocation_idempotent [of ex_owner VK_vlan_tag "''a''" 2 4094 "Some []" "''vlans''" "''vlans_unknown''"
      empty_ledger v l] show ?thesis by (auto simp: ex_vlan_def)
qed

text \<open>
  C31: the integer walk is complete. On an unsealed ledger whose entries of the kind parse, a fresh
  integer is allocated exactly when some value of the range is neither recorded nor observed in use;
  the allocator never reports exhaustion early.
\<close>

theorem integer_allocation_complete:
  assumes "ledger_get l (scope_key ow) kind purpose = None" and "\<not> lg_sealed l" and "low \<le> high"
    and "ints_of (reserved l kind) = Inr ours"
  shows "(\<exists>v l'. allocate_int ow kind purpose low high (Some observed) field reason l = Inr (v, l')) \<longleftrightarrow>
    (\<exists>v. low \<le> v \<and> v \<le> high \<and> v \<notin> set ours \<and> v \<notin> set observed)"
  by (rule allocate_int_total [OF assms])

theorem integer_allocation_complete_witness:
  "\<not> (\<exists>v l'. allocate_int ex_owner VK_vlan_tag ''a'' 2 3 (Some [3, 2]) [] [] empty_ledger = Inr (v, l')) \<and>
   (\<exists>v l'. allocate_int ex_owner VK_vlan_tag ''a'' 2 3 (Some [2]) [] [] empty_ledger = Inr (v, l'))"
proof -
  have "\<not> (\<exists>v. 2 \<le> v \<and> v \<le> 3 \<and> v \<notin> set [] \<and> v \<notin> set [3, 2::int])" by auto
  moreover have "\<exists>v. 2 \<le> v \<and> v \<le> 3 \<and> v \<notin> set [] \<and> v \<notin> set [2::int]" by (intro exI [of _ 3]) simp
  ultimately show ?thesis
    using integer_allocation_complete [of empty_ledger ex_owner VK_vlan_tag "''a''" 2 3 "[]" "[3, 2]" "[]" "[]"]
      integer_allocation_complete [of empty_ledger ex_owner VK_vlan_tag "''a''" 2 3 "[]" "[2]" "[]" "[]"]
    by (simp add: ledger_get_def empty_ledger_def reserved_def)
qed



section \<open>Manifests\<close>

text \<open>
  A manifest restores the ledger. Writing a reachable ledger to its manifest and reading it
  back succeeds; the restored ledger has the same entries under the same keys, the same sealed flag
  and the same content hash, and serialises to the same manifest.
\<close>

theorem manifest_round_trip:
  assumes "ledger_reachable l"
  shows "\<exists>m. from_manifest (to_manifest l) = Inr m \<and> map_of (lg_by_key m) = map_of (lg_by_key l) \<and>
    lg_sealed m = lg_sealed l \<and> ledger_content_hash m = ledger_content_hash l \<and> to_manifest m = to_manifest l"
proof -
  have k: "keyed_ledger l" by (rule conflict_free_keyed [OF reachable_conflict_free [OF assms]])
  from from_manifest_hashed [OF k, of "lg_sealed l"] map_of_reload [OF k, of "lg_sealed l"] show ?thesis
    by (intro exI [of _ "reload l (lg_sealed l)"]) (simp add: to_manifest_def, simp add: reload_def)
qed

theorem manifest_round_trip_witness:
  "\<exists>v l m. ex_vlan ''a'' empty_ledger = Inr (v, l) \<and> from_manifest (to_manifest l) = Inr m \<and>
    map_of (lg_by_key m) = map_of (lg_by_key l)"
  using ex_vlan_empty ex_vlan_reachable(1) manifest_round_trip by meson

text \<open>
  C36: the content hash covers the entries but not the seal. Two ledgers with the same content hash
  list the same allocations, unless SHA-256 collides; but a manifest whose \<open>sealed\<close> flag was turned
  off still passes the hash check and yields an unsealed ledger with the same entries.
\<close>

theorem manifest_hash_misses_seal:
  assumes "ledger_reachable l"
  shows "(\<forall>m. ledger_content_hash l = ledger_content_hash m \<longrightarrow>
      ledger_all l = ledger_all m \<or> ledger_text l \<noteq> ledger_text m \<and> sha256_hexdigest (ledger_text l) = sha256_hexdigest (ledger_text m)) \<and>
    (\<exists>m. from_manifest (JObj [(''version'', JInt 1), (''sealed'', JBool False),
        (''allocations'', JArr (map allocation_as_dict (ledger_all l))),
        (''ledger_hash'', JStr (ledger_content_hash l))]) = Inr m \<and>
      \<not> lg_sealed m \<and> map_of (lg_by_key m) = map_of (lg_by_key l))"
proof -
  have k: "keyed_ledger l" by (rule conflict_free_keyed [OF reachable_conflict_free [OF assms]])
  have "\<not> lg_sealed (reload l False)" by (simp add: reload_def)
  then show ?thesis using from_manifest_hashed [OF k, of False] map_of_reload [OF k, of False] content_hash_binds by blast
qed

theorem manifest_hash_misses_seal_witness:
  "\<exists>l m. ledger_reachable l \<and> lg_sealed l \<and> from_manifest (JObj [(''version'', JInt 1), (''sealed'', JBool False),
        (''allocations'', JArr (map allocation_as_dict (ledger_all l))),
        (''ledger_hash'', JStr (ledger_content_hash l))]) = Inr m \<and> \<not> lg_sealed m"
proof -
  have reach: "ledger_reachable (seal empty_ledger)" by (rule reach_step [OF reach_empty step_seal])
  have "lg_sealed (seal empty_ledger)" by (simp add: seal_def)
  with manifest_hash_misses_seal [OF reach] reach show ?thesis by blast
qed

end
