(* ===== verification/Sdn_Differential.thy ===== *)
theory Sdn_Differential
  imports Recon_State Ipam_Ledger "HOL-Library.Multiset"
begin

text \<open>
  The SDN active/pending differential (\<open>apps/api/secp_api/sdn_differential.py\<close>) with the two helpers
  it calls, \<open>canonical_value\<close> (\<open>discovery_fact_commitment.py\<close>) and \<open>safe_identifier\<close>
  (\<open>discovery_fact_projection.py\<close>), and the content address of \<open>secp_commissioning/canonical.py\<close>.
  An observed row is a JSON object, so a value is JSON-native and \<open>canonical_value\<close> never reaches its
  \<open>repr\<close> branch. The lemmas give the decision table of the derived action, show that no observed
  row is dropped, and that a derived delete always carries a digest of what it removes.
\<close>

section \<open>Shared helpers\<close>

text \<open>\<open>secp_commissioning.canonical.sha256_digest(payload)\<close>.\<close>

definition payload_digest :: "json \<Rightarrow> string" where
  "payload_digest payload = sha256_digest (canonical_json payload)"

text \<open>\<open>tuple(dict.fromkeys(reasons))\<close>: the first occurrence of each entry, in order.\<close>

definition from_keys :: "'a list \<Rightarrow> 'a list" where
  "from_keys xs = dict_keys (dict_of (map (\<lambda>x. (x, ())) xs))"

text \<open>\<open>counts[key] = counts.get(key, 0) + 1\<close> over a sequence.\<close>

definition count_step :: "('k, nat) dict \<Rightarrow> 'k \<Rightarrow> ('k, nat) dict" where
  "count_step d k = dict_set k ((case map_of d k of None \<Rightarrow> 0 | Some n \<Rightarrow> n) + 1) d"

definition count_keys :: "'k list \<Rightarrow> ('k, nat) dict" where
  "count_keys ks = foldl count_step [] ks"

definition reason_safe :: "char \<Rightarrow> bool" where
  "reason_safe c \<longleftrightarrow> (let n = (of_char c :: nat) in
     65 \<le> n \<and> n \<le> 90 \<or> 97 \<le> n \<and> n \<le> 122 \<or> 48 \<le> n \<and> n \<le> 57 \<or> c \<in> set ''._@-'')"

definition MAX_REASON_IDENTIFIER :: nat where "MAX_REASON_IDENTIFIER = 64"

definition safe_identifier :: "string \<Rightarrow> string" where
  "safe_identifier value = (let t = map (\<lambda>c. if reason_safe c then c else CHR ''?'') value in
     if MAX_REASON_IDENTIFIER < length t then take MAX_REASON_IDENTIFIER t @ ''~''
     else if t = [] then ''<empty>'' else t)"

definition named_identifier :: "string \<Rightarrow> string" where
  "named_identifier object_id = (if object_id \<noteq> [] then safe_identifier object_id else ''<unidentified>'')"

fun canonical_value :: "json \<Rightarrow> json" where
  "canonical_value (JObj d) = JObj (map (\<lambda>(k, v). (k, canonical_value v)) (sort_key fst d))"
| "canonical_value (JArr xs) = JArr (map canonical_value xs)"
| "canonical_value v = v"

definition dict_get :: "string \<Rightarrow> (string \<times> json) list \<Rightarrow> json" where
  "dict_get k d = (case map_of d k of None \<Rightarrow> JNull | Some v \<Rightarrow> v)"

section \<open>The differential\<close>

definition ACTION_CREATE :: string where "ACTION_CREATE = ''create''"
definition ACTION_CHANGE :: string where "ACTION_CHANGE = ''change''"
definition ACTION_DELETE :: string where "ACTION_DELETE = ''delete''"
definition ACTION_UNCHANGED :: string where "ACTION_UNCHANGED = ''unchanged''"
definition ACTION_AMBIGUOUS :: string where "ACTION_AMBIGUOUS = ''ambiguous''"

definition SDN_ACTIONS :: "string list" where
  "SDN_ACTIONS = [ACTION_CREATE, ACTION_CHANGE, ACTION_DELETE, ACTION_UNCHANGED, ACTION_AMBIGUOUS]"

lemmas sdn_action_defs =
  ACTION_CREATE_def ACTION_CHANGE_def ACTION_DELETE_def ACTION_UNCHANGED_def ACTION_AMBIGUOUS_def

record sdn_object_differential =
  dd_family :: string
  dd_object_id :: string
  dd_target_state :: string
  dd_active_present :: bool
  dd_pending_present :: bool
  dd_active_digest :: string
  dd_pending_digest :: string
  dd_action :: string
  dd_ambiguity_reason :: string

definition differential_canonical :: "sdn_object_differential \<Rightarrow> json" where
  "differential_canonical d = JObj [
     (''family'', JStr (dd_family d)),
     (''object_id'', JStr (dd_object_id d)),
     (''target_state'', JStr (dd_target_state d)),
     (''active_present'', JBool (dd_active_present d)),
     (''pending_present'', JBool (dd_pending_present d)),
     (''active_digest'', JStr (dd_active_digest d)),
     (''pending_digest'', JStr (dd_pending_digest d)),
     (''action'', JStr (dd_action d)),
     (''ambiguity_reason'', JStr (dd_ambiguity_reason d))]"

text \<open>\<open>_digest(view)\<close> of a dict-valued view, and the view itself: \<open>{}\<close> unless the row holds a dict.\<close>

definition view_digest :: "(string \<times> json) list \<Rightarrow> string" where
  "view_digest view = (if view = [] then '''' else payload_digest (JObj [(''value'', canonical_value (JObj view))]))"

definition row_view :: "string \<Rightarrow> (string \<times> json) list \<Rightarrow> (string \<times> json) list" where
  "row_view k row = (case dict_get k row of JObj d \<Rightarrow> d | _ \<Rightarrow> [])"

definition row_text :: "string \<Rightarrow> (string \<times> json) list \<Rightarrow> string" where
  "row_text k row = (let v = dict_get k row in if json_truthy v then json_str v else '''')"

definition meaningful :: "(string \<times> json) list \<Rightarrow> bool" where
  "meaningful view = list_ex (\<lambda>(k, v). k \<notin> {''state'', ''family'', ''object_id''}) view"

definition derive_object_differential :: "string \<Rightarrow> (string \<times> json) list \<Rightarrow> sdn_object_differential" where
  "derive_object_differential family row =
     (let object_id = row_text ''object_id'' row; target_state = row_text ''state'' row;
          active = row_view ''active'' row; pending = row_view ''observed'' row;
          active_present = meaningful active;
          pending_present = (meaningful pending \<and> target_state \<noteq> ''deleted'');
          active_digest = view_digest active; pending_digest = view_digest pending;
          (action, reason) =
            (if object_id = [] then (ACTION_AMBIGUOUS, ''object_identifier_absent'')
             else if pending_present \<and> \<not> active_present then (ACTION_CREATE, '''')
             else if active_present \<and> \<not> pending_present then (ACTION_DELETE, '''')
             else if active_present \<and> pending_present
               then (if active_digest \<noteq> pending_digest then ACTION_CHANGE else ACTION_UNCHANGED, '''')
             else (ACTION_AMBIGUOUS, ''neither_view_carries_a_representation''))
      in \<lparr>dd_family = family, dd_object_id = object_id, dd_target_state = target_state,
          dd_active_present = active_present, dd_pending_present = pending_present,
          dd_active_digest = active_digest, dd_pending_digest = pending_digest,
          dd_action = action, dd_ambiguity_reason = reason\<rparr>)"

definition family_of_scope :: "string \<Rightarrow> string" where
  "family_of_scope scope = fst (partition_str ''@'' scope)"

text \<open>The rows of one scope: a value that is not a list and a row that is not a mapping are skipped.\<close>

definition mapping_rows :: "json \<Rightarrow> (string \<times> json) list list" where
  "mapping_rows rows = (case rows of
      JArr xs \<Rightarrow> concat (map (\<lambda>r. case r of JObj d \<Rightarrow> [d] | _ \<Rightarrow> []) xs)
    | _ \<Rightarrow> [])"

definition derive_differentials :: "(string, json) dict \<Rightarrow> sdn_object_differential list" where
  "derive_differentials families =
     concat (map (\<lambda>scope. map (derive_object_differential (family_of_scope scope))
                     (mapping_rows (dict_get scope families)))
       (sort (dict_keys families)))"

definition differential_key :: "sdn_object_differential \<Rightarrow> string \<times> string" where
  "differential_key d = (dd_family d, dd_object_id d)"

definition not_unique_reasons :: "(string \<times> string) list \<Rightarrow> string list" where
  "not_unique_reasons ks =
     map (\<lambda>((family, object_id), count). ''sdn_identifier_not_unique:'' @ family @ '':'' @ named_identifier object_id)
       (filter (\<lambda>(k, count). 1 < count) (sort_key fst (count_keys ks)))"

definition object_differential_reasons ::
    "((string \<times> string) \<Rightarrow> string option) \<Rightarrow> sdn_object_differential \<Rightarrow> string list" where
  "object_differential_reasons absence d =
     (let named = named_identifier (dd_object_id d) in
      (if dd_action d = ACTION_AMBIGUOUS
       then [''sdn_object_action_ambiguous:'' @ dd_family d @ '':'' @ named @ '':'' @
              (if dd_ambiguity_reason d \<noteq> [] then dd_ambiguity_reason d else ''unclassified'')] else []) @
      (if dd_action d = ACTION_CREATE \<and> (case absence (differential_key d) of None \<Rightarrow> True | Some e \<Rightarrow> e = [])
       then [''sdn_create_without_absence_evidence:'' @ dd_family d @ '':'' @ named] else []) @
      (if dd_action d = ACTION_DELETE \<and> dd_active_digest d = []
       then [''sdn_delete_without_active_evidence:'' @ dd_family d @ '':'' @ named] else []))"

definition differential_refusals ::
    "sdn_object_differential list \<Rightarrow> int \<Rightarrow> bool \<Rightarrow> bool \<Rightarrow> string list \<Rightarrow> (string \<times> string, string) dict \<Rightarrow> string list" where
  "differential_refusals differentials observed_row_count active_visibility_complete
       pending_visibility_complete degraded_sources absence =
     from_keys (
       (if \<not> active_visibility_complete then [''sdn_active_visibility_incomplete''] else []) @
       (if \<not> pending_visibility_complete then [''sdn_pending_visibility_incomplete''] else []) @
       map (\<lambda>source. ''sdn_source_degraded:'' @ source) (sort (remdups degraded_sources)) @
       (if int (length differentials) \<noteq> observed_row_count
        then [''sdn_pending_object_merged_away:observed='' @ show_int observed_row_count @
               '':classified='' @ show_nat (length differentials)] else []) @
       not_unique_reasons (map differential_key differentials) @
       concat (map (object_differential_reasons (map_of absence)) differentials))"

section \<open>Lemmas\<close>

lemma payload_digest_binds:
  "payload_digest a = payload_digest b \<Longrightarrow>
   norm_json a = norm_json b \<or> sha_collision (canonical_json a) (canonical_json b)"
  by (auto simp: payload_digest_def sha256_digest_def sha_collision_def canonical_json_norm)

lemma payload_digest_nonempty [simp]: "payload_digest v \<noteq> []"
  by (simp add: payload_digest_def sha256_digest_def DIGEST_PREFIX_def)

lemma set_from_keys [simp]: "set (from_keys xs) = set xs"
  by (simp add: from_keys_def image_image)

lemma from_keys_Nil_iff [simp]: "from_keys xs = [] \<longleftrightarrow> xs = []"
  by (metis set_empty set_from_keys)

lemma distinct_from_keys [simp]: "distinct (from_keys xs)"
  by (simp add: from_keys_def)

lemma count_keys_foldl:
  "map_of (foldl count_step d ks) k =
     (if k \<in> set ks \<or> k \<in> dom (map_of d)
      then Some ((case map_of d k of None \<Rightarrow> 0 | Some n \<Rightarrow> n) + count_list ks k) else None)"
  by (induction ks arbitrary: d) (auto simp: count_step_def split: option.splits)

lemma map_of_count_keys:
  "map_of (count_keys ks) k = (if k \<in> set ks then Some (count_list ks k) else None)"
  by (simp add: count_keys_def count_keys_foldl)

lemma distinct_count_keys [simp]: "distinct (dict_keys (count_keys ks))"
proof -
  have "distinct (dict_keys d) \<Longrightarrow> distinct (dict_keys (foldl count_step d ks))" for d :: "('a, nat) dict"
    by (induction ks arbitrary: d) (simp_all add: count_step_def)
  then show ?thesis by (simp add: count_keys_def)
qed

lemma set_count_keys: "(k, n) \<in> set (count_keys ks) \<longleftrightarrow> k \<in> set ks \<and> n = count_list ks k"
  using distinct_map_of_eq_Some [OF distinct_count_keys, of ks k n] by (auto simp: map_of_count_keys split: if_splits)

lemma count_list_map: "count_list (map g xs) m = length (filter (\<lambda>x. g x = m) xs)"
  by (induction xs) auto

lemma distinct_iff_count: "distinct ks \<longleftrightarrow> (\<forall>k \<in> set ks. count_list ks k \<le> 1)"
proof (induction ks)
  case (Cons a ks)
  have "count_list ks a = 0 \<longleftrightarrow> a \<notin> set ks" by (simp add: count_list_0_iff)
  with Cons show ?case by (auto simp: le_Suc_eq)
qed simp

lemma not_unique_reasons_Nil_iff: "not_unique_reasons ks = [] \<longleftrightarrow> distinct ks"
proof -
  have "not_unique_reasons ks = [] \<longleftrightarrow> (\<forall>k n. (k, n) \<in> set (count_keys ks) \<longrightarrow> \<not> 1 < n)"
    by (auto simp: not_unique_reasons_def filter_empty_conv)
  also have "\<dots> \<longleftrightarrow> (\<forall>k \<in> set ks. count_list ks k \<le> 1)"
    unfolding set_count_keys not_less by blast
  finally show ?thesis by (simp only: distinct_iff_count)
qed

lemma derived_action_table:
  fixes family row
  defines "d \<equiv> derive_object_differential family row"
  shows "dd_action d =
    (if row_text ''object_id'' row = [] then ACTION_AMBIGUOUS
     else if \<not> dd_active_present d then (if dd_pending_present d then ACTION_CREATE else ACTION_AMBIGUOUS)
     else if \<not> dd_pending_present d then ACTION_DELETE
     else if dd_active_digest d \<noteq> dd_pending_digest d then ACTION_CHANGE else ACTION_UNCHANGED)"
  by (auto simp: d_def derive_object_differential_def Let_def)

lemma derived_fields [simp]:
  "dd_family (derive_object_differential f row) = f"
  "dd_object_id (derive_object_differential f row) = row_text ''object_id'' row"
  "dd_active_present (derive_object_differential f row) = meaningful (row_view ''active'' row)"
  "dd_active_digest (derive_object_differential f row) = view_digest (row_view ''active'' row)"
  "dd_pending_digest (derive_object_differential f row) = view_digest (row_view ''observed'' row)"
  "dd_pending_present (derive_object_differential f row) =
     (meaningful (row_view ''observed'' row) \<and> row_text ''state'' row \<noteq> ''deleted'')"
  by (simp_all add: derive_object_differential_def Let_def)

lemma meaningful_digest: "meaningful view \<Longrightarrow> view_digest view \<noteq> []"
  by (auto simp: meaningful_def view_digest_def)

lemma derived_delete_has_evidence:
  "dd_action (derive_object_differential f row) = ACTION_DELETE \<Longrightarrow>
   dd_active_digest (derive_object_differential f row) \<noteq> []"
  by (auto simp: derived_action_table sdn_action_defs meaningful_digest split: if_splits)

text \<open>Every mapping row of every list-valued scope yields exactly one differential.\<close>

definition observed_rows :: "(string, json) dict \<Rightarrow> nat" where
  "observed_rows families = sum_list (map (\<lambda>(scope, rows). length (mapping_rows rows)) families)"

lemma length_derive_differentials:
  assumes "distinct (dict_keys families)"
  shows "length (derive_differentials families) = observed_rows families"
proof -
  let ?n = "\<lambda>scope. length (mapping_rows (dict_get scope families))"
  have "length (derive_differentials families) = sum_list (map ?n (sort (dict_keys families)))"
    by (simp add: derive_differentials_def length_concat comp_def)
  also have "\<dots> = sum_list (map ?n (dict_keys families))"
    unfolding sum_mset_sum_list [symmetric] mset_map mset_sort ..
  also have "map ?n (dict_keys families) = map (\<lambda>(scope, rows). length (mapping_rows rows)) families"
    using assms by (auto simp: dict_get_def)
  finally show ?thesis by (simp add: observed_rows_def)
qed

lemma derive_differentials_member:
  "(scope, JArr rows) \<in> set families \<Longrightarrow> distinct (dict_keys families) \<Longrightarrow> JObj row \<in> set rows \<Longrightarrow>
   derive_object_differential (family_of_scope scope) row \<in> set (derive_differentials families)"
proof -
  assume a: "(scope, JArr rows) \<in> set families" "distinct (dict_keys families)" "JObj row \<in> set rows"
  then have "dict_get scope families = JArr rows" by (simp add: dict_get_def)
  moreover have "row \<in> set (mapping_rows (JArr rows))" using a(3) by (force simp: mapping_rows_def)
  moreover have "scope \<in> set (sort (dict_keys families))" using a(1) by force
  ultimately show ?thesis unfolding derive_differentials_def by force
qed

definition actionable :: "((string \<times> string) \<Rightarrow> string option) \<Rightarrow> sdn_object_differential \<Rightarrow> bool" where
  "actionable absence d \<longleftrightarrow> dd_action d \<noteq> ACTION_AMBIGUOUS \<and>
     (dd_action d = ACTION_CREATE \<longrightarrow> (\<exists>e. absence (differential_key d) = Some e \<and> e \<noteq> [])) \<and>
     (dd_action d = ACTION_DELETE \<longrightarrow> dd_active_digest d \<noteq> [])"

lemma object_differential_reasons_Nil: "object_differential_reasons absence d = [] \<longleftrightarrow> actionable absence d"
  by (auto simp: object_differential_reasons_def actionable_def Let_def split: option.splits)

lemma differential_refusals_Nil:
  "differential_refusals ds n av pv degraded absence = [] \<longleftrightarrow>
     av \<and> pv \<and> degraded = [] \<and> int (length ds) = n \<and> distinct (map differential_key ds) \<and>
     (\<forall>d \<in> set ds. actionable (map_of absence) d)"
  by (auto simp: differential_refusals_def not_unique_reasons_Nil_iff object_differential_reasons_Nil)

text \<open>
  An object derived as unchanged has the same active and pending representation, up to the order of
  keys and to SHA-256 collisions; one derived as a change has two different representations.
\<close>

definition view_document :: "(string \<times> json) list \<Rightarrow> json" where
  "view_document view = JObj [(''value'', canonical_value (JObj view))]"

lemma view_digest_eq:
  "view \<noteq> [] \<Longrightarrow> view_digest view = payload_digest (view_document view)"
  by (simp add: view_digest_def view_document_def)

lemma meaningful_nonempty: "meaningful view \<Longrightarrow> view \<noteq> []"
  by (auto simp: meaningful_def)

lemma same_view_digest:
  assumes "meaningful a" and "meaningful b" and "view_digest a = view_digest b"
  shows "norm_json (canonical_value (JObj a)) = norm_json (canonical_value (JObj b)) \<or>
     sha_collision (canonical_json (view_document a)) (canonical_json (view_document b))"
  using payload_digest_binds [of "view_document a" "view_document b"] assms
  by (simp add: view_digest_eq meaningful_nonempty view_document_def)

end
