(* ===== verification/Sdn_Activation.thy ===== *)
theory Sdn_Activation
  imports Sdn_Differential
begin

text \<open>
  The staged SDN activation (\<open>apps/api/secp_api/sdn_activation_stages.py\<close>): the pending document the
  target reported, the ownership proofs, the derived disclosure, the authorization and the gate that
  is evaluated again right before activation. A raise of \<open>SdnActivationRefused\<close> is
  \<open>Inl (Sdn_refused code)\<close>; subtracting a naive from an aware \<open>datetime\<close> raises \<open>TypeError\<close>,
  \<open>Inl Sdn_type_error\<close>. The lemmas characterise exactly when an authorization is issued and when
  activation is accepted, and show that acceptance forces the state that was authorised.
\<close>

section \<open>Stages and vocabulary\<close>

datatype sdn_error = Sdn_refused string | Sdn_type_error

definition STAGE_ORDER :: "string list" where
  "STAGE_ORDER = [''prepared'', ''pending_observed'', ''activation_authorized'', ''activated'', ''verified'']"

definition STAGE_ACTIVATION_AUTHORIZED :: string where
  "STAGE_ACTIVATION_AUTHORIZED = ''activation_authorized''"

definition STAGE_VERIFIED :: string where "STAGE_VERIFIED = ''verified''"

text \<open>Ten minutes, in microseconds.\<close>

definition DEFAULT_PENDING_OBSERVATION_TTL :: int where
  "DEFAULT_PENDING_OBSERVATION_TTL = 10 * 60 * us_per_second"

datatype sdn_object_ownership = OS_current_operation | OS_other_secp_operation | OS_foreign | OS_unknown | OS_unclassified

fun sdn_ownership_value :: "sdn_object_ownership \<Rightarrow> string" where
  "sdn_ownership_value OS_current_operation = ''current_operation''"
| "sdn_ownership_value OS_other_secp_operation = ''other_secp_operation''"
| "sdn_ownership_value OS_foreign = ''foreign''"
| "sdn_ownership_value OS_unknown = ''unknown''"
| "sdn_ownership_value OS_unclassified = ''unclassified''"

definition NON_EXCLUSIVE_OWNERSHIP :: "sdn_object_ownership list" where
  "NON_EXCLUSIVE_OWNERSHIP = [OS_other_secp_operation, OS_foreign, OS_unknown, OS_unclassified]"

section \<open>The pending document\<close>

record pending_sdn_object =
  po_family :: string
  po_object_id :: string
  po_action :: string
  po_active :: string
  po_pending :: string
  po_source_endpoint :: string
  po_observation_state :: string
  po_raw_result_digest :: string
  po_target_state :: string
  po_ambiguity_reason :: string
  po_active_present :: bool
  po_pending_present :: bool

definition pending_key :: "pending_sdn_object \<Rightarrow> string \<times> string" where
  "pending_key obj = (po_family obj, po_object_id obj)"

definition pending_canonical :: "pending_sdn_object \<Rightarrow> json" where
  "pending_canonical obj = JObj [
     (''family'', JStr (po_family obj)),
     (''object_id'', JStr (po_object_id obj)),
     (''action'', JStr (po_action obj)),
     (''target_state'', JStr (po_target_state obj)),
     (''ambiguity_reason'', JStr (po_ambiguity_reason obj)),
     (''active_present'', JBool (po_active_present obj)),
     (''pending_present'', JBool (po_pending_present obj)),
     (''active'', JStr (po_active obj)),
     (''pending'', JStr (po_pending obj)),
     (''source_endpoint'', JStr (po_source_endpoint obj)),
     (''observation_state'', JStr (po_observation_state obj)),
     (''raw_result_digest'', JStr (po_raw_result_digest obj))]"

text \<open>
  The \<open>authentication\<close> slot of a document: anything that is not an \<open>AuthenticatedPendingContent\<close>, a
  bare \<open>object.__new__\<close> allocation whose slots cannot be read, or a constructed carrier. The class
  can be constructed only with the module's token.
\<close>

datatype pending_authentication = AU_absent | AU_bare | AU_issued string string

definition new_pending_content :: "bool \<Rightarrow> string \<Rightarrow> string \<Rightarrow> sdn_error + pending_authentication" where
  "new_pending_content has_token facts_hash pending_sdn_state =
     (if \<not> has_token then Inl (Sdn_refused
        ''AuthenticatedPendingContent cannot be constructed directly; it is produced only by authenticating content against a verified snapshot'')
      else Inr (AU_issued facts_hash pending_sdn_state))"

definition authenticated_facts_hash :: "pending_authentication \<Rightarrow> string" where
  "authenticated_facts_hash a = (case a of AU_issued facts_hash _ \<Rightarrow> facts_hash | _ \<Rightarrow> '''')"

record pending_sdn_document =
  pd_observed_at :: datetime
  pd_target_identity :: string
  pd_cluster_fingerprint :: string
  pd_observation_identity :: string
  pd_worker_installation_id :: string
  pd_worker_release_fingerprint :: string
  pd_objects :: "pending_sdn_object list"
  pd_authentication :: pending_authentication
  pd_unreadable_families :: "(string \<times> string) list"

definition signature_verified :: "pending_sdn_document \<Rightarrow> bool" where
  "signature_verified doc \<longleftrightarrow> authenticated_facts_hash (pd_authentication doc) \<noteq> []"

definition visibility_complete :: "pending_sdn_document \<Rightarrow> bool" where
  "visibility_complete doc \<longleftrightarrow> (if \<not> signature_verified doc then False
     else (case pd_authentication doc of AU_issued _ pending_sdn_state \<Rightarrow> pending_sdn_state = ''observed'' | _ \<Rightarrow> False))"

definition pending_document :: "pending_sdn_document \<Rightarrow> json" where
  "pending_document doc = JObj [
     (''target_identity'', JStr (pd_target_identity doc)),
     (''cluster_fingerprint'', JStr (pd_cluster_fingerprint doc)),
     (''observation_identity'', JStr (pd_observation_identity doc)),
     (''objects'', JArr (map pending_canonical (sort_key pending_key (pd_objects doc))))]"

definition pending_sdn_hash :: "pending_sdn_document \<Rightarrow> string" where
  "pending_sdn_hash doc = payload_digest (pending_document doc)"

definition document_keys :: "pending_sdn_document \<Rightarrow> (string \<times> string) list" where
  "document_keys doc = map pending_key (pd_objects doc)"

section \<open>Ownership proofs\<close>

record operation_binding =
  ob_target_identity :: string
  ob_cluster_fingerprint :: string
  ob_range_identity :: string
  ob_operation_identity :: string
  ob_operation_generation :: int
  ob_stage1_workspace_hash :: string
  ob_stage1_plan_hash :: string
  ob_stage1_authorization_id :: string
  ob_stage1_execution_receipt :: string

record ownership_proof =
  op_object_key :: "string \<times> string"
  op_ownership :: sdn_object_ownership
  op_classification_reason :: string
  op_range_identity :: string
  op_operation_identity :: string
  op_operation_generation :: int
  op_stage1_desired_object_digest :: string
  op_stage1_workspace_hash :: string
  op_stage1_plan_hash :: string
  op_stage1_execution_receipt_digest :: string
  op_pre_stage1_absence_evidence_digest :: string
  op_durable_ownership_provenance_digest :: string
  op_target_identity :: string
  op_cluster_fingerprint :: string
  op_proof_complete :: bool

definition proof_canonical :: "ownership_proof \<Rightarrow> json" where
  "proof_canonical p = JObj [
     (''object_key'', JArr [JStr (fst (op_object_key p)), JStr (snd (op_object_key p))]),
     (''ownership'', JStr (sdn_ownership_value (op_ownership p))),
     (''classification_reason'', JStr (op_classification_reason p)),
     (''range_identity'', JStr (op_range_identity p)),
     (''operation_identity'', JStr (op_operation_identity p)),
     (''operation_generation'', JInt (op_operation_generation p)),
     (''stage1_desired_object_digest'', JStr (op_stage1_desired_object_digest p)),
     (''stage1_workspace_hash'', JStr (op_stage1_workspace_hash p)),
     (''stage1_plan_hash'', JStr (op_stage1_plan_hash p)),
     (''stage1_execution_receipt_digest'', JStr (op_stage1_execution_receipt_digest p)),
     (''pre_stage1_absence_evidence_digest'', JStr (op_pre_stage1_absence_evidence_digest p)),
     (''durable_ownership_provenance_digest'', JStr (op_durable_ownership_provenance_digest p)),
     (''target_identity'', JStr (op_target_identity p)),
     (''cluster_fingerprint'', JStr (op_cluster_fingerprint p)),
     (''proof_complete'', JBool (op_proof_complete p))]"

type_synonym proof_set = "ownership_proof list"

definition proofs_document :: "proof_set \<Rightarrow> json" where
  "proofs_document ps = JObj [(''results'', JArr (map proof_canonical (sort_key op_object_key ps)))]"

definition ownership_provenance_digest :: "proof_set \<Rightarrow> string" where
  "ownership_provenance_digest ps = payload_digest (proofs_document ps)"

definition proof_keys :: "proof_set \<Rightarrow> (string \<times> string) list" where
  "proof_keys ps = map op_object_key ps"

definition proofs_by_key :: "proof_set \<Rightarrow> (string \<times> string, ownership_proof) dict" where
  "proofs_by_key ps = dict_of (map (\<lambda>r. (op_object_key r, r)) ps)"

definition classify_ownership ::
    "pending_sdn_object \<Rightarrow> ownership_proof \<Rightarrow> operation_binding \<Rightarrow> sdn_object_ownership" where
  "classify_ownership obj p operation =
     (if op_ownership p = OS_foreign \<and> op_proof_complete p then OS_foreign
      else if op_range_identity p \<noteq> [] \<and> op_operation_identity p \<noteq> [] \<and>
         (op_range_identity p \<noteq> ob_range_identity operation \<or>
          op_operation_identity p \<noteq> ob_operation_identity operation \<or>
          op_operation_generation p \<noteq> ob_operation_generation operation) then OS_other_secp_operation
      else if \<not> list_all (\<lambda>s. s \<noteq> []) [op_target_identity p, op_cluster_fingerprint p, op_range_identity p,
           op_operation_identity p, op_stage1_workspace_hash p, op_stage1_plan_hash p,
           op_stage1_execution_receipt_digest p] then OS_unknown
      else if \<not> (op_target_identity p = ob_target_identity operation \<and>
           op_cluster_fingerprint p = ob_cluster_fingerprint operation \<and>
           op_range_identity p = ob_range_identity operation \<and>
           op_operation_identity p = ob_operation_identity operation \<and>
           op_operation_generation p = ob_operation_generation operation \<and>
           op_stage1_workspace_hash p = ob_stage1_workspace_hash operation \<and>
           op_stage1_plan_hash p = ob_stage1_plan_hash operation \<and>
           op_proof_complete p) then OS_unknown
      else if po_action obj = ''create''
        then (if op_pre_stage1_absence_evidence_digest p \<noteq> [] then OS_current_operation else OS_unknown)
      else (if op_durable_ownership_provenance_digest p \<noteq> [] then OS_current_operation else OS_unknown))"

section \<open>The disclosure\<close>

record pending_sdn_disclosure =
  ds_pending_sdn_hash :: string
  ds_ownership_provenance_digest :: string
  ds_ownership_counts :: "(string, nat) dict"
  ds_action_counts :: "(string, nat) dict"
  ds_family_counts :: "(string, nat) dict"
  ds_classification_complete :: bool
  ds_exclusive_to_current_operation :: bool

definition OWNERSHIP_FIELDS :: "(string \<times> sdn_object_ownership) list" where
  "OWNERSHIP_FIELDS = [
     (''current_operation'', OS_current_operation),
     (''other_secp_operation'', OS_other_secp_operation),
     (''foreign'', OS_foreign),
     (''unknown'', OS_unknown),
     (''unclassified'', OS_unclassified)]"

definition ACTION_FIELDS :: "(string \<times> string) list" where
  "ACTION_FIELDS = [
     (''create'', ''create''), (''change'', ''change''), (''delete'', ''delete''),
     (''unchanged'', ''unchanged''), (''ambiguous'', ''ambiguous'')]"

text \<open>
  The counting loop over a table of named members: the first field whose member is the value is
  incremented, and the inner loop stops there.
\<close>

definition bump_field :: "(string \<times> 'm) list \<Rightarrow> (string, nat) dict \<Rightarrow> 'm \<Rightarrow> (string, nat) dict" where
  "bump_field table counts x = (case find (\<lambda>(name, m). x = m) table of
      None \<Rightarrow> counts
    | Some (name, m) \<Rightarrow> (case map_of counts name of None \<Rightarrow> counts | Some n \<Rightarrow> dict_set name (n + 1) counts))"

definition count_fields :: "(string \<times> 'm) list \<Rightarrow> 'm list \<Rightarrow> (string, nat) dict" where
  "count_fields table xs = foldl (bump_field table) (map (\<lambda>(name, _). (name, 0)) table) xs"

definition derived_ownership ::
    "proof_set \<Rightarrow> operation_binding \<Rightarrow> pending_sdn_object \<Rightarrow> sdn_object_ownership" where
  "derived_ownership ps operation obj = (case map_of (proofs_by_key ps) (pending_key obj) of
      None \<Rightarrow> OS_unclassified
    | Some result \<Rightarrow> classify_ownership obj result operation)"

definition count_of :: "(string, nat) dict \<Rightarrow> string \<Rightarrow> nat" where
  "count_of counts name = (case map_of counts name of None \<Rightarrow> 0 | Some n \<Rightarrow> n)"

definition derive_disclosure ::
    "pending_sdn_document \<Rightarrow> proof_set \<Rightarrow> operation_binding \<Rightarrow> pending_sdn_disclosure" where
  "derive_disclosure doc ps operation =
     (let counts = count_fields OWNERSHIP_FIELDS (map (derived_ownership ps operation) (pd_objects doc));
          total = length (pd_objects doc)
      in \<lparr>ds_pending_sdn_hash = pending_sdn_hash doc,
          ds_ownership_provenance_digest = ownership_provenance_digest ps,
          ds_ownership_counts = (''total_pending'', total) # counts,
          ds_action_counts = count_fields ACTION_FIELDS (map po_action (pd_objects doc)),
          ds_family_counts = count_keys (map po_family (pd_objects doc)),
          ds_classification_complete = (count_of counts ''unknown'' = 0 \<and> count_of counts ''unclassified'' = 0),
          ds_exclusive_to_current_operation =
            (total = count_of counts ''current_operation'' \<and> count_of counts ''other_secp_operation'' = 0 \<and>
             count_of counts ''foreign'' = 0 \<and> count_of counts ''unknown'' = 0 \<and>
             count_of counts ''unclassified'' = 0)\<rparr>)"

definition manifest_row :: "proof_set \<Rightarrow> operation_binding \<Rightarrow> pending_sdn_object \<Rightarrow> json" where
  "manifest_row ps operation obj =
     (let result = map_of (proofs_by_key ps) (pending_key obj) in JObj [
       (''family'', JStr (po_family obj)),
       (''identifier'', JStr (po_object_id obj)),
       (''action'', JStr (po_action obj)),
       (''ownership_classification'', JStr (sdn_ownership_value (derived_ownership ps operation obj))),
       (''submitted_classification'', JStr (case result of None \<Rightarrow> ''none_submitted'' | Some r \<Rightarrow> sdn_ownership_value (op_ownership r))),
       (''classification_reason'', JStr (case result of None \<Rightarrow> ''no_proof_submitted'' | Some r \<Rightarrow> op_classification_reason r)),
       (''range_binding'', JStr (case result of None \<Rightarrow> '''' | Some r \<Rightarrow> op_range_identity r)),
       (''operation_binding'', JStr (case result of None \<Rightarrow> '''' | Some r \<Rightarrow> op_operation_identity r)),
       (''generation_binding'', JInt (case result of None \<Rightarrow> -1 | Some r \<Rightarrow> op_operation_generation r)),
       (''active_representation_digest'', JStr (po_active obj)),
       (''pending_representation_digest'', JStr (po_pending obj)),
       (''source_endpoint'', JStr (po_source_endpoint obj)),
       (''observation_state'', JStr (po_observation_state obj))])"

definition object_manifest :: "pending_sdn_document \<Rightarrow> proof_set \<Rightarrow> operation_binding \<Rightarrow> json list" where
  "object_manifest doc ps operation = map (manifest_row ps operation) (pd_objects doc)"

section \<open>Authorization and activation\<close>

record activation_authorization =
  aa_pending_sdn_hash :: string
  aa_ownership_provenance_digest :: string
  aa_disclosure :: pending_sdn_disclosure
  aa_authorized_at :: datetime
  aa_authorized_by :: string
  aa_target_identity :: string
  aa_cluster_fingerprint :: string
  aa_range_identity :: string
  aa_operation_identity :: string
  aa_operation_generation :: int
  aa_worker_installation_id :: string
  aa_worker_release_fingerprint :: string
  aa_observation_ttl :: int

definition object_refusals :: "proof_set \<Rightarrow> pending_sdn_object \<Rightarrow> string list" where
  "object_refusals ps obj =
     (if po_action obj = ACTION_AMBIGUOUS
      then [''sdn_object_action_ambiguous:'' @ po_family obj @ '':'' @ named_identifier (po_object_id obj) @ '':'' @
             (if po_ambiguity_reason obj \<noteq> [] then po_ambiguity_reason obj else ''unclassified'')] else []) @
     (if po_action obj = ACTION_CREATE \<and>
         (case map_of (proofs_by_key ps) (pending_key obj) of
            None \<Rightarrow> True | Some p \<Rightarrow> op_pre_stage1_absence_evidence_digest p = [])
      then [''sdn_create_without_absence_evidence:'' @ po_family obj @ '':'' @ po_object_id obj] else []) @
     (if po_action obj = ACTION_DELETE \<and> po_active obj = []
      then [''sdn_delete_without_active_evidence:'' @ po_family obj @ '':'' @ safe_identifier (po_object_id obj)] else [])"

definition sdn_differential_refusals :: "pending_sdn_document \<Rightarrow> proof_set \<Rightarrow> string list" where
  "sdn_differential_refusals doc ps =
     from_keys (concat (map (object_refusals ps) (pd_objects doc)) @ not_unique_reasons (document_keys doc))"

definition counts_detail :: "(string, nat) dict \<Rightarrow> string" where
  "counts_detail counts = join '','' ((''total_pending='' @ show_nat (count_of counts ''total_pending'')) #
     map (\<lambda>(name, m). name @ ''='' @ show_nat (count_of counts name)) OWNERSHIP_FIELDS)"

definition binding_blank :: "string \<Rightarrow> bool" where
  "binding_blank b \<longleftrightarrow> b = [] \<or> py_strip b = []"

definition issue_activation_authorization ::
    "pending_sdn_document \<Rightarrow> proof_set \<Rightarrow> operation_binding \<Rightarrow> datetime \<Rightarrow> string \<Rightarrow> int \<Rightarrow>
     sdn_error + activation_authorization" where
  "issue_activation_authorization doc ps operation authorized_at authorized_by observation_ttl =
     (if \<not> signature_verified doc then Inl (Sdn_refused ''sdn_pending_document_unsigned'')
      else if \<not> visibility_complete doc then Inl (Sdn_refused ''sdn_pending_document_visibility_incomplete'')
      else if \<not> distinct (document_keys doc) then Inl (Sdn_refused ''sdn_pending_document_duplicate_object'')
      else if \<not> distinct (proof_keys ps) then Inl (Sdn_refused ''sdn_ownership_proof_duplicated'')
      else if set (document_keys doc) \<noteq> set (proof_keys ps) then Inl (Sdn_refused ''sdn_ownership_proof_set_mismatch'')
      else if pd_objects doc = [] then Inl (Sdn_refused ''sdn_activation_empty_pending_set'')
      else if list_ex binding_blank [ob_target_identity operation, ob_cluster_fingerprint operation,
          ob_range_identity operation, ob_operation_identity operation]
        then Inl (Sdn_refused ''sdn_activation_operation_binding_blank'')
      else if pd_target_identity doc \<noteq> ob_target_identity operation then Inl (Sdn_refused ''sdn_activation_target_mismatch'')
      else if pd_cluster_fingerprint doc \<noteq> ob_cluster_fingerprint operation then Inl (Sdn_refused ''sdn_activation_cluster_mismatch'')
      else case sdn_differential_refusals doc ps of
          reason # _ \<Rightarrow> Inl (Sdn_refused reason)
        | [] \<Rightarrow>
          (let disclosure = derive_disclosure doc ps operation in
           if \<not> ds_classification_complete disclosure
             then Inl (Sdn_refused (''cluster_pending_sdn_not_exclusive_to_operation:'' @ counts_detail (ds_ownership_counts disclosure)))
           else if \<not> ds_exclusive_to_current_operation disclosure
             then Inl (Sdn_refused (''cluster_pending_sdn_not_exclusive_to_operation:'' @ counts_detail (ds_ownership_counts disclosure)))
           else Inr \<lparr>
             aa_pending_sdn_hash = ds_pending_sdn_hash disclosure,
             aa_ownership_provenance_digest = ds_ownership_provenance_digest disclosure,
             aa_disclosure = disclosure,
             aa_authorized_at = authorized_at,
             aa_authorized_by = authorized_by,
             aa_target_identity = ob_target_identity operation,
             aa_cluster_fingerprint = ob_cluster_fingerprint operation,
             aa_range_identity = ob_range_identity operation,
             aa_operation_identity = ob_operation_identity operation,
             aa_operation_generation = ob_operation_generation operation,
             aa_worker_installation_id = pd_worker_installation_id doc,
             aa_worker_release_fingerprint = pd_worker_release_fingerprint doc,
             aa_observation_ttl = observation_ttl\<rparr>))"

text \<open>\<open>now - observed_at\<close>, in microseconds: a naive and an aware value cannot be subtracted.\<close>

definition datetime_sub :: "datetime \<Rightarrow> datetime \<Rightarrow> sdn_error + int" where
  "datetime_sub a b = (if (utc_offset a = None) \<noteq> (utc_offset b = None) then Inl Sdn_type_error
     else Inr (instant a - instant b))"

definition freshness_reasons :: "int \<Rightarrow> int \<Rightarrow> string list" where
  "freshness_reasons age ttl =
     (if age < 0 then [''sdn_activation_observation_clock_skew'']
      else if ttl < age then [''sdn_activation_observation_expired''] else [])"

text \<open>The reasons collected once an authorization, a document and proofs are at hand.\<close>

definition activation_reasons ::
    "string \<Rightarrow> activation_authorization \<Rightarrow> pending_sdn_document \<Rightarrow> proof_set \<Rightarrow> operation_binding \<Rightarrow> int \<Rightarrow> string list" where
  "activation_reasons stage auth doc ps operation age =
     (let disclosure = derive_disclosure doc ps operation in
       (if stage \<noteq> STAGE_ACTIVATION_AUTHORIZED then [''sdn_activation_wrong_stage:'' @ stage] else []) @
       (if \<not> signature_verified doc then [''sdn_pending_document_unsigned''] else []) @
       (if \<not> visibility_complete doc
        then ''sdn_pending_document_visibility_incomplete'' #
          map (\<lambda>(family, state). ''sdn_pending_family_unreadable:'' @ family @ '':'' @ state) (pd_unreadable_families doc)
        else []) @
       (if set (document_keys doc) \<noteq> set (proof_keys ps) then [''sdn_ownership_proof_set_mismatch''] else []) @
       (if pending_sdn_hash doc \<noteq> aa_pending_sdn_hash auth then [''sdn_activation_pending_state_changed''] else []) @
       (if ownership_provenance_digest ps \<noteq> aa_ownership_provenance_digest auth
        then [''sdn_activation_ownership_provenance_changed''] else []) @
       sdn_differential_refusals doc ps @
       (if \<not> ds_exclusive_to_current_operation disclosure \<or> \<not> ds_classification_complete disclosure
        then [''cluster_pending_sdn_not_exclusive_to_operation:'' @ counts_detail (ds_ownership_counts disclosure)] else []) @
       (if \<not> dict_eq (ds_ownership_counts disclosure) (ds_ownership_counts (aa_disclosure auth))
        then [''sdn_activation_disclosure_changed''] else []) @
       freshness_reasons age (aa_observation_ttl auth) @
       (if aa_target_identity auth \<noteq> ob_target_identity operation then [''sdn_activation_target_mismatch''] else []) @
       (if aa_operation_identity auth \<noteq> ob_operation_identity operation then [''sdn_activation_operation_mismatch''] else []) @
       (if aa_operation_generation auth \<noteq> ob_operation_generation operation
        then [''sdn_activation_generation_mismatch''] else []))"

definition activation_refusals ::
    "string \<Rightarrow> activation_authorization option \<Rightarrow> pending_sdn_document option \<Rightarrow> proof_set option \<Rightarrow>
     operation_binding \<Rightarrow> datetime \<Rightarrow> sdn_error + string list" where
  "activation_refusals stage authorization document proofs operation now =
     (case (authorization, document, proofs) of
        (Some auth, Some doc, Some ps) \<Rightarrow>
          bindE (datetime_sub now (pd_observed_at doc)) (\<lambda>age.
            Inr (from_keys (activation_reasons stage auth doc ps operation age)))
      | _ \<Rightarrow> Inr (from_keys (
          (if stage \<noteq> STAGE_ACTIVATION_AUTHORIZED then [''sdn_activation_wrong_stage:'' @ stage] else []) @
          (if authorization = None then [''sdn_activation_unauthorized''] else []) @
          (if document = None \<or> proofs = None then [''sdn_activation_no_pending_observation''] else []))))"

definition next_stage :: "string \<Rightarrow> sdn_error + string" where
  "next_stage current =
     (if current \<notin> set STAGE_ORDER then Inl (Sdn_refused (''sdn_activation_unknown_stage:'' @ current))
      else (let index = index_of STAGE_ORDER current in
        if length STAGE_ORDER \<le> index + 1 then Inl (Sdn_refused ''sdn_activation_already_verified'')
        else Inr (STAGE_ORDER ! (index + 1))))"

definition guests_may_deploy :: "string \<Rightarrow> bool" where
  "guests_may_deploy stage \<longleftrightarrow> stage = STAGE_VERIFIED"

text \<open>What is retained about one activation.\<close>

record activation_record =
  ar_stage :: string
  ar_pending_sdn_hash_at_authorization :: string
  ar_pending_sdn_hash_at_activation :: string
  ar_ownership_provenance_digest_at_authorization :: string
  ar_ownership_provenance_digest_at_activation :: string
  ar_ownership_counts_at_activation :: "(string, nat) dict"
  ar_activated_at :: "datetime option"
  ar_verified_at :: "datetime option"
  ar_refusal_reasons :: "string list"

section \<open>Ownership\<close>

text \<open>The evidence an object needs before it counts as the operation's own.\<close>

definition bound_to :: "operation_binding \<Rightarrow> ownership_proof \<Rightarrow> bool" where
  "bound_to operation p \<longleftrightarrow>
     op_target_identity p = ob_target_identity operation \<and> ob_target_identity operation \<noteq> [] \<and>
     op_cluster_fingerprint p = ob_cluster_fingerprint operation \<and> ob_cluster_fingerprint operation \<noteq> [] \<and>
     op_range_identity p = ob_range_identity operation \<and> ob_range_identity operation \<noteq> [] \<and>
     op_operation_identity p = ob_operation_identity operation \<and> ob_operation_identity operation \<noteq> [] \<and>
     op_operation_generation p = ob_operation_generation operation \<and>
     op_stage1_workspace_hash p = ob_stage1_workspace_hash operation \<and> ob_stage1_workspace_hash operation \<noteq> [] \<and>
     op_stage1_plan_hash p = ob_stage1_plan_hash operation \<and> ob_stage1_plan_hash operation \<noteq> [] \<and>
     op_stage1_execution_receipt_digest p \<noteq> [] \<and> op_proof_complete p"

definition owned_by :: "operation_binding \<Rightarrow> pending_sdn_object \<Rightarrow> ownership_proof \<Rightarrow> bool" where
  "owned_by operation obj p \<longleftrightarrow> bound_to operation p \<and> op_ownership p \<noteq> OS_foreign \<and>
     (if po_action obj = ''create'' then op_pre_stage1_absence_evidence_digest p \<noteq> []
      else op_durable_ownership_provenance_digest p \<noteq> [])"

lemma classify_current_iff:
  "classify_ownership obj p operation = OS_current_operation \<longleftrightarrow> owned_by operation obj p"
  by (auto simp: classify_ownership_def owned_by_def bound_to_def)

lemma classify_never_unclassified: "classify_ownership obj p operation \<noteq> OS_unclassified"
  by (simp add: classify_ownership_def)

section \<open>Counting\<close>

lemma find_member:
  assumes "distinct (map snd table)" and "(name, m) \<in> set table"
  shows "find (\<lambda>(name, x). m = x) table = Some (name, m)"
  using assms by (induction table) (force simp: image_iff)+

lemma bump_field_lookup:
  assumes "distinct (map fst table)" and "distinct (map snd table)"
    and "(name, m) \<in> set table" and "map_of d name = Some n"
  shows "map_of (bump_field table d x) name = Some (n + (if x = m then 1 else 0))"
proof (cases "find (\<lambda>(name, m). x = m) table")
  case None
  with assms(3) have "x \<noteq> m" by (auto simp: find_None_iff)
  with None assms(4) show ?thesis by (simp add: bump_field_def)
next
  case (Some p)
  obtain name' m' where p: "p = (name', m')" by (cases p)
  with Some have "x = m'" and mem: "(name', m') \<in> set table"
    by (auto simp: find_Some_iff in_set_conv_nth)
  moreover have "name' = name \<longleftrightarrow> m' = m"
    using assms(1,2,3) mem by (metis eq_key_imp_eq_value find_member option.inject prod.inject)
  ultimately show ?thesis using Some p assms(4) by (auto simp: bump_field_def split: option.splits)
qed

lemma count_fields_foldl:
  assumes "distinct (map fst table)" and "distinct (map snd table)"
    and "(name, m) \<in> set table" and "map_of d name = Some n"
  shows "map_of (foldl (bump_field table) d xs) name = Some (n + count_list xs m)"
  using assms(4)
proof (induction xs arbitrary: d n)
  case (Cons x xs)
  note Cons.IH [OF bump_field_lookup [OF assms(1-3) Cons.prems]]
  then show ?case by simp
qed simp

lemma count_fields_lookup:
  assumes "distinct (map fst table)" and "distinct (map snd table)" and "(name, m) \<in> set table"
  shows "map_of (count_fields table xs) name = Some (count_list xs m)"
proof -
  have "map_of (map (\<lambda>(name, m). (name, 0::nat)) table) name = Some 0"
    using assms(3) by (induction table) auto
  from count_fields_foldl [OF assms this] show ?thesis by (simp add: count_fields_def)
qed

lemma count_of_ownership:
  "(name, m) \<in> set OWNERSHIP_FIELDS \<Longrightarrow> count_of (count_fields OWNERSHIP_FIELDS xs) name = count_list xs m"
  using count_fields_lookup [of OWNERSHIP_FIELDS name m xs] by (simp add: count_of_def OWNERSHIP_FIELDS_def)

lemma count_of_action:
  "(name, m) \<in> set ACTION_FIELDS \<Longrightarrow> count_of (count_fields ACTION_FIELDS xs) name = count_list xs m"
  using count_fields_lookup [of ACTION_FIELDS name m xs] by (simp add: count_of_def ACTION_FIELDS_def)

lemma count_list_all: "count_list xs m = length xs \<longleftrightarrow> (\<forall>x \<in> set xs. x = m)"
proof (induction xs)
  case (Cons a xs)
  have "count_list xs m \<noteq> Suc (length xs)" using count_le_length [of xs m] by auto
  with Cons show ?case by auto
qed simp

lemma ownership_total:
  "count_list xs OS_current_operation + count_list xs OS_other_secp_operation + count_list xs OS_foreign +
   count_list xs OS_unknown + count_list xs OS_unclassified = length xs"
proof (induction xs)
  case (Cons x xs)
  then show ?case by (cases x) simp_all
qed simp

lemmas ownership_counts = count_of_ownership [of "''current_operation''" OS_current_operation]
  count_of_ownership [of "''other_secp_operation''" OS_other_secp_operation]
  count_of_ownership [of "''foreign''" OS_foreign] count_of_ownership [of "''unknown''" OS_unknown]
  count_of_ownership [of "''unclassified''" OS_unclassified]

lemma disclosure_complete_iff:
  "ds_classification_complete (derive_disclosure doc ps operation) \<longleftrightarrow>
   (\<forall>obj \<in> set (pd_objects doc). derived_ownership ps operation obj \<notin> {OS_unknown, OS_unclassified})"
  by (simp add: derive_disclosure_def Let_def ownership_counts OWNERSHIP_FIELDS_def [THEN arg_cong, of set]
      count_list_0_iff image_iff) metis

lemma disclosure_exclusive_iff:
  "ds_exclusive_to_current_operation (derive_disclosure doc ps operation) \<longleftrightarrow>
   (\<forall>obj \<in> set (pd_objects doc). derived_ownership ps operation obj = OS_current_operation)"
proof -
  let ?xs = "map (derived_ownership ps operation) (pd_objects doc)"
  have "ds_exclusive_to_current_operation (derive_disclosure doc ps operation) \<longleftrightarrow>
      count_list ?xs OS_current_operation = length ?xs"
    using ownership_total [of ?xs]
    by (auto simp: derive_disclosure_def Let_def ownership_counts OWNERSHIP_FIELDS_def [THEN arg_cong, of set])
  then show ?thesis by (simp only: count_list_all) simp
qed

section \<open>What a digest binds\<close>

lemma sdn_ownership_value_inject [simp]: "sdn_ownership_value a = sdn_ownership_value b \<longleftrightarrow> a = b"
  by (cases a; cases b) simp_all

lemma pending_canonical_inj:
  assumes "norm_json (pending_canonical a) = norm_json (pending_canonical b)"
  shows "a = b"
  using norm_json_obj_same_keys [OF assms [unfolded pending_canonical_def]] by (simp)

lemma proof_canonical_inj:
  assumes "norm_json (proof_canonical a) = norm_json (proof_canonical b)"
  shows "a = b"
  using norm_json_obj_same_keys [OF assms [unfolded proof_canonical_def]] by (simp add: prod_eq_iff)

lemma sorted_items_inj:
  assumes inj: "\<And>a b. norm_json (f a) = norm_json (f b) \<Longrightarrow> a = b"
    and "norm_json (JArr (map f (sort_key k xs))) = norm_json (JArr (map f (sort_key k ys)))"
  shows "mset xs = mset ys"
proof -
  from assms(2) have "map (norm_json \<circ> f) (sort_key k xs) = map (norm_json \<circ> f) (sort_key k ys)" by simp
  moreover have "inj (norm_json \<circ> f)" using inj by (auto simp: inj_def)
  ultimately have "sort_key k xs = sort_key k ys" by (simp only: inj_map_eq_map)
  then show ?thesis by (metis mset_sort)
qed

text \<open>
  A payload addressed by \<open>sha256_digest\<close> of its canonical JSON: equal digests mean equal artefacts,
  unless SHA-256 collides on the two texts.
\<close>

locale payload_addressed =
  fixes payload :: "'a \<Rightarrow> json" and alike :: "'a \<Rightarrow> 'a \<Rightarrow> bool"
  assumes payload_binds: "norm_json (payload x) = norm_json (payload y) \<Longrightarrow> alike x y"
begin

definition clashes :: "'a \<Rightarrow> 'a \<Rightarrow> bool" where
  "clashes x y \<longleftrightarrow> sha_collision (canonical_json (payload x)) (canonical_json (payload y))"

lemma digest_binds: "payload_digest (payload x) = payload_digest (payload y) \<Longrightarrow> alike x y \<or> clashes x y"
  using payload_digest_binds [of "payload x" "payload y"] payload_binds by (auto simp: clashes_def)

end

definition same_pending :: "pending_sdn_document \<Rightarrow> pending_sdn_document \<Rightarrow> bool" where
  "same_pending a b \<longleftrightarrow> pd_target_identity a = pd_target_identity b \<and>
     pd_cluster_fingerprint a = pd_cluster_fingerprint b \<and>
     pd_observation_identity a = pd_observation_identity b \<and> mset (pd_objects a) = mset (pd_objects b)"

lemma pending_document_binds:
  assumes "norm_json (pending_document a) = norm_json (pending_document b)"
  shows "same_pending a b"
proof -
  note field = norm_json_obj_lookup [OF assms [unfolded pending_document_def]]
  have "pd_target_identity a = pd_target_identity b" using field [of "''target_identity''"] by simp
  moreover have "pd_cluster_fingerprint a = pd_cluster_fingerprint b" using field [of "''cluster_fingerprint''"] by simp
  moreover have "pd_observation_identity a = pd_observation_identity b" using field [of "''observation_identity''"] by simp
  moreover have "mset (pd_objects a) = mset (pd_objects b)"
    by (rule sorted_items_inj [where f = pending_canonical and k = pending_key, OF pending_canonical_inj])
      (use field [of "''objects''"] in simp_all)
  ultimately show ?thesis by (simp add: same_pending_def)
qed

lemma proofs_document_binds:
  assumes "norm_json (proofs_document a) = norm_json (proofs_document b)"
  shows "mset a = mset b"
proof (rule sorted_items_inj [where f = proof_canonical and k = op_object_key, OF proof_canonical_inj])
  note field = norm_json_obj_lookup [OF assms [unfolded proofs_document_def]]
  show "norm_json (JArr (map proof_canonical (sort_key op_object_key a))) =
      norm_json (JArr (map proof_canonical (sort_key op_object_key b)))"
    using field [of "''results''"] by simp
qed

interpretation pending_addr: payload_addressed pending_document same_pending
  by unfold_locales (rule pending_document_binds)

interpretation proofs_addr: payload_addressed proofs_document "\<lambda>a b. mset a = mset b"
  by unfold_locales (rule proofs_document_binds)

lemmas pending_sdn_hash_binds = pending_addr.digest_binds [folded pending_sdn_hash_def]
lemmas ownership_provenance_digest_binds = proofs_addr.digest_binds [folded ownership_provenance_digest_def]

section \<open>The gate of an authorization and of an activation\<close>

text \<open>What the differential gate demands of one object, given the proofs.\<close>

definition effect_stated :: "proof_set \<Rightarrow> pending_sdn_object \<Rightarrow> bool" where
  "effect_stated ps obj \<longleftrightarrow> po_action obj \<noteq> ACTION_AMBIGUOUS \<and>
     (po_action obj = ACTION_CREATE \<longrightarrow>
        (\<exists>p. map_of (proofs_by_key ps) (pending_key obj) = Some p \<and> op_pre_stage1_absence_evidence_digest p \<noteq> [])) \<and>
     (po_action obj = ACTION_DELETE \<longrightarrow> po_active obj \<noteq> [])"

lemma object_refusals_Nil: "object_refusals ps obj = [] \<longleftrightarrow> effect_stated ps obj"
  by (auto simp: object_refusals_def effect_stated_def split: option.splits)

lemma sdn_differential_refusals_Nil:
  "sdn_differential_refusals doc ps = [] \<longleftrightarrow>
     (\<forall>obj \<in> set (pd_objects doc). effect_stated ps obj) \<and> distinct (document_keys doc)"
  by (simp add: sdn_differential_refusals_def object_refusals_Nil not_unique_reasons_Nil_iff)

lemma proofs_by_key_lookup:
  "distinct (proof_keys ps) \<Longrightarrow>
   map_of (proofs_by_key ps) k = Some p \<longleftrightarrow> p \<in> set ps \<and> op_object_key p = k"
  unfolding proofs_by_key_def proof_keys_def
  by (subst map_of_dict_of_distinct) (auto simp: comp_def)

definition exclusively_owned :: "pending_sdn_document \<Rightarrow> proof_set \<Rightarrow> operation_binding \<Rightarrow> bool" where
  "exclusively_owned doc ps operation \<longleftrightarrow> (\<forall>obj \<in> set (pd_objects doc).
     \<exists>p. map_of (proofs_by_key ps) (pending_key obj) = Some p \<and> owned_by operation obj p)"

lemma derived_current_iff:
  "derived_ownership ps operation obj = OS_current_operation \<longleftrightarrow>
   (\<exists>p. map_of (proofs_by_key ps) (pending_key obj) = Some p \<and> owned_by operation obj p)"
  by (auto simp: derived_ownership_def classify_current_iff split: option.splits)

lemma disclosure_exclusive_owned:
  "ds_exclusive_to_current_operation (derive_disclosure doc ps operation) \<longleftrightarrow> exclusively_owned doc ps operation"
  by (simp add: disclosure_exclusive_iff exclusively_owned_def derived_current_iff)

lemma exclusive_complete:
  "exclusively_owned doc ps operation \<Longrightarrow> ds_classification_complete (derive_disclosure doc ps operation)"
  unfolding exclusively_owned_def derived_current_iff [symmetric] disclosure_complete_iff by fastforce

lemma create_needs_absence:
  "owned_by operation obj p \<Longrightarrow> po_action obj = ACTION_CREATE \<Longrightarrow> op_pre_stage1_absence_evidence_digest p \<noteq> []"
  by (simp add: owned_by_def ACTION_CREATE_def)

definition issuable :: "pending_sdn_document \<Rightarrow> proof_set \<Rightarrow> operation_binding \<Rightarrow> bool" where
  "issuable doc ps operation \<longleftrightarrow>
     signature_verified doc \<and> visibility_complete doc \<and> distinct (document_keys doc) \<and> distinct (proof_keys ps) \<and>
     set (document_keys doc) = set (proof_keys ps) \<and> pd_objects doc \<noteq> [] \<and>
     \<not> binding_blank (ob_target_identity operation) \<and> \<not> binding_blank (ob_cluster_fingerprint operation) \<and>
     \<not> binding_blank (ob_range_identity operation) \<and> \<not> binding_blank (ob_operation_identity operation) \<and>
     pd_target_identity doc = ob_target_identity operation \<and>
     pd_cluster_fingerprint doc = ob_cluster_fingerprint operation \<and>
     (\<forall>obj \<in> set (pd_objects doc). effect_stated ps obj) \<and> exclusively_owned doc ps operation"

definition authorization_for ::
    "pending_sdn_document \<Rightarrow> proof_set \<Rightarrow> operation_binding \<Rightarrow> datetime \<Rightarrow> string \<Rightarrow> int \<Rightarrow> activation_authorization" where
  "authorization_for doc ps operation authorized_at authorized_by observation_ttl = \<lparr>
     aa_pending_sdn_hash = pending_sdn_hash doc,
     aa_ownership_provenance_digest = ownership_provenance_digest ps,
     aa_disclosure = derive_disclosure doc ps operation,
     aa_authorized_at = authorized_at,
     aa_authorized_by = authorized_by,
     aa_target_identity = ob_target_identity operation,
     aa_cluster_fingerprint = ob_cluster_fingerprint operation,
     aa_range_identity = ob_range_identity operation,
     aa_operation_identity = ob_operation_identity operation,
     aa_operation_generation = ob_operation_generation operation,
     aa_worker_installation_id = pd_worker_installation_id doc,
     aa_worker_release_fingerprint = pd_worker_release_fingerprint doc,
     aa_observation_ttl = observation_ttl\<rparr>"

lemma disclosure_digests [simp]:
  "ds_pending_sdn_hash (derive_disclosure doc ps operation) = pending_sdn_hash doc"
  "ds_ownership_provenance_digest (derive_disclosure doc ps operation) = ownership_provenance_digest ps"
  by (simp_all add: derive_disclosure_def Let_def)

lemma issue_Inr_iff:
  "issue_activation_authorization doc ps operation authorized_at authorized_by ttl = Inr auth \<longleftrightarrow>
   issuable doc ps operation \<and> auth = authorization_for doc ps operation authorized_at authorized_by ttl"
proof (cases "sdn_differential_refusals doc ps = []")
  case True
  then show ?thesis
    using exclusive_complete [of doc ps operation] True [unfolded sdn_differential_refusals_Nil]
    by (auto simp: issue_activation_authorization_def issuable_def authorization_for_def Let_def
        disclosure_exclusive_owned)
next
  case False
  then obtain r rs where "sdn_differential_refusals doc ps = r # rs" by (auto simp: neq_Nil_conv)
  then show ?thesis
    using False [unfolded sdn_differential_refusals_Nil]
    by (auto simp: issue_activation_authorization_def issuable_def)
qed

definition activatable ::
    "string \<Rightarrow> activation_authorization \<Rightarrow> pending_sdn_document \<Rightarrow> proof_set \<Rightarrow> operation_binding \<Rightarrow> datetime \<Rightarrow> bool" where
  "activatable stage auth doc ps operation now \<longleftrightarrow>
     stage = STAGE_ACTIVATION_AUTHORIZED \<and> signature_verified doc \<and> visibility_complete doc \<and>
     distinct (document_keys doc) \<and> set (document_keys doc) = set (proof_keys ps) \<and>
     pending_sdn_hash doc = aa_pending_sdn_hash auth \<and>
     ownership_provenance_digest ps = aa_ownership_provenance_digest auth \<and>
     (\<forall>obj \<in> set (pd_objects doc). effect_stated ps obj) \<and> exclusively_owned doc ps operation \<and>
     dict_eq (ds_ownership_counts (derive_disclosure doc ps operation)) (ds_ownership_counts (aa_disclosure auth)) \<and>
     (utc_offset now = None \<longleftrightarrow> utc_offset (pd_observed_at doc) = None) \<and>
     0 \<le> instant now - instant (pd_observed_at doc) \<and>
     instant now - instant (pd_observed_at doc) \<le> aa_observation_ttl auth \<and>
     aa_target_identity auth = ob_target_identity operation \<and>
     aa_operation_identity auth = ob_operation_identity operation \<and>
     aa_operation_generation auth = ob_operation_generation operation"

lemma freshness_reasons_Nil: "freshness_reasons age ttl = [] \<longleftrightarrow> 0 \<le> age \<and> age \<le> ttl"
  by (simp add: freshness_reasons_def not_less)

lemma if_Nil_iff: "(if b then x # xs else []) = [] \<longleftrightarrow> \<not> b"
  by simp

lemma activation_refusals_missing:
  "authorization = None \<or> document = None \<or> proofs = None \<Longrightarrow>
   activation_refusals stage authorization document proofs operation now = Inr (from_keys (
     (if stage \<noteq> STAGE_ACTIVATION_AUTHORIZED then [''sdn_activation_wrong_stage:'' @ stage] else []) @
     (if authorization = None then [''sdn_activation_unauthorized''] else []) @
     (if document = None \<or> proofs = None then [''sdn_activation_no_pending_observation''] else [])))"
  by (cases authorization; cases document; cases proofs) (simp_all add: activation_refusals_def)

lemma activation_reasons_Nil:
  "activation_reasons stage auth doc ps operation (instant now - instant (pd_observed_at doc)) = [] \<and>
   (utc_offset now = None \<longleftrightarrow> utc_offset (pd_observed_at doc) = None) \<longleftrightarrow> activatable stage auth doc ps operation now"
  using exclusive_complete [of doc ps operation]
  by (simp only: activation_reasons_def activatable_def Let_def append_is_Nil_conv if_Nil_iff
      sdn_differential_refusals_Nil disclosure_exclusive_owned freshness_reasons_Nil) blast

lemma activation_refusals_present:
  "activation_refusals stage (Some auth) (Some doc) (Some ps) operation now = Inr reasons \<longleftrightarrow>
   (utc_offset now = None \<longleftrightarrow> utc_offset (pd_observed_at doc) = None) \<and>
   reasons = from_keys (activation_reasons stage auth doc ps operation (instant now - instant (pd_observed_at doc)))"
  by (auto simp: activation_refusals_def datetime_sub_def)

lemma activation_accepted_iff:
  "activation_refusals stage authorization document proofs operation now = Inr [] \<longleftrightarrow>
   (\<exists>auth doc ps. authorization = Some auth \<and> document = Some doc \<and> proofs = Some ps \<and>
      activatable stage auth doc ps operation now)"
proof (cases "authorization = None \<or> document = None \<or> proofs = None")
  case True
  from activation_refusals_missing [OF this] True show ?thesis by auto
next
  case False
  then obtain auth doc ps where "authorization = Some auth" "document = Some doc" "proofs = Some ps" by auto
  then show ?thesis using activation_reasons_Nil [of stage auth doc ps operation now]
    by (auto simp: activation_refusals_present eq_commute [of "[]"])
qed

text \<open>An accepted activation sees the authorised pending state, evidence and operation again.\<close>

definition same_operation :: "operation_binding \<Rightarrow> operation_binding \<Rightarrow> bool" where
  "same_operation a b \<longleftrightarrow> ob_target_identity a = ob_target_identity b \<and>
     ob_cluster_fingerprint a = ob_cluster_fingerprint b \<and> ob_range_identity a = ob_range_identity b \<and>
     ob_operation_identity a = ob_operation_identity b \<and> ob_operation_generation a = ob_operation_generation b \<and>
     ob_stage1_workspace_hash a = ob_stage1_workspace_hash b \<and> ob_stage1_plan_hash a = ob_stage1_plan_hash b"

lemma bound_to_same: "bound_to a p \<Longrightarrow> bound_to b p \<Longrightarrow> same_operation a b"
  by (simp add: bound_to_def same_operation_def)

lemma exclusively_owned_proof:
  assumes "exclusively_owned doc ps operation" and "distinct (proof_keys ps)" and "obj \<in> set (pd_objects doc)"
  obtains p where "p \<in> set ps" and "op_object_key p = pending_key obj" and "owned_by operation obj p"
  using assms by (auto simp: exclusively_owned_def proofs_by_key_lookup)

lemma activation_same_state:
  assumes issued: "issue_activation_authorization doc0 ps0 op0 at by ttl = Inr auth"
    and accepted: "activation_refusals stage (Some auth) (Some doc) (Some ps) operation now = Inr []"
    and no_clash: "\<not> pending_addr.clashes doc doc0" "\<not> proofs_addr.clashes ps ps0"
  shows "same_pending doc doc0 \<and> mset ps = mset ps0 \<and> same_operation operation op0"
proof -
  from issued have iss: "issuable doc0 ps0 op0" and auth: "auth = authorization_for doc0 ps0 op0 at by ttl"
    by (simp_all add: issue_Inr_iff)
  from accepted have act: "activatable stage auth doc ps operation now" by (simp add: activation_accepted_iff)
  have "pending_sdn_hash doc = pending_sdn_hash doc0"
    using act auth by (simp add: activatable_def authorization_for_def)
  then have same: "same_pending doc doc0" using pending_sdn_hash_binds no_clash(1) by blast
  have "ownership_provenance_digest ps = ownership_provenance_digest ps0"
    using act auth by (simp add: activatable_def authorization_for_def)
  then have ps: "mset ps = mset ps0" using ownership_provenance_digest_binds no_clash(2) by blast
  have dist: "distinct (proof_keys ps)"
    using iss ps unfolding issuable_def proof_keys_def by (metis mset_eq_imp_distinct_iff mset_map)
  obtain obj where obj0: "obj \<in> set (pd_objects doc0)" using iss by (metis issuable_def list.set_intros(1) neq_Nil_conv)
  then have obj: "obj \<in> set (pd_objects doc)" using same by (metis same_pending_def mset_eq_setD)
  obtain p0 where p0: "p0 \<in> set ps0" "op_object_key p0 = pending_key obj" "owned_by op0 obj p0"
    using exclusively_owned_proof [of doc0 ps0 op0 obj] iss obj0 by (auto simp: issuable_def)
  obtain p where p: "p \<in> set ps" "op_object_key p = pending_key obj" "owned_by operation obj p"
    using exclusively_owned_proof [of doc ps operation obj] act dist obj by (auto simp: activatable_def)
  have "p0 \<in> set ps" using p0(1) ps by (metis mset_eq_setD)
  with p p0 dist have "p0 = p" unfolding proof_keys_def by (metis distinct_map inj_onD)
  with p0 p have "same_operation operation op0" by (metis owned_by_def bound_to_same)
  with same ps show ?thesis by blast
qed

section \<open>The order of the stages\<close>

fun stage_after :: "nat \<Rightarrow> string \<Rightarrow> sdn_error + string" where
  "stage_after 0 s = Inr s"
| "stage_after (Suc n) s = bindE (next_stage s) (stage_after n)"

lemma next_stage_simps [simp]:
  "next_stage ''prepared'' = Inr ''pending_observed''"
  "next_stage ''pending_observed'' = Inr ''activation_authorized''"
  "next_stage ''activation_authorized'' = Inr ''activated''"
  "next_stage ''activated'' = Inr ''verified''"
  "next_stage ''verified'' = Inl (Sdn_refused ''sdn_activation_already_verified'')"
  by (simp_all add: next_stage_def STAGE_ORDER_def)

lemma stage_after_prepared:
  "stage_after n ''prepared'' = (if n < 5 then Inr (STAGE_ORDER ! n)
     else Inl (Sdn_refused ''sdn_activation_already_verified''))"
proof -
  have "n \<in> {0, 1, 2, 3, 4} \<or> (\<exists>m. n = m + 5)" by (cases "n < 5") (auto dest: le_Suc_ex simp: not_less)
  moreover have "stage_after (m + 5) ''prepared'' = Inl (Sdn_refused ''sdn_activation_already_verified'')" for m
    by (simp add: eval_nat_numeral)
  ultimately show ?thesis by (auto simp: STAGE_ORDER_def eval_nat_numeral)
qed

end
