(* ===== verification/Sdn_Properties.thy ===== *)
theory Sdn_Properties
  imports Sdn_Activation
begin

text \<open>
  Properties of the staged SDN activation: what an authorization and an accepted activation prove
  about the pending state, the classification of ownership and of actions, the disclosure an
  operator reads, and the order of the stages.
\<close>

section \<open>An example activation\<close>

definition ex_object :: pending_sdn_object where
  "ex_object = \<lparr>po_family = ''vnets'', po_object_id = ''v1'', po_action = ''create'', po_active = '''', po_pending = ''p'',
     po_source_endpoint = '''', po_observation_state = '''', po_raw_result_digest = '''', po_target_state = ''new'',
     po_ambiguity_reason = '''', po_active_present = False, po_pending_present = True\<rparr>"

definition ex_document :: pending_sdn_document where
  "ex_document = \<lparr>pd_observed_at = \<lparr>wall_us = 0, utc_offset = None\<rparr>, pd_target_identity = ''pve'',
     pd_cluster_fingerprint = ''fp'', pd_observation_identity = ''o1'', pd_worker_installation_id = ''w'',
     pd_worker_release_fingerprint = ''rel'', pd_objects = [ex_object],
     pd_authentication = AU_issued ''facts'' ''observed'', pd_unreadable_families = []\<rparr>"

definition ex_operation :: operation_binding where
  "ex_operation = \<lparr>ob_target_identity = ''pve'', ob_cluster_fingerprint = ''fp'', ob_range_identity = ''r1'',
     ob_operation_identity = ''op'', ob_operation_generation = 3, ob_stage1_workspace_hash = ''ws'',
     ob_stage1_plan_hash = ''plan'', ob_stage1_authorization_id = ''auth'', ob_stage1_execution_receipt = ''receipt''\<rparr>"

definition ex_proof :: ownership_proof where
  "ex_proof = \<lparr>op_object_key = (''vnets'', ''v1''), op_ownership = OS_unclassified, op_classification_reason = '''',
     op_range_identity = ''r1'', op_operation_identity = ''op'', op_operation_generation = 3,
     op_stage1_desired_object_digest = '''', op_stage1_workspace_hash = ''ws'', op_stage1_plan_hash = ''plan'',
     op_stage1_execution_receipt_digest = ''receipt'', op_pre_stage1_absence_evidence_digest = ''absent'',
     op_durable_ownership_provenance_digest = '''', op_target_identity = ''pve'', op_cluster_fingerprint = ''fp'',
     op_proof_complete = True\<rparr>"

definition ex_auth :: activation_authorization where
  "ex_auth = authorization_for ex_document [ex_proof] ex_operation \<lparr>wall_us = 1, utc_offset = None\<rparr> ''operator'' 10"

lemma ex_lookup: "map_of (proofs_by_key [ex_proof]) (pending_key ex_object) = Some ex_proof"
  by (simp add: proofs_by_key_def dict_of_def pending_key_def ex_object_def ex_proof_def)

lemma ex_owned: "owned_by ex_operation ex_object ex_proof"
  by (simp add: owned_by_def bound_to_def ex_operation_def ex_object_def ex_proof_def)

lemma ex_exclusive: "exclusively_owned ex_document [ex_proof] ex_operation"
  using ex_lookup ex_owned by (simp add: exclusively_owned_def ex_document_def)

lemma ex_effect: "\<forall>obj \<in> set (pd_objects ex_document). effect_stated [ex_proof] obj"
  using ex_lookup by (simp add: effect_stated_def ex_document_def sdn_action_defs)
    (simp add: ex_object_def ex_proof_def)

lemma ex_keys: "document_keys ex_document = [(''vnets'', ''v1'')]" "proof_keys [ex_proof] = [(''vnets'', ''v1'')]"
  by (simp_all add: document_keys_def proof_keys_def ex_document_def pending_key_def ex_object_def ex_proof_def)

lemma ex_signed: "signature_verified ex_document" "visibility_complete ex_document"
  by (simp_all add: signature_verified_def visibility_complete_def authenticated_facts_hash_def ex_document_def)

lemma ex_issuable: "issuable ex_document [ex_proof] ex_operation"
proof -
  have "\<not> binding_blank (ob_target_identity ex_operation)" "\<not> binding_blank (ob_cluster_fingerprint ex_operation)"
      "\<not> binding_blank (ob_range_identity ex_operation)" "\<not> binding_blank (ob_operation_identity ex_operation)"
    by code_simp+
  then show ?thesis using ex_exclusive ex_effect ex_keys ex_signed
    by (simp add: issuable_def) (simp add: ex_document_def ex_operation_def)
qed

lemma ex_issued: "issue_activation_authorization ex_document [ex_proof] ex_operation
    \<lparr>wall_us = 1, utc_offset = None\<rparr> ''operator'' 10 = Inr ex_auth"
  using ex_issuable by (simp add: issue_Inr_iff ex_auth_def)

lemma ex_activated: "activation_refusals STAGE_ACTIVATION_AUTHORIZED (Some ex_auth) (Some ex_document) (Some [ex_proof])
    ex_operation \<lparr>wall_us = 5, utc_offset = None\<rparr> = Inr []"
proof -
  have "dict_eq d d" for d :: "(string, nat) dict" by (simp add: dict_eq_def list_all_iff)
  then show ?thesis using ex_exclusive ex_effect ex_keys ex_signed
    by (simp add: activation_accepted_iff activatable_def ex_auth_def authorization_for_def)
      (simp add: ex_document_def ex_operation_def instant_def)
qed

section \<open>Authorization and activation\<close>

text \<open>
  An authorization exists only for an exclusively owned pending set. An authorization is issued
  exactly when the document is signed with complete visibility; documents and proofs are duplicate
  free and match one to one; the pending set is not empty; the operation's bindings are not blank
  and name the document's target and cluster; and every object has a stated effect and a complete
  proof that binds it to this very operation. It then carries the two recomputed digests.
\<close>

theorem authorization_issued_exactly:
  "issue_activation_authorization doc ps operation authorized_at authorized_by ttl = Inr auth \<longleftrightarrow>
   issuable doc ps operation \<and> auth = authorization_for doc ps operation authorized_at authorized_by ttl"
  by (rule issue_Inr_iff)

text \<open>
  C3: activation is accepted only for what was authorised. If an authorization was issued and the
  activation gate later returns no reason, then the gate was run in the authorised stage, on a
  document and proofs with the same contents as the authorised ones, under an operation with the
  same target, cluster, range, identity, generation and Stage 1 hashes, on an observation neither
  from the future nor older than the authorised bound, with every pending object owned by the
  operation; unless SHA-256 collides on the pending documents or on the proof sets.
\<close>

theorem activation_only_as_authorised:
  assumes "issue_activation_authorization doc0 ps0 op0 at by ttl = Inr auth"
    and "activation_refusals stage (Some auth) (Some doc) (Some ps) operation now = Inr []"
    and "\<not> sha_collision (canonical_json (pending_document doc)) (canonical_json (pending_document doc0))"
    and "\<not> sha_collision (canonical_json (proofs_document ps)) (canonical_json (proofs_document ps0))"
  shows "stage = STAGE_ACTIVATION_AUTHORIZED \<and> same_pending doc doc0 \<and> mset ps = mset ps0 \<and>
    same_operation operation op0 \<and> exclusively_owned doc ps operation \<and>
    0 \<le> instant now - instant (pd_observed_at doc) \<and> instant now - instant (pd_observed_at doc) \<le> ttl"
proof -
  have "aa_observation_ttl auth = ttl" using assms(1) by (simp add: issue_Inr_iff authorization_for_def)
  moreover have "activatable stage auth doc ps operation now" using assms(2) by (simp add: activation_accepted_iff)
  ultimately show ?thesis
    using activation_same_state [OF assms(1,2)] assms(3,4)
    by (simp add: pending_addr.clashes_def proofs_addr.clashes_def activatable_def)
qed

theorem activation_only_as_authorised_witness:
  "same_operation ex_operation ex_operation \<and> exclusively_owned ex_document [ex_proof] ex_operation"
  using activation_only_as_authorised [OF ex_issued ex_activated] by (simp add: sha_collision_def)

text \<open>
  The activation gate reports every reason. A pending object that is not provably the
  operation's own, a changed pending state, changed evidence, an expired observation and a wrong
  stage each appear in the returned list, whatever else is wrong; the list has no duplicates.
\<close>

theorem activation_reports_all_reasons:
  assumes "activation_refusals stage (Some auth) (Some doc) (Some ps) operation now = Inr reasons"
  shows "distinct reasons \<and>
    (stage \<noteq> STAGE_ACTIVATION_AUTHORIZED \<longrightarrow> ''sdn_activation_wrong_stage:'' @ stage \<in> set reasons) \<and>
    (\<not> exclusively_owned doc ps operation \<longrightarrow> ''cluster_pending_sdn_not_exclusive_to_operation:'' @
       counts_detail (ds_ownership_counts (derive_disclosure doc ps operation)) \<in> set reasons) \<and>
    (pending_sdn_hash doc \<noteq> aa_pending_sdn_hash auth \<longrightarrow> ''sdn_activation_pending_state_changed'' \<in> set reasons) \<and>
    (ownership_provenance_digest ps \<noteq> aa_ownership_provenance_digest auth \<longrightarrow>
       ''sdn_activation_ownership_provenance_changed'' \<in> set reasons) \<and>
    (aa_observation_ttl auth < instant now - instant (pd_observed_at doc) \<and> 0 \<le> instant now - instant (pd_observed_at doc) \<longrightarrow>
       ''sdn_activation_observation_expired'' \<in> set reasons)"
proof -
  have "reasons = from_keys (activation_reasons stage auth doc ps operation (instant now - instant (pd_observed_at doc)))"
    using assms by (simp add: activation_refusals_present)
  then show ?thesis
    by (simp add: activation_reasons_def Let_def disclosure_exclusive_owned freshness_reasons_def)
qed

theorem activation_reports_all_reasons_witness:
  "\<exists>reasons. activation_refusals ''prepared'' (Some ex_auth) (Some ex_document) (Some []) ex_operation
      \<lparr>wall_us = 50, utc_offset = None\<rparr> = Inr reasons \<and>
    ''sdn_activation_wrong_stage:prepared'' \<in> set reasons \<and> ''sdn_activation_observation_expired'' \<in> set reasons"
proof -
  obtain reasons where r: "activation_refusals ''prepared'' (Some ex_auth) (Some ex_document) (Some []) ex_operation
      \<lparr>wall_us = 50, utc_offset = None\<rparr> = Inr reasons"
    by (simp add: activation_refusals_present) (simp add: ex_document_def)
  from activation_reports_all_reasons [OF r] r show ?thesis
    by (auto simp: STAGE_ACTIVATION_AUTHORIZED_def ex_auth_def authorization_for_def ex_document_def instant_def)
qed

section \<open>Classification and disclosure\<close>

text \<open>
  Ownership is derived from evidence. An object is classified as the operation's own exactly
  when its proof is complete, does not claim a foreign owner, repeats every non-blank binding of
  the operation, names an execution receipt, and carries evidence of absence before Stage 1 for a
  creation or durable provenance for anything else; the submitted classification never makes an
  object the operation's own.
\<close>

theorem ownership_needs_evidence:
  "classify_ownership obj p operation = OS_current_operation \<longleftrightarrow>
     bound_to operation p \<and> op_ownership p \<noteq> OS_foreign \<and>
     (if po_action obj = ''create'' then op_pre_stage1_absence_evidence_digest p \<noteq> []
      else op_durable_ownership_provenance_digest p \<noteq> [])"
  by (simp add: classify_current_iff owned_by_def)

text \<open>
  The disclosure adds up. The five ownership counts are the numbers of objects with each derived
  classification and add up to the total; the set is declared exclusive exactly when every object is
  the operation's own; the family counts add up to the total as well; and the manifest lists every
  object once, in order.
\<close>

theorem disclosure_adds_up:
  "count_of (ds_ownership_counts (derive_disclosure doc ps operation)) ''total_pending'' = length (pd_objects doc) \<and>
    ((name, m) \<in> set OWNERSHIP_FIELDS \<longrightarrow> count_of (ds_ownership_counts (derive_disclosure doc ps operation)) name =
       length (filter (\<lambda>obj. derived_ownership ps operation obj = m) (pd_objects doc))) \<and>
    (\<Sum>name\<leftarrow>map fst OWNERSHIP_FIELDS. count_of (ds_ownership_counts (derive_disclosure doc ps operation)) name) = length (pd_objects doc) \<and>
    (ds_exclusive_to_current_operation (derive_disclosure doc ps operation) \<longleftrightarrow> exclusively_owned doc ps operation) \<and>
    map_of (ds_family_counts (derive_disclosure doc ps operation)) f = (if f \<in> po_family ` set (pd_objects doc)
       then Some (length (filter (\<lambda>obj. po_family obj = f) (pd_objects doc))) else None) \<and>
    length (object_manifest doc ps operation) = length (pd_objects doc)"
proof -
  let ?xs = "map (derived_ownership ps operation) (pd_objects doc)"
  let ?d = "derive_disclosure doc ps operation"
  have other: "count_of (ds_ownership_counts ?d) name = count_list ?xs m" if "(name, m) \<in> set OWNERSHIP_FIELDS" for name m
  proof -
    from that have "name \<noteq> ''total_pending''" by (auto simp: OWNERSHIP_FIELDS_def)
    then show ?thesis using count_of_ownership [OF that, of ?xs]
      by (simp add: derive_disclosure_def Let_def count_of_def)
  qed
  have "(\<Sum>name\<leftarrow>map fst OWNERSHIP_FIELDS. count_of (ds_ownership_counts ?d) name) = length (pd_objects doc)"
    using ownership_total [of ?xs] other [of "''current_operation''"] other [of "''other_secp_operation''"]
      other [of "''foreign''"] other [of "''unknown''"] other [of "''unclassified''"]
    by (simp add: OWNERSHIP_FIELDS_def)
  moreover have "map_of (ds_family_counts ?d) f = (if f \<in> po_family ` set (pd_objects doc)
       then Some (length (filter (\<lambda>obj. po_family obj = f) (pd_objects doc))) else None)"
    by (simp add: derive_disclosure_def Let_def map_of_count_keys count_list_map)
  moreover have "count_of (ds_ownership_counts ?d) ''total_pending'' = length (pd_objects doc)"
    by (simp add: derive_disclosure_def Let_def count_of_def)
  ultimately show ?thesis using other
    by (simp add: count_list_map disclosure_exclusive_owned object_manifest_def)
qed

theorem disclosure_adds_up_witness:
  "count_of (ds_ownership_counts (derive_disclosure ex_document [ex_proof] ex_operation)) ''current_operation'' = 1"
  using disclosure_adds_up [of ex_document "[ex_proof]" ex_operation "''current_operation''" OS_current_operation "[]"]
    derived_current_iff [of "[ex_proof]" ex_operation ex_object] ex_lookup ex_owned
  by (simp add: OWNERSHIP_FIELDS_def) (simp add: ex_document_def)

text \<open>
  The differential drops nothing and never deletes the unobserved. Every mapping row of every
  scope gives exactly one differential; a derived delete carries a digest of the active view it
  removes; an object derived as unchanged has equal active and pending representations, up to key
  order, unless SHA-256 collides; and every row without an identifier is ambiguous.
\<close>

theorem differential_faithful:
  assumes "distinct (dict_keys families)"
  shows "length (derive_differentials families) = observed_rows families \<and>
    (\<forall>family row. let d = derive_object_differential family row;
         active = row_view ''active'' row; pending = row_view ''observed'' row in
       dd_action d \<in> set SDN_ACTIONS \<and>
       (dd_action d = ACTION_DELETE \<longrightarrow> dd_active_digest d \<noteq> []) \<and>
       (dd_action d = ACTION_UNCHANGED \<longrightarrow>
          norm_json (canonical_value (JObj active)) = norm_json (canonical_value (JObj pending)) \<or>
          sha_collision (canonical_json (view_document active)) (canonical_json (view_document pending))) \<and>
       (dd_object_id d = [] \<longrightarrow> dd_action d = ACTION_AMBIGUOUS))"
proof (intro conjI allI)
  show "length (derive_differentials families) = observed_rows families"
    by (rule length_derive_differentials [OF assms])
  fix family row
  let ?d = "derive_object_differential family row"
  have unchanged: "dd_action ?d = ACTION_UNCHANGED \<Longrightarrow> meaningful (row_view ''active'' row) \<and> meaningful (row_view ''observed'' row) \<and>
      view_digest (row_view ''active'' row) = view_digest (row_view ''observed'' row)"
    by (auto simp: derived_action_table sdn_action_defs split: if_splits)
  have closed: "dd_action ?d \<in> set SDN_ACTIONS" by (simp add: SDN_ACTIONS_def derived_action_table)
  have unnamed: "dd_object_id ?d = [] \<Longrightarrow> dd_action ?d = ACTION_AMBIGUOUS" by (simp add: derived_action_table)
  show "let d = ?d; active = row_view ''active'' row; pending = row_view ''observed'' row in
       dd_action d \<in> set SDN_ACTIONS \<and>
       (dd_action d = ACTION_DELETE \<longrightarrow> dd_active_digest d \<noteq> []) \<and>
       (dd_action d = ACTION_UNCHANGED \<longrightarrow>
          norm_json (canonical_value (JObj active)) = norm_json (canonical_value (JObj pending)) \<or>
          sha_collision (canonical_json (view_document active)) (canonical_json (view_document pending))) \<and>
       (dd_object_id d = [] \<longrightarrow> dd_action d = ACTION_AMBIGUOUS)"
    unfolding Let_def
    using closed derived_delete_has_evidence [of family row] unnamed unchanged
      same_view_digest [of "row_view ''active'' row" "row_view ''observed'' row"] by blast
qed

theorem differential_faithful_witness:
  "length (derive_differentials [(''vnets@n1'', JArr [JObj [(''object_id'', JStr ''v1'')], JNull])]) = 1"
  using differential_faithful [of "[(''vnets@n1'', JArr [JObj [(''object_id'', JStr ''v1'')], JNull])]"]
  by (simp add: observed_rows_def mapping_rows_def)

text \<open>
  Guests wait for the last stage. From \<open>prepared\<close>, the stages are reached one after the other in
  the declared order; guests may deploy after exactly four transitions, and a fifth is refused.
\<close>

theorem guests_wait_for_verification:
  "stage_after n ''prepared'' = (if n < 5 then Inr (STAGE_ORDER ! n)
     else Inl (Sdn_refused ''sdn_activation_already_verified'')) \<and>
   (case stage_after n ''prepared'' of Inl e \<Rightarrow> True | Inr stage \<Rightarrow> guests_may_deploy stage = (n = 4))"
proof -
  have "n \<in> {0, 1, 2, 3, 4} \<or> \<not> n < 5" by auto
  then show ?thesis
    by (auto simp: stage_after_prepared guests_may_deploy_def STAGE_VERIFIED_def STAGE_ORDER_def)
qed

end
