(* ===== verification/Proxmox_Model.thy ===== *)
theory Proxmox_Model
  imports Ipam_Invariants
begin

text \<open>
  The Proxmox desired-state model (\<open>apps/api/secp_api/range_providers/proxmox_model.py\<close>): target
  observations, network, guest and firewall specifications with the checks of their
  \<open>__post_init__\<close>, the ownership test on live tags, and the guard of the management plane. A
  specification object exists only when its checks pass: \<open>X_post_init\<close> is the check of class
  \<open>X\<close>. \<open>ProxmoxModelError\<close> is \<open>Model_error\<close>, the \<open>ValueError\<close> of \<open>ipaddress\<close> is
  \<open>Model_value_error\<close>; an exception of the allocation ledger is passed on.
\<close>

datatype model_error = Model_error | Model_value_error | Model_alloc alloc_error

definition require :: "bool \<Rightarrow> model_error + unit" where
  "require b = (if b then Inr () else Inl Model_error)"

lemma require_Inr [simp]: "require b = Inr u \<longleftrightarrow> b"
  by (simp add: require_def)

definition parsed :: "'a option \<Rightarrow> model_error + 'a" where
  "parsed v = (case v of None \<Rightarrow> Inl Model_value_error | Some x \<Rightarrow> Inr x)"

lemma parsed_Inr [simp]: "parsed v = Inr x \<longleftrightarrow> v = Some x"
  by (cases v) (simp_all add: parsed_def)

fun mapE :: "('a \<Rightarrow> 'e + 'b) \<Rightarrow> 'a list \<Rightarrow> 'e + 'b list" where
  "mapE f [] = Inr []"
| "mapE f (x # xs) = bindE (f x) (\<lambda>y. bindE (mapE f xs) (\<lambda>ys. Inr (y # ys)))"

lemma mapE_Inr: "mapE f xs = Inr ys \<longleftrightarrow> list_all2 (\<lambda>x y. f x = Inr y) xs ys"
  by (induction xs arbitrary: ys) (auto simp: bindE_Inr list_all2_Cons1)

lemma mapE_mem: "mapE f xs = Inr ys \<Longrightarrow> x \<in> set xs \<Longrightarrow> \<exists>y. f x = Inr y \<and> y \<in> set ys"
  by (induction f xs arbitrary: ys rule: mapE.induct) (auto simp: bindE_Inr)

section \<open>Vocabulary\<close>

datatype guest_kind_t = GK_qemu | GK_lxc
datatype clone_strategy = CL_full | CL_linked
datatype segment_role = SR_scoring | SR_attacker | SR_vulnerable | SR_sensor
datatype firewall_verdict = FV_accept | FV_drop | FV_reject
datatype firewall_direction = FD_inbound | FD_outbound
datatype object_provenance = OP_secp_owned | OP_secp_foreign_scope | OP_untagged | OP_unreadable

fun segment_role_value :: "segment_role \<Rightarrow> string" where
  "segment_role_value SR_scoring = ''scoring''"
| "segment_role_value SR_attacker = ''attacker''"
| "segment_role_value SR_vulnerable = ''vulnerable''"
| "segment_role_value SR_sensor = ''sensor''"

text \<open>A pattern's final \<open>$\<close> also matches before a trailing newline.\<close>

definition at_end :: "(string \<Rightarrow> bool) \<Rightarrow> string \<Rightarrow> bool" where
  "at_end P s \<longleftrightarrow> P s \<or> s \<noteq> [] \<and> (of_char (last s) :: nat) = 10 \<and> P (butlast s)"

definition is_lower :: "char \<Rightarrow> bool" where
  "is_lower c \<longleftrightarrow> 97 \<le> (of_char c :: nat) \<and> (of_char c :: nat) \<le> 122"

definition is_upper :: "char \<Rightarrow> bool" where
  "is_upper c \<longleftrightarrow> 65 \<le> (of_char c :: nat) \<and> (of_char c :: nat) \<le> 90"

definition SDN_NAME_RE :: "string \<Rightarrow> bool" where
  "SDN_NAME_RE = at_end (\<lambda>s. s \<noteq> [] \<and> is_lower (hd s) \<and> length s \<le> 8 \<and> list_all (\<lambda>c. is_lower c \<or> is_digit c) (tl s))"

definition GUEST_NAME_RE :: "string \<Rightarrow> bool" where
  "GUEST_NAME_RE = at_end (\<lambda>s. s \<noteq> [] \<and> is_lower (hd s) \<and> length s \<le> 63 \<and>
     list_all (\<lambda>c. is_lower c \<or> is_digit c \<or> c = CHR ''-'') (tl s) \<and>
     (length s > 1 \<longrightarrow> is_lower (last s) \<or> is_digit (last s)))"

definition FIREWALL_NAME_RE :: "string \<Rightarrow> bool" where
  "FIREWALL_NAME_RE = at_end (\<lambda>s. s \<noteq> [] \<and> (is_lower (hd s) \<or> is_upper (hd s)) \<and> length s \<le> 27 \<and>
     list_all (\<lambda>c. is_lower c \<or> is_upper c \<or> is_digit c \<or> c \<in> set ''_.-'') (tl s))"

definition MAC_RE :: "string \<Rightarrow> bool" where
  "MAC_RE = at_end (\<lambda>s. length s = 17 \<and>
     list_all (\<lambda>i. if i mod 3 = 2 then s ! i = CHR '':''
       else is_digit (s ! i) \<or> 65 \<le> (of_char (s ! i) :: nat) \<and> (of_char (s ! i) :: nat) \<le> 70) [0..<17])"

section \<open>Ownership read back from tags\<close>

definition is_owned_by_secp :: "(string, string) dict option \<Rightarrow> ownership \<Rightarrow> object_provenance" where
  "is_owned_by_secp observed_tags expected =
     (case observed_tags of
        None \<Rightarrow> OP_untagged
      | Some tags \<Rightarrow>
          if tags = [] then OP_untagged
          else (case (map_of tags ''secp.org'', map_of tags ''secp.target'', map_of tags ''secp.range'',
                      map_of tags ''secp.generation'') of
             (Some org, Some target, Some rng, Some gen) \<Rightarrow>
               (case py_int gen of
                  None \<Rightarrow> OP_unreadable
                | Some generation \<Rightarrow>
                    if org = ow_organization_id expected \<and> target = ow_target_id expected \<and>
                       rng = ow_range_id expected \<and> generation = ow_generation expected \<and>
                       map_of tags ''secp.team'' = ow_team_ref expected
                    then OP_secp_owned else OP_secp_foreign_scope)
           | _ \<Rightarrow> if list_ex (\<lambda>k. take 5 k = ''secp.'') (dict_keys tags) then OP_unreadable else OP_untagged))"

section \<open>Target observations\<close>

record storage_observation =
  so_storage_id :: string
  so_content_types :: "string list"
  so_available_bytes :: "int option"
  so_shared :: "bool option"

record node_observation =
  no_node_name :: string
  no_online :: bool
  no_cpu_cores_total :: "int option"
  no_memory_bytes_total :: "int option"
  no_storages :: "storage_observation list"
  no_bridges :: "string list"

record template_observation =
  tm_template_ref :: string
  tm_vmid :: int
  tm_node_name :: string
  tm_guest_kind :: guest_kind_t

record target_identity =
  ti_target_id :: string
  ti_cluster_name :: string
  ti_cluster_fingerprint :: string
  ti_management_cidrs :: "string list"
  ti_management_bridges :: "string list"

definition target_identity_post_init :: "target_identity \<Rightarrow> model_error + unit" where
  "target_identity_post_init t =
     bindE (require (ti_management_cidrs t \<noteq> [])) (\<lambda>_.
       bindE (mapE (\<lambda>c. parsed (ip_network True c)) (ti_management_cidrs t)) (\<lambda>_. Inr ()))"

record target_observation =
  to_identity :: target_identity
  to_nodes :: "node_observation list"
  to_templates :: "template_observation list"
  to_sdn_supported :: "bool option"
  to_firewall_supported :: "bool option"
  to_vlan_tags_in_use :: "int list option"
  to_vmids_in_use :: "int list option"
  to_macs_in_use :: "string list option"
  to_subnets_in_use :: "string list option"
  to_sdn_names_in_use :: "string list option"
  to_firewall_names_in_use :: "string list option"

definition observed_node :: "target_observation \<Rightarrow> string \<Rightarrow> node_observation option" where
  "observed_node obs name = find (\<lambda>n. no_node_name n = name) (to_nodes obs)"

definition online_nodes :: "target_observation \<Rightarrow> node_observation list" where
  "online_nodes obs = filter no_online (to_nodes obs)"

definition missing_prerequisite_post_init :: "missing_prerequisite \<Rightarrow> model_error + unit" where
  "missing_prerequisite_post_init p = require (mp_reason_id p \<noteq> [] \<and> mp_observation p \<noteq> [])"

definition blocked_plan_post_init :: "missing_prerequisite list \<Rightarrow> model_error + unit" where
  "blocked_plan_post_init missing = require (missing \<noteq> [])"

definition blocked_reason_ids :: "missing_prerequisite list \<Rightarrow> string list" where
  "blocked_reason_ids missing = sort (remdups (map mp_reason_id missing))"

section \<open>Network specifications\<close>

record sdn_zone_spec =
  zs_name :: string
  zs_bridge :: string
  zs_nodes :: "string list"
  zs_ownership :: ownership
  zs_mtu :: "int option"

definition sdn_zone_post_init :: "sdn_zone_spec \<Rightarrow> model_error + unit" where
  "sdn_zone_post_init z =
     bindE (require (SDN_NAME_RE (zs_name z))) (\<lambda>_. require (zs_nodes z \<noteq> []))"

record subnet_spec =
  sb_cidr :: string
  sb_gateway :: string
  sb_routed :: bool

definition subnet_post_init :: "subnet_spec \<Rightarrow> model_error + unit" where
  "subnet_post_init s =
     bindE (parsed (ip_network True (sb_cidr s))) (\<lambda>network.
       bindE (parsed (parse_ip (sb_gateway s))) (\<lambda>gateway. require (net_contains network gateway)))"

record vnet_spec =
  vn_name :: string
  vn_zone_name :: string
  vn_vlan_tag :: int
  vn_subnet :: subnet_spec
  vn_role :: segment_role
  vn_ownership :: ownership
  vn_alias :: string

definition vnet_post_init :: "vnet_spec \<Rightarrow> model_error + unit" where
  "vnet_post_init v =
     bindE (require (SDN_NAME_RE (vn_name v))) (\<lambda>_.
       require (VLAN_MIN \<le> vn_vlan_tag v \<and> vn_vlan_tag v \<le> VLAN_MAX))"

section \<open>Guest specifications\<close>

record nic_spec =
  nc_index :: int
  nc_vnet_name :: string
  nc_mac_address :: string
  nc_model :: string
  nc_firewall :: bool

definition nic_post_init :: "nic_spec \<Rightarrow> model_error + unit" where
  "nic_post_init n = bindE (require (0 \<le> nc_index n)) (\<lambda>_. require (MAC_RE (nc_mac_address n)))"

record guest_address =
  ga_published_address :: string
  ga_probe_address :: "string option"

definition guest_address_post_init :: "guest_address \<Rightarrow> model_error + unit" where
  "guest_address_post_init a =
     bindE (parsed (parse_ip (ga_published_address a))) (\<lambda>_.
       (case ga_probe_address a of None \<Rightarrow> Inr () | Some p \<Rightarrow> bindE (parsed (parse_ip p)) (\<lambda>_. Inr ())))"

definition probe_is_distinct :: "guest_address \<Rightarrow> bool" where
  "probe_is_distinct a \<longleftrightarrow> ga_probe_address a \<noteq> None \<and> ga_probe_address a \<noteq> Some (ga_published_address a)"

record disk_spec =
  dk_slot :: string
  dk_size_gb :: int
  dk_storage_id :: string
  dk_discard :: bool
  dk_ssd_emulation :: bool

definition disk_post_init :: "disk_spec \<Rightarrow> model_error + unit" where
  "disk_post_init d = require (0 < dk_size_gb d)"

record cloud_init_spec =
  ci_user :: string
  ci_ssh_authorized_keys :: "string list"
  ci_nameservers :: "string list"
  ci_search_domain :: "string option"
  ci_gateway :: "string option"

fun contains_str :: "string \<Rightarrow> string \<Rightarrow> bool" where
  "contains_str p [] = (p = [])"
| "contains_str p (c # s) = (take (length p) (c # s) = p \<or> contains_str p s)"

definition ssh_key_ok :: "string \<Rightarrow> bool" where
  "ssh_key_ok key \<longleftrightarrow> \<not> contains_str ''PRIVATE KEY'' key \<and>
     (take 4 key = ''ssh-'' \<or> take 6 key = ''ecdsa-'' \<or> take 3 key = ''sk-'')"

definition cloud_init_post_init :: "cloud_init_spec \<Rightarrow> model_error + unit" where
  "cloud_init_post_init c = require (list_all ssh_key_ok (ci_ssh_authorized_keys c))"

record guest_spec =
  gs_guest_ref :: string
  gs_name :: string
  gs_kind :: guest_kind_t
  gs_vmid :: int
  gs_node_name :: string
  gs_template_ref :: string
  gs_clone_strategy :: clone_strategy
  gs_cpu_cores :: int
  gs_memory_mb :: int
  gs_disks :: "disk_spec list"
  gs_nics :: "nic_spec list"
  gs_address :: guest_address
  gs_ownership :: ownership
  gs_cloud_init :: "cloud_init_spec option"
  gs_start_on_deploy :: bool
  gs_readiness_timeout_seconds :: int

definition guest_post_init :: "guest_spec \<Rightarrow> model_error + unit" where
  "guest_post_init g =
     bindE (require (GUEST_NAME_RE (gs_name g))) (\<lambda>_.
     bindE (require (VMID_MIN \<le> gs_vmid g \<and> gs_vmid g \<le> VMID_MAX)) (\<lambda>_.
     bindE (require (0 < gs_cpu_cores g \<and> 0 < gs_memory_mb g)) (\<lambda>_.
     bindE (require (gs_nics g \<noteq> [])) (\<lambda>_.
       require (distinct (map nc_index (gs_nics g)))))))"

section \<open>Firewall specifications\<close>

record ip_set_spec =
  is_name :: string
  is_cidrs :: "string list"
  is_ownership :: ownership
  is_comment :: string

definition ip_set_post_init :: "ip_set_spec \<Rightarrow> model_error + unit" where
  "ip_set_post_init s =
     bindE (require (FIREWALL_NAME_RE (is_name s))) (\<lambda>_.
       bindE (mapE (\<lambda>c. parsed (ip_network False c)) (is_cidrs s)) (\<lambda>_. Inr ()))"

record firewall_rule_spec =
  fr_position :: int
  fr_direction :: firewall_direction
  fr_verdict :: firewall_verdict
  fr_comment :: string
  fr_source :: "string option"
  fr_dest :: "string option"
  fr_proto :: "string option"
  fr_dport :: "string option"
  fr_enabled :: bool

definition rule_post_init :: "firewall_rule_spec \<Rightarrow> model_error + unit" where
  "rule_post_init r = bindE (require (0 \<le> fr_position r)) (\<lambda>_. require (fr_comment r \<noteq> []))"

record security_group_spec =
  sg_name :: string
  sg_rules :: "firewall_rule_spec list"
  sg_ownership :: ownership
  sg_comment :: string

definition security_group_post_init :: "security_group_spec \<Rightarrow> model_error + unit" where
  "security_group_post_init g =
     bindE (require (FIREWALL_NAME_RE (sg_name g))) (\<lambda>_. require (distinct (map fr_position (sg_rules g))))"

definition ordered_rules :: "security_group_spec \<Rightarrow> firewall_rule_spec list" where
  "ordered_rules g = sort_key fr_position (sg_rules g)"

definition ends_in_deny :: "firewall_rule_spec list \<Rightarrow> bool" where
  "ends_in_deny rules \<longleftrightarrow> rules \<noteq> [] \<and>
     fr_source (last rules) = None \<and> fr_dest (last rules) = None \<and> fr_dport (last rules) = None \<and>
     (fr_verdict (last rules) = FV_drop \<or> fr_verdict (last rules) = FV_reject)"

definition default_policy_is_deny :: "security_group_spec \<Rightarrow> bool" where
  "default_policy_is_deny g \<longleftrightarrow>
     list_all (\<lambda>d. ends_in_deny (filter (\<lambda>r. fr_direction r = d) (ordered_rules g))) [FD_inbound, FD_outbound]"

record egress_gateway_spec =
  eg_vnet_name :: string
  eg_allowed_destinations :: "string list"
  eg_allowed_ports :: "string list"
  eg_ownership :: ownership
  eg_approval_reference :: string

definition egress_post_init :: "egress_gateway_spec \<Rightarrow> model_error + unit" where
  "egress_post_init e =
     bindE (require (eg_approval_reference e \<noteq> [])) (\<lambda>_.
     bindE (require (eg_allowed_destinations e \<noteq> [])) (\<lambda>_.
     bindE (mapE (\<lambda>c. parsed (ip_network False c)) (eg_allowed_destinations e)) (\<lambda>_. Inr ())))"

section \<open>Compiled results\<close>

definition subnet_network :: "subnet_spec \<Rightarrow> model_error + ip_net" where
  "subnet_network s = parsed (ip_network True (sb_cidr s))"

definition blocked_describe :: "missing_prerequisite list \<Rightarrow> string" where
  "blocked_describe missing = join [char_of (10 :: nat)] ((''cannot compile: '' @ show_nat (length missing) @ '' unmet prerequisite(s)'') #
     map (\<lambda>i. ''  - ['' @ mp_reason_id i @ ''] '' @ mp_detail i @ '' (needs observation: '' @ mp_observation i @ '')'')
       (sort_key (\<lambda>i. (mp_reason_id i, mp_observation i)) missing))"

record network_plan =
  np_zone :: sdn_zone_spec
  np_vnets :: "vnet_spec list"
  np_security_groups :: "security_group_spec list"
  np_ip_sets :: "ip_set_spec list"
  np_vnet_security_group :: "(string, string) dict"
  np_egress :: "egress_gateway_spec option"

definition plan_vnet :: "network_plan \<Rightarrow> string \<Rightarrow> vnet_spec option" where
  "plan_vnet p name = find (\<lambda>v. vn_name v = name) (np_vnets p)"

definition team_refs :: "network_plan \<Rightarrow> string list" where
  "team_refs p = sort (remdups (List.map_filter (\<lambda>v. ow_team_ref (vn_ownership v)) (np_vnets p)))"

definition vnets_for_team :: "network_plan \<Rightarrow> string \<Rightarrow> vnet_spec list" where
  "vnets_for_team p team = filter (\<lambda>v. ow_team_ref (vn_ownership v) = Some team) (np_vnets p)"

record compiled_topology =
  ct_target :: target_identity
  ct_ownership :: ownership
  ct_network :: network_plan
  ct_guests :: "guest_spec list"
  ct_allocations :: "json list"

definition guests_on_vnet :: "compiled_topology \<Rightarrow> string \<Rightarrow> guest_spec list" where
  "guests_on_vnet t name = filter (\<lambda>g. list_ex (\<lambda>n. nc_vnet_name n = name) (gs_nics g)) (ct_guests t)"

definition guests_for_team :: "compiled_topology \<Rightarrow> string \<Rightarrow> guest_spec list" where
  "guests_for_team t team = filter (\<lambda>g. ow_team_ref (gs_ownership g) = Some team) (ct_guests t)"

definition vnet_clear :: "ip_net list \<Rightarrow> vnet_spec \<Rightarrow> model_error + unit" where
  "vnet_clear management v =
     bindE (parsed (ip_network True (sb_cidr (vn_subnet v)))) (\<lambda>subnet.
       require (\<not> list_ex (overlaps subnet) management))"

definition guest_clear :: "ip_net list \<Rightarrow> guest_spec \<Rightarrow> model_error + unit" where
  "guest_clear management g =
     bindE (parsed (parse_ip (ga_published_address (gs_address g)))) (\<lambda>published.
       require (\<not> list_ex (\<lambda>m. net_contains m published) management))"

definition assert_management_plane_untouched :: "compiled_topology \<Rightarrow> string list \<Rightarrow> model_error + unit" where
  "assert_management_plane_untouched t management_bridges =
     bindE (mapE (\<lambda>c. parsed (ip_network True c)) (ti_management_cidrs (ct_target t))) (\<lambda>management.
       if zs_bridge (np_zone (ct_network t)) \<in> set (management_bridges @ ti_management_bridges (ct_target t))
       then Inl Model_error
       else bindE (mapE (vnet_clear management) (np_vnets (ct_network t))) (\<lambda>_.
         bindE (mapE (guest_clear management) (ct_guests t)) (\<lambda>_. Inr ())))"

section \<open>First match in an ordered rule list\<close>

lemma find_sort_key:
  assumes "find P (sort_key f xs) = Some y"
  shows "y \<in> set xs" and "P y" and "x \<in> set xs \<Longrightarrow> P x \<Longrightarrow> f y \<le> f x"
proof -
  from assms obtain i where i: "i < length (sort_key f xs)" "P (sort_key f xs ! i)" "sort_key f xs ! i = y"
    "\<forall>j<i. \<not> P (sort_key f xs ! j)" by (auto simp: find_Some_iff)
  from i show "y \<in> set xs" "P y" by (metis nth_mem set_sort, simp)
  assume x: "x \<in> set xs" "P x"
  then obtain k where k: "k < length (sort_key f xs)" "sort_key f xs ! k = x" by (metis in_set_conv_nth set_sort)
  have "i \<le> k" using k i(4) x(2) by (metis not_le)
  moreover have "sorted (map f (sort_key f xs))" by simp
  ultimately have "map f (sort_key f xs) ! i \<le> map f (sort_key f xs) ! k"
    using k(1) by (simp only: sorted_iff_nth_mono length_map)
  with i k show "f y \<le> f x" by simp
qed

end
