(* ===== verification/Proxmox_Network.thy ===== *)
theory Proxmox_Network
  imports Proxmox_Model
begin

text \<open>
  The segregated-network compiler (\<open>apps/api/secp_api/range_providers/proxmox_network.py\<close>): a lab
  request and a target observation become one SDN zone, a segment per team role, IP sets and one
  ordered security group per segment, or a list of missing prerequisites. The ledger object and the
  request log are threaded through. The constructors' checks that may fail are kept; those of a
  compiled rule cannot fail, which \<open>segment_rules_valid\<close> shows.
\<close>

section \<open>Requests\<close>

definition IPSET_MANAGEMENT :: string where "IPSET_MANAGEMENT = ''secp-mgmt''"
definition IPSET_CONTROL_PLANE :: string where "IPSET_CONTROL_PLANE = ''secp-ctlplane''"

definition PUBLIC_PROBE_ADDRESSES :: "string list" where
  "PUBLIC_PROBE_ADDRESSES = [''192.0.2.53'', ''192.0.2.200'', ''198.51.100.10'']"

definition POS_MANAGEMENT_DENY :: int where "POS_MANAGEMENT_DENY = 0"
definition POS_CONTROL_PLANE :: int where "POS_CONTROL_PLANE = 100"
definition POS_CROSS_TEAM_DENY :: int where "POS_CROSS_TEAM_DENY = 200"
definition POS_INTRA_TEAM_ALLOW :: int where "POS_INTRA_TEAM_ALLOW = 300"
definition POS_SCORING_ALLOW :: int where "POS_SCORING_ALLOW = 400"
definition POS_EGRESS_ALLOW :: int where "POS_EGRESS_ALLOW = 500"
definition POS_CATCH_ALL :: int where "POS_CATCH_ALL = 8000"
definition INBOUND_BAND :: int where "INBOUND_BAND = 100000"

lemmas positions = POS_MANAGEMENT_DENY_def POS_CONTROL_PLANE_def POS_CROSS_TEAM_DENY_def
  POS_INTRA_TEAM_ALLOW_def POS_SCORING_ALLOW_def POS_EGRESS_ALLOW_def POS_CATCH_ALL_def INBOUND_BAND_def

datatype isolation_property = IP_cross_team_blocked | IP_management_plane_unreachable | IP_control_plane_unreachable
  | IP_no_default_public_route | IP_default_deny_present | IP_scoring_reachable

text \<open>\<open>str.isalnum\<close> and \<open>str.isdigit\<close> on code points below 256.\<close>

definition py_digit_char :: "char \<Rightarrow> bool" where
  "py_digit_char c \<longleftrightarrow> is_digit c \<or> (of_char c :: nat) \<in> {178, 179, 185}"

definition py_alnum_char :: "char \<Rightarrow> bool" where
  "py_alnum_char c \<longleftrightarrow> py_digit_char c \<or> is_lower c \<or> is_upper c \<or>
     (of_char c :: nat) \<in> {170, 181, 186, 188, 189, 190} \<or>
     192 \<le> (of_char c :: nat) \<and> (of_char c :: nat) \<notin> {215, 247}"

record team_request =
  tq_team_ref :: string
  tq_label :: string
  tq_include_sensor :: bool

definition team_request_post_init :: "team_request \<Rightarrow> model_error + unit" where
  "team_request_post_init t = require (tq_team_ref t \<noteq> [] \<and> list_all py_alnum_char (tq_team_ref t))"

record reviewed_path =
  rv_dest_cidr :: string
  rv_proto :: string
  rv_dport :: string
  rv_justification :: string
  rv_approval_reference :: string

definition reviewed_path_post_init :: "reviewed_path \<Rightarrow> model_error + unit" where
  "reviewed_path_post_init p =
     bindE (parsed (ip_network False (rv_dest_cidr p))) (\<lambda>network.
     bindE (require (block_size (nw_prefix network) = 1)) (\<lambda>_.
     bindE (require (rv_dport p \<noteq> [] \<and> list_all py_digit_char (rv_dport p))) (\<lambda>_.
       require (rv_justification p \<noteq> [] \<and> rv_approval_reference p \<noteq> []))))"

record lab_request =
  lr_organization_id :: string
  lr_target_id :: string
  lr_range_id :: string
  lr_generation :: int
  lr_operation_generation :: int
  lr_teams :: "team_request list"
  lr_control_plane_cidrs :: "string list"
  lr_reviewed_paths :: "reviewed_path list"
  lr_scoring_port :: int
  lr_egress :: "egress_gateway_spec option"
  lr_pools :: ipam_pools

definition lab_request_post_init :: "lab_request \<Rightarrow> model_error + unit" where
  "lab_request_post_init r =
     bindE (require (length (lr_teams r) \<ge> 2)) (\<lambda>_. require (distinct (map tq_team_ref (lr_teams r))))"

text \<open>
  A request as a caller can hold one: every part passed its own constructor's checks.
\<close>

definition lab_request_valid :: "lab_request \<Rightarrow> bool" where
  "lab_request_valid r \<longleftrightarrow> lab_request_post_init r = Inr () \<and>
     list_all (\<lambda>t. team_request_post_init t = Inr ()) (lr_teams r) \<and>
     list_all (\<lambda>p. reviewed_path_post_init p = Inr ()) (lr_reviewed_paths r) \<and>
     (case lr_egress r of None \<Rightarrow> True | Some e \<Rightarrow> egress_post_init e = Inr ()) \<and>
     pools_post_init (lr_pools r) = Inr ()"

definition KIND_NETWORK :: string where "KIND_NETWORK = ''network''"

definition lab_ownership :: "lab_request \<Rightarrow> string \<Rightarrow> string option \<Rightarrow> ownership" where
  "lab_ownership r kind team = \<lparr>ow_organization_id = lr_organization_id r, ow_target_id = lr_target_id r,
     ow_range_id = lr_range_id r, ow_generation = lr_generation r,
     ow_operation_generation = lr_operation_generation r, ow_resource_kind = kind, ow_team_ref = team\<rparr>"

definition segment_purpose :: "string option \<Rightarrow> segment_role \<Rightarrow> string" where
  "segment_purpose team role = (case team of None \<Rightarrow> ''shared'' | Some t \<Rightarrow> if t = [] then ''shared'' else t) @
     ''/'' @ segment_role_value role"

fun role_suffix :: "segment_role \<Rightarrow> string" where
  "role_suffix SR_attacker = ''atk''"
| "role_suffix SR_vulnerable = ''vul''"
| "role_suffix SR_sensor = ''sen''"
| "role_suffix SR_scoring = ''sco''"

definition vnet_name_for :: "nat option \<Rightarrow> segment_role \<Rightarrow> string" where
  "vnet_name_for team_index role = (case team_index of None \<Rightarrow> ''score''
     | Some i \<Rightarrow> ''t'' @ show_nat i @ role_suffix role)"

section \<open>Prerequisites\<close>

definition missing_capability :: "string \<Rightarrow> string \<Rightarrow> string \<Rightarrow> missing_prerequisite" where
  "missing_capability reason field detail = \<lparr>mp_reason_id = reason, mp_observation = field, mp_detail = detail\<rparr>"

definition capability_missing :: "target_observation \<Rightarrow> missing_prerequisite list" where
  "capability_missing obs =
     (case to_sdn_supported obs of
        None \<Rightarrow> [missing_capability ''proxmox.sdn_support_unknown'' ''TargetObservation.sdn_supported''
          (''whether the target supports SDN was never observed; SDN is an optional Proxmox component and '' @
           ''compiling VNets without it produces a plan that fails at apply'')]
      | Some False \<Rightarrow> [missing_capability ''proxmox.sdn_unsupported'' ''TargetObservation.sdn_supported''
          (''the target does not support SDN; segregated per-team VNets cannot be created on it and no '' @
           ''alternative isolation mechanism is approved'')]
      | Some True \<Rightarrow> []) @
     (case to_firewall_supported obs of
        None \<Rightarrow> [missing_capability ''proxmox.firewall_support_unknown'' ''TargetObservation.firewall_supported''
          (''whether the cluster firewall is enabled was never observed; without it the compiled deny rules '' @
           ''would not be enforced and segments would not be isolated'')]
      | Some False \<Rightarrow> [missing_capability ''proxmox.firewall_unsupported'' ''TargetObservation.firewall_supported''
          ''the cluster firewall is disabled; the isolation this scenario requires cannot be enforced'']
      | Some True \<Rightarrow> [])"

definition shared_bridges :: "node_observation list \<Rightarrow> string list" where
  "shared_bridges nodes = (case nodes of [] \<Rightarrow> []
     | n # ns \<Rightarrow> filter (\<lambda>b. list_all (\<lambda>m. b \<in> set (no_bridges m)) ns) (no_bridges n))"

definition choose_bridge :: "target_observation \<Rightarrow> missing_prerequisite list \<times> string option" where
  "choose_bridge obs =
     (let online = online_nodes obs; shared = shared_bridges online;
          eligible = filter (\<lambda>b. b \<notin> set (ti_management_bridges (to_identity obs))) shared in
      if online = []
      then ([missing_capability ''proxmox.no_online_node'' ''TargetObservation.nodes''
        ''no cluster node was observed online; nothing can be placed''], None)
      else if shared = []
      then ([missing_capability ''proxmox.no_common_bridge'' ''NodeObservation.bridges''
        (''no bridge was observed present on every online node; an SDN zone needs one, and picking a '' @
         ''bridge that exists on only some nodes strands guests'')], None)
      else if eligible = []
      then ([missing_capability ''proxmox.no_non_management_bridge'' ''NodeObservation.bridges''
        (''every bridge common to the online nodes is a declared management bridge; the scenario needs '' @
         ''its own bridge and must never ride the management plane'')], None)
      else ([], Some (hd (sort eligible))))"

section \<open>Segments\<close>

text \<open>\<open>log.run(lambda: ledger.allocate_...)\<close>: the ledger and the log of blocked requests are the
  state; a blocked request leaves the ledger alone and gives \<open>None\<close>.\<close>

type_synonym log_state = "ledger \<times> missing_prerequisite list"

definition logged :: "(ledger \<Rightarrow> alloc_error + ('a \<times> ledger)) \<Rightarrow> log_state \<Rightarrow> model_error + ('a option \<times> log_state)" where
  "logged alloc st = (case st of (l, blocked) \<Rightarrow>
     (case log_run (alloc l) blocked of
        Inl e \<Rightarrow> Inl (Model_alloc e)
      | Inr (None, blocked') \<Rightarrow> Inr (None, l, blocked')
      | Inr (Some (v, l'), blocked') \<Rightarrow> Inr (Some v, l', blocked')))"

definition of_alloc :: "alloc_error + 'a \<Rightarrow> model_error + 'a" where
  "of_alloc m = map_sum Model_alloc id m"

fun foldE :: "('s \<Rightarrow> 'a \<Rightarrow> 'e + 's) \<Rightarrow> 's \<Rightarrow> 'a list \<Rightarrow> 'e + 's" where
  "foldE f s [] = Inr s"
| "foldE f s (x # xs) = bindE (f s x) (\<lambda>s'. foldE f s' xs)"

type_synonym segment = "string option \<times> segment_role \<times> string"

definition team_segments :: "nat \<Rightarrow> team_request \<Rightarrow> segment list" where
  "team_segments index team =
     [(Some (tq_team_ref team), SR_attacker, vnet_name_for (Some index) SR_attacker),
      (Some (tq_team_ref team), SR_vulnerable, vnet_name_for (Some index) SR_vulnerable)] @
     (if tq_include_sensor team
      then [(Some (tq_team_ref team), SR_sensor, vnet_name_for (Some index) SR_sensor)] else [])"

definition lab_segments :: "lab_request \<Rightarrow> segment list" where
  "lab_segments r = (None, SR_scoring, ''score'') #
     concat (map (\<lambda>(i, t). team_segments i t) (List.enumerate 1 (lr_teams r)))"

definition sdn_name :: "ownership \<Rightarrow> string \<Rightarrow> allocation_kind \<Rightarrow> string \<Rightarrow> target_observation \<Rightarrow>
    ledger \<Rightarrow> alloc_error + (string \<times> ledger)" where
  "sdn_name ow purpose kind candidate obs l = allocate_name ow purpose kind candidate (to_sdn_names_in_use obs)
     ''TargetObservation.sdn_names_in_use'' ''proxmox.sdn_name_inventory_missing'' (Some 8) l"

definition firewall_name :: "ownership \<Rightarrow> string \<Rightarrow> string \<Rightarrow> target_observation \<Rightarrow> ledger \<Rightarrow> alloc_error + (string \<times> ledger)" where
  "firewall_name ow purpose candidate obs l = allocate_name ow purpose VK_firewall_object_name candidate
     (to_firewall_names_in_use obs) ''TargetObservation.firewall_names_in_use''
     ''proxmox.firewall_name_inventory_missing'' (Some 27) l"

type_synonym compile_state = "(string, vnet_spec) dict \<times> log_state"

definition build_vnet :: "lab_request \<Rightarrow> string option \<Rightarrow> ownership \<Rightarrow> string \<Rightarrow> segment_role \<Rightarrow> string \<Rightarrow> int \<Rightarrow> ip_net \<Rightarrow>
    ledger \<Rightarrow> model_error + (vnet_spec \<times> ledger)" where
  "build_vnet r zone_name ow purpose role name vlan subnet l =
     bindE (of_alloc (allocate_address ow (purpose @ ''/gateway'') subnet VK_gateway_address (Some 0) l)) (\<lambda>(gateway, l').
       let sub = \<lparr>sb_cidr = net_str subnet, sb_gateway = ip_str gateway, sb_routed = False\<rparr>;
           vnet = \<lparr>vn_name = name, vn_zone_name = (case zone_name of None \<Rightarrow> '''' | Some z \<Rightarrow> z), vn_vlan_tag = vlan,
             vn_subnet = sub, vn_role = role, vn_ownership = ow, vn_alias = purpose\<rparr> in
       bindE (subnet_post_init sub) (\<lambda>_. bindE (vnet_post_init vnet) (\<lambda>_. Inr (vnet, l'))))"

definition add_vnet :: "lab_request \<Rightarrow> string option \<Rightarrow> ownership \<Rightarrow> string \<Rightarrow> segment_role \<Rightarrow> (string, vnet_spec) dict \<Rightarrow>
    string option \<times> int option \<times> ip_net option \<Rightarrow> log_state \<Rightarrow> model_error + compile_state" where
  "add_vnet r zone_name ow purpose role compiled picked log3 = (case picked of
      (Some n, Some v, Some s) \<Rightarrow>
        bindE (build_vnet r zone_name ow purpose role n v s (fst log3)) (\<lambda>(vnet, l').
          Inr (dict_set n vnet compiled, l', snd log3))
    | _ \<Rightarrow> Inr (compiled, log3))"

definition compile_segment :: "lab_request \<Rightarrow> target_observation \<Rightarrow> string option \<Rightarrow> compile_state \<Rightarrow> segment \<Rightarrow>
    model_error + compile_state" where
  "compile_segment r obs zone_name st seg = (case st of (compiled, log0) \<Rightarrow> case seg of (team, role, proposed) \<Rightarrow>
     (let ow = lab_ownership r KIND_NETWORK team; purpose = segment_purpose team role in
      bindE (logged (sdn_name ow purpose VK_vnet_name proposed obs) log0) (\<lambda>(name, log1).
      bindE (logged (allocate_int ow VK_vlan_tag purpose (pl_vlan_min (lr_pools r)) (pl_vlan_max (lr_pools r))
          (to_vlan_tags_in_use obs) ''TargetObservation.vlan_tags_in_use'' ''proxmox.vlan_inventory_missing'') log1) (\<lambda>(vlan, log2).
      bindE (logged (allocate_subnet ow purpose (lr_pools r) (to_subnets_in_use obs)
          (ti_management_cidrs (to_identity obs))) log2) (\<lambda>(subnet, log3).
        add_vnet r zone_name ow purpose role compiled (name, vlan, subnet) log3)))))"

section \<open>Firewall\<close>

definition make_ip_set :: "string \<Rightarrow> string list \<Rightarrow> ownership \<Rightarrow> string \<Rightarrow> model_error + ip_set_spec" where
  "make_ip_set name cidrs ow comment =
     (let s = \<lparr>is_name = name, is_cidrs = cidrs, is_ownership = ow, is_comment = comment\<rparr> in
      bindE (ip_set_post_init s) (\<lambda>_. Inr s))"

definition plane_ip_sets :: "lab_request \<Rightarrow> target_observation \<Rightarrow> model_error + ip_set_spec list" where
  "plane_ip_sets r obs =
     (let shared = lab_ownership r KIND_NETWORK None in
      bindE (make_ip_set IPSET_MANAGEMENT (ti_management_cidrs (to_identity obs)) shared
          ''Proxmox management plane. Never reachable from any scenario segment.'') (\<lambda>mgmt.
        if lr_control_plane_cidrs r = [] then Inr [mgmt]
        else bindE (make_ip_set IPSET_CONTROL_PLANE (lr_control_plane_cidrs r) shared
            ''SECP controller/worker management interfaces.'') (\<lambda>ctl. Inr [mgmt, ctl])))"

text \<open>\<open>by_team.setdefault(vnet.ownership.team_ref, []).append(vnet)\<close>, then sorted by team.\<close>

definition group_by_team :: "vnet_spec list \<Rightarrow> (string option, vnet_spec list) dict" where
  "group_by_team vnets = foldl (\<lambda>d v. let t = ow_team_ref (vn_ownership v) in
     dict_set t ((case map_of d t of None \<Rightarrow> [] | Some vs \<Rightarrow> vs) @ [v]) d) [] vnets"

definition sorted_teams :: "vnet_spec list \<Rightarrow> (string option \<times> vnet_spec list) list" where
  "sorted_teams vnets = sort_key (\<lambda>(t, _). case t of None \<Rightarrow> '''' | Some s \<Rightarrow> s) (group_by_team vnets)"

definition compile_team_set :: "lab_request \<Rightarrow> target_observation \<Rightarrow> ip_set_spec list \<times> log_state \<Rightarrow>
    string option \<times> vnet_spec list \<Rightarrow> model_error + (ip_set_spec list \<times> log_state)" where
  "compile_team_set r obs st item = (case st of (sets, log0) \<Rightarrow> case item of (team, team_vnets) \<Rightarrow>
     (case team of
        None \<Rightarrow> Inr st
      | Some t \<Rightarrow>
          (let ow = lab_ownership r KIND_NETWORK team in
           bindE (logged (firewall_name ow (t @ ''/ipset'') (''secp-team-'' @ t) obs) log0) (\<lambda>(name, log1).
             case name of
               None \<Rightarrow> Inr (sets, log1)
             | Some n \<Rightarrow> bindE (make_ip_set n (map (\<lambda>v. sb_cidr (vn_subnet v)) team_vnets) ow
                 (''All segments belonging to team '' @ t @ ''.'')) (\<lambda>s. Inr (sets @ [s], log1))))))"

definition team_ipset :: "ip_set_spec list \<Rightarrow> (string, string) dict" where
  "team_ipset sets = dict_of (List.map_filter (\<lambda>s. case ow_team_ref (is_ownership s) of
     None \<Rightarrow> None | Some t \<Rightarrow> Some (t, is_name s)) sets)"

definition rule :: "int \<Rightarrow> firewall_direction \<Rightarrow> firewall_verdict \<Rightarrow> string option \<Rightarrow> string option \<Rightarrow>
    string option \<Rightarrow> string option \<Rightarrow> string \<Rightarrow> firewall_rule_spec" where
  "rule position direction verd source dest proto dport comment =
     \<lparr>fr_position = position, fr_direction = direction, fr_verdict = verd, fr_comment = comment,
      fr_source = source, fr_dest = dest, fr_proto = proto, fr_dport = dport, fr_enabled = True\<rparr>"

definition management_rules :: "firewall_rule_spec list" where
  "management_rules =
     [rule POS_MANAGEMENT_DENY FD_outbound FV_drop None (Some (''+'' @ IPSET_MANAGEMENT)) None None
        ''Deny all traffic to the Proxmox management plane.'',
      rule POS_MANAGEMENT_DENY FD_inbound FV_drop (Some (''+'' @ IPSET_MANAGEMENT)) None None None
        ''Deny inbound traffic sourced from the management plane.'']"

definition control_plane_rules :: "lab_request \<Rightarrow> firewall_rule_spec list" where
  "control_plane_rules r =
     (if lr_control_plane_cidrs r = [] then []
      else map (\<lambda>(i, path). rule (POS_CONTROL_PLANE + int i) FD_outbound FV_accept None (Some (rv_dest_cidr path))
            (Some (rv_proto path)) (Some (rv_dport path))
            (''Reviewed control-plane path ('' @ rv_approval_reference path @ ''): '' @ rv_justification path))
          (List.enumerate 0 (lr_reviewed_paths r)) @
        [rule (POS_CONTROL_PLANE + 50) FD_outbound FV_drop None (Some (''+'' @ IPSET_CONTROL_PLANE)) None None
          ''Deny all other traffic to controller/worker management interfaces.''])"

definition cross_team_rules :: "string option \<Rightarrow> (string, string) dict \<Rightarrow> firewall_rule_spec list" where
  "cross_team_rules team sets = concat (map (\<lambda>(i, peer, peer_name).
     if Some peer = team then []
     else [rule (POS_CROSS_TEAM_DENY + int i) FD_outbound FV_drop None (Some (''+'' @ peer_name)) None None
             (''Deny all traffic to team '' @ peer @ '''s segments.''),
           rule (POS_CROSS_TEAM_DENY + 50 + int i) FD_inbound FV_drop (Some (''+'' @ peer_name)) None None None
             (''Deny all traffic from team '' @ peer @ '''s segments.'')])
     (List.enumerate 0 (sort sets)))"

definition intra_team_rules :: "string option \<Rightarrow> (string, string) dict \<Rightarrow> firewall_rule_spec list" where
  "intra_team_rules team sets = (case team of None \<Rightarrow> []
     | Some t \<Rightarrow> (case map_of sets t of None \<Rightarrow> []
         | Some name \<Rightarrow>
             [rule POS_INTRA_TEAM_ALLOW FD_outbound FV_accept None (Some (''+'' @ name)) None None
                (''Allow team '' @ t @ '' to reach its own segments.''),
              rule (POS_INTRA_TEAM_ALLOW + 1) FD_inbound FV_accept (Some (''+'' @ name)) None None None
                (''Allow team '' @ t @ '''s own segments inbound.'')]))"

definition scoring_rules :: "lab_request \<Rightarrow> segment_role \<Rightarrow> vnet_spec list \<Rightarrow> firewall_rule_spec list" where
  "scoring_rules r role scoring =
     (if scoring = [] then []
      else if role = SR_scoring
      then [rule POS_SCORING_ALLOW FD_inbound FV_accept None None (Some ''tcp'') (Some (show_int (lr_scoring_port r)))
        (''Accept scoring submissions on tcp/'' @ show_int (lr_scoring_port r) @ ''.'')]
      else map (\<lambda>s. rule POS_SCORING_ALLOW FD_outbound FV_accept None (Some (sb_cidr (vn_subnet s))) (Some ''tcp'')
        (Some (show_int (lr_scoring_port r)))
        (''Allow the scoring/control boundary on tcp/'' @ show_int (lr_scoring_port r) @ '' only.'')) scoring)"

definition egress_rules :: "lab_request \<Rightarrow> string \<Rightarrow> firewall_rule_spec list" where
  "egress_rules r vnet_name = (case lr_egress r of None \<Rightarrow> []
     | Some e \<Rightarrow> if eg_vnet_name e \<noteq> vnet_name then []
         else concat (map (\<lambda>(i, dest). map (\<lambda>(j, port).
             rule (POS_EGRESS_ALLOW + int i * 10 + int j) FD_outbound FV_accept None (Some dest)
               (if port = [] then None else Some ''tcp'') (if port = [] then None else Some port)
               (''Approved controlled egress ('' @ eg_approval_reference e @ '').''))
             (List.enumerate 0 (if eg_allowed_ports e = [] then [''''] else eg_allowed_ports e)))
           (List.enumerate 0 (eg_allowed_destinations e))))"

definition catch_all_rules :: "firewall_rule_spec list" where
  "catch_all_rules =
     [rule POS_CATCH_ALL FD_outbound FV_drop None None None None ''Default deny outbound.'',
      rule POS_CATCH_ALL FD_inbound FV_drop None None None None ''Default deny inbound.'']"

definition segment_rules :: "lab_request \<Rightarrow> vnet_spec list \<Rightarrow> (string, string) dict \<Rightarrow> vnet_spec \<Rightarrow> firewall_rule_spec list" where
  "segment_rules r scoring sets vnet =
     (let team = ow_team_ref (vn_ownership vnet) in
      management_rules @ control_plane_rules r @ cross_team_rules team sets @ intra_team_rules team sets @
      scoring_rules r (vn_role vnet) scoring @ egress_rules r (vn_name vnet) @ catch_all_rules)"

definition band_positions :: "firewall_rule_spec list \<Rightarrow> firewall_rule_spec list" where
  "band_positions rules = map (\<lambda>x. x\<lparr>fr_position := fr_position x +
     (if fr_direction x = FD_outbound then 0 else INBOUND_BAND)\<rparr>) rules"

type_synonym group_state = "(security_group_spec list \<times> (string, string) dict) \<times> log_state"

definition compile_group :: "lab_request \<Rightarrow> target_observation \<Rightarrow> vnet_spec list \<Rightarrow> (string, string) dict \<Rightarrow>
    group_state \<Rightarrow> vnet_spec \<Rightarrow> model_error + group_state" where
  "compile_group r obs scoring sets st vnet = (case st of ((groups, attachment), log0) \<Rightarrow>
     bindE (logged (firewall_name (vn_ownership vnet) (vn_alias vnet @ ''/secgroup'') (''secp-sg-'' @ vn_name vnet) obs) log0)
       (\<lambda>(name, log1). case name of
          None \<Rightarrow> Inr ((groups, attachment), log1)
        | Some n \<Rightarrow>
            (let g = \<lparr>sg_name = n, sg_rules = band_positions (segment_rules r scoring sets vnet),
               sg_ownership = vn_ownership vnet,
               sg_comment = ''Isolation policy for segment '' @ vn_name vnet @ '' ('' @ segment_role_value (vn_role vnet) @ '').''\<rparr> in
             bindE (security_group_post_init g) (\<lambda>_. Inr ((groups @ [g], dict_set (vn_name vnet) n attachment), log1)))))"

definition compile_firewall :: "lab_request \<Rightarrow> target_observation \<Rightarrow> vnet_spec list \<Rightarrow> log_state \<Rightarrow>
    model_error + ((ip_set_spec list \<times> security_group_spec list \<times> (string, string) dict) \<times> log_state)" where
  "compile_firewall r obs vnets log0 =
     bindE (plane_ip_sets r obs) (\<lambda>planes.
     bindE (foldE (compile_team_set r obs) (planes, log0) (sorted_teams vnets)) (\<lambda>(sets, log1).
     bindE (foldE (compile_group r obs (filter (\<lambda>v. vn_role v = SR_scoring) vnets) (team_ipset sets))
         (([], []), log1) vnets) (\<lambda>((groups, attachment), log2).
       Inr ((sets, groups, attachment), log2))))"

section \<open>The compiler\<close>

datatype compile_result = Compiled network_plan | Blocked_plan "missing_prerequisite list"

text \<open>
  The ledger is returned in every case: a caller's ledger object keeps what was allocated before a
  prerequisite was found missing. The ownership stamp has the same identifiers for every kind and
  team, so its check either fails at the first call or never.
\<close>

definition compile_web_breach_lab :: "lab_request \<Rightarrow> target_observation \<Rightarrow> ledger option \<Rightarrow>
    model_error + (compile_result \<times> ledger)" where
  "compile_web_breach_lab r obs given =
     (let l0 = (case given of None \<Rightarrow> empty_ledger | Some l \<Rightarrow> l);
          shared = lab_ownership r KIND_NETWORK None;
          bridge = choose_bridge obs; online = online_nodes obs in
      if \<not> ownership_valid shared then Inl Model_error
      else
        bindE (logged (sdn_name shared ''sdn-zone'' VK_zone_name
            (''z'' @ take 7 (filter (\<lambda>c. c \<noteq> CHR ''-'') (lr_range_id r))) obs) (l0, [])) (\<lambda>(zone_name, log1).
        bindE (foldE (compile_segment r obs zone_name) ([], log1) (lab_segments r)) (\<lambda>(compiled, l2, blocked2).
          let missing = capability_missing obs @ fst bridge @ blocked2 in
          (case (zone_name, snd bridge) of
             (Some z, Some b) \<Rightarrow>
               if missing \<noteq> [] then Inr (Blocked_plan missing, l2)
               else
                 (let zone = \<lparr>zs_name = z, zs_bridge = b, zs_nodes = map no_node_name online,
                     zs_ownership = shared, zs_mtu = None\<rparr>;
                     vnets = map snd (sort_key fst compiled) in
                  bindE (sdn_zone_post_init zone) (\<lambda>_.
                  bindE (compile_firewall r obs vnets (l2, blocked2)) (\<lambda>((sets, groups, attachment), l3, blocked3).
                    if blocked3 \<noteq> [] then Inr (Blocked_plan blocked3, l3)
                    else Inr (Compiled \<lparr>np_zone = zone, np_vnets = vnets, np_security_groups = groups,
                      np_ip_sets = sets, np_vnet_security_group = attachment, np_egress = lr_egress r\<rparr>, l3))))
           | _ \<Rightarrow> Inr (Blocked_plan (if missing = []
               then [missing_capability ''proxmox.zone_unresolved'' ''TargetObservation.sdn_names_in_use''
                 ''the SDN zone name or bridge could not be resolved''] else missing), l2)))))"

text \<open>No compiled rule is refused by the checks of its constructor.\<close>

lemma segment_rules_valid: "x \<in> set (segment_rules r scoring sets v) \<Longrightarrow> rule_post_init x = Inr ()"
  by (auto simp: segment_rules_def Let_def management_rules_def control_plane_rules_def cross_team_rules_def intra_team_rules_def
    scoring_rules_def egress_rules_def catch_all_rules_def rule_def rule_post_init_def bindE_def require_def positions
    split: if_splits option.splits)

end
