(* ===== verification/Proxmox_Compiled.thy ===== *)
theory Proxmox_Compiled
  imports Proxmox_Isolation
begin

text \<open>
  What the network compiler guarantees of a plan it returns. The allocators it calls share a
  contract, the locale \<open>safe_allocator\<close>: they keep a ledger free of conflicts, keep every entry, and
  never hand out the name of one of the two reserved IP sets. From this the compiled plan is shown
  to resolve each segment to its own rules and each team's IP set to that team's networks, and the
  rules are shown to isolate.
\<close>

section \<open>Allocators the compiler may call\<close>

definition extends :: "ledger \<Rightarrow> ledger \<Rightarrow> bool" where
  "extends l l' \<longleftrightarrow> (\<forall>k a. map_of (lg_by_key l) k = Some a \<longrightarrow> map_of (lg_by_key l') k = Some a)"

lemma extends_refl [simp]: "extends l l"
  by (simp add: extends_def)

lemma extends_trans: "extends l l' \<Longrightarrow> extends l' l'' \<Longrightarrow> extends l l''"
  by (simp add: extends_def)

definition RESERVED_NAMES :: "string set" where
  "RESERVED_NAMES = {IPSET_MANAGEMENT, IPSET_CONTROL_PLANE}"

definition safe_ledger :: "ledger \<Rightarrow> bool" where
  "safe_ledger l \<longleftrightarrow> conflict_free l \<and>
     (\<forall>k a. map_of (lg_by_key l) k = Some a \<longrightarrow> al_kind a = VK_firewall_object_name \<longrightarrow> al_value a \<notin> RESERVED_NAMES)"

lemma safe_empty: "safe_ledger empty_ledger"
  by (simp add: safe_ledger_def empty_ledger_def conflict_free_def)

locale safe_allocator = ledger_allocator alloc key shown usable
  for alloc :: "ledger \<Rightarrow> alloc_error + ('v \<times> ledger)" and key shown usable +
  assumes keeps_free: "conflict_free l \<Longrightarrow> alloc l = Inr (v, l') \<Longrightarrow> conflict_free l'"
    and avoids: "map_of (lg_by_key l) key = None \<Longrightarrow> alloc l = Inr (v, l') \<Longrightarrow> fst (snd key) = VK_firewall_object_name \<Longrightarrow>
      shown v \<notin> RESERVED_NAMES"
begin

lemma safe: "safe_ledger l \<Longrightarrow> alloc l = Inr (v, l') \<Longrightarrow> safe_ledger l'"
proof -
  assume safe: "safe_ledger l" and a: "alloc l = Inr (v, l')"
  have "al_value e \<notin> RESERVED_NAMES" if "map_of (lg_by_key l') k = Some e" "al_kind e = VK_firewall_object_name" for k e
  proof (cases "map_of (lg_by_key l) k = Some e")
    case True
    with safe that(2) show ?thesis unfolding safe_ledger_def by blast
  next
    case False
    with outcome [OF a] that(1) have "map_of (lg_by_key l) key = None" "e = entry key (shown v)"
      by (auto split: if_splits)
    with avoids [OF _ a] that(2) show ?thesis by simp
  qed
  moreover have "conflict_free l'" using keeps_free [OF _ a] safe by (simp add: safe_ledger_def)
  ultimately show ?thesis unfolding safe_ledger_def by blast
qed

lemma grows: "alloc l = Inr (v, l') \<Longrightarrow> extends l l'"
  using keeps by (simp add: extends_def)

end

lemma logged_cases:
  assumes "logged alloc (l, blocked) = Inr (v, l', blocked')"
  obtains (given) x where "v = Some x" and "alloc l = Inr (x, l')" and "blocked' = blocked"
  | (refused) "v = None" and "l' = l" and "blocked' \<noteq> []"
  using assms
  by (fastforce simp: logged_def log_run_def split: sum.splits option.splits alloc_error.splits if_splits)

context safe_allocator
begin

lemma logged_safe:
  assumes "logged alloc (l, blocked) = Inr (v, l', blocked')" and "safe_ledger l"
  shows "safe_ledger l'" and "extends l l'"
  using assms safe grows by (cases rule: logged_cases; auto)+

end

section \<open>The allocators' instances\<close>

lemma name_prefix:
  assumes "allocate_name ow purpose kind candidate obs field reason (Some m) l = Inr (v, l')"
    and "map_of (lg_by_key l) (scope_key ow, kind, purpose) = None" and "n + 2 \<le> m" and "n \<le> length candidate"
  shows "take n v = take n candidate"
proof -
  let ?base = "take m candidate"
  from assms obtain observed where obs: "obs = Some observed" by (auto simp: allocate_name_def split: option.splits)
  from assms obs have "v = ?base \<or> (\<exists>k. v = name_attempt ?base (Some m) k)"
    by (auto simp: allocate_name_def Let_def bindE_Inr ledger_get_def split: if_splits option.splits dest!: find_map_Some)
  then show ?thesis
  proof
    assume "v = ?base"
    with assms(3) show ?thesis by (simp add: min_def)
  next
    assume "\<exists>k. v = name_attempt ?base (Some m) k"
    moreover have "length (hex_byte x) = 2" for x by (simp add: hex_byte_def)
    ultimately obtain k where "v = take (m - 2) ?base @ hex_byte (k mod 256)"
      by (auto simp: name_attempt_def Let_def)
    moreover have "n \<le> m - 2" using assms(3) by simp
    ultimately show ?thesis using assms(4) by (simp add: min_def)
  qed
qed

lemma name_safe_allocator:
  assumes "kind \<in> NAME_KINDS"
    and "\<And>l v l'. map_of (lg_by_key l) (scope_key ow, kind, purpose) = None \<Longrightarrow>
      allocate_name ow purpose kind candidate obs field reason max_length l = Inr (v, l') \<Longrightarrow>
      kind = VK_firewall_object_name \<Longrightarrow> v \<notin> RESERVED_NAMES"
  shows "safe_allocator (allocate_name ow purpose kind candidate obs field reason max_length)
    (scope_key ow, kind, purpose) (\<lambda>v. v) True"
  by unfold_locales (use assms name_keeps [OF _ _ assms(1)] in auto)

lemma sdn_name_eq: "sdn_name ow purpose kind candidate obs = allocate_name ow purpose kind candidate (to_sdn_names_in_use obs)
    ''TargetObservation.sdn_names_in_use'' ''proxmox.sdn_name_inventory_missing'' (Some 8)"
  by (simp add: sdn_name_def fun_eq_iff)

lemma firewall_name_eq: "firewall_name ow purpose candidate obs = allocate_name ow purpose VK_firewall_object_name candidate
    (to_firewall_names_in_use obs) ''TargetObservation.firewall_names_in_use''
    ''proxmox.firewall_name_inventory_missing'' (Some 27)"
  by (simp add: firewall_name_def fun_eq_iff)

interpretation vnet_name_alloc: safe_allocator "sdn_name ow purpose VK_vnet_name candidate obs"
    "(scope_key ow, VK_vnet_name, purpose)" "\<lambda>v. v" True for ow purpose candidate obs
  unfolding sdn_name_eq by (rule name_safe_allocator) (simp_all add: NAME_KINDS_def)

interpretation zone_name_alloc: safe_allocator "sdn_name ow purpose VK_zone_name candidate obs"
    "(scope_key ow, VK_zone_name, purpose)" "\<lambda>v. v" True for ow purpose candidate obs
  unfolding sdn_name_eq by (rule name_safe_allocator) (simp_all add: NAME_KINDS_def)

lemma firewall_name_avoids:
  assumes "firewall_name ow purpose (''secp-'' @ c # d # rest) obs l = Inr (v, l')"
    and "map_of (lg_by_key l) (scope_key ow, VK_firewall_object_name, purpose) = None" and "(c, d) \<in> {(CHR ''t'', CHR ''e''), (CHR ''s'', CHR ''g'')}"
  shows "v \<notin> RESERVED_NAMES"
proof -
  have "take 7 v = ''secp-'' @ [c, d]"
    using name_prefix [OF assms(1) [unfolded firewall_name_eq] assms(2), of 7] by simp
  with assms(3) show ?thesis by (auto simp: RESERVED_NAMES_def IPSET_MANAGEMENT_def IPSET_CONTROL_PLANE_def)
qed

interpretation team_set_alloc: safe_allocator "firewall_name ow purpose (''secp-team-'' @ t) obs"
    "(scope_key ow, VK_firewall_object_name, purpose)" "\<lambda>v. v" True for ow purpose t obs
  unfolding firewall_name_eq
  by (rule name_safe_allocator, simp add: NAME_KINDS_def)
    (rule firewall_name_avoids [of ow purpose "CHR ''t''" "CHR ''e''" "''am-'' @ t", unfolded firewall_name_eq]; simp)

interpretation group_alloc: safe_allocator "firewall_name ow purpose (''secp-sg-'' @ t) obs"
    "(scope_key ow, VK_firewall_object_name, purpose)" "\<lambda>v. v" True for ow purpose t obs
  unfolding firewall_name_eq
  by (rule name_safe_allocator, simp add: NAME_KINDS_def)
    (rule firewall_name_avoids [of ow purpose "CHR ''s''" "CHR ''g''" "''-'' @ t", unfolded firewall_name_eq]; simp)

interpretation vlan_alloc: safe_allocator "allocate_int ow VK_vlan_tag purpose low high obs field reason"
    "(scope_key ow, VK_vlan_tag, purpose)" show_int True for ow purpose low high obs field reason
  by unfold_locales (auto intro: vlan_keeps)

interpretation segment_subnet_alloc: safe_allocator "allocate_subnet ow purpose pools obs management"
    "(scope_key ow, VK_subnet, purpose)" net_str True for ow purpose pools obs management
  by unfold_locales (auto intro: subnet_keeps)

interpretation gateway_alloc: safe_allocator "allocate_address ow purpose subnet VK_gateway_address offset"
    "(scope_key ow, VK_gateway_address, purpose)" ip_str "wf_net subnet" for ow purpose subnet offset
  by unfold_locales (auto intro: address_keeps)

section \<open>Folds with early exit\<close>

lemma foldE_invariant:
  assumes "foldE f s xs = Inr s'" and "I [] s"
    and "\<And>ys x s s'. x \<in> set xs \<Longrightarrow> set ys \<subseteq> set xs \<Longrightarrow> I ys s \<Longrightarrow> f s x = Inr s' \<Longrightarrow> I (ys @ [x]) s'"
  shows "I xs s'"
proof -
  have "foldE f s zs = Inr s' \<Longrightarrow> I ys s \<Longrightarrow> set (ys @ zs) \<subseteq> set xs \<Longrightarrow> I (ys @ zs) s'" for ys zs
  proof (induction zs arbitrary: s ys)
    case (Cons z zs)
    from Cons.prems(1) obtain s1 where "f s z = Inr s1" "foldE f s1 zs = Inr s'" by (auto simp: bindE_Inr)
    with Cons.IH [of s1 "ys @ [z]"] Cons.prems(2,3) assms(3) [of z ys s s1] show ?case by simp
  qed simp
  from this [of xs "[]"] assms(1,2) show ?thesis by simp
qed

section \<open>Segments\<close>

lemma vlan_recorded:
  assumes "allocate_int ow VK_vlan_tag purpose low high obs field reason l = Inr (i, l')"
  shows "\<exists>a. map_of (lg_by_key l') (scope_key ow, VK_vlan_tag, purpose) = Some a \<and> py_int (al_value a) = Some i"
  using int_alloc.recorded [OF assms] int_alloc.again [OF _ assms] allocate_int_existing
  by (fastforce simp: ledger_get_def)

lemma subnet_recorded:
  assumes "allocate_subnet ow purpose pools obs management l = Inr (n, l')"
  shows "\<exists>a. map_of (lg_by_key l') (scope_key ow, VK_subnet, purpose) = Some a \<and> ip_network True (al_value a) = Some n"
  using subnet_alloc.recorded [OF assms] subnet_alloc.again [OF _ assms] allocate_subnet_existing
  by (fastforce simp: ledger_get_def)

lemma name_recorded:
  assumes "allocate_name ow purpose kind candidate obs field reason m l = Inr (v, l')"
  shows "\<exists>a. map_of (lg_by_key l') (scope_key ow, kind, purpose) = Some a \<and> al_value a = v"
  using name_alloc.recorded [OF assms] name_alloc.again [OF _ assms] allocate_name_existing
  by (fastforce simp: ledger_get_def)

text \<open>What the ledger and the constructor's checks say of a compiled segment.\<close>

definition recorded_as :: "ledger \<Rightarrow> vnet_spec \<Rightarrow> allocation_kind \<Rightarrow> (string \<Rightarrow> bool) \<Rightarrow> bool" where
  "recorded_as l v kind reads \<longleftrightarrow>
     (\<exists>a. map_of (lg_by_key l) (scope_key (vn_ownership v), kind, vn_alias v) = Some a \<and> reads (al_value a))"

definition compiled_vnet :: "lab_request \<Rightarrow> ledger \<Rightarrow> vnet_spec \<Rightarrow> bool" where
  "compiled_vnet r l v \<longleftrightarrow> vn_ownership v = lab_ownership r KIND_NETWORK (team_of v) \<and>
     vn_alias v = segment_purpose (team_of v) (vn_role v) \<and>
     (\<exists>proposed. (team_of v, vn_role v, proposed) \<in> set (lab_segments r)) \<and> \<not> sb_routed (vn_subnet v) \<and>
     recorded_as l v VK_vnet_name (\<lambda>s. s = vn_name v) \<and>
     recorded_as l v VK_vlan_tag (\<lambda>s. py_int s = Some (vn_vlan_tag v)) \<and>
     (\<exists>n. ip_network True (sb_cidr (vn_subnet v)) = Some n \<and> sb_cidr (vn_subnet v) = net_str n \<and>
       recorded_as l v VK_subnet (\<lambda>s. ip_network True s = Some n))"

lemma recorded_as_extends: "recorded_as l v kind reads \<Longrightarrow> extends l l' \<Longrightarrow> recorded_as l' v kind reads"
  unfolding recorded_as_def extends_def by blast

lemma compiled_vnet_extends: "compiled_vnet r l v \<Longrightarrow> extends l l' \<Longrightarrow> compiled_vnet r l' v"
  unfolding compiled_vnet_def by (meson recorded_as_extends)

definition named :: "ledger \<Rightarrow> alloc_key \<Rightarrow> string \<Rightarrow> bool" where
  "named l k n \<longleftrightarrow> (\<exists>a. map_of (lg_by_key l) k = Some a \<and> al_value a = n)"

lemma named_extends: "named l k n \<Longrightarrow> extends l l' \<Longrightarrow> named l' k n"
  unfolding named_def extends_def by blast

lemma named_inject:
  assumes "conflict_free l" and "named l (s, kind, p) n" and "named l (s', kind, p') n" and "kind \<in> NAME_KINDS"
  shows "(s, kind, p) = (s', kind, p')"
proof (rule ccontr)
  assume ne: "(s, kind, p) \<noteq> (s', kind, p')"
  from assms(2,3) obtain a b where ab: "map_of (lg_by_key l) (s, kind, p) = Some a" "al_value a = n"
    "map_of (lg_by_key l) (s', kind, p') = Some b" "al_value b = n" unfolding named_def by blast
  have "al_kind a = kind" "al_kind b = kind"
    using conflict_freeD(2) [OF assms(1) ab(1)] conflict_freeD(2) [OF assms(1) ab(3)] by (simp_all add: allocation_key_def)
  with conflict_freeD(3) [OF assms(1) ab(1,3) ne] ab(2,4) assms(4) show False by (simp add: clash_def)
qed

definition segments_ok :: "lab_request \<Rightarrow> segment list \<Rightarrow> compile_state \<Rightarrow> bool" where
  "segments_ok r ys st \<longleftrightarrow> (case st of (compiled, l, blocked) \<Rightarrow> safe_ledger l \<and> distinct (dict_keys compiled) \<and>
     (\<forall>(n, v) \<in> set compiled. vn_name v = n \<and> compiled_vnet r l v) \<and>
     (blocked = [] \<longrightarrow> (\<forall>(t, role, _) \<in> set ys. \<exists>(_, v) \<in> set compiled. team_of v = t \<and> vn_role v = role)))"

lemma lab_segments_role: "(t, role, p) \<in> set (lab_segments r) \<Longrightarrow> t = None \<longleftrightarrow> role = SR_scoring"
  by (auto simp: lab_segments_def team_segments_def split: if_splits)

lemma segment_role_value_inject [simp]: "segment_role_value a = segment_role_value b \<longleftrightarrow> a = b"
  by (cases a; cases b) simp_all

lemma segment_key_inject:
  assumes "(t, role, p) \<in> set (lab_segments r)" and "(t', role', p') \<in> set (lab_segments r)"
    and "scope_key (lab_ownership r k t) = scope_key (lab_ownership r k t')"
    and "segment_purpose t role = segment_purpose t' role'"
  shows "t = t' \<and> role = role'"
  using assms lab_segments_role [OF assms(1)] lab_segments_role [OF assms(2)]
  by (cases t; cases t') (auto simp: scope_key_def lab_ownership_def segment_purpose_def split: if_splits)

lemma compiled_vnet_same:
  assumes "safe_ledger l" and "compiled_vnet r l v" and "compiled_vnet r l w" and "vn_name v = vn_name w"
  shows "team_of v = team_of w \<and> vn_role v = vn_role w"
proof -
  from assms(2-4) have "named l (scope_key (vn_ownership v), VK_vnet_name, vn_alias v) (vn_name w)"
    "named l (scope_key (vn_ownership w), VK_vnet_name, vn_alias w) (vn_name w)"
    by (auto simp: compiled_vnet_def recorded_as_def named_def)
  with assms(1) have "scope_key (vn_ownership v) = scope_key (vn_ownership w) \<and> vn_alias v = vn_alias w"
    using named_inject [of l] by (simp add: safe_ledger_def NAME_KINDS_def)
  with assms(2,3) show ?thesis unfolding compiled_vnet_def by (metis segment_key_inject)
qed

lemma logged_unblocked:
  assumes "logged alloc (l, b) = Inr (v, l', [])"
  shows "b = []" and "\<exists>x. v = Some x \<and> alloc l = Inr (x, l')"
  using assms by (cases rule: logged_cases; simp)+

lemma logged_Some:
  assumes "logged alloc (l, b) = Inr (Some x, l', b')" shows "alloc l = Inr (x, l')" and "b' = b"
  using assms by (cases rule: logged_cases; simp)+

lemma build_vnet_Inr:
  assumes "build_vnet r zone_name ow purpose role name vlan subnet l = Inr (v, l')"
  shows "vn_name v = name" and "vn_vlan_tag v = vlan" and "sb_cidr (vn_subnet v) = net_str subnet"
    and "\<not> sb_routed (vn_subnet v)" and "vn_role v = role" and "vn_ownership v = ow" and "vn_alias v = purpose"
    and "\<exists>n. ip_network True (net_str subnet) = Some n" and "safe_ledger l \<Longrightarrow> safe_ledger l'" and "extends l l'"
proof -
  from assms obtain gateway where g: "allocate_address ow (purpose @ ''/gateway'') subnet VK_gateway_address (Some 0) l = Inr (gateway, l')"
    by (auto simp: build_vnet_def of_alloc_def bindE_Inr Let_def map_sum_def split: sum.splits)
  from gateway_alloc.safe [OF _ g] gateway_alloc.grows [OF g] show "safe_ledger l \<Longrightarrow> safe_ledger l'" "extends l l'" by blast+
qed (use assms in \<open>auto simp: build_vnet_def of_alloc_def bindE_Inr Let_def subnet_post_init_def\<close>)

lemma compile_segment_ok:
  assumes "segments_ok r ys st" and "compile_segment r obs zone_name st seg = Inr st'" and "seg \<in> set (lab_segments r)"
  shows "segments_ok r (ys @ [seg]) st'"
proof -
  obtain compiled l0 b0 where st: "st = (compiled, l0, b0)" by (cases st)
  obtain team role proposed where seg: "seg = (team, role, proposed)" by (cases seg)
  let ?ow = "lab_ownership r KIND_NETWORK team" and ?p = "segment_purpose team role"
  from assms(2) obtain name l1 b1 vlan l2 b2 subnet l3 b3 where
    1: "logged (sdn_name ?ow ?p VK_vnet_name proposed obs) (l0, b0) = Inr (name, l1, b1)" and
    2: "logged (allocate_int ?ow VK_vlan_tag ?p (pl_vlan_min (lr_pools r)) (pl_vlan_max (lr_pools r))
          (to_vlan_tags_in_use obs) ''TargetObservation.vlan_tags_in_use'' ''proxmox.vlan_inventory_missing'') (l1, b1)
        = Inr (vlan, l2, b2)" and
    3: "logged (allocate_subnet ?ow ?p (lr_pools r) (to_subnets_in_use obs) (ti_management_cidrs (to_identity obs))) (l2, b2)
        = Inr (subnet, l3, b3)" and
    rest: "add_vnet r zone_name ?ow ?p role compiled (name, vlan, subnet) (l3, b3) = Inr st'"
    unfolding compile_segment_def st seg by (auto simp: bindE_Inr Let_def)
  from assms(1) have s0: "safe_ledger l0" and dist: "distinct (dict_keys compiled)"
    and old: "\<And>n v. (n, v) \<in> set compiled \<Longrightarrow> vn_name v = n \<and> compiled_vnet r l0 v"
    and full: "b0 = [] \<Longrightarrow> \<forall>(t, role, _) \<in> set ys. \<exists>(_, v) \<in> set compiled. team_of v = t \<and> vn_role v = role"
    by (auto simp: segments_ok_def st)
  note s1 = vnet_name_alloc.logged_safe [OF 1 s0]
  note s2 = vlan_alloc.logged_safe [OF 2 s1(1)]
  note s3 = segment_subnet_alloc.logged_safe [OF 3 s2(1)]
  have ext: "extends l0 l3" using s1(2) s2(2) s3(2) extends_trans by blast
  show ?thesis
  proof (cases "\<exists>n v s. name = Some n \<and> vlan = Some v \<and> subnet = Some s")
    case False
    with rest have st': "st' = (compiled, l3, b3)" by (auto simp: add_vnet_def split: option.splits)
    have "b3 \<noteq> []" using False 1 2 3 by (metis logged_unblocked)
    with st' s3(1) dist old compiled_vnet_extends [OF _ ext] show ?thesis by (auto simp: segments_ok_def)
  next
    case True
    then obtain n v s where some: "name = Some n" "vlan = Some v" "subnet = Some s" by blast
    with rest obtain vnet l' where b: "build_vnet r zone_name ?ow ?p role n v s l3 = Inr (vnet, l')"
      and st': "st' = (dict_set n vnet compiled, l', b3)" by (auto simp: add_vnet_def bindE_Inr)
    note bv = build_vnet_Inr [OF b]
    have ext': "extends l0 l'" using ext bv(10) extends_trans by blast
    from 1 some(1) have "sdn_name ?ow ?p VK_vnet_name proposed obs l0 = Inr (n, l1)" by (cases rule: logged_cases) auto
    from name_recorded [OF this [unfolded sdn_name_def]] have n: "recorded_as l1 vnet VK_vnet_name (\<lambda>s. s = vn_name vnet)"
      by (auto simp: recorded_as_def bv)
    from 2 some(2) have "allocate_int ?ow VK_vlan_tag ?p (pl_vlan_min (lr_pools r)) (pl_vlan_max (lr_pools r))
          (to_vlan_tags_in_use obs) ''TargetObservation.vlan_tags_in_use'' ''proxmox.vlan_inventory_missing'' l1 = Inr (v, l2)"
      by (cases rule: logged_cases) auto
    from vlan_recorded [OF this] have v: "recorded_as l2 vnet VK_vlan_tag (\<lambda>s. py_int s = Some (vn_vlan_tag vnet))"
      by (auto simp: recorded_as_def bv)
    from 3 some(3) have "allocate_subnet ?ow ?p (lr_pools r) (to_subnets_in_use obs) (ti_management_cidrs (to_identity obs)) l2
        = Inr (s, l3)" by (cases rule: logged_cases) auto
    from subnet_recorded [OF this] have sr: "recorded_as l3 vnet VK_subnet (\<lambda>t. ip_network True t = Some s)"
      by (auto simp: recorded_as_def bv)
    then have wf: "wf_net s" using ip_network_wf by (auto simp: recorded_as_def)
    have new: "compiled_vnet r l' vnet"
      unfolding compiled_vnet_def
      using n v sr s2(2) s3(2) bv(3-7,10) assms(3) ip_network_net_str [OF wf]
      by (auto simp: seg team_of_def lab_ownership_def intro: recorded_as_extends extends_trans)
    have kept: "compiled_vnet r l' w" "vn_name w = m" if "(m, w) \<in> set compiled" for m w
      using old [OF that] compiled_vnet_extends [OF _ ext'] by blast+
    have safe: "safe_ledger l'" using bv(9) s3(1) .
    have full': "\<exists>(_, w) \<in> set (dict_set n vnet compiled). team_of w = t' \<and> vn_role w = role'"
      if "(t', role', p') \<in> set (ys @ [seg])" "b3 = []" for t' role' p'
    proof (cases "(t', role', p') = seg")
      case True
      then show ?thesis using bv(5,6) dict_set_has [of n vnet compiled] by (force simp: seg team_of_def lab_ownership_def)
    next
      case False
      with that have y: "(t', role', p') \<in> set ys" by simp
      from that(2) 1 2 3 have "b0 = []" by (metis logged_unblocked(1))
      from full [OF this] y obtain m w where w: "(m, w) \<in> set compiled" "team_of w = t'" "vn_role w = role'" by blast
      show ?thesis
      proof (cases "m = n")
        case True
        with old [OF w(1)] bv(1) have "vn_name vnet = vn_name w" "compiled_vnet r l' w"
          using compiled_vnet_extends [OF _ ext'] by auto
        with compiled_vnet_same [OF safe new] w(2,3) have "team_of vnet = t' \<and> vn_role vnet = role'" by simp
        then show ?thesis using dict_set_has [of n vnet compiled] by blast
      next
        case False
        then show ?thesis using w dict_set_keeps [OF w(1), of n vnet] by blast
      qed
    qed
    have "\<forall>(m, w) \<in> set (dict_set n vnet compiled). vn_name w = m \<and> compiled_vnet r l' w"
      using bv(1) new kept by (auto dest!: set_dict_set)
    moreover have "b3 = [] \<longrightarrow> (\<forall>(t, role, _) \<in> set (ys @ [seg]).
        \<exists>(_, w) \<in> set (dict_set n vnet compiled). team_of w = t \<and> vn_role w = role)"
      using full' by blast
    ultimately show ?thesis
      unfolding segments_ok_def st' prod.case using dist safe by simp
  qed
qed

section \<open>IP sets\<close>

lemma mapE_each: "mapE f xs = Inr ys \<Longrightarrow> x \<in> set xs \<Longrightarrow> \<exists>y. f x = Inr y"
  by (induction xs arbitrary: ys) (auto simp: bindE_Inr)

lemma make_ip_set_Inr:
  assumes "make_ip_set name cidrs ow comment = Inr s"
  shows "is_name s = name" and "is_cidrs s = cidrs" and "is_ownership s = ow"
    and "c \<in> set cidrs \<Longrightarrow> \<exists>n. ip_network False c = Some n"
  using assms by (auto simp: make_ip_set_def Let_def bindE_Inr ip_set_post_init_def dest: mapE_each)

lemma group_by_team_snoc: "group_by_team (vs @ [v]) = dict_set (team_of v)
    ((case map_of (group_by_team vs) (team_of v) of None \<Rightarrow> [] | Some ws \<Rightarrow> ws) @ [v]) (group_by_team vs)"
  by (simp add: group_by_team_def team_of_def Let_def)

lemma group_by_team_lookup:
  "map_of (group_by_team vs) t = (if filter (\<lambda>v. team_of v = t) vs = [] then None else Some (filter (\<lambda>v. team_of v = t) vs))"
proof (induction vs rule: rev_induct)
  case (snoc v vs)
  then show ?case by (auto simp: group_by_team_snoc simp del: map_of_eq_None_iff)
qed (simp add: group_by_team_def)

lemma distinct_group_by_team: "distinct (dict_keys (group_by_team vs))"
proof (induction vs rule: rev_induct)
  case (snoc v vs)
  then show ?case by (simp add: group_by_team_snoc)
qed (simp add: group_by_team_def)

lemma sorted_teams_memb:
  "(t, ws) \<in> set (sorted_teams vs) \<longleftrightarrow> ws = filter (\<lambda>v. team_of v = t) vs \<and> ws \<noteq> []"
proof -
  have "(t, ws) \<in> set (sorted_teams vs) \<longleftrightarrow> map_of (group_by_team vs) t = Some ws"
    using distinct_group_by_team [of vs] by (simp add: sorted_teams_def)
  then show ?thesis by (auto simp: group_by_team_lookup simp del: map_of_eq_Some_iff)
qed

definition team_cidrs :: "vnet_spec list \<Rightarrow> string \<Rightarrow> string list" where
  "team_cidrs vnets t = map (\<lambda>v. sb_cidr (vn_subnet v)) (filter (\<lambda>v. team_of v = Some t) vnets)"

definition team_key :: "lab_request \<Rightarrow> string \<Rightarrow> alloc_key" where
  "team_key r t = (scope_key (lab_ownership r KIND_NETWORK (Some t)), VK_firewall_object_name, t @ ''/ipset'')"

definition team_set :: "lab_request \<Rightarrow> vnet_spec list \<Rightarrow> ledger \<Rightarrow> ip_set_spec \<Rightarrow> bool" where
  "team_set r vnets l s \<longleftrightarrow> (\<exists>t. is_ownership s = lab_ownership r KIND_NETWORK (Some t) \<and>
     is_cidrs s = team_cidrs vnets t \<and> is_cidrs s \<noteq> [] \<and> named l (team_key r t) (is_name s))"

definition cidrs_parse :: "ip_set_spec \<Rightarrow> bool" where
  "cidrs_parse s \<longleftrightarrow> (\<forall>c \<in> set (is_cidrs s). ip_network False c \<noteq> None)"

definition sets_ok :: "lab_request \<Rightarrow> vnet_spec list \<Rightarrow> ip_set_spec list \<Rightarrow> ledger \<Rightarrow> (string option \<times> vnet_spec list) list \<Rightarrow>
    ip_set_spec list \<times> log_state \<Rightarrow> bool" where
  "sets_ok r vnets planes l0 ys st \<longleftrightarrow> (case st of (sets, l, b) \<Rightarrow> safe_ledger l \<and> extends l0 l \<and>
     (\<exists>ts. sets = planes @ ts \<and> (\<forall>s \<in> set ts. team_set r vnets l s \<and> cidrs_parse s) \<and>
       (b = [] \<longrightarrow> (\<forall>t ws. (Some t, ws) \<in> set ys \<longrightarrow> (\<exists>s \<in> set ts. ow_team_ref (is_ownership s) = Some t)))))"

lemma team_set_extends: "team_set r vnets l s \<Longrightarrow> extends l l' \<Longrightarrow> team_set r vnets l' s"
  unfolding team_set_def using named_extends by blast

lemma compile_team_set_ok:
  assumes ok: "sets_ok r vnets planes l0 ys st" and step: "compile_team_set r obs st item = Inr st'"
    and item: "item \<in> set (sorted_teams vnets)"
  shows "sets_ok r vnets planes l0 (ys @ [item]) st'"
proof -
  obtain sets l b where st: "st = (sets, l, b)" by (cases st)
  obtain team ws where it: "item = (team, ws)" by (cases item)
  from ok obtain ts where s0: "safe_ledger l" "extends l0 l" and sets: "sets = planes @ ts"
    and ts: "\<forall>s \<in> set ts. team_set r vnets l s \<and> cidrs_parse s"
    and full: "b = [] \<longrightarrow> (\<forall>t ws. (Some t, ws) \<in> set ys \<longrightarrow> (\<exists>s \<in> set ts. ow_team_ref (is_ownership s) = Some t))"
    unfolding sets_ok_def st prod.case by blast
  show ?thesis
  proof (cases team)
    case None
    with step st it have "st' = (sets, l, b)" by (simp add: compile_team_set_def)
    then show ?thesis using ok st it None by (auto simp: sets_ok_def)
  next
    case (Some t)
    let ?ow = "lab_ownership r KIND_NETWORK (Some t)"
    from step st it Some obtain name l1 b1 where
      lg: "logged (firewall_name ?ow (t @ ''/ipset'') (''secp-team-'' @ t) obs) (l, b) = Inr (name, l1, b1)"
      and rest: "(case name of None \<Rightarrow> Inr (sets, l1, b1)
             | Some n \<Rightarrow> bindE (make_ip_set n (map (\<lambda>v. sb_cidr (vn_subnet v)) ws) ?ow
                 (''All segments belonging to team '' @ t @ ''.'')) (\<lambda>s. Inr (sets @ [s], l1, b1))) = Inr st'"
      by (auto simp: compile_team_set_def bindE_Inr Let_def split del: option.split)
    note s1 = team_set_alloc.logged_safe [OF lg s0(1)]
    have ext: "extends l0 l1" using s0(2) s1(2) extends_trans by blast
    have ts: "\<forall>s \<in> set ts. team_set r vnets l1 s \<and> cidrs_parse s" using ts team_set_extends [OF _ s1(2)] by blast
    show ?thesis
    proof (cases name)
      case None
      with lg have "b1 \<noteq> []" by (cases rule: logged_cases) auto
      with None rest s1 ext ts sets show ?thesis by (auto simp: sets_ok_def)
    next
      case (Some n)
      with rest obtain s where mk: "make_ip_set n (map (\<lambda>v. sb_cidr (vn_subnet v)) ws) ?ow
          (''All segments belonging to team '' @ t @ ''.'') = Inr s" and st': "st' = (sets @ [s], l1, b1)"
        by (auto simp: bindE_Inr)
      note mk = make_ip_set_Inr [OF mk]
      from logged_Some [OF lg [unfolded Some]] have nm: "firewall_name ?ow (t @ ''/ipset'') (''secp-team-'' @ t) obs l = Inr (n, l1)"
        and b1: "b1 = b" by auto
      have "named l1 (team_key r t) n"
        using name_recorded [OF nm [unfolded firewall_name_def]] by (simp add: named_def team_key_def)
      moreover have "ws = filter (\<lambda>v. team_of v = Some t) vnets" "ws \<noteq> []"
        using item it \<open>team = Some t\<close> sorted_teams_memb [of team ws vnets] by blast+
      ultimately have new: "team_set r vnets l1 s" "cidrs_parse s"
        using mk by (auto simp: team_set_def team_cidrs_def cidrs_parse_def)
      have own: "ow_team_ref (is_ownership s) = Some t" using mk(3) by (simp add: lab_ownership_def)
      have "\<forall>s' \<in> set (ts @ [s]). team_set r vnets l1 s' \<and> cidrs_parse s'"
        using ts new by auto
      moreover have "b1 = [] \<longrightarrow> (\<forall>t' ws. (Some t', ws) \<in> set (ys @ [item]) \<longrightarrow> (\<exists>s' \<in> set (ts @ [s]). ow_team_ref (is_ownership s') = Some t'))"
        using full b1 own it \<open>team = Some t\<close> by auto
      ultimately show ?thesis using s1(1) ext unfolding sets_ok_def st' sets by auto
    qed
  qed
qed

section \<open>Security groups\<close>

definition group_key :: "vnet_spec \<Rightarrow> alloc_key" where
  "group_key v = (scope_key (vn_ownership v), VK_firewall_object_name, vn_alias v @ ''/secgroup'')"

definition group_for :: "(vnet_spec \<Rightarrow> firewall_rule_spec list) \<Rightarrow> ledger \<Rightarrow> vnet_spec \<Rightarrow> security_group_spec \<Rightarrow> bool" where
  "group_for rules_of l v g \<longleftrightarrow> sg_rules g = band_positions (rules_of v) \<and>
     distinct (map fr_position (sg_rules g)) \<and> named l (group_key v) (sg_name g)"

definition groups_ok :: "(vnet_spec \<Rightarrow> firewall_rule_spec list) \<Rightarrow> ledger \<Rightarrow> vnet_spec list \<Rightarrow> group_state \<Rightarrow> bool" where
  "groups_ok rules_of l0 ys st \<longleftrightarrow> (case st of ((groups, attachment), l, b) \<Rightarrow> safe_ledger l \<and> extends l0 l \<and>
     (\<forall>g \<in> set groups. \<exists>v \<in> set ys. group_for rules_of l v g) \<and>
     (\<forall>x n. map_of attachment x = Some n \<longrightarrow> (\<exists>v \<in> set ys. \<exists>g \<in> set groups. vn_name v = x \<and> sg_name g = n \<and> group_for rules_of l v g)) \<and>
     (b = [] \<longrightarrow> (\<forall>v \<in> set ys. map_of attachment (vn_name v) \<noteq> None)))"

lemma group_for_extends: "group_for rules_of l v g \<Longrightarrow> extends l l' \<Longrightarrow> group_for rules_of l' v g"
  unfolding group_for_def using named_extends by blast

lemma compile_group_ok:
  assumes ok: "groups_ok (segment_rules r scoring sets) l0 ys st" and step: "compile_group r obs scoring sets st v = Inr st'"
  shows "groups_ok (segment_rules r scoring sets) l0 (ys @ [v]) st'"
proof -
  let ?R = "segment_rules r scoring sets"
  obtain groups attachment l b where st: "st = ((groups, attachment), l, b)" by (cases st) auto
  from ok have s0: "safe_ledger l" "extends l0 l" and gs: "\<forall>g \<in> set groups. \<exists>v \<in> set ys. group_for ?R l v g"
    and att: "\<forall>x n. map_of attachment x = Some n \<longrightarrow>
      (\<exists>v \<in> set ys. \<exists>g \<in> set groups. vn_name v = x \<and> sg_name g = n \<and> group_for ?R l v g)"
    and full: "b = [] \<longrightarrow> (\<forall>v \<in> set ys. map_of attachment (vn_name v) \<noteq> None)"
    unfolding groups_ok_def st prod.case by blast+
  from step st obtain name l1 b1 where
    lg: "logged (firewall_name (vn_ownership v) (vn_alias v @ ''/secgroup'') (''secp-sg-'' @ vn_name v) obs) (l, b) = Inr (name, l1, b1)"
    by (auto simp: compile_group_def bindE_Inr split del: option.split)
  note s1 = group_alloc.logged_safe [OF lg s0(1)]
  have ext: "extends l0 l1" using s0(2) s1(2) extends_trans by blast
  have gs1: "\<forall>g \<in> set groups. \<exists>v \<in> set ys. group_for ?R l1 v g" using gs group_for_extends [OF _ s1(2)] by blast
  have att1: "\<forall>x n. map_of attachment x = Some n \<longrightarrow>
      (\<exists>v \<in> set ys. \<exists>g \<in> set groups. vn_name v = x \<and> sg_name g = n \<and> group_for ?R l1 v g)"
    using att group_for_extends [OF _ s1(2)] by blast
  show ?thesis
  proof (cases name)
    case None
    with lg have "b1 \<noteq> []" by (cases rule: logged_cases) auto
    moreover from None step st lg have "st' = ((groups, attachment), l1, b1)" by (simp add: compile_group_def bindE_def)
    ultimately show ?thesis using s1(1) ext gs1 att1 unfolding groups_ok_def by simp
  next
    case (Some n)
    define g where "g = \<lparr>sg_name = n, sg_rules = band_positions (?R v), sg_ownership = vn_ownership v,
      sg_comment = ''Isolation policy for segment '' @ vn_name v @ '' ('' @ segment_role_value (vn_role v) @ '').''\<rparr>"
    from step st lg Some have g: "sg_name g = n" "sg_rules g = band_positions (?R v)" "security_group_post_init g = Inr ()"
      and st': "st' = ((groups @ [g], dict_set (vn_name v) n attachment), l1, b1)"
      by (auto simp: compile_group_def bindE_def Let_def g_def split: sum.splits)
    from logged_Some [OF lg [unfolded Some]] have nm: "firewall_name (vn_ownership v) (vn_alias v @ ''/secgroup'') (''secp-sg-'' @ vn_name v) obs l = Inr (n, l1)"
      and b1: "b1 = b" by auto
    have "named l1 (group_key v) n"
      using name_recorded [OF nm [unfolded firewall_name_def]] by (simp add: named_def group_key_def)
    then have new: "group_for ?R l1 v g" using g by (auto simp: group_for_def security_group_post_init_def bindE_Inr)
    have "\<forall>g' \<in> set (groups @ [g]). \<exists>w \<in> set (ys @ [v]). group_for ?R l1 w g'" using gs1 new by auto
    moreover have "\<exists>w \<in> set (ys @ [v]). \<exists>g' \<in> set (groups @ [g]). vn_name w = x \<and> sg_name g' = m \<and> group_for ?R l1 w g'"
      if "map_of (dict_set (vn_name v) n attachment) x = Some m" for x m
    proof (cases "x = vn_name v")
      case False
      with that have "map_of attachment x = Some m" by simp
      with att1 obtain w g' where "w \<in> set ys" "g' \<in> set groups" "vn_name w = x" "sg_name g' = m" "group_for ?R l1 w g'" by blast
      then show ?thesis by auto
    qed (use that new g(1) in auto)
    moreover have "b1 = [] \<longrightarrow> (\<forall>w \<in> set (ys @ [v]). map_of (dict_set (vn_name v) n attachment) (vn_name w) \<noteq> None)"
      using full b1 by auto
    ultimately show ?thesis using s1(1) ext unfolding groups_ok_def st' prod.case by blast
  qed
qed

lemma compile_group_log:
  assumes "compile_group r obs scoring sets (ga, l, b) v = Inr (ga', l', [])" shows "b = []"
  using assms by (auto simp: compile_group_def bindE_Inr Let_def split: prod.splits option.splits elim!: logged_cases)

lemma compile_groups_log:
  "foldE (compile_group r obs scoring sets) (ga, l, b) vs = Inr (ga', l', []) \<Longrightarrow> b = []"
proof (induction vs arbitrary: ga l b)
  case (Cons v vs)
  then show ?case by (force simp: bindE_Inr dest: compile_group_log)
qed simp

section \<open>A compiled plan\<close>

definition plan_rules :: "lab_request \<Rightarrow> network_plan \<Rightarrow> vnet_spec \<Rightarrow> firewall_rule_spec list" where
  "plan_rules r plan = segment_rules r (filter (\<lambda>v. vn_role v = SR_scoring) (np_vnets plan)) (team_ipset (np_ip_sets plan))"

definition plan_sets_ok :: "lab_request \<Rightarrow> target_observation \<Rightarrow> network_plan \<Rightarrow> ledger \<Rightarrow> bool" where
  "plan_sets_ok r obs plan l \<longleftrightarrow> (\<exists>planes ts. plane_ip_sets r obs = Inr planes \<and> np_ip_sets plan = planes @ ts \<and>
     (\<forall>s \<in> set ts. team_set r (np_vnets plan) l s \<and> cidrs_parse s) \<and>
     (\<forall>v \<in> set (np_vnets plan). \<forall>t. team_of v = Some t \<longrightarrow> (\<exists>s \<in> set ts. ow_team_ref (is_ownership s) = Some t)))"

definition plan_ok :: "lab_request \<Rightarrow> target_observation \<Rightarrow> network_plan \<Rightarrow> ledger \<Rightarrow> bool" where
  "plan_ok r obs plan l \<longleftrightarrow> safe_ledger l \<and> distinct (map vn_name (np_vnets plan)) \<and>
     (\<forall>v \<in> set (np_vnets plan). compiled_vnet r l v) \<and> plan_sets_ok r obs plan l \<and>
     (\<exists>l0. groups_ok (plan_rules r plan) l0 (np_vnets plan)
        ((np_security_groups plan, np_vnet_security_group plan), l, []))"

lemma compile_firewall_ok:
  assumes run: "compile_firewall r obs vnets (l, b) = Inr ((sets, groups, attachment), l', [])"
    and "safe_ledger l" and "distinct (map vn_name vnets)" and "\<forall>v \<in> set vnets. compiled_vnet r l v"
  shows "plan_ok r obs \<lparr>np_zone = zone, np_vnets = vnets, np_security_groups = groups, np_ip_sets = sets,
    np_vnet_security_group = attachment, np_egress = egress\<rparr> l'"
proof -
  from run obtain planes l1 b1 where planes: "plane_ip_sets r obs = Inr planes"
    and f1: "foldE (compile_team_set r obs) (planes, l, b) (sorted_teams vnets) = Inr (sets, l1, b1)"
    and f2: "foldE (compile_group r obs (filter (\<lambda>v. vn_role v = SR_scoring) vnets) (team_ipset sets))
         (([], []), l1, b1) vnets = Inr ((groups, attachment), l', [])"
    by (auto simp: compile_firewall_def bindE_Inr)
  have "sets_ok r vnets planes l [] (planes, l, b)" using assms(2) by (simp add: sets_ok_def)
  from foldE_invariant [where I = "sets_ok r vnets planes l", OF f1 this] compile_team_set_ok
  have s: "sets_ok r vnets planes l (sorted_teams vnets) (sets, l1, b1)" by blast
  let ?R = "segment_rules r (filter (\<lambda>v. vn_role v = SR_scoring) vnets) (team_ipset sets)"
  have "groups_ok ?R l1 [] (([], []), l1, b1)" using s by (simp add: groups_ok_def sets_ok_def)
  from foldE_invariant [where I = "groups_ok ?R l1", OF f2 this] compile_group_ok
  have g: "groups_ok ?R l1 vnets ((groups, attachment), l', [])" by blast
  have b1: "b1 = []" using compile_groups_log [OF f2] .
  from s g have ext: "extends l l1" "extends l1 l'" and safe: "safe_ledger l'" by (auto simp: sets_ok_def groups_ok_def)
  from s obtain ts where ts: "sets = planes @ ts" "\<forall>s \<in> set ts. team_set r vnets l1 s \<and> cidrs_parse s"
    and full: "\<forall>t ws. (Some t, ws) \<in> set (sorted_teams vnets) \<longrightarrow> (\<exists>s \<in> set ts. ow_team_ref (is_ownership s) = Some t)"
    unfolding sets_ok_def prod.case using b1 by blast
  have "\<exists>s \<in> set ts. ow_team_ref (is_ownership s) = Some t" if "v \<in> set vnets" "team_of v = Some t" for v t
    using full that sorted_teams_memb [of "Some t" "filter (\<lambda>v. team_of v = Some t) vnets" vnets]
    by (auto simp: filter_empty_conv)
  with planes ts team_set_extends [OF _ ext(2)]
  have "plan_sets_ok r obs \<lparr>np_zone = zone, np_vnets = vnets, np_security_groups = groups, np_ip_sets = sets,
    np_vnet_security_group = attachment, np_egress = egress\<rparr> l'" unfolding plan_sets_ok_def by fastforce
  then show ?thesis
    using assms(3,4) safe g compiled_vnet_extends [OF _ extends_trans [OF ext]]
    by (auto simp: plan_ok_def plan_rules_def)
qed

lemma compile_ok:
  assumes run: "compile_web_breach_lab r obs given = Inr (Compiled plan, l)"
    and "safe_ledger (case given of None \<Rightarrow> empty_ledger | Some l0 \<Rightarrow> l0)"
  shows "plan_ok r obs plan l" and "np_egress plan = lr_egress r"
    and "(t, role, p) \<in> set (lab_segments r) \<Longrightarrow> \<exists>v \<in> set (np_vnets plan). team_of v = t \<and> vn_role v = role"
proof -
  let ?l0 = "case given of None \<Rightarrow> empty_ledger | Some l0 \<Rightarrow> l0"
  from run obtain zone_name l1 b1 compiled l2 b2 zone sets groups attachment where
    z: "logged (sdn_name (lab_ownership r KIND_NETWORK None) ''sdn-zone'' VK_zone_name
            (''z'' @ take 7 (filter (\<lambda>c. c \<noteq> CHR ''-'') (lr_range_id r))) obs) (?l0, []) = Inr (zone_name, l1, b1)"
    and f: "foldE (compile_segment r obs zone_name) ([], l1, b1) (lab_segments r) = Inr (compiled, l2, b2)"
    and w: "compile_firewall r obs (map snd (sort_key fst compiled)) (l2, b2) = Inr ((sets, groups, attachment), l, [])"
    and b2: "b2 = []"
    and plan: "plan = \<lparr>np_zone = zone, np_vnets = map snd (sort_key fst compiled), np_security_groups = groups,
      np_ip_sets = sets, np_vnet_security_group = attachment, np_egress = lr_egress r\<rparr>"
    by (auto simp: compile_web_breach_lab_def bindE_Inr Let_def split: if_splits option.splits)
  have "segments_ok r [] ([], l1, b1)" using zone_name_alloc.logged_safe [OF z assms(2)] by (simp add: segments_ok_def)
  from foldE_invariant [where I = "segments_ok r", OF f this] compile_segment_ok
  have s: "segments_ok r (lab_segments r) (compiled, l2, b2)" by blast
  have names: "map vn_name (map snd (sort_key fst compiled)) = map fst (sort_key fst compiled)"
    using s by (auto simp: segments_ok_def)
  have "distinct (map vn_name (map snd (sort_key fst compiled)))"
    unfolding names using s by (simp add: segments_ok_def distinct_map)
  moreover have "safe_ledger l2" "\<forall>v \<in> set (map snd (sort_key fst compiled)). compiled_vnet r l2 v"
    using s by (auto simp: segments_ok_def)
  ultimately show "plan_ok r obs plan l" "np_egress plan = lr_egress r"
    unfolding plan using compile_firewall_ok [OF w] by simp_all
  assume "(t, role, p) \<in> set (lab_segments r)"
  with s b2 have "\<exists>(_, v) \<in> set compiled. team_of v = t \<and> vn_role v = role" by (auto simp: segments_ok_def)
  then show "\<exists>v \<in> set (np_vnets plan). team_of v = t \<and> vn_role v = role" unfolding plan by force
qed

end
