(* ===== verification/Proxmox_Policy.thy ===== *)
theory Proxmox_Policy
  imports Proxmox_Compiled
begin

text \<open>
  The policy a compiled plan enforces. \<open>outbound_allowed\<close> and \<open>inbound_allowed\<close> say in terms of
  addresses, without rules or positions, which flows a segment may have; the evaluator on a compiled
  plan is shown to decide exactly these.
\<close>

section \<open>First match, exactly\<close>

definition rule_readable :: "(string, string list) dict \<Rightarrow> firewall_direction \<Rightarrow> firewall_rule_spec \<Rightarrow> bool" where
  "rule_readable sets direction x \<longleftrightarrow> (case resolve (match_field direction x) sets of None \<Rightarrow> True
     | Some cs \<Rightarrow> list_all (\<lambda>c. ip_network False c \<noteq> None) cs)"

definition covers :: "string list \<Rightarrow> nat \<Rightarrow> bool" where
  "covers cs a \<longleftrightarrow> (\<exists>c \<in> set cs. \<exists>n. ip_network False c = Some n \<and> net_contains n a)"

lemma covers_simps [simp]: "\<not> covers [] a"
    "covers (c # cs) a \<longleftrightarrow> (\<exists>n. ip_network False c = Some n \<and> net_contains n a) \<or> covers cs a"
  by (simp_all add: covers_def)

lemma anyE_in_cidr: "list_all (\<lambda>c. ip_network False c \<noteq> None) cs \<Longrightarrow> anyE (in_cidr a) cs = Inr (covers cs a)"
  by (induction cs) (auto simp: in_cidr_def parsed_def bindE_def)

lemma address_matches_eq:
  assumes "parse_ip addr = Some a" and "rule_readable sets direction x"
  shows "address_matches addr (resolve (match_field direction x) sets) =
    Inr (case resolve (match_field direction x) sets of None \<Rightarrow> True | Some cs \<Rightarrow> covers cs a)"
  using assms by (auto simp: address_matches_def rule_readable_def anyE_in_cidr parsed_def bindE_def split: option.splits)

lemma first_match_total:
  assumes "parse_ip addr = Some a" and "\<And>x. x \<in> set xs \<Longrightarrow> fr_direction x = direction \<Longrightarrow> rule_readable sets direction x"
  shows "\<exists>v. first_match sets addr port proto direction xs = Inr v"
  using assms(2) by (induction xs) (auto simp: address_matches_eq [OF assms(1)] bindE_def)

lemma first_match_iff:
  assumes "first_match sets addr port proto direction (sort_key fr_position xs) = Inr v"
    and "\<And>x y. x \<in> set xs \<Longrightarrow> y \<in> set xs \<Longrightarrow> fr_position x = fr_position y \<Longrightarrow> x = y"
  shows "v = FV_accept \<longleftrightarrow> (\<exists>a \<in> set xs. fr_verdict a = FV_accept \<and> rule_matches sets addr port proto direction a \<and>
    (\<forall>d \<in> set xs. fr_verdict d \<noteq> FV_accept \<longrightarrow> rule_matches sets addr port proto direction d \<longrightarrow> fr_position a < fr_position d))"
proof (cases "find (rule_matches sets addr port proto direction) (sort_key fr_position xs)")
  case None
  with first_match_Inr [OF assms(1)] show ?thesis by (auto simp: find_None_iff)
next
  case (Some y)
  note found = find_sort_key [OF Some]
  from first_match_Inr [OF assms(1)] Some have "v = fr_verdict y" by simp
  with found assms(2) show ?thesis by (metis leD order_le_imp_less_or_eq)
qed

lemma rule_matches_position [simp]:
  "rule_matches sets addr port proto direction (x\<lparr>fr_position := p\<rparr>) = rule_matches sets addr port proto direction x"
  by (simp add: rule_matches_def match_field_def service_matches_def)

lemma rule_matches_direction: "rule_matches sets addr port proto direction x \<Longrightarrow> fr_direction x = direction"
  by (simp add: rule_matches_def)

text \<open>The two directions are kept apart by bands of positions, so a rule competes only with rules of
  its own direction and positions compare as they were written.\<close>

lemma first_match_banded:
  assumes run: "first_match sets addr port proto direction (sort_key fr_position (band_positions xs)) = Inr v"
    and dist: "distinct (map fr_position (band_positions xs))"
  shows "v = FV_accept \<longleftrightarrow> (\<exists>a \<in> set xs. fr_verdict a = FV_accept \<and> rule_matches sets addr port proto direction a \<and>
    (\<forall>d \<in> set xs. fr_verdict d \<noteq> FV_accept \<longrightarrow> rule_matches sets addr port proto direction d \<longrightarrow> fr_position a < fr_position d))"
proof -
  let ?b = "\<lambda>x. x\<lparr>fr_position := fr_position x + (if fr_direction x = FD_outbound then 0 else INBOUND_BAND)\<rparr>"
  have unique: "x = y" if "x \<in> set (band_positions xs)" "y \<in> set (band_positions xs)" "fr_position x = fr_position y" for x y
    using dist that by (auto simp: distinct_map inj_on_def)
  have set: "set (band_positions xs) = ?b ` set xs" by (simp add: band_positions_def)
  have order: "fr_position (?b a) < fr_position (?b d) \<longleftrightarrow> fr_position a < fr_position d"
    if "rule_matches sets addr port proto direction a" "rule_matches sets addr port proto direction d" for a d
    using that [THEN rule_matches_direction] by simp
  have "v = FV_accept \<longleftrightarrow> (\<exists>a \<in> ?b ` set xs. fr_verdict a = FV_accept \<and> rule_matches sets addr port proto direction a \<and>
    (\<forall>d \<in> ?b ` set xs. fr_verdict d \<noteq> FV_accept \<longrightarrow> rule_matches sets addr port proto direction d \<longrightarrow> fr_position a < fr_position d))"
    using first_match_iff [OF run] unique unfolding set by blast
  also have "\<dots> \<longleftrightarrow> (\<exists>a \<in> set xs. fr_verdict a = FV_accept \<and> rule_matches sets addr port proto direction a \<and>
    (\<forall>d \<in> set xs. fr_verdict d \<noteq> FV_accept \<longrightarrow> rule_matches sets addr port proto direction d \<longrightarrow> fr_position (?b a) < fr_position (?b d)))"
    by simp
  also have "\<dots> \<longleftrightarrow> (\<exists>a \<in> set xs. fr_verdict a = FV_accept \<and> rule_matches sets addr port proto direction a \<and>
    (\<forall>d \<in> set xs. fr_verdict d \<noteq> FV_accept \<longrightarrow> rule_matches sets addr port proto direction d \<longrightarrow> fr_position a < fr_position d))"
    using order by blast
  finally show ?thesis .
qed

lemma first_match_verdict:
  assumes "first_match sets addr port proto direction xs = Inr v"
    and "\<And>x. x \<in> set xs \<Longrightarrow> fr_verdict x \<noteq> FV_reject"
  shows "v \<noteq> FV_reject"
  using first_match_Inr [OF assms(1)] assms(2)
  by (fastforce simp: find_Some_iff split: option.splits)

section \<open>Lookups in a compiled plan\<close>

lemma plan_okD:
  assumes "plan_ok r obs plan l"
  shows "safe_ledger l" and "conflict_free l" and "distinct (map vn_name (np_vnets plan))"
    and "v \<in> set (np_vnets plan) \<Longrightarrow> compiled_vnet r l v"
  using assms by (simp_all add: plan_ok_def safe_ledger_def)

text \<open>A segment is determined by the key of its ledger entries.\<close>

lemma plan_vnet_inject:
  assumes "plan_ok r obs plan l" and "v \<in> set (np_vnets plan)" and "w \<in> set (np_vnets plan)"
    and "scope_key (vn_ownership v) = scope_key (vn_ownership w)" and "vn_alias v = vn_alias w"
  shows "v = w"
proof -
  have "vn_name v = vn_name w"
    using plan_okD(4) [OF assms(1,2)] plan_okD(4) [OF assms(1,3)] assms(4,5)
    by (auto simp: compiled_vnet_def recorded_as_def)
  with plan_okD(3) [OF assms(1)] assms(2,3) show ?thesis by (auto simp: distinct_map inj_on_def)
qed

lemma plan_flow:
  assumes ok: "plan_ok r obs plan l" and v: "v \<in> set (np_vnets plan)"
  shows "evaluate_flow plan (vn_name v) addr port proto direction =
      first_match (ip_set_table (np_ip_sets plan)) addr port proto direction (sort_key fr_position (band_positions (plan_rules r plan v)))"
    and "distinct (map fr_position (band_positions (plan_rules r plan v)))"
proof -
  from ok have gs: "\<forall>g \<in> set (np_security_groups plan). \<exists>w \<in> set (np_vnets plan). group_for (plan_rules r plan) l w g"
    and att: "\<forall>x n. map_of (np_vnet_security_group plan) x = Some n \<longrightarrow> (\<exists>w \<in> set (np_vnets plan).
      \<exists>g \<in> set (np_security_groups plan). vn_name w = x \<and> sg_name g = n \<and> group_for (plan_rules r plan) l w g)"
    and all: "\<forall>w \<in> set (np_vnets plan). map_of (np_vnet_security_group plan) (vn_name w) \<noteq> None"
    unfolding plan_ok_def groups_ok_def prod.case by blast+
  from all v obtain n where n: "map_of (np_vnet_security_group plan) (vn_name v) = Some n" by blast
  with att obtain w g where g: "w \<in> set (np_vnets plan)" "g \<in> set (np_security_groups plan)" "vn_name w = vn_name v"
    "sg_name g = n" "group_for (plan_rules r plan) l w g" by blast
  then have "w = v" using plan_okD(3) [OF ok] v by (auto simp: distinct_map inj_on_def)
  with g have nv: "named l (group_key v) n" and "distinct (map fr_position (band_positions (plan_rules r plan v)))"
    by (auto simp: group_for_def)
  then show "distinct (map fr_position (band_positions (plan_rules r plan v)))" by simp
  obtain g' where find: "find (\<lambda>g. sg_name g = n) (np_security_groups plan) = Some g'"
    using g(2,4) by (cases "find (\<lambda>g. sg_name g = n) (np_security_groups plan)") (auto simp: find_None_iff)
  then have "g' \<in> set (np_security_groups plan)" "sg_name g' = n" by (auto simp: find_Some_iff)
  with gs obtain w' where w': "w' \<in> set (np_vnets plan)" "group_for (plan_rules r plan) l w' g'" by blast
  with \<open>sg_name g' = n\<close> have "named l (group_key w') n" by (auto simp: group_for_def)
  from named_inject [OF plan_okD(2) [OF ok] this [unfolded group_key_def] nv [unfolded group_key_def]]
  have "group_key w' = group_key v" by (simp add: group_key_def NAME_KINDS_def)
  then have "w' = v" using plan_vnet_inject [OF ok w'(1) v] by (simp add: group_key_def)
  with w' n find show "evaluate_flow plan (vn_name v) addr port proto direction =
      first_match (ip_set_table (np_ip_sets plan)) addr port proto direction (sort_key fr_position (band_positions (plan_rules r plan v)))"
    by (simp add: evaluate_flow_def group_for_def ordered_rules_def)
qed

lemma plan_subnet:
  assumes "plan_ok r obs plan l" and "v \<in> set (np_vnets plan)"
  obtains n where "ip_network True (sb_cidr (vn_subnet v)) = Some n" and "ip_network False (sb_cidr (vn_subnet v)) = Some n"
    and "wf_net n" and "recorded_as l v VK_subnet (\<lambda>s. ip_network True s = Some n)"
proof -
  from plan_okD(4) [OF assms] obtain n where n: "ip_network True (sb_cidr (vn_subnet v)) = Some n" "sb_cidr (vn_subnet v) = net_str n"
    "recorded_as l v VK_subnet (\<lambda>s. ip_network True s = Some n)" by (auto simp: compiled_vnet_def)
  from ip_network_wf [OF n(1)] ip_network_net_str [of n False] n that show thesis by simp
qed

text \<open>No address belongs to two segments.\<close>

lemma plan_subnets_apart:
  assumes ok: "plan_ok r obs plan l" and v: "v \<in> set (np_vnets plan)" and w: "w \<in> set (np_vnets plan)"
    and "covers [sb_cidr (vn_subnet v)] a" and "covers [sb_cidr (vn_subnet w)] a"
  shows "v = w"
proof (rule ccontr)
  assume "v \<noteq> w"
  obtain n where n: "ip_network False (sb_cidr (vn_subnet v)) = Some n" "wf_net n" "recorded_as l v VK_subnet (\<lambda>s. ip_network True s = Some n)"
    using plan_subnet [OF ok v] by metis
  obtain m where m: "ip_network False (sb_cidr (vn_subnet w)) = Some m" "wf_net m" "recorded_as l w VK_subnet (\<lambda>s. ip_network True s = Some m)"
    using plan_subnet [OF ok w] by metis
  from n(3) m(3) obtain x y where x: "map_of (lg_by_key l) (scope_key (vn_ownership v), VK_subnet, vn_alias v) = Some x"
      "ip_network True (al_value x) = Some n"
    and y: "map_of (lg_by_key l) (scope_key (vn_ownership w), VK_subnet, vn_alias w) = Some y" "ip_network True (al_value y) = Some m"
    by (auto simp: recorded_as_def)
  note cf = conflict_freeD [OF plan_okD(2) [OF ok]]
  have "(scope_key (vn_ownership v), VK_subnet, vn_alias v) \<noteq> (scope_key (vn_ownership w), VK_subnet, vn_alias w)"
    using plan_vnet_inject [OF ok v w] \<open>v \<noteq> w\<close> by auto
  from cf(3) [OF x(1) y(1) this] have "\<not> clash x y" .
  moreover have "al_kind x = VK_subnet" "al_kind y = VK_subnet"
    using cf(2) [OF x(1)] cf(2) [OF y(1)] by (simp_all add: allocation_key_def)
  ultimately have "\<not> overlaps n m" using x(2) y(2) by (simp add: clash_def subnets_clash_def)
  moreover have "a \<in> net_range n" "a \<in> net_range m" using assms(4,5) n(1,2) m(1,2) by (auto simp: net_contains_iff)
  ultimately show False using overlaps_iff [OF n(2) m(2)] by blast
qed

section \<open>IP sets of a compiled plan\<close>

lemma map_of_agree: "(k, v) \<in> set kvs \<Longrightarrow> (\<And>v'. (k, v') \<in> set kvs \<Longrightarrow> v' = v) \<Longrightarrow> map_of kvs k = Some v"
  by (metis map_of_SomeD weak_map_of_SomeI)

lemma ip_set_table_lookup:
  assumes "s \<in> set sets" and "\<And>s'. s' \<in> set sets \<Longrightarrow> is_name s' = is_name s \<Longrightarrow> is_cidrs s' = is_cidrs s"
  shows "map_of (ip_set_table sets) (is_name s) = Some (is_cidrs s)"
  unfolding ip_set_table_def map_of_dict_of
proof (rule map_of_agree)
  show "(is_name s, is_cidrs s) \<in> set (rev (map (\<lambda>s. (is_name s, is_cidrs s)) sets))" using assms(1) by simp
  fix cs assume "(is_name s, cs) \<in> set (rev (map (\<lambda>s. (is_name s, is_cidrs s)) sets))"
  then obtain s' where "s' \<in> set sets" "is_name s' = is_name s" "cs = is_cidrs s'" by auto
  with assms(2) show "cs = is_cidrs s" by blast
qed

definition all_parse :: "string list \<Rightarrow> bool" where
  "all_parse cs \<longleftrightarrow> list_all (\<lambda>c. ip_network False c \<noteq> None) cs"

lemma cidrs_parse_iff: "cidrs_parse s \<longleftrightarrow> all_parse (is_cidrs s)"
  by (simp add: cidrs_parse_def all_parse_def list_all_iff)

lemma make_ip_set_parses: "make_ip_set name cidrs ow comment = Inr s \<Longrightarrow> cidrs_parse s"
  unfolding cidrs_parse_def using make_ip_set_Inr(2,4) [of name cidrs ow comment s] by (metis option.distinct(1))

lemma team_ipset_entry:
  assumes "map_of (team_ipset sets) t = Some n"
  shows "\<exists>s \<in> set sets. ow_team_ref (is_ownership s) = Some t \<and> is_name s = n"
proof -
  from assms have "(t, n) \<in> set (List.map_filter (\<lambda>s. case ow_team_ref (is_ownership s) of
     None \<Rightarrow> None | Some t \<Rightarrow> Some (t, is_name s)) sets)"
    unfolding team_ipset_def map_of_dict_of using map_of_SomeD by fastforce
  then show ?thesis by (auto simp: map_filter_def split: option.splits)
qed

lemma plane_ip_sets_Inr:
  assumes "plane_ip_sets r obs = Inr planes"
  obtains m cs where "planes = m # cs" and "is_name m = IPSET_MANAGEMENT" and "is_cidrs m = ti_management_cidrs (to_identity obs)"
    and "ow_team_ref (is_ownership m) = None" and "\<And>s. s \<in> set planes \<Longrightarrow> cidrs_parse s"
    and "\<And>c. c \<in> set cs \<Longrightarrow> is_name c = IPSET_CONTROL_PLANE \<and> is_cidrs c = lr_control_plane_cidrs r \<and> ow_team_ref (is_ownership c) = None"
    and "lr_control_plane_cidrs r \<noteq> [] \<Longrightarrow> cs \<noteq> []"
proof -
  let ?ow = "lab_ownership r KIND_NETWORK None"
  from assms obtain m where m: "make_ip_set IPSET_MANAGEMENT (ti_management_cidrs (to_identity obs)) ?ow
          ''Proxmox management plane. Never reachable from any scenario segment.'' = Inr m"
    by (auto simp: plane_ip_sets_def Let_def bindE_Inr)
  from assms m have rest: "planes = [m] \<and> lr_control_plane_cidrs r = [] \<or> (\<exists>c. planes = [m, c] \<and>
      make_ip_set IPSET_CONTROL_PLANE (lr_control_plane_cidrs r) ?ow ''SECP controller/worker management interfaces.'' = Inr c)"
    by (auto simp: plane_ip_sets_def Let_def bindE_Inr split: if_splits)
  note mk = make_ip_set_Inr [OF m]
  show thesis
    by (rule that [of m "tl planes"])
      (use rest mk make_ip_set_parses [OF m] in \<open>auto simp: lab_ownership_def dest: make_ip_set_parses make_ip_set_Inr(1-3)\<close>)
qed

lemma team_set_unreserved:
  assumes "safe_ledger l" and "team_set r vnets l s"
  shows "is_name s \<notin> RESERVED_NAMES"
proof -
  from assms(2) obtain t x where x: "map_of (lg_by_key l) (team_key r t) = Some x" "al_value x = is_name s"
    by (auto simp: team_set_def named_def)
  moreover have "al_kind x = VK_firewall_object_name"
    using conflict_freeD(2) [OF _ x(1)] assms(1) by (simp add: safe_ledger_def allocation_key_def team_key_def)
  ultimately show ?thesis using assms(1) unfolding safe_ledger_def by metis
qed

lemma team_set_same:
  assumes "safe_ledger l" and "team_set r vnets l s" and "team_set r vnets l s'" and "is_name s = is_name s'"
  shows "is_cidrs s = is_cidrs s'"
proof -
  from assms(2,3) obtain t t' where t: "is_cidrs s = team_cidrs vnets t" "named l (team_key r t) (is_name s)"
    and t': "is_cidrs s' = team_cidrs vnets t'" "named l (team_key r t') (is_name s')" by (auto simp: team_set_def)
  have "team_key r t = team_key r t'"
    using named_inject [OF _ t(2) [unfolded team_key_def]] t'(2) assms(1,4)
    by (auto simp: team_key_def safe_ledger_def NAME_KINDS_def)
  with t(1) t'(1) show ?thesis by (simp add: team_key_def)
qed

lemma plan_planes:
  assumes ok: "plan_ok r obs plan l"
  shows "map_of (ip_set_table (np_ip_sets plan)) IPSET_MANAGEMENT = Some (ti_management_cidrs (to_identity obs))"
    and "all_parse (ti_management_cidrs (to_identity obs))"
    and "lr_control_plane_cidrs r \<noteq> [] \<Longrightarrow>
      map_of (ip_set_table (np_ip_sets plan)) IPSET_CONTROL_PLANE = Some (lr_control_plane_cidrs r) \<and> all_parse (lr_control_plane_cidrs r)"
proof -
  from ok obtain planes ts where pl: "plane_ip_sets r obs = Inr planes" and sets: "np_ip_sets plan = planes @ ts"
    and ts: "\<forall>s \<in> set ts. team_set r (np_vnets plan) l s" unfolding plan_ok_def plan_sets_ok_def by blast
  have fresh_names: "is_name s \<notin> RESERVED_NAMES" if "s \<in> set ts" for s
    using team_set_unreserved [OF plan_okD(1) [OF ok]] ts that by blast
  from pl obtain m cs where p: "planes = m # cs" "is_name m = IPSET_MANAGEMENT" "is_cidrs m = ti_management_cidrs (to_identity obs)"
    "\<And>s. s \<in> set planes \<Longrightarrow> cidrs_parse s"
    "\<And>c. c \<in> set cs \<Longrightarrow> is_name c = IPSET_CONTROL_PLANE \<and> is_cidrs c = lr_control_plane_cidrs r"
    "lr_control_plane_cidrs r \<noteq> [] \<Longrightarrow> cs \<noteq> []" by (rule plane_ip_sets_Inr) blast
  have ne: "IPSET_MANAGEMENT \<noteq> IPSET_CONTROL_PLANE" by (simp add: IPSET_MANAGEMENT_def IPSET_CONTROL_PLANE_def)
  have "map_of (ip_set_table (np_ip_sets plan)) (is_name m) = Some (is_cidrs m)"
    by (rule ip_set_table_lookup) (use p ne sets fresh_names in \<open>auto simp: RESERVED_NAMES_def\<close>)
  with p show "map_of (ip_set_table (np_ip_sets plan)) IPSET_MANAGEMENT = Some (ti_management_cidrs (to_identity obs))" by simp
  show "all_parse (ti_management_cidrs (to_identity obs))" using p(1,3) p(4) [of m] by (simp add: cidrs_parse_iff)
  assume "lr_control_plane_cidrs r \<noteq> []"
  with p(6) obtain c where c: "c \<in> set cs" by (cases cs) auto
  have "map_of (ip_set_table (np_ip_sets plan)) (is_name c) = Some (is_cidrs c)"
    by (rule ip_set_table_lookup) (use p(1,2) p(5) c ne sets fresh_names in \<open>auto simp: RESERVED_NAMES_def\<close>)
  with p(1) p(4,5) [of c] c show "map_of (ip_set_table (np_ip_sets plan)) IPSET_CONTROL_PLANE = Some (lr_control_plane_cidrs r) \<and>
      all_parse (lr_control_plane_cidrs r)" by (simp add: cidrs_parse_iff)
qed

lemma plan_team_sets:
  assumes ok: "plan_ok r obs plan l"
  shows "map_of (team_ipset (np_ip_sets plan)) t = Some n \<Longrightarrow>
      map_of (ip_set_table (np_ip_sets plan)) n = Some (team_cidrs (np_vnets plan) t) \<and>
      all_parse (team_cidrs (np_vnets plan) t) \<and> (\<exists>v \<in> set (np_vnets plan). team_of v = Some t)"
    and "v \<in> set (np_vnets plan) \<Longrightarrow> team_of v = Some t \<Longrightarrow> \<exists>n. map_of (team_ipset (np_ip_sets plan)) t = Some n"
proof -
  from ok obtain planes ts where pl: "plane_ip_sets r obs = Inr planes" and sets: "np_ip_sets plan = planes @ ts"
    and ts: "\<forall>s \<in> set ts. team_set r (np_vnets plan) l s \<and> cidrs_parse s"
    and full: "\<forall>v \<in> set (np_vnets plan). \<forall>t. team_of v = Some t \<longrightarrow> (\<exists>s \<in> set ts. ow_team_ref (is_ownership s) = Some t)"
    unfolding plan_ok_def plan_sets_ok_def by blast
  from pl obtain m cs where p: "planes = m # cs" "is_name m = IPSET_MANAGEMENT" "ow_team_ref (is_ownership m) = None"
    "\<And>c. c \<in> set cs \<Longrightarrow> is_name c = IPSET_CONTROL_PLANE \<and> ow_team_ref (is_ownership c) = None"
    by (rule plane_ip_sets_Inr) blast
  have unreserved: "is_name s \<notin> RESERVED_NAMES" if "s \<in> set ts" for s
    using team_set_unreserved [OF plan_okD(1) [OF ok]] ts that by blast
  have planes: "ow_team_ref (is_ownership s) = None \<and> is_name s \<in> RESERVED_NAMES" if "s \<in> set planes" for s
    using that p by (auto simp: RESERVED_NAMES_def)
  { assume "map_of (team_ipset (np_ip_sets plan)) t = Some n"
    from team_ipset_entry [OF this] obtain s where s: "s \<in> set ts" "ow_team_ref (is_ownership s) = Some t" "is_name s = n"
      using planes sets by fastforce
    from ts s have sok: "team_set r (np_vnets plan) l s" "cidrs_parse s" by blast+
    have "map_of (ip_set_table (np_ip_sets plan)) (is_name s) = Some (is_cidrs s)"
    proof (rule ip_set_table_lookup)
      fix s' assume "s' \<in> set (np_ip_sets plan)" "is_name s' = is_name s"
      with sets planes unreserved [OF s(1)] have "s' \<in> set ts" by (metis Un_iff set_append)
      with ts team_set_same [OF plan_okD(1) [OF ok] _ sok(1)] \<open>is_name s' = is_name s\<close> show "is_cidrs s' = is_cidrs s" by blast
    qed (use s sets in auto)
    moreover from sok(1) s(2) have cids: "is_cidrs s = team_cidrs (np_vnets plan) t" and "is_cidrs s \<noteq> []"
      by (auto simp: team_set_def lab_ownership_def)
    then have "\<exists>v \<in> set (np_vnets plan). team_of v = Some t" by (auto simp: team_cidrs_def filter_empty_conv)
    ultimately show "map_of (ip_set_table (np_ip_sets plan)) n = Some (team_cidrs (np_vnets plan) t) \<and>
      all_parse (team_cidrs (np_vnets plan) t) \<and> (\<exists>v \<in> set (np_vnets plan). team_of v = Some t)"
      using s(3) cids sok(2) by (simp add: cidrs_parse_iff) }
  assume "v \<in> set (np_vnets plan)" "team_of v = Some t"
  with full obtain s where s: "s \<in> set ts" "ow_team_ref (is_ownership s) = Some t" by blast
  then have "(t, is_name s) \<in> set (rev (List.map_filter (\<lambda>s. case ow_team_ref (is_ownership s) of
     None \<Rightarrow> None | Some t \<Rightarrow> Some (t, is_name s)) (np_ip_sets plan)))"
    by (force simp: map_filter_def sets)
  then show "\<exists>n. map_of (team_ipset (np_ip_sets plan)) t = Some n"
    unfolding team_ipset_def map_of_dict_of by (rule weak_map_of_SomeI)
qed

section \<open>The policy\<close>

definition reviewed_flow :: "lab_request \<Rightarrow> nat \<Rightarrow> int option \<Rightarrow> string \<Rightarrow> bool" where
  "reviewed_flow r a port proto \<longleftrightarrow> lr_control_plane_cidrs r \<noteq> [] \<and>
     (\<exists>p \<in> set (lr_reviewed_paths r). covers [rv_dest_cidr p] a \<and> proto = rv_proto p \<and>
       (\<exists>k. port = Some k \<and> rv_dport p = show_int k))"

definition in_segment :: "vnet_spec \<Rightarrow> nat \<Rightarrow> bool" where
  "in_segment v a \<longleftrightarrow> covers [sb_cidr (vn_subnet v)] a"

definition peer_address :: "network_plan \<Rightarrow> string option \<Rightarrow> nat \<Rightarrow> bool" where
  "peer_address plan team a \<longleftrightarrow>
     (\<exists>w \<in> set (np_vnets plan). team_of w \<noteq> None \<and> team_of w \<noteq> team \<and> in_segment w a)"

definition own_address :: "network_plan \<Rightarrow> string option \<Rightarrow> nat \<Rightarrow> bool" where
  "own_address plan team a \<longleftrightarrow> team \<noteq> None \<and> (\<exists>w \<in> set (np_vnets plan). team_of w = team \<and> in_segment w a)"

definition scoring_flow :: "lab_request \<Rightarrow> network_plan \<Rightarrow> vnet_spec \<Rightarrow> nat \<Rightarrow> int option \<Rightarrow> string \<Rightarrow> bool" where
  "scoring_flow r plan v a port proto \<longleftrightarrow> vn_role v \<noteq> SR_scoring \<and> proto = ''tcp'' \<and> port = Some (lr_scoring_port r) \<and>
     (\<exists>s \<in> set (np_vnets plan). vn_role s = SR_scoring \<and> in_segment s a)"

definition egress_flow :: "lab_request \<Rightarrow> vnet_spec \<Rightarrow> nat \<Rightarrow> int option \<Rightarrow> string \<Rightarrow> bool" where
  "egress_flow r v a port proto \<longleftrightarrow> (\<exists>e. lr_egress r = Some e \<and> eg_vnet_name e = vn_name v \<and>
     covers (eg_allowed_destinations e) a \<and> (eg_allowed_ports e = [] \<or> '''' \<in> set (eg_allowed_ports e) \<or>
       proto = ''tcp'' \<and> (\<exists>k. port = Some k \<and> show_int k \<in> set (eg_allowed_ports e))))"

definition outbound_allowed :: "lab_request \<Rightarrow> target_observation \<Rightarrow> network_plan \<Rightarrow> vnet_spec \<Rightarrow> nat \<Rightarrow> int option \<Rightarrow> string \<Rightarrow> bool" where
  "outbound_allowed r obs plan v a port proto \<longleftrightarrow> \<not> covers (ti_management_cidrs (to_identity obs)) a \<and>
     (reviewed_flow r a port proto \<or>
      \<not> covers (lr_control_plane_cidrs r) a \<and> \<not> peer_address plan (team_of v) a \<and>
      (own_address plan (team_of v) a \<or> scoring_flow r plan v a port proto \<or> egress_flow r v a port proto))"

definition inbound_allowed :: "lab_request \<Rightarrow> target_observation \<Rightarrow> network_plan \<Rightarrow> vnet_spec \<Rightarrow> nat \<Rightarrow> int option \<Rightarrow> string \<Rightarrow> bool" where
  "inbound_allowed r obs plan v a port proto \<longleftrightarrow> \<not> covers (ti_management_cidrs (to_identity obs)) a \<and>
     \<not> peer_address plan (team_of v) a \<and>
     (own_address plan (team_of v) a \<or>
      vn_role v = SR_scoring \<and> proto = ''tcp'' \<and> port = Some (lr_scoring_port r))"

section \<open>Rules as predicates on addresses\<close>

definition hits :: "(string, string list) dict \<Rightarrow> nat \<Rightarrow> int option \<Rightarrow> string \<Rightarrow> firewall_direction \<Rightarrow> firewall_rule_spec \<Rightarrow> bool" where
  "hits sets a port proto direction x \<longleftrightarrow> fr_enabled x \<and> fr_direction x = direction \<and>
     (case resolve (match_field direction x) sets of None \<Rightarrow> True | Some cs \<Rightarrow> covers cs a) \<and> service_matches port proto x"

lemma rule_matches_hits:
  assumes "parse_ip addr = Some a" and "fr_direction x = direction \<Longrightarrow> rule_readable sets direction x"
  shows "rule_matches sets addr port proto direction x = hits sets a port proto direction x"
  using address_matches_eq [OF assms(1)] assms(2) unfolding rule_matches_def hits_def by auto

lemma hits_rule: "hits sets a port proto direction (rule p d vd source dest pr dp c) \<longleftrightarrow> d = direction \<and>
    (case resolve (if direction = FD_outbound then dest else source) sets of None \<Rightarrow> True | Some cs \<Rightarrow> covers cs a) \<and>
    (pr = None \<or> pr = Some proto) \<and> (dp = None \<or> (\<exists>k. port = Some k \<and> dp = Some (show_int k)))"
  by (simp add: hits_def rule_def match_field_def service_matches_def)

lemma rule_fields [simp]: "fr_position (rule p d vd source dest pr dp c) = p" "fr_verdict (rule p d vd source dest pr dp c) = vd"
    "fr_direction (rule p d vd source dest pr dp c) = d" "match_field direction (rule p d vd source dest pr dp c) =
      (if direction = FD_outbound then dest else source)"
  by (simp_all add: rule_def match_field_def)

lemma resolve_set [simp]: "resolve (Some (CHR ''+'' # n)) sets = Some (case map_of sets n of None \<Rightarrow> [] | Some cs \<Rightarrow> cs)"
  by (simp add: resolve_def)

lemma resolve_None [simp]: "resolve None sets = None"
  by (simp add: resolve_def)

lemma octet_no_plus: "octet_ok (CHR ''+'' # s) = False"
  by (simp add: octet_ok_def is_digit_def)

lemma network_no_plus: "ip_network strict (CHR ''+'' # s) = None"
proof -
  have "parse_ip (CHR ''+'' # s) = None" for s
    by (auto simp: parse_ip_def octet_no_plus split: list.splits)
  then show ?thesis by (auto simp: ip_network_def split: list.splits)
qed

lemma resolve_cidr: "ip_network False c = Some n \<Longrightarrow> resolve (Some c) sets = Some [c]"
  using network_no_plus [of False "tl c"] by (cases c) (auto simp: resolve_def)

section \<open>The rules of a segment, part by part\<close>

text \<open>For each part, where its accepting rules sit that hit an address, and where its denying rules do.\<close>

abbreviation sets_of :: "network_plan \<Rightarrow> (string, string list) dict" where
  "sets_of plan \<equiv> ip_set_table (np_ip_sets plan)"

abbreviation peers :: "network_plan \<Rightarrow> (string \<times> string) list" where
  "peers plan \<equiv> sort (team_ipset (np_ip_sets plan))"

lemma covers_team: "covers (team_cidrs vnets t) a \<longleftrightarrow> (\<exists>w \<in> set vnets. team_of w = Some t \<and> in_segment w a)"
  by (auto simp: covers_def team_cidrs_def in_segment_def)

lemma verdict_rules:
  "x \<in> set management_rules \<Longrightarrow> fr_verdict x = FV_drop"
  "x \<in> set (cross_team_rules team sets) \<Longrightarrow> fr_verdict x = FV_drop"
  "x \<in> set catch_all_rules \<Longrightarrow> fr_verdict x = FV_drop"
  "x \<in> set (intra_team_rules team sets) \<Longrightarrow> fr_verdict x = FV_accept"
  "x \<in> set (scoring_rules r role scoring) \<Longrightarrow> fr_verdict x = FV_accept"
  "x \<in> set (egress_rules r n) \<Longrightarrow> fr_verdict x = FV_accept"
  by (auto simp: management_rules_def cross_team_rules_def catch_all_rules_def intra_team_rules_def scoring_rules_def
    egress_rules_def split: if_splits option.splits)

lemma management_hits:
  assumes "plan_ok r obs plan l"
  shows "(\<forall>x \<in> set management_rules. hits (sets_of plan) a port proto direction x \<longrightarrow> Q (fr_position x)) \<longleftrightarrow>
    (covers (ti_management_cidrs (to_identity obs)) a \<longrightarrow> Q 0)"
  using plan_planes(1) [OF assms] by (cases direction) (auto simp: management_rules_def hits_rule positions)

lemma catch_all_hits:
  "(\<forall>x \<in> set catch_all_rules. hits sets a port proto direction x \<longrightarrow> Q (fr_position x)) \<longleftrightarrow> Q 8000"
  by (cases direction) (auto simp: catch_all_rules_def hits_rule positions)

lemma control_denies:
  assumes "plan_ok r obs plan l"
  shows "(\<forall>x \<in> set (control_plane_rules r). fr_verdict x \<noteq> FV_accept \<longrightarrow> hits (sets_of plan) a port proto direction x \<longrightarrow> Q (fr_position x)) \<longleftrightarrow>
    (direction = FD_outbound \<longrightarrow> covers (lr_control_plane_cidrs r) a \<longrightarrow> Q 150)"
  using plan_planes(3) [OF assms] by (auto simp: control_plane_rules_def hits_rule positions)

lemma ball_enumerate [simp]: "(\<forall>x \<in> set (List.enumerate 0 xs). P x) \<longleftrightarrow> (\<forall>i < length xs. P (i, xs ! i))"
  by (force simp: in_set_enumerate_eq)

lemma bex_enumerate [simp]: "(\<exists>x \<in> set (List.enumerate 0 xs). P x) \<longleftrightarrow> (\<exists>i < length xs. P (i, xs ! i))"
  by (force simp: in_set_enumerate_eq)

lemma ball_concat_enumerate:
  "(\<forall>x \<in> set (concat (map f (List.enumerate 0 xs))). P x) \<longleftrightarrow> (\<forall>i < length xs. \<forall>x \<in> set (f (i, xs ! i)). P x)"
  using ball_enumerate [of xs "\<lambda>p. \<forall>x \<in> set (f p). P x"] by auto

lemma bex_concat_enumerate:
  "(\<exists>x \<in> set (concat (map f (List.enumerate 0 xs))). P x) \<longleftrightarrow> (\<exists>i < length xs. \<exists>x \<in> set (f (i, xs ! i)). P x)"
  using bex_enumerate [of xs "\<lambda>p. \<exists>x \<in> set (f p). P x"] by auto

lemma control_accepts:
  assumes "list_all (\<lambda>p. ip_network False (rv_dest_cidr p) \<noteq> None) (lr_reviewed_paths r)"
  shows "(\<exists>x \<in> set (control_plane_rules r). fr_verdict x = FV_accept \<and> hits sets a port proto direction x \<and> Q (fr_position x)) \<longleftrightarrow>
    direction = FD_outbound \<and> lr_control_plane_cidrs r \<noteq> [] \<and> (\<exists>i < length (lr_reviewed_paths r). let p = lr_reviewed_paths r ! i in
      covers [rv_dest_cidr p] a \<and> proto = rv_proto p \<and> (\<exists>k. port = Some k \<and> rv_dport p = show_int k) \<and> Q (100 + int i))"
proof -
  have res: "resolve (Some (rv_dest_cidr (lr_reviewed_paths r ! i))) sets = Some [rv_dest_cidr (lr_reviewed_paths r ! i)]"
    if "i < length (lr_reviewed_paths r)" for i
    using assms that by (force simp: list_all_length intro: resolve_cidr)
  show ?thesis
    by (auto simp: control_plane_rules_def bex_Un hits_rule positions res Let_def simp del: covers_simps)
qed

lemma cross_hits:
  assumes ok: "plan_ok r obs plan l"
  shows "(\<forall>x \<in> set (cross_team_rules team (team_ipset (np_ip_sets plan))).
      hits (sets_of plan) a port proto direction x \<longrightarrow> Q (fr_position x)) \<longleftrightarrow>
    (\<forall>i < length (peers plan). Some (fst (peers plan ! i)) \<noteq> team \<longrightarrow>
      covers (team_cidrs (np_vnets plan) (fst (peers plan ! i))) a \<longrightarrow>
      Q ((if direction = FD_outbound then 200 else 250) + int i))"
proof -
  have "map_of (sets_of plan) (snd (peers plan ! i)) = Some (team_cidrs (np_vnets plan) (fst (peers plan ! i)))"
    if "i < length (peers plan)" for i
  proof -
    have "distinct (dict_keys (team_ipset (np_ip_sets plan)))" by (simp add: team_ipset_def)
    moreover have "peers plan ! i \<in> set (team_ipset (np_ip_sets plan))" using that by (metis nth_mem set_sort)
    ultimately show ?thesis using plan_team_sets(1) [OF ok] by simp
  qed
  note lookup = this
  show ?thesis
    unfolding cross_team_rules_def ball_concat_enumerate
    by (cases direction) (auto simp: hits_rule positions lookup split_beta)
qed

lemma intra_hits:
  assumes ok: "plan_ok r obs plan l" and v: "v \<in> set (np_vnets plan)"
  shows "(\<exists>x \<in> set (intra_team_rules (team_of v) (team_ipset (np_ip_sets plan))).
      hits (sets_of plan) a port proto direction x \<and> Q (fr_position x)) \<longleftrightarrow>
    own_address plan (team_of v) a \<and> Q (if direction = FD_outbound then 300 else 301)"
proof (cases "team_of v")
  case (Some t)
  from plan_team_sets(2) [OF ok v Some] obtain n where n: "map_of (team_ipset (np_ip_sets plan)) t = Some n" by blast
  with plan_team_sets(1) [OF ok n] Some show ?thesis
    by (cases direction) (auto simp: intra_team_rules_def hits_rule positions own_address_def covers_team)
qed (simp add: intra_team_rules_def own_address_def)

lemma scoring_hits:
  assumes ok: "plan_ok r obs plan l" and v: "v \<in> set (np_vnets plan)"
  shows "(\<exists>x \<in> set (scoring_rules r (vn_role v) (filter (\<lambda>v. vn_role v = SR_scoring) (np_vnets plan))).
      hits (sets_of plan) a port proto direction x \<and> Q (fr_position x)) \<longleftrightarrow>
    (if direction = FD_outbound then scoring_flow r plan v a port proto
     else vn_role v = SR_scoring \<and> proto = ''tcp'' \<and> port = Some (lr_scoring_port r)) \<and> Q 400"
proof -
  have "resolve (Some (sb_cidr (vn_subnet s))) sets = Some [sb_cidr (vn_subnet s)]" if "s \<in> set (np_vnets plan)" for s sets
    using plan_subnet [OF ok that] resolve_cidr by metis
  then show ?thesis using v
    by (cases direction) (auto simp: scoring_rules_def hits_rule positions scoring_flow_def in_segment_def filter_empty_conv
      simp del: covers_simps)
qed

lemma egress_rule_hits:
  assumes "resolve (Some d) sets = Some [d]"
  shows "(\<exists>x \<in> set (map (\<lambda>(j, p). rule (pos j) FD_outbound FV_accept None (Some d) (if p = [] then None else Some ''tcp'')
        (if p = [] then None else Some p) c) (List.enumerate 0 ports)). hits sets a port proto direction x) \<longleftrightarrow>
     direction = FD_outbound \<and> covers [d] a \<and> (\<exists>p \<in> set ports. p = [] \<or> proto = ''tcp'' \<and> (\<exists>k. port = Some k \<and> p = show_int k))"
proof -
  have h: "hits sets a port proto direction (rule q FD_outbound FV_accept None (Some d) (if p = [] then None else Some ''tcp'')
        (if p = [] then None else Some p) c) \<longleftrightarrow>
      direction = FD_outbound \<and> covers [d] a \<and> (p = [] \<or> proto = ''tcp'' \<and> (\<exists>k. port = Some k \<and> p = show_int k))" for p q
    using assms by (auto simp: hits_rule simp del: covers_simps)
  show ?thesis
    by (simp add: h del: covers_simps) (metis in_set_conv_nth)
qed

lemma egress_rules_hits:
  assumes res: "\<And>i. i < length dests \<Longrightarrow> resolve (Some (dests ! i)) sets = Some [dests ! i]"
  shows "(\<exists>x \<in> set (concat (map (\<lambda>(i, d). map (\<lambda>(j, p). rule (POS_EGRESS_ALLOW + int i * 10 + int j) FD_outbound FV_accept None
        (Some d) (if p = [] then None else Some ''tcp'') (if p = [] then None else Some p) c) (List.enumerate 0 ports))
        (List.enumerate 0 dests))). hits sets a port proto direction x) \<longleftrightarrow>
     direction = FD_outbound \<and> covers dests a \<and> (\<exists>p \<in> set ports. p = [] \<or> proto = ''tcp'' \<and> (\<exists>k. port = Some k \<and> p = show_int k))"
proof -
  have "covers dests a \<longleftrightarrow> (\<exists>i < length dests. covers [dests ! i] a)"
    unfolding covers_def by (simp, metis in_set_conv_nth)
  then show ?thesis
    unfolding bex_concat_enumerate prod.case by (simp only: egress_rule_hits [OF res] cong: conj_cong) blast
qed

lemma egress_hits:
  assumes valid: "lab_request_valid r" and same: "\<And>x. x \<in> set (egress_rules r (vn_name v)) \<Longrightarrow> Q (fr_position x) \<longleftrightarrow> A"
  shows "(\<exists>x \<in> set (egress_rules r (vn_name v)). hits sets a port proto direction x \<and> Q (fr_position x)) \<longleftrightarrow>
    direction = FD_outbound \<and> egress_flow r v a port proto \<and> A"
proof -
  have "(\<exists>x \<in> set (egress_rules r (vn_name v)). hits sets a port proto direction x) \<longleftrightarrow>
    direction = FD_outbound \<and> egress_flow r v a port proto"
  proof (cases "lr_egress r")
    case (Some e)
    let ?ports = "if eg_allowed_ports e = [] then [''''] else eg_allowed_ports e"
    have "list_all (\<lambda>c. ip_network False c \<noteq> None) (eg_allowed_destinations e)"
      using valid Some by (auto simp: lab_request_valid_def egress_post_init_def bindE_Inr list_all_iff dest: mapE_each)
    then have res: "resolve (Some (eg_allowed_destinations e ! i)) sets = Some [eg_allowed_destinations e ! i]"
      if "i < length (eg_allowed_destinations e)" for i
      using that by (force simp: list_all_length intro: resolve_cidr)
    show ?thesis
    proof (cases "eg_vnet_name e = vn_name v")
      case True
      have "egress_rules r (vn_name v) = concat (map (\<lambda>(i, d). map (\<lambda>(j, p). rule (POS_EGRESS_ALLOW + int i * 10 + int j)
          FD_outbound FV_accept None (Some d) (if p = [] then None else Some ''tcp'') (if p = [] then None else Some p)
          (''Approved controlled egress ('' @ eg_approval_reference e @ '').'')) (List.enumerate 0 ?ports))
          (List.enumerate 0 (eg_allowed_destinations e)))"
        using True by (simp add: egress_rules_def Some)
      then have "(\<exists>x \<in> set (egress_rules r (vn_name v)). hits sets a port proto direction x) \<longleftrightarrow> direction = FD_outbound \<and>
          covers (eg_allowed_destinations e) a \<and> (\<exists>p \<in> set ?ports. p = [] \<or> proto = ''tcp'' \<and> (\<exists>k. port = Some k \<and> p = show_int k))"
        using egress_rules_hits [OF res, of _ ?ports a port proto direction] by (simp only:)
      then show ?thesis using True by (auto simp: egress_flow_def Some)
    qed (simp add: egress_rules_def egress_flow_def Some)
  qed (simp add: egress_rules_def egress_flow_def)
  with same show ?thesis by blast
qed

section \<open>Bounds from distinct positions\<close>

lemma distinct_banded:
  assumes "distinct (map fr_position (band_positions xs))" and "x \<in> set xs" and "y \<in> set xs"
    and "fr_direction x = fr_direction y" and "fr_position x = fr_position y"
  shows "x = y"
proof -
  have "inj_on (\<lambda>x. fr_position x + (if fr_direction x = FD_outbound then 0 else INBOUND_BAND)) (set xs)"
    using assms(1) by (simp add: band_positions_def comp_def distinct_map)
  with assms(2-5) show ?thesis by (auto simp: inj_on_def)
qed

lemma plan_rules_parts: "plan_rules r plan v = management_rules @ control_plane_rules r @
    cross_team_rules (team_of v) (team_ipset (np_ip_sets plan)) @ intra_team_rules (team_of v) (team_ipset (np_ip_sets plan)) @
    scoring_rules r (vn_role v) (filter (\<lambda>v. vn_role v = SR_scoring) (np_vnets plan)) @ egress_rules r (vn_name v) @ catch_all_rules"
  by (simp add: plan_rules_def segment_rules_def team_of_def Let_def)

lemma egress_position_iff:
  "(\<exists>x \<in> set (egress_rules r n). fr_position x = p) \<longleftrightarrow> (\<exists>e. lr_egress r = Some e \<and> eg_vnet_name e = n \<and>
     (\<exists>i < length (eg_allowed_destinations e). \<exists>j < length (if eg_allowed_ports e = [] then [''''] else eg_allowed_ports e).
       p = 500 + int i * 10 + int j))"
proof (cases "lr_egress r")
  case (Some e)
  have "(\<exists>x \<in> set (map (\<lambda>(j, port). rule (POS_EGRESS_ALLOW + int i * 10 + int j) FD_outbound FV_accept None (Some d)
               (if port = [] then None else Some ''tcp'') (if port = [] then None else Some port) c)
             (List.enumerate 0 ports)). fr_position x = p) \<longleftrightarrow> (\<exists>j < length ports. p = 500 + int i * 10 + int j)" for i d ports c
    by (auto simp: positions)
  then show ?thesis unfolding egress_rules_def Some option.case by (auto simp: bex_concat_enumerate)
qed (simp add: egress_rules_def)

lemma egress_outbound: "x \<in> set (egress_rules r n) \<Longrightarrow> fr_direction x = FD_outbound"
  by (auto simp: egress_rules_def split: option.splits if_splits)

lemma egress_positions:
  assumes dist: "distinct (map fr_position (band_positions (plan_rules r plan v)))" and x: "x \<in> set (egress_rules r (vn_name v))"
  shows "500 \<le> fr_position x \<and> fr_position x < 8000"
proof -
  from x egress_position_iff [of r "vn_name v" "fr_position x"] obtain e i j where e: "lr_egress r = Some e" "eg_vnet_name e = vn_name v"
    and ij: "i < length (eg_allowed_destinations e)" "j < length (if eg_allowed_ports e = [] then [''''] else eg_allowed_ports e)"
      "fr_position x = 500 + int i * 10 + int j" by auto
  let ?d = "rule POS_CATCH_ALL FD_outbound FV_drop None None None None ''Default deny outbound.''"
  have no: "fr_position y \<noteq> 8000" if "y \<in> set (egress_rules r (vn_name v))" for y
  proof
    assume "fr_position y = 8000"
    then have "y = ?d" using distinct_banded [OF dist, of y ?d] that egress_outbound [OF that]
      by (simp add: plan_rules_parts catch_all_rules_def positions)
    then show False using verdict_rules(6) [OF that] by simp
  qed
  have "\<not> 7500 \<le> int i * 10 + int j"
  proof
    assume "7500 \<le> int i * 10 + int j"
    then have "\<exists>i' \<le> i. \<exists>j' \<le> j. int i' * 10 + int j' = 7500"
    proof (cases "750 \<le> i")
      case True
      then show ?thesis by (intro exI [of _ 750] conjI exI [of _ 0]) auto
    next
      case False
      with \<open>7500 \<le> int i * 10 + int j\<close> show ?thesis by (intro exI [of _ i] conjI exI [of _ "7500 - i * 10"]) auto
    qed
    then obtain i' j' where "i' \<le> i" "j' \<le> j" "int i' * 10 + int j' = 7500" by blast
    then have "\<exists>y \<in> set (egress_rules r (vn_name v)). fr_position y = 8000"
      unfolding egress_position_iff using e ij by (intro exI [of _ e] conjI exI [of _ i'] exI [of _ j']) auto
    with no show False by blast
  qed
  with ij(3) show ?thesis by simp
qed

lemma control_position:
  assumes "lr_control_plane_cidrs r \<noteq> []"
  shows "i < length (lr_reviewed_paths r) \<Longrightarrow>
      \<exists>x \<in> set (control_plane_rules r). fr_position x = 100 + int i \<and> fr_direction x = FD_outbound \<and> fr_verdict x = FV_accept"
    and "\<exists>x \<in> set (control_plane_rules r). fr_position x = 150 \<and> fr_direction x = FD_outbound \<and> fr_verdict x = FV_drop"
  using assms by (simp_all add: control_plane_rules_def bex_Un positions)

lemma reviewed_bound:
  assumes "distinct (map fr_position (band_positions (plan_rules r plan v)))" and "lr_control_plane_cidrs r \<noteq> []"
  shows "length (lr_reviewed_paths r) \<le> 50"
proof (rule ccontr)
  assume "\<not> length (lr_reviewed_paths r) \<le> 50"
  then have "50 < length (lr_reviewed_paths r)" by simp
  then obtain x where x: "x \<in> set (control_plane_rules r)" "fr_position x = 150" "fr_direction x = FD_outbound" "fr_verdict x = FV_accept"
    using control_position(1) [OF assms(2), of 50] by auto
  obtain y where y: "y \<in> set (control_plane_rules r)" "fr_position y = 150" "fr_direction y = FD_outbound" "fr_verdict y = FV_drop"
    using control_position(2) [OF assms(2)] by blast
  from x y have "x = y" using distinct_banded [OF assms(1), of x y] by (simp add: plan_rules_parts)
  with x(4) y(4) show False by simp
qed

lemma peers_distinct: "distinct (map fst (peers plan))"
proof -
  have "distinct (map fst (team_ipset (np_ip_sets plan)))" by (simp add: team_ipset_def)
  then show ?thesis by (simp add: distinct_map)
qed

lemma peer_bound:
  assumes ok: "plan_ok r obs plan l"
  shows "length (peers plan) \<le> 51"
proof (rule ccontr)
  assume "\<not> length (peers plan) \<le> 51"
  then have many: "51 < length (peers plan)" by simp
  then obtain t n where t: "peers plan ! 0 = (t, n)" by (cases "peers plan ! 0") auto
  moreover have "0 < length (peers plan)" using many by linarith
  ultimately have "(t, n) \<in> set (team_ipset (np_ip_sets plan))" by (metis nth_mem set_sort)
  then have n: "map_of (team_ipset (np_ip_sets plan)) t = Some n" by (simp add: team_ipset_def)
  with plan_team_sets(1) [OF ok this] obtain v where v: "v \<in> set (np_vnets plan)" "team_of v = Some t" by blast
  have "fst (peers plan ! 51) \<noteq> t"
  proof -
    have zero: "0 < length (peers plan)" using many by linarith
    then have "map fst (peers plan) ! 51 \<noteq> map fst (peers plan) ! 0"
      using nth_eq_iff_index_eq [OF peers_distinct [of plan], of 51 0] many unfolding length_map by fastforce
    then show ?thesis unfolding nth_map [OF zero] nth_map [OF many] t fst_conv .
  qed
  then have "\<exists>x \<in> set (cross_team_rules (team_of v) (team_ipset (np_ip_sets plan))). fr_position x = 301 \<and> fr_direction x = FD_inbound"
    unfolding cross_team_rules_def bex_concat_enumerate
    by (intro exI [of _ 51] conjI many) (simp add: v(2) positions split_beta)
  moreover have "\<exists>y \<in> set (intra_team_rules (team_of v) (team_ipset (np_ip_sets plan))). fr_position y = 301 \<and> fr_direction y = FD_inbound"
    by (simp add: intra_team_rules_def v(2) n positions)
  ultimately obtain x y where "x \<in> set (cross_team_rules (team_of v) (team_ipset (np_ip_sets plan)))"
    "y \<in> set (intra_team_rules (team_of v) (team_ipset (np_ip_sets plan)))" "fr_position x = fr_position y" "fr_direction x = fr_direction y"
    by metis
  with distinct_banded [OF plan_flow(2) [OF ok v(1)], of x y] verdict_rules(2) [of x "team_of v"] verdict_rules(4) [of y "team_of v"]
  show False unfolding plan_rules_parts by fastforce
qed

section \<open>The evaluator decides the policy\<close>

definition token_ok :: "string option \<Rightarrow> bool" where
  "token_ok tok \<longleftrightarrow> tok = None \<or> (\<exists>n. tok = Some (CHR ''+'' # n)) \<or> (\<exists>c k. tok = Some c \<and> ip_network False c = Some k)"

lemma valid_paths: "lab_request_valid r \<Longrightarrow> list_all (\<lambda>p. ip_network False (rv_dest_cidr p) \<noteq> None) (lr_reviewed_paths r)"
  by (auto simp: lab_request_valid_def reviewed_path_post_init_def list_all_iff bindE_Inr)

lemma egress_destinations: "lab_request_valid r \<Longrightarrow> lr_egress r = Some e \<Longrightarrow> all_parse (eg_allowed_destinations e)"
  by (auto simp: lab_request_valid_def egress_post_init_def bindE_Inr all_parse_def list_all_iff dest: mapE_each)

lemma egress_tokens:
  assumes "x \<in> set (egress_rules r n)"
  shows "\<exists>e. lr_egress r = Some e \<and> (\<exists>d \<in> set (eg_allowed_destinations e). match_field direction x \<in> {None, Some d})"
proof (cases "lr_egress r")
  case (Some e)
  have "\<forall>x \<in> set (egress_rules r n). \<exists>d \<in> set (eg_allowed_destinations e). match_field direction x \<in> {None, Some d}"
    by (auto simp: egress_rules_def Some ball_concat_enumerate) (metis nth_mem)+
  with assms Some show ?thesis by blast
qed (use assms in \<open>simp add: egress_rules_def\<close>)

lemma plan_tokens:
  assumes ok: "plan_ok r obs plan l" and valid: "lab_request_valid r" and "x \<in> set (plan_rules r plan v)"
  shows "token_ok (match_field direction x)"
proof -
  have scoring: "token_ok (Some (sb_cidr (vn_subnet s)))" if "s \<in> set (np_vnets plan)" for s
    using plan_subnet [OF ok that] by (auto simp: token_ok_def)
  have paths: "token_ok (Some (rv_dest_cidr p))" if "p \<in> set (lr_reviewed_paths r)" for p
    using valid_paths [OF valid] that by (auto simp: token_ok_def list_all_iff)
  have egress: "token_ok (Some d)" if "lr_egress r = Some e" "d \<in> set (eg_allowed_destinations e)" for e d
    using egress_destinations [OF valid that(1)] that(2) by (auto simp: token_ok_def all_parse_def list_all_iff)
  have none: "token_ok None" and ref: "token_ok (Some (CHR ''+'' # n))" for n by (simp_all add: token_ok_def)
  from assms(3) consider "x \<in> set management_rules" | "x \<in> set (control_plane_rules r)"
    | "x \<in> set (cross_team_rules (team_of v) (team_ipset (np_ip_sets plan)))"
    | "x \<in> set (intra_team_rules (team_of v) (team_ipset (np_ip_sets plan)))"
    | "x \<in> set (scoring_rules r (vn_role v) (filter (\<lambda>v. vn_role v = SR_scoring) (np_vnets plan)))"
    | "x \<in> set (egress_rules r (vn_name v))" | "x \<in> set catch_all_rules" unfolding plan_rules_parts by auto
  then show ?thesis
  proof cases
    case 2
    then show ?thesis using paths none ref
      by (auto simp: control_plane_rules_def in_set_enumerate_eq split: if_splits)
  next
    case 6
    from egress_tokens [OF this, of direction] show ?thesis using egress none by auto
  qed (use none ref scoring in \<open>auto simp: management_rules_def cross_team_rules_def intra_team_rules_def scoring_rules_def catch_all_rules_def
    split: if_splits option.splits\<close>)
qed

lemma plan_table_parses:
  assumes ok: "plan_ok r obs plan l" and "map_of (sets_of plan) n = Some cs"
  shows "all_parse cs"
proof -
  from ok obtain planes ts where pl: "plane_ip_sets r obs = Inr planes" and sets: "np_ip_sets plan = planes @ ts"
    and ts: "\<forall>s \<in> set ts. team_set r (np_vnets plan) l s \<and> cidrs_parse s"
    unfolding plan_ok_def plan_sets_ok_def by blast
  from pl have planes: "s \<in> set planes \<Longrightarrow> cidrs_parse s" for s by (rule plane_ip_sets_Inr) blast
  from assms(2) have "(n, cs) \<in> set (map (\<lambda>s. (is_name s, is_cidrs s)) (np_ip_sets plan))"
    unfolding ip_set_table_def map_of_dict_of using map_of_SomeD by fastforce
  then obtain s where "s \<in> set (np_ip_sets plan)" "cs = is_cidrs s" by auto
  with sets ts planes have "cidrs_parse s" by auto
  with \<open>cs = is_cidrs s\<close> show ?thesis by (simp add: cidrs_parse_iff)
qed

lemma plan_readable:
  assumes "plan_ok r obs plan l" and "lab_request_valid r" and "x \<in> set (plan_rules r plan v)"
  shows "rule_readable (sets_of plan) direction x"
  using plan_tokens [OF assms, of direction] plan_table_parses [OF assms(1)]
  by (auto simp: token_ok_def rule_readable_def all_parse_def resolve_cidr split: option.splits)

lemma evaluate_flow_hits:
  assumes ok: "plan_ok r obs plan l" and valid: "lab_request_valid r" and v: "v \<in> set (np_vnets plan)" and a: "parse_ip addr = Some a"
  shows "evaluate_flow plan (vn_name v) addr port proto direction = Inr
    (if \<exists>x \<in> set (plan_rules r plan v). fr_verdict x = FV_accept \<and> hits (sets_of plan) a port proto direction x \<and>
       (\<forall>d \<in> set (plan_rules r plan v). fr_verdict d \<noteq> FV_accept \<longrightarrow> hits (sets_of plan) a port proto direction d \<longrightarrow> fr_position x < fr_position d)
     then FV_accept else FV_drop)"
proof -
  let ?rules = "plan_rules r plan v" and ?sets = "sets_of plan"
  note flow = plan_flow(1) [OF ok v, of addr port proto direction]
  have field: "match_field direction (x\<lparr>fr_position := p\<rparr>) = match_field direction x" for x p by (simp add: match_field_def)
  have "rule_readable ?sets direction x" if "x \<in> set (sort_key fr_position (band_positions ?rules))" for x
    using that plan_readable [OF ok valid] by (auto simp: band_positions_def rule_readable_def field)
  from first_match_total [OF a this] obtain w where
    w: "first_match ?sets addr port proto direction (sort_key fr_position (band_positions ?rules)) = Inr w" by blast
  have m: "rule_matches ?sets addr port proto direction x = hits ?sets a port proto direction x" if "x \<in> set ?rules" for x
    using rule_matches_hits [OF a] plan_readable [OF ok valid that] by blast
  have "w \<noteq> FV_reject"
    by (rule first_match_verdict [OF w]) (auto simp: band_positions_def plan_rules_parts control_plane_rules_def verdict_rules split: if_splits)
  moreover have "w = FV_accept \<longleftrightarrow> (\<exists>x \<in> set ?rules. fr_verdict x = FV_accept \<and> hits ?sets a port proto direction x \<and>
       (\<forall>d \<in> set ?rules. fr_verdict d \<noteq> FV_accept \<longrightarrow> hits ?sets a port proto direction d \<longrightarrow> fr_position x < fr_position d))"
    using first_match_banded [OF w plan_flow(2) [OF ok v]] m by blast
  ultimately show ?thesis using flow w by (cases w) auto
qed

lemma peer_iff:
  assumes ok: "plan_ok r obs plan l"
  shows "peer_address plan team a \<longleftrightarrow> (\<exists>i < length (peers plan). Some (fst (peers plan ! i)) \<noteq> team \<and>
    covers (team_cidrs (np_vnets plan) (fst (peers plan ! i))) a)"
proof
  assume "peer_address plan team a"
  then obtain w t where w: "w \<in> set (np_vnets plan)" "team_of w = Some t" "Some t \<noteq> team" "in_segment w a"
    by (auto simp: peer_address_def)
  from plan_team_sets(2) [OF ok w(1,2)] obtain n where "map_of (team_ipset (np_ip_sets plan)) t = Some n" by blast
  then have "(t, n) \<in> set (peers plan)" by (simp add: map_of_SomeD)
  then obtain i where "i < length (peers plan)" "peers plan ! i = (t, n)" by (metis in_set_conv_nth)
  moreover have "covers (team_cidrs (np_vnets plan) t) a" using w covers_team by blast
  ultimately show "\<exists>i < length (peers plan). Some (fst (peers plan ! i)) \<noteq> team \<and>
    covers (team_cidrs (np_vnets plan) (fst (peers plan ! i))) a" using w(3) by fastforce
qed (auto simp: peer_address_def covers_team)

lemma verdict_all:
  "list_all (\<lambda>x. fr_verdict x = FV_drop) management_rules"
  "list_all (\<lambda>x. fr_verdict x = FV_drop) (cross_team_rules team sets)"
  "list_all (\<lambda>x. fr_verdict x = FV_drop) catch_all_rules"
  "list_all (\<lambda>x. fr_verdict x = FV_accept) (intra_team_rules team sets)"
  "list_all (\<lambda>x. fr_verdict x = FV_accept) (scoring_rules r role scoring)"
  "list_all (\<lambda>x. fr_verdict x = FV_accept) (egress_rules r n)"
  unfolding list_all_iff using verdict_rules by blast+

lemma denies:
  assumes ok: "plan_ok r obs plan l"
  shows "(\<forall>d \<in> set (plan_rules r plan v). fr_verdict d \<noteq> FV_accept \<longrightarrow> hits (sets_of plan) a port proto direction d \<longrightarrow> Q (fr_position d)) \<longleftrightarrow>
    (covers (ti_management_cidrs (to_identity obs)) a \<longrightarrow> Q 0) \<and>
    (direction = FD_outbound \<longrightarrow> covers (lr_control_plane_cidrs r) a \<longrightarrow> Q 150) \<and>
    (\<forall>i < length (peers plan). Some (fst (peers plan ! i)) \<noteq> team_of v \<longrightarrow>
      covers (team_cidrs (np_vnets plan) (fst (peers plan ! i))) a \<longrightarrow> Q ((if direction = FD_outbound then 200 else 250) + int i)) \<and> Q 8000"
proof -
  have drop: "(\<forall>d \<in> set xs. fr_verdict d \<noteq> FV_accept \<longrightarrow> hits (sets_of plan) a port proto direction d \<longrightarrow> Q (fr_position d)) \<longleftrightarrow>
      (\<forall>d \<in> set xs. hits (sets_of plan) a port proto direction d \<longrightarrow> Q (fr_position d))"
    if "list_all (\<lambda>x. fr_verdict x = FV_drop) xs" for xs using that by (auto simp: list_all_iff)
  have accept: "(\<forall>d \<in> set xs. fr_verdict d \<noteq> FV_accept \<longrightarrow> hits (sets_of plan) a port proto direction d \<longrightarrow> Q (fr_position d)) \<longleftrightarrow> True"
    if "list_all (\<lambda>x. fr_verdict x = FV_accept) xs" for xs using that by (auto simp: list_all_iff)
  show ?thesis
    unfolding plan_rules_parts set_append ball_Un drop [OF verdict_all(1)] drop [OF verdict_all(2)] drop [OF verdict_all(3)]
      accept [OF verdict_all(4)] accept [OF verdict_all(5)] accept [OF verdict_all(6)]
      management_hits [OF ok] control_denies [OF ok] cross_hits [OF ok] catch_all_hits by blast
qed

lemma accepts:
  assumes ok: "plan_ok r obs plan l" and valid: "lab_request_valid r" and v: "v \<in> set (np_vnets plan)"
    and same: "\<And>p. 500 \<le> p \<Longrightarrow> p < 8000 \<Longrightarrow> Q p \<longleftrightarrow> A"
  shows "(\<exists>x \<in> set (plan_rules r plan v). fr_verdict x = FV_accept \<and> hits (sets_of plan) a port proto direction x \<and> Q (fr_position x)) \<longleftrightarrow>
    (direction = FD_outbound \<and> lr_control_plane_cidrs r \<noteq> [] \<and> (\<exists>i < length (lr_reviewed_paths r). let p = lr_reviewed_paths r ! i in
      covers [rv_dest_cidr p] a \<and> proto = rv_proto p \<and> (\<exists>k. port = Some k \<and> rv_dport p = show_int k) \<and> Q (100 + int i))) \<or>
    own_address plan (team_of v) a \<and> Q (if direction = FD_outbound then 300 else 301) \<or>
    (if direction = FD_outbound then scoring_flow r plan v a port proto
     else vn_role v = SR_scoring \<and> proto = ''tcp'' \<and> port = Some (lr_scoring_port r)) \<and> Q 400 \<or>
    direction = FD_outbound \<and> egress_flow r v a port proto \<and> A"
proof -
  let ?P = "\<lambda>x. hits (sets_of plan) a port proto direction x \<and> Q (fr_position x)"
  have accept: "(\<exists>x \<in> set xs. fr_verdict x = FV_accept \<and> ?P x) \<longleftrightarrow> (\<exists>x \<in> set xs. ?P x)"
    if "list_all (\<lambda>x. fr_verdict x = FV_accept) xs" for xs using that by (auto simp: list_all_iff)
  have drop: "(\<exists>x \<in> set xs. fr_verdict x = FV_accept \<and> ?P x) \<longleftrightarrow> False"
    if "list_all (\<lambda>x. fr_verdict x = FV_drop) xs" for xs using that by (auto simp: list_all_iff)
  have egress: "Q (fr_position x) \<longleftrightarrow> A" if "x \<in> set (egress_rules r (vn_name v))" for x
    using egress_positions [OF plan_flow(2) [OF ok v] that] same by blast
  show ?thesis
    unfolding plan_rules_parts set_append bex_Un drop [OF verdict_all(1)] drop [OF verdict_all(2)] drop [OF verdict_all(3)]
      accept [OF verdict_all(4)] accept [OF verdict_all(5)] accept [OF verdict_all(6)] control_accepts [OF valid_paths [OF valid]]
      intra_hits [OF ok v] scoring_hits [OF ok v] egress_hits [where Q = Q and A = A and v = v, OF valid egress, simplified] by blast
qed

text \<open>Where the denying rules that hit an address sit decides which accepting positions count.\<close>

definition undenied :: "lab_request \<Rightarrow> target_observation \<Rightarrow> network_plan \<Rightarrow> vnet_spec \<Rightarrow> nat \<Rightarrow> firewall_direction \<Rightarrow> int \<Rightarrow> bool" where
  "undenied r obs plan v a direction p \<longleftrightarrow>
    (covers (ti_management_cidrs (to_identity obs)) a \<longrightarrow> p < 0) \<and>
    (direction = FD_outbound \<longrightarrow> covers (lr_control_plane_cidrs r) a \<longrightarrow> p < 150) \<and>
    (\<forall>i < length (peers plan). Some (fst (peers plan ! i)) \<noteq> team_of v \<longrightarrow>
      covers (team_cidrs (np_vnets plan) (fst (peers plan ! i))) a \<longrightarrow> p < (if direction = FD_outbound then 200 else 250) + int i) \<and> p < 8000"

lemma undenied_early: "0 \<le> p \<Longrightarrow> p < 150 \<Longrightarrow> undenied r obs plan v a direction p \<longleftrightarrow> \<not> covers (ti_management_cidrs (to_identity obs)) a"
  by (auto simp: undenied_def)

lemma undenied_late:
  assumes ok: "plan_ok r obs plan l" and p: "(if direction = FD_outbound then 300 else 301) \<le> p" "p < 8000"
  shows "undenied r obs plan v a direction p \<longleftrightarrow> \<not> covers (ti_management_cidrs (to_identity obs)) a \<and>
    \<not> (direction = FD_outbound \<and> covers (lr_control_plane_cidrs r) a) \<and> \<not> peer_address plan (team_of v) a"
proof -
  have "\<not> p < (if direction = FD_outbound then 200 else 250) + int i" if "i < length (peers plan)" for i
    using peer_bound [OF ok] that p by auto
  then have "(\<forall>i < length (peers plan). Some (fst (peers plan ! i)) \<noteq> team_of v \<longrightarrow>
      covers (team_cidrs (np_vnets plan) (fst (peers plan ! i))) a \<longrightarrow> p < (if direction = FD_outbound then 200 else 250) + int i) \<longleftrightarrow>
    \<not> peer_address plan (team_of v) a" unfolding peer_iff [OF ok] by blast
  moreover have "\<not> p < 0" "\<not> p < 150" using p(1) by (simp_all split: if_splits)
  ultimately show ?thesis using p(2) unfolding undenied_def by blast
qed

lemma evaluate_flow_undenied:
  assumes "plan_ok r obs plan l" and "lab_request_valid r" and "v \<in> set (np_vnets plan)" and "parse_ip addr = Some a"
  shows "evaluate_flow plan (vn_name v) addr port proto direction = Inr
    (if \<exists>x \<in> set (plan_rules r plan v). fr_verdict x = FV_accept \<and> hits (sets_of plan) a port proto direction x \<and>
       undenied r obs plan v a direction (fr_position x) then FV_accept else FV_drop)"
  unfolding evaluate_flow_hits [OF assms] denies [OF assms(1)] undenied_def by simp

lemma outbound_decided:
  assumes ok: "plan_ok r obs plan l" and valid: "lab_request_valid r" and v: "v \<in> set (np_vnets plan)" and a: "parse_ip addr = Some a"
  shows "evaluate_flow plan (vn_name v) addr port proto FD_outbound =
    Inr (if outbound_allowed r obs plan v a port proto then FV_accept else FV_drop)"
proof -
  let ?m = "covers (ti_management_cidrs (to_identity obs)) a" and ?c = "covers (lr_control_plane_cidrs r) a"
    and ?p = "peer_address plan (team_of v) a"
  let ?Q = "undenied r obs plan v a FD_outbound"
  have late: "?Q p \<longleftrightarrow> \<not> ?m \<and> \<not> ?c \<and> \<not> ?p" if "300 \<le> p" "p < 8000" for p
    using undenied_late [OF ok, of FD_outbound p v a] that by simp
  have early: "?Q (100 + int i) \<longleftrightarrow> \<not> ?m" if "lr_control_plane_cidrs r \<noteq> []" "i < length (lr_reviewed_paths r)" for i
    using reviewed_bound [OF plan_flow(2) [OF ok v] that(1)] that(2) by (simp add: undenied_early)
  have "(\<exists>x \<in> set (plan_rules r plan v). fr_verdict x = FV_accept \<and> hits (sets_of plan) a port proto FD_outbound x \<and> ?Q (fr_position x)) \<longleftrightarrow>
      lr_control_plane_cidrs r \<noteq> [] \<and> (\<exists>i < length (lr_reviewed_paths r). let p = lr_reviewed_paths r ! i in
        covers [rv_dest_cidr p] a \<and> proto = rv_proto p \<and> (\<exists>k. port = Some k \<and> rv_dport p = show_int k) \<and> ?Q (100 + int i)) \<or>
      own_address plan (team_of v) a \<and> ?Q 300 \<or> scoring_flow r plan v a port proto \<and> ?Q 400 \<or>
      egress_flow r v a port proto \<and> \<not> ?m \<and> \<not> ?c \<and> \<not> ?p"
    using accepts [where Q = ?Q and direction = FD_outbound, OF ok valid v late] by simp
  also have "\<dots> \<longleftrightarrow> outbound_allowed r obs plan v a port proto"
    using early late [of 300] late [of 400]
    by (auto simp: outbound_allowed_def reviewed_flow_def Let_def Bex_def in_set_conv_nth simp del: covers_simps)
  finally show ?thesis unfolding evaluate_flow_undenied [OF assms] by simp
qed

lemma inbound_decided:
  assumes ok: "plan_ok r obs plan l" and valid: "lab_request_valid r" and v: "v \<in> set (np_vnets plan)" and a: "parse_ip addr = Some a"
  shows "evaluate_flow plan (vn_name v) addr port proto FD_inbound =
    Inr (if inbound_allowed r obs plan v a port proto then FV_accept else FV_drop)"
proof -
  let ?m = "covers (ti_management_cidrs (to_identity obs)) a" and ?p = "peer_address plan (team_of v) a"
  let ?Q = "undenied r obs plan v a FD_inbound"
  have late: "?Q p \<longleftrightarrow> \<not> ?m \<and> \<not> ?p" if "301 \<le> p" "p < 8000" for p
    using undenied_late [OF ok, of FD_inbound p v a] that by simp
  have "(\<exists>x \<in> set (plan_rules r plan v). fr_verdict x = FV_accept \<and> hits (sets_of plan) a port proto FD_inbound x \<and> ?Q (fr_position x)) \<longleftrightarrow>
      own_address plan (team_of v) a \<and> ?Q 301 \<or> (vn_role v = SR_scoring \<and> proto = ''tcp'' \<and> port = Some (lr_scoring_port r)) \<and> ?Q 400"
    using accepts [where Q = ?Q and direction = FD_inbound, OF ok valid v late] by simp
  also have "\<dots> \<longleftrightarrow> inbound_allowed r obs plan v a port proto"
    using late [of 301] late [of 400] by (auto simp: inbound_allowed_def)
  finally show ?thesis unfolding evaluate_flow_undenied [OF assms] by simp
qed

end
