(* ===== verification/Proxmox_Verdicts.thy ===== *)
theory Proxmox_Verdicts
  imports Proxmox_Policy
begin

text \<open>
  What follows from the policy for a compiled plan: one segment per requested role with its own VLAN
  and network, a default deny in every group, and the outcome of the compiler's own isolation check.
\<close>

section \<open>Segments of a plan\<close>

definition segment_of :: "vnet_spec \<Rightarrow> string option \<times> segment_role" where
  "segment_of v = (team_of v, vn_role v)"

lemma plan_vlans:
  assumes ok: "plan_ok r obs plan l" and v: "v \<in> set (np_vnets plan)" and w: "w \<in> set (np_vnets plan)"
    and "vn_vlan_tag v = vn_vlan_tag w"
  shows "v = w"
proof (rule ccontr)
  assume "v \<noteq> w"
  from plan_okD(4) [OF ok v] plan_okD(4) [OF ok w] obtain x y where
    x: "map_of (lg_by_key l) (scope_key (vn_ownership v), VK_vlan_tag, vn_alias v) = Some x" "py_int (al_value x) = Some (vn_vlan_tag v)"
    and y: "map_of (lg_by_key l) (scope_key (vn_ownership w), VK_vlan_tag, vn_alias w) = Some y" "py_int (al_value y) = Some (vn_vlan_tag w)"
    by (auto simp: compiled_vnet_def recorded_as_def)
  note cf = conflict_freeD [OF plan_okD(2) [OF ok]]
  have "(scope_key (vn_ownership v), VK_vlan_tag, vn_alias v) \<noteq> (scope_key (vn_ownership w), VK_vlan_tag, vn_alias w)"
    using plan_vnet_inject [OF ok v w] \<open>v \<noteq> w\<close> by auto
  from cf(3) [OF x(1) y(1) this] have "\<not> clash x y" .
  moreover have "al_kind x = VK_vlan_tag" "al_kind y = VK_vlan_tag"
    using cf(2) [OF x(1)] cf(2) [OF y(1)] by (simp_all add: allocation_key_def)
  ultimately show False using x(2) y(2) assms(4) by (simp add: clash_def)
qed

lemma plan_roles:
  assumes ok: "plan_ok r obs plan l" and v: "v \<in> set (np_vnets plan)" and w: "w \<in> set (np_vnets plan)"
    and "segment_of v = segment_of w"
  shows "v = w"
  using plan_vnet_inject [OF ok v w] plan_okD(4) [OF ok v] plan_okD(4) [OF ok w] assms(4)
  by (simp add: segment_of_def compiled_vnet_def)

lemma plan_distinct:
  assumes "plan_ok r obs plan l" and "\<And>v w. v \<in> set (np_vnets plan) \<Longrightarrow> w \<in> set (np_vnets plan) \<Longrightarrow> f v = f w \<Longrightarrow> v = w"
  shows "distinct (map f (np_vnets plan))"
  using plan_okD(3) [OF assms(1)] assms(2) by (auto simp: distinct_map inj_on_def)

lemma team_count:
  assumes ok: "plan_ok r obs plan l" and "distinct (map tq_team_ref (lr_teams r))"
    and full: "\<And>t role p. (t, role, p) \<in> set (lab_segments r) \<Longrightarrow> \<exists>v \<in> set (np_vnets plan). team_of v = t \<and> vn_role v = role"
  shows "length (lr_teams r) \<le> 51"
proof -
  have "tq_team_ref ` set (lr_teams r) \<subseteq> fst ` set (peers plan)"
  proof
    fix t assume "t \<in> tq_team_ref ` set (lr_teams r)"
    then obtain x where x: "x \<in> set (lr_teams r)" "t = tq_team_ref x" by blast
    then obtain i where "i < length (lr_teams r)" "lr_teams r ! i = x" by (metis in_set_conv_nth)
    then have "(Some t, SR_attacker, vnet_name_for (Some (Suc i)) SR_attacker) \<in> set (lab_segments r)"
      using x(2) by (force simp: lab_segments_def in_set_enumerate_eq team_segments_def)
    from full [OF this] obtain v where "v \<in> set (np_vnets plan)" "team_of v = Some t" by blast
    from plan_team_sets(2) [OF ok this] obtain n where "map_of (team_ipset (np_ip_sets plan)) t = Some n" by blast
    then show "t \<in> fst ` set (peers plan)" by (force dest: map_of_SomeD)
  qed
  then have "card (tq_team_ref ` set (lr_teams r)) \<le> card (fst ` set (peers plan))" by (intro card_mono) auto
  also have "\<dots> \<le> length (peers plan)" by (metis card_length length_map set_map)
  finally show ?thesis using peer_bound [OF ok] distinct_card [OF assms(2)] by simp
qed

section \<open>Default deny\<close>

lemma plan_positions:
  assumes ok: "plan_ok r obs plan l" and v: "v \<in> set (np_vnets plan)" and x: "x \<in> set (plan_rules r plan v)"
  shows "fr_position x \<le> 8000"
proof -
  have peers: "int i \<le> 50" if "i < length (team_ipset (np_ip_sets plan))" for i
    using peer_bound [OF ok] that by simp
  have "fr_position x \<le> 8000" if "x \<in> set (control_plane_rules r)"
    using that reviewed_bound [OF plan_flow(2) [OF ok v]]
    by (auto simp: control_plane_rules_def in_set_enumerate_eq positions split: if_splits)
  moreover have "\<forall>y \<in> set (cross_team_rules (team_of v) (team_ipset (np_ip_sets plan))). fr_position y \<le> 8000"
    unfolding cross_team_rules_def ball_concat_enumerate by (auto simp: positions split_beta dest!: peers)
  moreover have "fr_position x \<le> 8000" if "x \<in> set (egress_rules r (vn_name v))"
    using egress_positions [OF plan_flow(2) [OF ok v] that] by simp
  moreover have "fr_position x \<le> 8000" if "x \<in> set management_rules \<union> set (intra_team_rules (team_of v) (team_ipset (np_ip_sets plan))) \<union>
      set (scoring_rules r (vn_role v) (filter (\<lambda>v. vn_role v = SR_scoring) (np_vnets plan))) \<union> set catch_all_rules"
    using that by (auto simp: management_rules_def intra_team_rules_def scoring_rules_def catch_all_rules_def positions
      split: option.splits if_splits)
  ultimately show ?thesis using x unfolding plan_rules_parts by auto
qed

lemma last_sorted:
  assumes "x \<in> set xs" and "sorted (map f xs)" and "\<And>y. y \<in> set xs \<Longrightarrow> f y \<le> f x" and "\<And>y. y \<in> set xs \<Longrightarrow> f y = f x \<Longrightarrow> y = x"
  shows "xs \<noteq> [] \<and> last xs = x"
proof -
  from assms(1) have ne: "xs \<noteq> []" by auto
  have "f x \<le> f (last xs)"
    using assms(1,2) by (induction xs) auto
  with assms(3,4) ne show ?thesis by (metis last_in_set order.antisym)
qed

lemma catch_all_rule: "\<exists>c \<in> set catch_all_rules. fr_direction c = d \<and> fr_position c = 8000 \<and>
    fr_source c = None \<and> fr_dest c = None \<and> fr_dport c = None \<and> fr_verdict c = FV_drop"
  by (cases d) (simp_all add: catch_all_rules_def positions rule_def)

lemma default_deny:
  assumes ok: "plan_ok r obs plan l"
  shows "list_all default_policy_is_deny (np_security_groups plan)"
proof -
  have "default_policy_is_deny g" if g: "g \<in> set (np_security_groups plan)" for g
  proof -
    from ok g obtain v where v: "v \<in> set (np_vnets plan)" "group_for (plan_rules r plan) l v g"
      unfolding plan_ok_def groups_ok_def by auto
    then have rules: "sg_rules g = band_positions (plan_rules r plan v)" and dist: "distinct (map fr_position (sg_rules g))"
      by (auto simp: group_for_def)
    have "ends_in_deny (filter (\<lambda>x. fr_direction x = d) (ordered_rules g))" for d
    proof -
      let ?band = "if d = FD_outbound then 0 else INBOUND_BAND"
      let ?xs = "filter (\<lambda>x. fr_direction x = d) (ordered_rules g)"
      obtain c where c: "c \<in> set catch_all_rules" "fr_direction c = d" "fr_position c = 8000"
        "fr_source c = None" "fr_dest c = None" "fr_dport c = None" "fr_verdict c = FV_drop"
        using catch_all_rule [of d] by blast
      let ?c = "c\<lparr>fr_position := fr_position c + ?band\<rparr>"
      have "c \<in> set (plan_rules r plan v)" using c(1) by (simp add: plan_rules_parts)
      then have "?c \<in> set (band_positions (plan_rules r plan v))"
        unfolding band_positions_def set_map by (rule rev_image_eqI) (simp add: c(2))
      then have "?c \<in> set ?xs" by (simp add: ordered_rules_def rules c(2))
      moreover have "sorted (map fr_position ?xs)" unfolding ordered_rules_def by (simp add: sorted_filter)
      moreover have "fr_position y \<le> fr_position ?c" if "y \<in> set ?xs" for y
        using that plan_positions [OF ok v(1)] c(3) by (auto simp: ordered_rules_def rules band_positions_def)
      moreover have "y = ?c" if "y \<in> set ?xs" "fr_position y = fr_position ?c" for y
      proof (rule inj_onD [of fr_position "set (sg_rules g)"])
        show "inj_on fr_position (set (sg_rules g))" using dist by (simp add: distinct_map)
      qed (use that calculation(1) in \<open>auto simp: ordered_rules_def\<close>)
      ultimately have "?xs \<noteq> [] \<and> last ?xs = ?c" by (rule last_sorted)
      with c show ?thesis by (simp add: ends_in_deny_def)
    qed
    then show ?thesis by (simp add: default_policy_is_deny_def)
  qed
  then show ?thesis by (simp add: list_all_iff)
qed

section \<open>The isolation check\<close>

definition cidrs_apart :: "string \<Rightarrow> string \<Rightarrow> bool" where
  "cidrs_apart c d \<longleftrightarrow> (case (ip_network False c, ip_network False d) of (Some n, Some m) \<Rightarrow> \<not> overlaps n m | _ \<Rightarrow> True)"

definition cidr_has :: "string \<Rightarrow> string \<Rightarrow> bool" where
  "cidr_has c addr \<longleftrightarrow> (case (ip_network False c, parse_ip addr) of (Some n, Some a) \<Rightarrow> net_contains n a | _ \<Rightarrow> False)"

text \<open>
  What the check relies on and the compiler does not enforce: the reviewed paths, the management and
  control planes and the public probe addresses lie outside the lab's own networks, and no reviewed
  path leads to a probe address.
\<close>

definition lab_separated :: "lab_request \<Rightarrow> target_observation \<Rightarrow> network_plan \<Rightarrow> bool" where
  "lab_separated r obs plan \<longleftrightarrow>
     list_all (\<lambda>v. list_all (cidrs_apart (sb_cidr (vn_subnet v)))
       (map rv_dest_cidr (lr_reviewed_paths r) @ ti_management_cidrs (to_identity obs) @ lr_control_plane_cidrs r)) (np_vnets plan) \<and>
     list_all (\<lambda>addr. list_all (\<lambda>c. \<not> cidr_has c addr)
       (map (\<lambda>v. sb_cidr (vn_subnet v)) (np_vnets plan) @ map rv_dest_cidr (lr_reviewed_paths r))) PUBLIC_PROBE_ADDRESSES"

lemma cidrs_apart_covers: "cidrs_apart c d \<Longrightarrow> covers [c] a \<Longrightarrow> \<not> covers [d] a"
  using overlaps_iff net_contains_iff ip_network_wf by (fastforce simp: cidrs_apart_def)

lemma covers_member: "covers cs a \<longleftrightarrow> (\<exists>c \<in> set cs. covers [c] a)"
  by (simp add: covers_def)

lemma separated_segment:
  assumes "lab_separated r obs plan" and "v \<in> set (np_vnets plan)" and "in_segment v a"
  shows "\<not> covers (ti_management_cidrs (to_identity obs)) a" and "\<not> covers (lr_control_plane_cidrs r) a"
    and "\<not> reviewed_flow r a port proto"
proof -
  have apart: "\<not> covers [c] a" if "c \<in> set (map rv_dest_cidr (lr_reviewed_paths r) @ ti_management_cidrs (to_identity obs) @ lr_control_plane_cidrs r)" for c
    using assms cidrs_apart_covers that unfolding lab_separated_def list_all_iff in_segment_def by blast
  then show "\<not> covers (ti_management_cidrs (to_identity obs)) a" "\<not> covers (lr_control_plane_cidrs r) a"
    unfolding covers_member [of "ti_management_cidrs (to_identity obs)"] covers_member [of "lr_control_plane_cidrs r"] by auto
  show "\<not> reviewed_flow r a port proto" unfolding reviewed_flow_def using apart by (auto simp del: covers_simps)
qed

lemma hd_hosts: "wf_net n \<Longrightarrow> h \<in> set (hosts n) \<Longrightarrow> h \<in> net_range n" and hosts_nonempty: "wf_net n \<Longrightarrow> hosts n \<noteq> []"
proof -
  assume wf: "wf_net n"
  have "4 \<le> block_size (nw_prefix n)" if "nw_prefix n \<noteq> 32" "nw_prefix n \<noteq> 31"
  proof -
    have "2 \<le> 32 - nw_prefix n" using that wf by (auto simp: wf_net_def)
    then have "(2::nat) ^ 2 \<le> 2 ^ (32 - nw_prefix n)" by (rule power_increasing) simp
    then show ?thesis by (simp add: block_size_def)
  qed
  then show "hosts n \<noteq> []" by (auto simp: hosts_def broadcast_def)
  assume "h \<in> set (hosts n)"
  moreover have "block_size 31 = 2" "block_size 32 = 1" by (simp_all add: block_size_def)
  ultimately show "h \<in> net_range n" by (auto simp: hosts_def net_range_def broadcast_def split: if_splits)
qed

definition host_of :: "string \<Rightarrow> nat" where
  "host_of cidr = hd (hosts (the (ip_network False cidr)))"

lemma host_of:
  assumes "ip_network False cidr = Some n"
  shows "covers [cidr] (host_of cidr)" and "parse_ip (ip_str (host_of cidr)) = Some (host_of cidr)"
    and "first_host cidr = Inr (ip_str (host_of cidr))"
proof -
  note wf = ip_network_wf [OF assms]
  have "hd (hosts n) \<in> net_range n" using hd_hosts [OF wf] hosts_nonempty [OF wf] by simp
  moreover have "net_range n \<subseteq> {..<2 ^ 32}" using wf by (auto simp: net_range_def wf_net_def)
  ultimately show "covers [cidr] (host_of cidr)" "parse_ip (ip_str (host_of cidr)) = Some (host_of cidr)"
    "first_host cidr = Inr (ip_str (host_of cidr))"
    using assms net_contains_iff [OF wf] by (auto simp: host_of_def first_host_def bindE_def parsed_def)
qed

lemma outbound_eq:
  assumes "plan_ok r obs plan l" and "lab_request_valid r" and "s \<in> set (np_vnets plan)" and "parse_ip addr = Some a"
  shows "outbound plan s addr port = Inr (outbound_allowed r obs plan s a (Some port) ''tcp'')"
  using outbound_decided [OF assms] by (simp add: outbound_def bindE_def)

lemma accepted_eq:
  assumes "plan_ok r obs plan l" and "lab_request_valid r" and "s \<in> set (np_vnets plan)" and "parse_ip addr = Some a"
  shows "accepted plan (map (\<lambda>p. (s, addr, p)) ports) =
    Inr (map (\<lambda>p. (s, addr, p)) (filter (\<lambda>p. outbound_allowed r obs plan s a (Some p) ''tcp'') ports))"
  by (induction ports) (simp_all add: outbound_eq [OF assms] bindE_def)

lemma probe_first_hosts_eq:
  assumes ok: "plan_ok r obs plan l" and valid: "lab_request_valid r"
    and "\<forall>(s, c) \<in> set pairs. s \<in> set (np_vnets plan) \<and> (\<exists>n. ip_network False c = Some n)"
  shows "probe_first_hosts plan ports pairs = Inr (concat (map (\<lambda>(s, c). map (\<lambda>p. (s, ip_str (host_of c), p))
    (filter (\<lambda>p. outbound_allowed r obs plan s (host_of c) (Some p) ''tcp'') ports)) pairs))"
  using assms(3)
proof (induction pairs)
  case (Cons sc pairs)
  obtain s c where sc: "sc = (s, c)" by (cases sc)
  with Cons.prems obtain n where "s \<in> set (np_vnets plan)" "ip_network False c = Some n" by auto
  with Cons.IH Cons.prems host_of [OF this(2)] show ?case
    by (simp add: sc accepted_eq [OF ok valid] bindE_def)
qed simp

lemma probe_none:
  assumes "plan_ok r obs plan l" and "lab_request_valid r"
    and "\<forall>(s, c) \<in> set pairs. s \<in> set (np_vnets plan) \<and> (\<exists>n. ip_network False c = Some n)"
    and "\<And>s c p. (s, c) \<in> set pairs \<Longrightarrow> \<not> outbound_allowed r obs plan s (host_of c) (Some p) ''tcp''"
  shows "probe_first_hosts plan ports pairs = Inr []"
  unfolding probe_first_hosts_eq [OF assms(1-3)] using assms(4) by (auto simp: filter_empty_conv)

lemma cross_team_none:
  assumes ok: "plan_ok r obs plan l" and valid: "lab_request_valid r" and sep: "lab_separated r obs plan"
  shows "cross_team_violations plan r = Inr []"
proof -
  have net: "\<exists>n. ip_network False (sb_cidr (vn_subnet d)) = Some n" if "d \<in> set (np_vnets plan)" for d
    using plan_subnet [OF ok that] by blast
  have none: "\<not> outbound_allowed r obs plan s (host_of (sb_cidr (vn_subnet d))) (Some p) ''tcp''"
    if "(s, d) \<in> set (cross_team_pairs plan)" for s d p
  proof -
    from that have d: "d \<in> set (np_vnets plan)" "team_of d \<noteq> None" "team_of d \<noteq> team_of s" by (auto simp: cross_team_pairs_def)
    from net [OF d(1)] have "in_segment d (host_of (sb_cidr (vn_subnet d)))" using host_of(1) by (auto simp: in_segment_def)
    with d separated_segment [OF sep d(1) this] show ?thesis by (auto simp: outbound_allowed_def peer_address_def)
  qed
  have pairs: "\<forall>(s, c) \<in> set (map (\<lambda>(s, d). (s, sb_cidr (vn_subnet d))) (cross_team_pairs plan)).
      s \<in> set (np_vnets plan) \<and> (\<exists>n. ip_network False c = Some n)"
    using net by (auto simp: cross_team_pairs_def)
  show ?thesis
    unfolding cross_team_violations_def by (rule probe_none [OF ok valid pairs]) (use none in auto)
qed

lemma management_none:
  assumes ok: "plan_ok r obs plan l" and valid: "lab_request_valid r"
  shows "management_violations plan obs = Inr []"
proof -
  let ?pairs = "[(s, cidr). s \<leftarrow> np_vnets plan, cidr \<leftarrow> ti_management_cidrs (to_identity obs)]"
  have net: "\<exists>n. ip_network False c = Some n" if "c \<in> set (ti_management_cidrs (to_identity obs))" for c
    using plan_planes(2) [OF ok] that by (auto simp: all_parse_def list_all_iff)
  have none: "\<not> outbound_allowed r obs plan s (host_of c) (Some p) ''tcp''" if "(s, c) \<in> set ?pairs" for s c p
  proof -
    from that have c: "c \<in> set (ti_management_cidrs (to_identity obs))" by auto
    from net [OF c] have "covers [c] (host_of c)" using host_of(1) by blast
    with c have "covers (ti_management_cidrs (to_identity obs)) (host_of c)" using covers_member by blast
    then show ?thesis by (simp add: outbound_allowed_def)
  qed
  have pairs: "\<forall>(s, c) \<in> set ?pairs. s \<in> set (np_vnets plan) \<and> (\<exists>n. ip_network False c = Some n)"
    using net by auto
  show ?thesis
    unfolding management_violations_def by (rule probe_none [OF ok valid pairs]) (rule none)
qed

lemma anyE_total: "(\<And>x. x \<in> set xs \<Longrightarrow> f x = Inr (g x)) \<Longrightarrow> anyE f xs = Inr (\<exists>x \<in> set xs. g x)"
  by (induction xs) (simp_all add: bindE_def)

lemma is_reviewed_eq:
  assumes "lab_request_valid r"
  shows "is_reviewed r host port = Inr (\<exists>p \<in> set (lr_reviewed_paths r). covers [rv_dest_cidr p] host \<and> rv_dport p = show_int port)"
  unfolding is_reviewed_def
proof (rule anyE_total)
  fix p assume "p \<in> set (lr_reviewed_paths r)"
  with valid_paths [OF assms] obtain n where "ip_network False (rv_dest_cidr p) = Some n" by (auto simp: list_all_iff)
  then show "bindE (in_cidr host (rv_dest_cidr p)) (\<lambda>b. Inr (b \<and> show_int port = rv_dport p)) =
      Inr (covers [rv_dest_cidr p] host \<and> rv_dport p = show_int port)"
    by (auto simp: in_cidr_def bindE_def parsed_def)
qed

lemma sample_hosts_Inr:
  assumes "ip_network False cidr = Some n" shows "\<exists>hs. sample_hosts cidr = Inr hs \<and> set hs \<subseteq> net_range n"
  using assms hd_hosts [OF ip_network_wf [OF assms]] hosts_nonempty [OF ip_network_wf [OF assms]]
  by (auto simp: sample_hosts_def bindE_def parsed_def dest: in_set_takeD)

lemma mapE_const: "(\<And>x. x \<in> set xs \<Longrightarrow> f x = Inr c) \<Longrightarrow> mapE f xs = Inr (map (\<lambda>_. c) xs)"
  by (induction xs) (simp_all add: bindE_def)

lemma control_none:
  assumes ok: "plan_ok r obs plan l" and valid: "lab_request_valid r"
  shows "control_violated plan r (control_pairs plan r) = Inr False"
proof -
  have "control_violated plan r pairs = Inr False"
    if "\<forall>(s, c) \<in> set pairs. s \<in> set (np_vnets plan) \<and> c \<in> set (lr_control_plane_cidrs r)" for pairs
    using that
  proof (induction pairs)
    case (Cons sc pairs)
    obtain s c where sc: "sc = (s, c)" by (cases sc)
    with Cons.prems have s: "s \<in> set (np_vnets plan)" and c: "c \<in> set (lr_control_plane_cidrs r)" by auto
    then have "lr_control_plane_cidrs r \<noteq> []" by auto
    with plan_planes(3) [OF ok] c obtain n where n: "ip_network False c = Some n" by (auto simp: all_parse_def list_all_iff)
    from sample_hosts_Inr [OF n] obtain hs where hs: "sample_hosts c = Inr hs" "set hs \<subseteq> net_range n" by blast
    note wf = ip_network_wf [OF n]
    have "control_probe plan r (s, h, p) = Inr False" if "h \<in> set hs" for h p
    proof -
      have h: "h \<in> net_range n" using hs(2) that by blast
      then have "h < 2 ^ 32" using wf by (auto simp: net_range_def wf_net_def)
      moreover have "covers [c] h" using n h net_contains_iff [OF wf] by simp
      then have "covers (lr_control_plane_cidrs r) h" using c covers_member by blast
      ultimately show ?thesis
        using outbound_eq [OF ok valid s parse_ip_str [of h]]
        by (auto simp: control_probe_def is_reviewed_eq [OF valid] bindE_def outbound_allowed_def reviewed_flow_def)
    qed
    then have "mapE (control_probe plan r) [(s, host, port). host \<leftarrow> hs, port \<leftarrow> [22, 443, 5432, 8000]] =
        Inr (map (\<lambda>_. False) [(s, host, port). host \<leftarrow> hs, port \<leftarrow> [22, 443, 5432, 8000::int]])"
      by (intro mapE_const) auto
    with Cons.IH Cons.prems hs(1) show ?case by (simp add: sc bindE_def list_ex_iff)
  qed simp
  then show ?thesis by (auto simp: control_pairs_def)
qed

lemma parse_probes: "\<exists>a. parse_ip ''192.0.2.53'' = Some a" "\<exists>a. parse_ip ''192.0.2.200'' = Some a" "\<exists>a. parse_ip ''198.51.100.10'' = Some a"
  by (simp_all add: parse_ip_def octet_ok_def is_digit_def read_nat_def digit_value_def)

lemma public_none:
  assumes ok: "plan_ok r obs plan l" and valid: "lab_request_valid r" and sep: "lab_separated r obs plan"
    and egress: "np_egress plan = lr_egress r"
  shows "public_violated plan = Inr False"
proof -
  have "public_probe plan (s, addr, p) = Inr False"
    if s: "s \<in> set (np_vnets plan)" and addr: "addr \<in> set PUBLIC_PROBE_ADDRESSES" for s addr p
  proof -
    from addr obtain a where a: "parse_ip addr = Some a" using parse_probes by (auto simp: PUBLIC_PROBE_ADDRESSES_def)
    have out: "\<not> covers [c] a" if "c \<in> set (map (\<lambda>v. sb_cidr (vn_subnet v)) (np_vnets plan) @ map rv_dest_cidr (lr_reviewed_paths r))" for c
      using sep addr that a unfolding lab_separated_def list_all_iff by (auto simp: cidr_has_def split: option.splits)
    then have "\<not> in_segment v a" if "v \<in> set (np_vnets plan)" for v using that by (auto simp: in_segment_def simp del: covers_simps)
    moreover have "\<not> reviewed_flow r a port proto" for port proto using out by (auto simp: reviewed_flow_def simp del: covers_simps)
    ultimately have "outbound_allowed r obs plan s a (Some p) ''tcp'' \<Longrightarrow> covers (approved_egress plan) a"
      by (auto simp: outbound_allowed_def own_address_def scoring_flow_def egress_flow_def approved_egress_def egress)
    moreover have "all_parse (approved_egress plan)"
      using egress_destinations [OF valid] by (auto simp: approved_egress_def egress all_parse_def split: option.splits)
    ultimately show ?thesis
      using outbound_eq [OF ok valid s a, of p] a
      by (auto simp: public_probe_def bindE_def parsed_def anyE_in_cidr all_parse_def)
  qed
  then have "mapE (public_probe plan) [(s, addr, port). s \<leftarrow> np_vnets plan, addr \<leftarrow> PUBLIC_PROBE_ADDRESSES, port \<leftarrow> [80, 443]] =
      Inr (map (\<lambda>_. False) [(s, addr, port). s \<leftarrow> np_vnets plan, addr \<leftarrow> PUBLIC_PROBE_ADDRESSES, port \<leftarrow> [80, 443::int]])"
    by (intro mapE_const) auto
  moreover have "\<not> sb_routed (vn_subnet v)" if "v \<in> set (np_vnets plan)" for v
    using plan_okD(4) [OF ok that] by (simp add: compiled_vnet_def)
  ultimately show ?thesis by (auto simp: public_violated_def bindE_def list_ex_iff)
qed

lemma scoring_segment_team:
  assumes "plan_ok r obs plan l" and "v \<in> set (np_vnets plan)"
  shows "team_of v = None \<longleftrightarrow> vn_role v = SR_scoring"
  using plan_okD(4) [OF assms] lab_segments_role by (auto simp: compiled_vnet_def)

lemma scoring_allowed:
  assumes ok: "plan_ok r obs plan l" and sep: "lab_separated r obs plan"
    and s: "s \<in> set (np_vnets plan)" "vn_role s \<noteq> SR_scoring" and d: "d \<in> set (np_vnets plan)" "vn_role d = SR_scoring"
    and a: "in_segment d a"
  shows "outbound_allowed r obs plan s a (Some (lr_scoring_port r)) ''tcp''"
proof -
  have "\<not> peer_address plan (team_of s) a"
  proof
    assume "peer_address plan (team_of s) a"
    then obtain w where w: "w \<in> set (np_vnets plan)" "team_of w \<noteq> None" "in_segment w a" by (auto simp: peer_address_def)
    then have "w = d" using plan_subnets_apart [OF ok w(1) d(1)] a by (simp add: in_segment_def)
    with w(2) scoring_segment_team [OF ok d(1)] d(2) show False by simp
  qed
  with separated_segment [OF sep d(1) a] s d a show ?thesis by (auto simp: outbound_allowed_def scoring_flow_def)
qed

lemma scoring_reached:
  assumes ok: "plan_ok r obs plan l" and valid: "lab_request_valid r" and sep: "lab_separated r obs plan"
    and full: "\<exists>v \<in> set (np_vnets plan). vn_role v = SR_scoring"
  shows "scoring_unreachable plan r = Inr False"
proof -
  have net: "\<exists>n. ip_network False (sb_cidr (vn_subnet d)) = Some n" if "d \<in> set (np_vnets plan)" for d
    using plan_subnet [OF ok that] by blast
  have pairs: "\<forall>(s, c) \<in> set (scoring_probes plan). s \<in> set (np_vnets plan) \<and> (\<exists>n. ip_network False c = Some n)"
    using net by (auto simp: scoring_probes_def)
  have all: "outbound_allowed r obs plan s (host_of c) (Some (lr_scoring_port r)) ''tcp''" if sc: "(s, c) \<in> set (scoring_probes plan)" for s c
  proof -
    from sc obtain d where d: "s \<in> set (np_vnets plan)" "vn_role s \<noteq> SR_scoring" "d \<in> set (np_vnets plan)" "vn_role d = SR_scoring"
      "c = sb_cidr (vn_subnet d)" by (auto simp: scoring_probes_def split: if_splits)
    then have "in_segment d (host_of c)" using net [OF d(3)] host_of(1) by (auto simp: in_segment_def)
    with scoring_allowed [OF ok sep d(1-4)] show ?thesis by simp
  qed
  have "length (concat (map (\<lambda>(s, c). map (\<lambda>p. (s, ip_str (host_of c), p))
      (filter (\<lambda>p. outbound_allowed r obs plan s (host_of c) (Some p) ''tcp'') [lr_scoring_port r])) ps)) = length ps"
    if "set ps \<subseteq> set (scoring_probes plan)" for ps
    using that by (induction ps) (auto simp: all)
  with full show ?thesis
    by (auto simp: scoring_unreachable_def probe_first_hosts_eq [OF ok valid pairs] bindE_def list_ex_iff)
qed

lemma isolation_verified:
  assumes ok: "plan_ok r obs plan l" and valid: "lab_request_valid r" and sep: "lab_separated r obs plan"
    and egress: "np_egress plan = lr_egress r" and full: "\<exists>v \<in> set (np_vnets plan). vn_role v = SR_scoring"
  shows "verify_isolation plan obs r = Inr (map (\<lambda>p. \<lparr>if_prop = p, if_holds = True\<rparr>)
    [IP_cross_team_blocked, IP_management_plane_unreachable, IP_control_plane_unreachable, IP_no_default_public_route,
     IP_default_deny_present, IP_scoring_reachable])"
  by (simp add: verify_isolation_def bindE_def cross_team_none [OF ok valid sep] management_none [OF ok valid] control_none [OF ok valid]
    public_none [OF ok valid sep egress] scoring_reached [OF ok valid sep full] default_deny [OF ok])

end
