(* ===== verification/Content_Hash.thy ===== *)
theory Content_Hash
  imports Recon_State Ipam_Ledger
begin

text \<open>
  The content hash of the scenario schema (\<open>contracts/scenario-schema/.../validator.py\<close>):
  \<open>json.dumps(spec, sort_keys=True, separators=(",", ":"), ensure_ascii=False)\<close>, UTF-8, SHA-256. With
  \<open>ensure_ascii=False\<close> only quotes, backslashes and control characters are escaped. The text still
  determines the document up to key order: escaping its non-ASCII characters afterwards gives the
  ASCII encoding, which does.
\<close>

definition raw_char :: "char \<Rightarrow> string" where
  "raw_char c = (if (of_char c :: nat) < 127 then esc_char c else [c])"

definition raw_str :: "string \<Rightarrow> string" where
  "raw_str s = CHR 0x22 # concat (map raw_char s) @ [CHR 0x22]"

fun raw_json :: "json \<Rightarrow> string" where
  "raw_json JNull = ''null''"
| "raw_json (JBool b) = (if b then ''true'' else ''false'')"
| "raw_json (JInt i) = show_int i"
| "raw_json (JStr s) = raw_str s"
| "raw_json (JArr vs) = CHR ''['' # join '','' (map raw_json vs) @ '']''"
| "raw_json (JObj kvs) =
     CHR ''{'' # join '','' (map (\<lambda>(k, v). raw_str k @ '':'' @ raw_json v) kvs) @ ''}''"

definition canonicalize :: "json \<Rightarrow> string" where
  "canonicalize spec = raw_json (norm_json spec)"

definition content_hash :: "json \<Rightarrow> string" where
  "content_hash spec = ''sha256:'' @ sha256_hexdigest (utf8 (canonicalize spec))"

section \<open>The text determines the document\<close>

definition asciify :: "string \<Rightarrow> string" where
  "asciify s = concat (map (\<lambda>c. if (of_char c :: nat) < 127 then [c] else esc_char c) s)"

lemma asciify_append [simp]: "asciify (s @ t) = asciify s @ asciify t"
  by (simp add: asciify_def)

lemma asciify_Nil [simp]: "asciify [] = []"
  by (simp add: asciify_def)

lemma asciify_Cons: "asciify (c # s) = (if (of_char c :: nat) < 127 then [c] else esc_char c) @ asciify s"
  by (simp add: asciify_def)

lemma asciify_id: "list_all (\<lambda>c. (of_char c :: nat) < 127) s \<Longrightarrow> asciify s = s"
  by (induction s) (auto simp: asciify_Cons)

lemma hex_digit_ascii: "n < 16 \<Longrightarrow> (of_char (hex_digit n) :: nat) < 127"
  using hex_digit_alphabet [of n] by (auto simp: HEX_ALPHABET_def)

lemma esc_char_ascii: "list_all (\<lambda>c. (of_char c :: nat) < 127) (esc_char c)"
proof -
  have "(of_char c :: nat) div 16 < 16" by (rule less_mult_imp_div_less) (simp add: of_char_lt_256)
  then show ?thesis by (simp add: esc_char_def Let_def hex_digit_ascii)
qed

lemma asciify_raw_char: "asciify (raw_char c) = esc_char c"
  by (simp add: raw_char_def asciify_id [OF esc_char_ascii] asciify_Cons)

lemma asciify_raw_str: "asciify (raw_str s) = enc_str s"
proof -
  have "asciify (concat (map raw_char s)) = concat (map esc_char s)"
    by (induction s) (simp_all add: asciify_raw_char)
  then show ?thesis by (simp add: raw_str_def enc_str_def asciify_Cons)
qed

lemma asciify_join: "asciify (join '','' xs) = join '','' (map asciify xs)"
proof (induction xs)
  case (Cons x xs)
  then show ?case by (cases xs) (simp_all add: asciify_Cons)
qed simp

lemma asciify_show_int: "asciify (show_int i) = show_int i"
proof (rule asciify_id)
  have "(of_char c :: nat) < 127" if "c \<in> set (show_int i)" for c
  proof -
    have "c = CHR ''-'' \<or> is_digit c" using show_int_chars that by blast
    then show ?thesis by (auto simp: is_digit_def)
  qed
  then show "list_all (\<lambda>c. (of_char c :: nat) < 127) (show_int i)" by (simp add: list_all_iff)
qed

lemma asciify_raw_json: "asciify (raw_json v) = enc_json v"
proof (induction v)
  case (JArr vs)
  then have "map (asciify \<circ> raw_json) vs = map enc_json vs" by simp
  then show ?case unfolding raw_json.simps enc_json.simps by (simp add: asciify_Cons asciify_join del: map_eq_conv)
next
  case (JObj kvs)
  then have "map (asciify \<circ> (\<lambda>(k, v). raw_str k @ '':'' @ raw_json v)) kvs =
      map (\<lambda>(k, v). enc_str k @ '':'' @ enc_json v) kvs"
    by (auto simp: asciify_raw_str asciify_Cons)
  then show ?case unfolding raw_json.simps enc_json.simps by (simp add: asciify_Cons asciify_join del: map_eq_conv)
qed (simp_all add: asciify_raw_str asciify_show_int asciify_Cons)

lemma canonicalize_binds: "canonicalize a = canonicalize b \<longleftrightarrow> norm_json a = norm_json b"
  by (metis asciify_raw_json canonicalize_def enc_json_inject)

lemma utf8_Cons: "utf8 (c # s) = (let n = (of_char c :: nat) in
    if n < 128 then [c] else [char_of (192 + n div 64), char_of (128 + n mod 64)]) @ utf8 s"
  by (simp add: utf8_def)

lemma utf8_inject: "utf8 s = utf8 t \<longleftrightarrow> s = t"
proof
  show "utf8 s = utf8 t \<Longrightarrow> s = t"
  proof (induction s arbitrary: t)
    case Nil
    then show ?case by (cases t) (auto simp: utf8_Cons Let_def utf8_def split: if_splits)
  next
    case (Cons c s)
    then obtain d t' where t: "t = d # t'" by (cases t) (auto simp: utf8_Cons Let_def utf8_def split: if_splits)
    define m n where "m = (of_char c :: nat)" and "n = (of_char d :: nat)"
    have b: "m < 256" "n < 256" by (simp_all add: m_def n_def of_char_lt_256)
    have cd: "c = char_of m" "d = char_of n" by (simp_all add: m_def n_def)
    have top: "(of_char (char_of (192 + k div 64) :: char) :: nat) = 192 + k div 64"
        "(of_char (char_of (128 + k mod 64) :: char) :: nat) = 128 + k mod 64" if "k < 256" for k
      using that by auto
    note eq = Cons.prems [unfolded t utf8_Cons Let_def, folded m_def n_def]
    consider "m < 128" "n < 128" | "m < 128" "\<not> n < 128" | "\<not> m < 128" "n < 128" | "\<not> m < 128" "\<not> n < 128" by blast
    then show ?case
    proof cases
      case 1
      with eq Cons.IH [of t'] show ?thesis by (simp add: t)
    next
      case 2
      with eq have "c = char_of (192 + n div 64)" by simp
      with top(1) [OF b(2)] have "m = 192 + n div 64" by (simp add: m_def)
      with 2 show ?thesis by simp
    next
      case 3
      with eq have "char_of (192 + m div 64) = d" by simp
      with top(1) [OF b(1)] have "n = 192 + m div 64" by (auto simp: n_def)
      with 3 show ?thesis by simp
    next
      case 4
      with eq have "char_of (192 + m div 64) = (char_of (192 + n div 64) :: char)"
          "char_of (128 + m mod 64) = (char_of (128 + n mod 64) :: char)" "utf8 s = utf8 t'" by simp_all
      then have "m div 64 = n div 64" "m mod 64 = n mod 64" "s = t'"
        using top [OF b(1)] top [OF b(2)] Cons.IH [of t'] by (metis add_left_cancel)+
      then have "m = n" "s = t'" by (metis div_mult_mod_eq)+
      then show ?thesis by (simp add: t cd)
    qed
  qed
qed simp

lemma spec_hash_binds:
  "content_hash a = content_hash b \<Longrightarrow>
   norm_json a = norm_json b \<or> sha_collision (utf8 (canonicalize a)) (utf8 (canonicalize b))"
  by (auto simp: content_hash_def sha_collision_def utf8_inject canonicalize_binds)

lemma spec_hash_cong: "norm_json a = norm_json b \<Longrightarrow> content_hash a = content_hash b"
  by (simp add: content_hash_def canonicalize_def)

end
