(* ===== verification/Proxmox_Gates.thy ===== *)
theory Proxmox_Gates
  imports Content_Hash Ipam_Invariants
begin

text \<open>
  The gates in front of a Proxmox apply (\<open>apps/worker/.../provisioning/proxmox_apply_gate.py\<close>) and of a
  destroy (\<open>proxmox_destroy_gate.py\<close>). Each is a pure decision over records loaded beforehand: an
  authorization, or the code of the first check that refuses. The detail text of a refusal is not
  kept. The lemmas say exactly when each gate authorises, and what the hashes it compares bind.
\<close>

section \<open>The apply gate (proxmox_apply_gate.py)\<close>

datatype apply_refusal_code = AR_no_prepared_plan | AR_change_set_hash_mismatch | AR_stale_binary_plan
  | AR_allocation_drift | AR_desired_state_drift | AR_ownership_scope_mismatch | AR_worker_identity_mismatch
  | AR_worker_release_mismatch | AR_target_mismatch | AR_remote_state_lock_unavailable | AR_credential_unresolvable
  | AR_ordinary_worker_on_controlled_live_path | AR_discovery_stale | AR_onboarding_not_current
  | AR_eligibility_not_current | AR_reservations_not_persisted

definition INFRASTRUCTURE_OPERATOR_ROLE :: string where
  "INFRASTRUCTURE_OPERATOR_ROLE = ''infrastructure_operator''"

type_synonym ownership_scope = "string \<times> string \<times> string \<times> int"

record worker_identity =
  wi_worker_id :: string
  wi_role :: string
  wi_release :: string
  wi_queue :: string

record approved_plan_binding =
  ap_change_set_hash :: string
  ap_desired_state_hash :: string
  ap_plan_document_hash :: string
  ap_allocations :: "(string, string) dict"
  ap_ownership_scope :: ownership_scope
  ap_target_id :: string
  ap_cluster_fingerprint :: string
  ap_worker_id :: string
  ap_worker_release :: string

record regenerated_plan =
  rg_change_set_hash :: string
  rg_desired_state_hash :: string
  rg_allocations :: "(string, string) dict"
  rg_ownership_scope :: ownership_scope
  rg_target_id :: string
  rg_cluster_fingerprint :: string
  rg_binary_plan_present :: bool
  rg_binary_plan_fingerprint :: string

record authoritative_state =
  as_onboarding_current :: "bool option"
  as_eligibility_passing :: "bool option"
  as_discovery_fresh :: "bool option"
  as_reservations_persisted :: "bool option"
  as_remote_state_lock_held :: "bool option"
  as_credential_resolved :: "bool option"

record apply_authorization =
  au_change_set_hash :: string
  au_desired_state_hash :: string
  au_ownership_scope :: ownership_scope
  au_checks_passed :: "string list"

text \<open>The loop over tri-state prerequisites: the first one that is not \<open>True\<close> refuses.\<close>

fun require_all :: "(bool option \<times> 'c) list \<Rightarrow> 'c + unit" where
  "require_all [] = Inr ()"
| "require_all ((held, code) # rest) = (if held \<noteq> Some True then Inl code else require_all rest)"

definition evaluate_apply_gate :: "worker_identity \<Rightarrow> approved_plan_binding \<Rightarrow> regenerated_plan option \<Rightarrow>
    authoritative_state \<Rightarrow> string \<Rightarrow> apply_refusal_code + apply_authorization" where
  "evaluate_apply_gate worker approved regenerated st controlled_live_queue =
    (if wi_queue worker = controlled_live_queue \<and> wi_role worker \<noteq> INFRASTRUCTURE_OPERATOR_ROLE
       then Inl AR_ordinary_worker_on_controlled_live_path
     else if wi_worker_id worker \<noteq> ap_worker_id approved then Inl AR_worker_identity_mismatch
     else if wi_release worker \<noteq> ap_worker_release approved then Inl AR_worker_release_mismatch
     else bindE (require_all [(as_onboarding_current st, AR_onboarding_not_current),
         (as_eligibility_passing st, AR_eligibility_not_current),
         (as_discovery_fresh st, AR_discovery_stale),
         (as_reservations_persisted st, AR_reservations_not_persisted)]) (\<lambda>_.
       if as_remote_state_lock_held st \<noteq> Some True then Inl AR_remote_state_lock_unavailable
       else if as_credential_resolved st \<noteq> Some True then Inl AR_credential_unresolvable
       else (case regenerated of
           None \<Rightarrow> Inl AR_no_prepared_plan
         | Some plan \<Rightarrow>
             if \<not> rg_binary_plan_present plan then Inl AR_stale_binary_plan
             else if rg_change_set_hash plan \<noteq> ap_change_set_hash approved then Inl AR_change_set_hash_mismatch
             else if rg_desired_state_hash plan \<noteq> ap_desired_state_hash approved then Inl AR_desired_state_drift
             else if \<not> dict_eq (rg_allocations plan) (ap_allocations approved) then Inl AR_allocation_drift
             else if rg_ownership_scope plan \<noteq> ap_ownership_scope approved then Inl AR_ownership_scope_mismatch
             else if rg_target_id plan \<noteq> ap_target_id approved then Inl AR_target_mismatch
             else if rg_cluster_fingerprint plan \<noteq> ap_cluster_fingerprint approved then Inl AR_target_mismatch
             else Inr \<lparr>au_change_set_hash = rg_change_set_hash plan,
                 au_desired_state_hash = rg_desired_state_hash plan,
                 au_ownership_scope = rg_ownership_scope plan,
                 au_checks_passed = [''authority'', ''worker_identity'', ''prerequisites'', ''exclusive_access'',
                   ''change_set_binding'', ''allocation_identity'', ''ownership_and_target'']\<rparr>)))"

text \<open>
  \<open>allocations_fingerprint\<close> over a ledger payload. Iterating over a value that is not a list, or
  over records that are not dicts, raises: \<open>None\<close>.
\<close>

definition fingerprint_parts :: "string list" where
  "fingerprint_parts = [''kind'', ''organization_id'', ''target_id'', ''range_id'', ''team_ref'', ''generation'', ''purpose'']"

definition part_text :: "(string \<times> json) list \<Rightarrow> string \<Rightarrow> string" where
  "part_text record part = json_str (case map_of record part of None \<Rightarrow> JStr '''' | Some v \<Rightarrow> v)"

fun fingerprint_records :: "json list \<Rightarrow> (string, string) dict \<Rightarrow> (string, string) dict option" where
  "fingerprint_records [] d = Some d"
| "fingerprint_records (r # rs) d = (case r of
      JObj record \<Rightarrow> fingerprint_records rs
        (dict_set (join ''|'' (map (part_text record) fingerprint_parts)) (part_text record ''value'') d)
    | _ \<Rightarrow> None)"

definition iterated :: "json \<Rightarrow> json list option" where
  "iterated v = (case v of JArr rs \<Rightarrow> Some rs
     | JStr s \<Rightarrow> Some (map (\<lambda>c. JStr [c]) s)
     | JObj kvs \<Rightarrow> Some (map (\<lambda>(k, _). JStr k) kvs)
     | _ \<Rightarrow> None)"

definition allocations_fingerprint :: "(string \<times> json) list \<Rightarrow> (string, string) dict option" where
  "allocations_fingerprint ledger_payload =
     (case iterated (case map_of ledger_payload ''allocations'' of None \<Rightarrow> JArr [] | Some v \<Rightarrow> v) of
        None \<Rightarrow> None
      | Some records \<Rightarrow> fingerprint_records records [])"

section \<open>The destroy gate (proxmox_destroy_gate.py)\<close>

definition DESTROY_OPERATION_KIND :: string where
  "DESTROY_OPERATION_KIND = ''destroy''"

datatype destroy_refusal_code = DR_approval_is_not_for_destroy | DR_no_destroy_approval | DR_approval_already_consumed
  | DR_destroy_change_set_hash_mismatch | DR_prepared_plan_is_not_a_destroy_plan | DR_stale_binary_destroy_plan
  | DR_deletion_set_mismatch | DR_ownership_not_verified | DR_discovery_stale | DR_ownership_scope_mismatch
  | DR_worker_identity_mismatch | DR_worker_release_mismatch | DR_target_mismatch | DR_remote_state_lock_unavailable
  | DR_credential_unresolvable | DR_ordinary_worker_on_controlled_live_path

record destroy_approval =
  da_operation_kind :: string
  da_change_set_hash :: string
  da_deletion_set_hash :: string
  da_plan_document_hash :: string
  da_ownership_scope :: ownership_scope
  da_target_id :: string
  da_cluster_fingerprint :: string
  da_worker_id :: string
  da_worker_release :: string
  da_approval_id :: string

text \<open>\<open>DestroyApproval.__post_init__\<close>: which records the constructor lets exist; \<open>None\<close> is
  \<open>DestroyApprovalError\<close>.\<close>

definition construct_destroy_approval :: "destroy_approval \<Rightarrow> destroy_approval option" where
  "construct_destroy_approval a =
     (if da_operation_kind a \<noteq> DESTROY_OPERATION_KIND then None
      else if da_approval_id a = [] then None
      else Some a)"

record regenerated_destroy_plan =
  rd_kind :: string
  rd_change_set_hash :: string
  rd_deletion_set_hash :: string
  rd_deletion_addresses :: "string list"
  rd_ownership_scope :: ownership_scope
  rd_target_id :: string
  rd_cluster_fingerprint :: string
  rd_binary_plan_present :: bool

record destroy_preconditions =
  dp_ownership_verified :: "bool option"
  dp_discovery_fresh :: "bool option"
  dp_remote_state_lock_held :: "bool option"
  dp_credential_resolved :: "bool option"
  dp_approval_already_consumed :: bool

record destroy_authorization =
  dz_change_set_hash :: string
  dz_deletion_set_hash :: string
  dz_ownership_scope :: ownership_scope
  dz_approval_id :: string
  dz_checks_passed :: "string list"

definition deletion_set_hash :: "string list \<Rightarrow> string" where
  "deletion_set_hash addresses = content_hash (JObj [(''deletion_set'', JArr (map JStr (sort (remdups addresses))))])"

definition evaluate_destroy_gate :: "worker_identity \<Rightarrow> destroy_approval option \<Rightarrow> regenerated_destroy_plan option \<Rightarrow>
    destroy_preconditions \<Rightarrow> string \<Rightarrow> destroy_refusal_code + destroy_authorization" where
  "evaluate_destroy_gate worker approval regenerated pre controlled_live_queue =
    (if wi_queue worker = controlled_live_queue \<and> wi_role worker \<noteq> INFRASTRUCTURE_OPERATOR_ROLE
       then Inl DR_ordinary_worker_on_controlled_live_path
     else (case approval of
         None \<Rightarrow> Inl DR_no_destroy_approval
       | Some a \<Rightarrow>
           if da_operation_kind a \<noteq> DESTROY_OPERATION_KIND then Inl DR_approval_is_not_for_destroy
           else if dp_approval_already_consumed pre then Inl DR_approval_already_consumed
           else if wi_worker_id worker \<noteq> da_worker_id a then Inl DR_worker_identity_mismatch
           else if wi_release worker \<noteq> da_worker_release a then Inl DR_worker_release_mismatch
           else if dp_ownership_verified pre \<noteq> Some True then Inl DR_ownership_not_verified
           else if dp_discovery_fresh pre \<noteq> Some True then Inl DR_discovery_stale
           else if dp_remote_state_lock_held pre \<noteq> Some True then Inl DR_remote_state_lock_unavailable
           else if dp_credential_resolved pre \<noteq> Some True then Inl DR_credential_unresolvable
           else (case regenerated of
               None \<Rightarrow> Inl DR_prepared_plan_is_not_a_destroy_plan
             | Some plan \<Rightarrow>
                 if rd_kind plan \<noteq> DESTROY_OPERATION_KIND then Inl DR_prepared_plan_is_not_a_destroy_plan
                 else if \<not> rd_binary_plan_present plan then Inl DR_stale_binary_destroy_plan
                 else if rd_change_set_hash plan \<noteq> da_change_set_hash a then Inl DR_destroy_change_set_hash_mismatch
                 else if rd_deletion_set_hash plan \<noteq> da_deletion_set_hash a then Inl DR_deletion_set_mismatch
                 else if rd_ownership_scope plan \<noteq> da_ownership_scope a then Inl DR_ownership_scope_mismatch
                 else if rd_target_id plan \<noteq> da_target_id a then Inl DR_target_mismatch
                 else if rd_cluster_fingerprint plan \<noteq> da_cluster_fingerprint a then Inl DR_target_mismatch
                 else Inr \<lparr>dz_change_set_hash = rd_change_set_hash plan,
                     dz_deletion_set_hash = rd_deletion_set_hash plan,
                     dz_ownership_scope = rd_ownership_scope plan,
                     dz_approval_id = da_approval_id a,
                     dz_checks_passed = [''authority'', ''destroy_approval'', ''worker_identity'', ''freshness'',
                       ''exclusive_access'', ''change_set_binding'', ''deletion_set_binding'', ''ownership_and_target'']\<rparr>)))"

section \<open>When the gates authorise\<close>

lemma require_all_Inr [simp]: "require_all xs = Inr () \<longleftrightarrow> list_all (\<lambda>(held, _). held = Some True) xs"
  by (induction xs) (auto split: if_splits)

definition authorised_worker :: "worker_identity \<Rightarrow> string \<Rightarrow> string \<Rightarrow> string \<Rightarrow> bool" where
  "authorised_worker worker queue wid rel \<longleftrightarrow>
     (wi_queue worker = queue \<longrightarrow> wi_role worker = INFRASTRUCTURE_OPERATOR_ROLE) \<and>
     wi_worker_id worker = wid \<and> wi_release worker = rel"

definition apply_facts :: "authoritative_state \<Rightarrow> bool option list" where
  "apply_facts st = [as_onboarding_current st, as_eligibility_passing st, as_discovery_fresh st,
     as_reservations_persisted st, as_remote_state_lock_held st, as_credential_resolved st]"

definition destroy_facts :: "destroy_preconditions \<Rightarrow> bool option list" where
  "destroy_facts pre = [dp_ownership_verified pre, dp_discovery_fresh pre, dp_remote_state_lock_held pre,
     dp_credential_resolved pre]"

lemma apply_gate_Inr:
  "evaluate_apply_gate worker approved regenerated st queue = Inr auth \<longleftrightarrow>
   (\<exists>plan. regenerated = Some plan \<and>
     authorised_worker worker queue (ap_worker_id approved) (ap_worker_release approved) \<and>
     set (apply_facts st) = {Some True} \<and>
     rg_binary_plan_present plan \<and> rg_change_set_hash plan = ap_change_set_hash approved \<and>
     rg_desired_state_hash plan = ap_desired_state_hash approved \<and>
     map_of (rg_allocations plan) = map_of (ap_allocations approved) \<and>
     rg_ownership_scope plan = ap_ownership_scope approved \<and> rg_target_id plan = ap_target_id approved \<and>
     rg_cluster_fingerprint plan = ap_cluster_fingerprint approved \<and>
     auth = \<lparr>au_change_set_hash = rg_change_set_hash plan, au_desired_state_hash = rg_desired_state_hash plan,
       au_ownership_scope = rg_ownership_scope plan,
       au_checks_passed = [''authority'', ''worker_identity'', ''prerequisites'', ''exclusive_access'',
         ''change_set_binding'', ''allocation_identity'', ''ownership_and_target'']\<rparr>)"
  unfolding evaluate_apply_gate_def guard_Inr bindE_Inr
  by (cases regenerated) (auto simp: authorised_worker_def apply_facts_def dict_eq_iff)

lemma destroy_gate_Inr:
  "evaluate_destroy_gate worker approval regenerated pre queue = Inr auth \<longleftrightarrow>
   (\<exists>a plan. approval = Some a \<and> regenerated = Some plan \<and>
     authorised_worker worker queue (da_worker_id a) (da_worker_release a) \<and>
     da_operation_kind a = DESTROY_OPERATION_KIND \<and> \<not> dp_approval_already_consumed pre \<and>
     set (destroy_facts pre) = {Some True} \<and>
     rd_kind plan = DESTROY_OPERATION_KIND \<and> rd_binary_plan_present plan \<and>
     rd_change_set_hash plan = da_change_set_hash a \<and> rd_deletion_set_hash plan = da_deletion_set_hash a \<and>
     rd_ownership_scope plan = da_ownership_scope a \<and> rd_target_id plan = da_target_id a \<and>
     rd_cluster_fingerprint plan = da_cluster_fingerprint a \<and>
     auth = \<lparr>dz_change_set_hash = rd_change_set_hash plan, dz_deletion_set_hash = rd_deletion_set_hash plan,
       dz_ownership_scope = rd_ownership_scope plan, dz_approval_id = da_approval_id a,
       dz_checks_passed = [''authority'', ''destroy_approval'', ''worker_identity'', ''freshness'',
         ''exclusive_access'', ''change_set_binding'', ''deletion_set_binding'', ''ownership_and_target'']\<rparr>)"
  unfolding evaluate_destroy_gate_def guard_Inr
  by (cases approval; cases regenerated) (auto simp: authorised_worker_def destroy_facts_def)

section \<open>What the hashes bind\<close>

lemma norm_json_texts: "map norm_json (map JStr xs) = map JStr xs"
  by simp

lemma sort_remdups_set: "sort (remdups xs) = sort (remdups ys) \<longleftrightarrow> set xs = set ys" for xs :: "string list"
proof
  assume "set xs = set ys"
  then have "set (sort (remdups xs)) = set (sort (remdups ys))" by simp
  then show "sort (remdups xs) = sort (remdups ys)"
    by (intro sorted_distinct_set_unique) simp_all
qed (metis set_remdups set_sort)

lemma deletion_set_hash_binds:
  "deletion_set_hash xs = deletion_set_hash ys \<Longrightarrow> set xs = set ys \<or>
   sha_collision (utf8 (canonicalize (JObj [(''deletion_set'', JArr (map JStr (sort (remdups xs))))])))
     (utf8 (canonicalize (JObj [(''deletion_set'', JArr (map JStr (sort (remdups ys))))])))"
  unfolding deletion_set_hash_def
  by (drule spec_hash_binds) (auto simp: comp_def sort_remdups_set [symmetric] inj_map_eq_map inj_def)

lemma deletion_set_hash_cong: "set xs = set ys \<Longrightarrow> deletion_set_hash xs = deletion_set_hash ys"
  by (simp add: deletion_set_hash_def sort_remdups_set [of xs ys, THEN iffD2])

section \<open>Ledgers behind equal fingerprints\<close>

text \<open>The identity of an allocation as \<open>allocations_fingerprint\<close> writes it.\<close>

definition key_text :: "alloc_key \<Rightarrow> string" where
  "key_text k = (case k of ((organization_id, target_id, range_id, team_ref, generation), kind, purpose) \<Rightarrow>
     join ''|'' [allocation_kind_value kind, organization_id, target_id, range_id, team_ref, show_int generation, purpose])"

definition bar_free :: "alloc_key \<Rightarrow> bool" where
  "bar_free k = (case k of ((organization_id, target_id, range_id, team_ref, generation), kind, purpose) \<Rightarrow>
     list_all (\<lambda>s. CHR ''|'' \<notin> set s) [organization_id, target_id, range_id, team_ref, purpose])"

lemma split_join:
  "xs \<noteq> [] \<Longrightarrow> list_all (\<lambda>s. c \<notin> set s) xs \<Longrightarrow> split_char c (join [c] xs) = xs"
proof (induction xs)
  case (Cons x xs)
  then show ?case by (cases xs) (simp_all add: split_char_none split_char_append)
qed simp

lemma kind_bar_free: "CHR ''|'' \<notin> set (allocation_kind_value k)"
  by (cases k) simp_all

lemma show_int_bar_free: "CHR ''|'' \<notin> set (show_int i)"
  using show_int_chars [of "CHR ''|''" i] by (auto simp: is_digit_def)

lemma key_text_inject:
  assumes "bar_free a" and "bar_free b" and "key_text a = key_text b" shows "a = b"
proof -
  obtain o1 t1 r1 m1 g1 k1 p1 where a: "a = ((o1, t1, r1, m1, g1), k1, p1)" by (metis prod.exhaust)
  obtain o2 t2 r2 m2 g2 k2 p2 where b: "b = ((o2, t2, r2, m2, g2), k2, p2)" by (metis prod.exhaust)
  let ?A = "[allocation_kind_value k1, o1, t1, r1, m1, show_int g1, p1]"
  let ?B = "[allocation_kind_value k2, o2, t2, r2, m2, show_int g2, p2]"
  have "split_char CHR ''|'' (join ''|'' ?A) = ?A" "split_char CHR ''|'' (join ''|'' ?B) = ?B"
    using assms(1,2)
    by (intro split_join; simp add: a b bar_free_def kind_bar_free show_int_bar_free)+
  moreover have "join ''|'' ?A = join ''|'' ?B" using assms(3) by (simp only: a b key_text_def prod.case)
  ultimately have "?A = ?B" by metis
  then show ?thesis by (simp add: a b show_int_inject)
qed

lemma fingerprint_records_dicts:
  "fingerprint_records (map allocation_as_dict as) d =
   Some (foldl (\<lambda>d (k, v). dict_set k v d) d (map (\<lambda>a. (key_text (allocation_key a), al_value a)) as))"
proof (induction as arbitrary: d)
  case (Cons a as)
  obtain o1 t1 r1 m1 g1 where "al_scope a = (o1, t1, r1, m1, g1)" by (cases "al_scope a")
  with Cons show ?case
    by (simp add: allocation_as_dict_def fingerprint_parts_def part_text_def json_str_def key_text_def allocation_key_def)
qed simp

definition ledger_payload :: "ledger \<Rightarrow> (string \<times> json) list" where
  "ledger_payload l = (case to_manifest l of JObj d \<Rightarrow> d | _ \<Rightarrow> [])"

lemma fingerprint_manifest:
  "allocations_fingerprint (ledger_payload l) =
   Some (dict_of (map (\<lambda>a. (key_text (allocation_key a), al_value a)) (ledger_all l)))"
  by (simp add: allocations_fingerprint_def ledger_payload_def to_manifest_def iterated_def fingerprint_records_dicts dict_of_def)

definition ledger_bar_free :: "ledger \<Rightarrow> bool" where
  "ledger_bar_free l \<longleftrightarrow> list_all bar_free (dict_keys (lg_by_key l))"

lemma fingerprint_lookup:
  assumes "keyed_ledger l" and "ledger_bar_free l" and "bar_free k"
  shows "map_of (dict_of (map (\<lambda>a. (key_text (allocation_key a), al_value a)) (ledger_all l))) (key_text k) =
    map_option al_value (map_of (lg_by_key l) k)"
proof -
  have keys: "map allocation_key (map snd (lg_by_key l)) = dict_keys (lg_by_key l)"
    by (rule keyed_ledger_keys [OF assms(1)])
  have "allocation_key ` set (ledger_all l) = set (dict_keys (lg_by_key l))"
    unfolding ledger_all_order set_sort by (metis keys list.set_map)
  then have bar: "bar_free (allocation_key a)" if "a \<in> set (ledger_all l)" for a
    using that assms(2) unfolding ledger_bar_free_def list_all_iff by blast
  have dist: "distinct (map allocation_key (ledger_all l))"
    using assms(1) keys by (simp only: ledger_all_order distinct_map_sort_key keyed_ledger_def)
  have "inj_on (\<lambda>a. key_text (allocation_key a)) (set (ledger_all l))"
    using dist bar key_text_inject by (metis distinct_map inj_on_def)
  then have "distinct (map (\<lambda>a. key_text (allocation_key a)) (ledger_all l))"
    using dist by (simp add: distinct_map)
  moreover have own: "key_text k = key_text (allocation_key a) \<longleftrightarrow> allocation_key a = k" if "a \<in> set (ledger_all l)" for a
    using key_text_inject [OF assms(3) bar [OF that]] by auto
  ultimately have "map_of (dict_of (map (\<lambda>a. (key_text (allocation_key a), al_value a)) (ledger_all l))) (key_text k) = Some v \<longleftrightarrow>
      (\<exists>a \<in> set (ledger_all l). allocation_key a = k \<and> al_value a = v)" for v
    using own by (subst map_of_dict_of_distinct) (auto simp: comp_def)
  moreover have "map_of (lg_by_key l) k = Some a \<longleftrightarrow> a \<in> set (ledger_all l) \<and> allocation_key a = k" for a
    unfolding map_of_reload [OF assms(1), of False, symmetric] reload_def
    using map_of_map_self_iff [OF dist] by simp
  ultimately show ?thesis by (intro option_eqI) (auto simp del: map_of_eq_Some_iff)
qed

end
