(* ===== verification/Proxmox_Properties.thy ===== *)
theory Proxmox_Properties
  imports Proxmox_Verdicts Proxmox_Gates "HOL-Library.Code_Target_Numeral"
begin

text \<open>
  The theorems on the network compiler, its isolation check and the gates in front of apply and
  destroy. The witnesses share one example: two teams, a management and a control plane, one reviewed
  path, and a ledger that already holds the lab's allocations, as on a second compile.
\<close>

section \<open>An example\<close>

definition lab_pools :: ipam_pools where
  "lab_pools = \<lparr>pl_vmid_min = 9000, pl_vmid_max = 9100, pl_supernet = ''10.60.0.0/24'', pl_segment_prefix = 28,
     pl_vlan_min = 2000, pl_vlan_max = 2020\<rparr>"
definition lab_observation :: target_observation where
  "lab_observation = \<lparr>to_identity = \<lparr>ti_target_id = ''tgt'', ti_cluster_name = ''pve'', ti_cluster_fingerprint = ''AA'',
       ti_management_cidrs = [''192.168.0.0/24''], ti_management_bridges = [''vmbr0'']\<rparr>,
     to_nodes = [\<lparr>no_node_name = ''pve1'', no_online = True, no_cpu_cores_total = Some 8, no_memory_bytes_total = Some 1000,
       no_storages = [], no_bridges = [''vmbr0'', ''vmbr1'']\<rparr>],
     to_templates = [], to_sdn_supported = Some True, to_firewall_supported = Some True,
     to_vlan_tags_in_use = Some [], to_vmids_in_use = Some [], to_macs_in_use = Some [], to_subnets_in_use = Some [],
     to_sdn_names_in_use = Some [], to_firewall_names_in_use = Some []\<rparr>"
definition lab_example :: lab_request where
  "lab_example = \<lparr>lr_organization_id = ''org'', lr_target_id = ''tgt'', lr_range_id = ''range1'', lr_generation = 1,
     lr_operation_generation = 1,
     lr_teams = [\<lparr>tq_team_ref = ''a'', tq_label = ''A'', tq_include_sensor = False\<rparr>,
                 \<lparr>tq_team_ref = ''b'', tq_label = ''B'', tq_include_sensor = False\<rparr>],
     lr_control_plane_cidrs = [''10.9.0.0/24''],
     lr_reviewed_paths = [\<lparr>rv_dest_cidr = ''10.9.0.5/32'', rv_proto = ''tcp'', rv_dport = ''443'', rv_justification = ''agent'', rv_approval_reference = ''R1''\<rparr>],
     lr_scoring_port = 8000, lr_egress = None, lr_pools = lab_pools\<rparr>"

definition lab_entry :: "string option \<Rightarrow> allocation_kind \<Rightarrow> string \<Rightarrow> string \<Rightarrow> alloc_key \<times> allocation" where
  "lab_entry team kind purpose v = (let a = fresh kind (scope_key (lab_ownership lab_example KIND_NETWORK team)) purpose v in (allocation_key a, a))"

definition lab_segment_entries :: "string option \<Rightarrow> string \<Rightarrow> string \<Rightarrow> nat \<Rightarrow> (alloc_key \<times> allocation) list" where
  "lab_segment_entries team purpose name i =
     [lab_entry team VK_vnet_name purpose name, lab_entry team VK_vlan_tag purpose (show_int (2000 + int i)),
      lab_entry team VK_subnet purpose (''10.60.'' @ show_nat i @ ''.0/28''),
      lab_entry team VK_gateway_address (purpose @ ''/gateway'') (''10.60.'' @ show_nat i @ ''.1''),
      lab_entry team VK_firewall_object_name (purpose @ ''/secgroup'') (''secp-sg-'' @ name)]"

definition lab_ledger :: ledger where
  "lab_ledger = empty_ledger\<lparr>lg_by_key :=
     [lab_entry None VK_zone_name ''sdn-zone'' ''zrange1'',
      lab_entry (Some ''a'') VK_firewall_object_name ''a/ipset'' ''secp-team-a'',
      lab_entry (Some ''b'') VK_firewall_object_name ''b/ipset'' ''secp-team-b''] @
     lab_segment_entries None ''shared/scoring'' ''score'' 0 @
     lab_segment_entries (Some ''a'') ''a/attacker'' ''t1atk'' 1 @
     lab_segment_entries (Some ''a'') ''a/vulnerable'' ''t1vul'' 2 @
     lab_segment_entries (Some ''b'') ''b/attacker'' ''t2atk'' 3 @
     lab_segment_entries (Some ''b'') ''b/vulnerable'' ''t2vul'' 4\<rparr>"

fun pairwise_apart :: "(alloc_key \<times> allocation) list \<Rightarrow> bool" where
  "pairwise_apart [] = True"
| "pairwise_apart ((k, a) # kas) \<longleftrightarrow> list_all (\<lambda>(k', b). k' \<noteq> k \<and> \<not> clash a b) kas \<and> pairwise_apart kas"

lemma pairwise_apart_clash:
  "pairwise_apart kas \<Longrightarrow> (k, a) \<in> set kas \<Longrightarrow> (k', b) \<in> set kas \<Longrightarrow> k \<noteq> k' \<Longrightarrow> \<not> clash a b"
proof (induction kas rule: pairwise_apart.induct)
  case (2 k0 a0 kas)
  then show ?case using clash_sym [of a b] by (fastforce simp: list_all_iff)
qed simp

lemma pairwise_apart_distinct: "pairwise_apart kas \<Longrightarrow> distinct (map fst kas)"
  by (induction kas rule: pairwise_apart.induct) (auto simp: list_all_iff)

lemma safe_ledger_check:
  assumes "pairwise_apart (lg_by_key l)" and "list_all (\<lambda>(k, a). allocation_key a = k) (lg_by_key l)"
    and "list_all (\<lambda>(k, a). al_value a \<noteq> IPSET_MANAGEMENT \<and> al_value a \<noteq> IPSET_CONTROL_PLANE) (lg_by_key l)"
  shows "safe_ledger l"
proof -
  have "conflict_free l"
    unfolding conflict_free_def
    using pairwise_apart_distinct [OF assms(1)] pairwise_apart_clash [OF assms(1)] assms(2)
    by (fastforce simp: list_all_iff dest: map_of_SomeD)
  moreover have "al_value a \<notin> RESERVED_NAMES" if "map_of (lg_by_key l) k = Some a" for k a
    using assms(3) map_of_SomeD [OF that] by (auto simp: list_all_iff RESERVED_NAMES_def)
  ultimately show ?thesis unfolding safe_ledger_def by blast
qed

lemma lab_safe: "safe_ledger lab_ledger"
  by (rule safe_ledger_check; code_simp)

lemma lab_valid: "lab_request_valid lab_example"
  by code_simp

lemma lab_compiled_check:
  "case compile_web_breach_lab lab_example lab_observation (Some lab_ledger) of
     Inr (Compiled p, _) \<Rightarrow> lab_separated lab_example lab_observation p | _ \<Rightarrow> False"
  by code_simp

lemma lab_compiled:
  obtains p l where "compile_web_breach_lab lab_example lab_observation (Some lab_ledger) = Inr (Compiled p, l)"
    and "lab_separated lab_example lab_observation p"
  using lab_compiled_check by (auto split: sum.splits prod.splits compile_result.splits)

lemma example_ledger: "safe_ledger (case Some lab_ledger of None \<Rightarrow> empty_ledger | Some l \<Rightarrow> l)"
  using lab_safe by simp

lemma plan_address:
  assumes "plan_ok r obs plan l" and "v \<in> set (np_vnets plan)"
  shows "\<exists>a. parse_ip (ip_str a) = Some a \<and> in_segment v a"
  using plan_subnet [OF assms] host_of(1,2) by (metis in_segment_def)

text \<open>Two segments of different teams, the scoring segment, and an address in each.\<close>

lemma lab_segments_exist:
  assumes "compile_web_breach_lab lab_example lab_observation (Some lab_ledger) = Inr (Compiled p, l)"
  obtains v w s a b where "v \<in> set (np_vnets p)" and "w \<in> set (np_vnets p)" and "s \<in> set (np_vnets p)"
    and "team_of v = Some ''a''" and "team_of w = Some ''b''" and "vn_role s = SR_scoring" and "vn_role w \<noteq> SR_scoring"
    and "parse_ip (ip_str a) = Some a" and "in_segment w a" and "parse_ip (ip_str b) = Some b" and "in_segment s b"
proof -
  note c = compile_ok [OF assms example_ledger]
  have "(Some ''a'', SR_attacker, ''t1atk'') \<in> set (lab_segments lab_example)"
    "(Some ''b'', SR_attacker, ''t2atk'') \<in> set (lab_segments lab_example)" "(None, SR_scoring, ''score'') \<in> set (lab_segments lab_example)"
    by code_simp+
  from this [THEN c(3)] obtain v w s where "v \<in> set (np_vnets p)" "team_of v = Some ''a''"
    "w \<in> set (np_vnets p)" "team_of w = Some ''b''" "vn_role w = SR_attacker" "s \<in> set (np_vnets p)" "vn_role s = SR_scoring"
    by blast
  with plan_address [OF c(1)] that show thesis by (metis segment_role.distinct(1))
qed

section \<open>The compiled network\<close>

text \<open>
  C4: the compiled rules implement the isolation policy exactly. For every segment of a plan the
  compiler returns, every readable address, port and protocol, the evaluator always answers, and it
  accepts a flow exactly when the policy allows it: outbound, never into the management plane, into
  the control plane only over a reviewed path, never into another team's networks unless over such a
  path, and otherwise only to the own team, to the scoring port or to approved egress; inbound, only
  from the own team or to the scoring port, and never from the management plane or another team.
\<close>

theorem compiled_policy:
  assumes "compile_web_breach_lab r obs given = Inr (Compiled plan, l)"
    and "safe_ledger (case given of None \<Rightarrow> empty_ledger | Some l0 \<Rightarrow> l0)" and "lab_request_valid r"
    and "v \<in> set (np_vnets plan)" and "parse_ip addr = Some a"
  shows "evaluate_flow plan (vn_name v) addr port proto FD_outbound =
      Inr (if outbound_allowed r obs plan v a port proto then FV_accept else FV_drop) \<and>
    evaluate_flow plan (vn_name v) addr port proto FD_inbound =
      Inr (if inbound_allowed r obs plan v a port proto then FV_accept else FV_drop)"
  using outbound_decided inbound_decided compile_ok(1) [OF assms(1,2)] assms(3-) by blast

theorem compiled_policy_witness:
  "\<exists>plan l v a. compile_web_breach_lab lab_example lab_observation (Some lab_ledger) = Inr (Compiled plan, l) \<and>
     v \<in> set (np_vnets plan) \<and>
     evaluate_flow plan (vn_name v) (ip_str a) (Some 80) ''tcp'' FD_outbound =
       Inr (if outbound_allowed lab_example lab_observation plan v a (Some 80) ''tcp'' then FV_accept else FV_drop)"
proof -
  obtain p l where p: "compile_web_breach_lab lab_example lab_observation (Some lab_ledger) = Inr (Compiled p, l)" by (rule lab_compiled)
  obtain v a where "v \<in> set (np_vnets p)" "parse_ip (ip_str a) = Some a" by (rule lab_segments_exist [OF p])
  with compiled_policy [OF p example_ledger lab_valid] p show ?thesis by blast
qed



text \<open>
  C6: the Proxmox management plane is unreachable. No segment of a compiled plan may send to or
  receive from an address in the target's management networks, whatever the port, the protocol, the
  reviewed paths and the approved egress are.
\<close>

theorem management_plane_unreachable:
  assumes "compile_web_breach_lab r obs given = Inr (Compiled plan, l)"
    and "safe_ledger (case given of None \<Rightarrow> empty_ledger | Some l0 \<Rightarrow> l0)" and "lab_request_valid r"
    and "v \<in> set (np_vnets plan)" and "parse_ip addr = Some a" and "covers (ti_management_cidrs (to_identity obs)) a"
  shows "evaluate_flow plan (vn_name v) addr port proto direction = Inr FV_drop"
  using outbound_decided [OF compile_ok(1) [OF assms(1,2)] assms(3-5)] inbound_decided [OF compile_ok(1) [OF assms(1,2)] assms(3-5)] assms(6)
  by (cases direction) (simp_all add: outbound_allowed_def inbound_allowed_def)

theorem management_plane_unreachable_witness:
  "\<exists>plan l v. compile_web_breach_lab lab_example lab_observation (Some lab_ledger) = Inr (Compiled plan, l) \<and>
     v \<in> set (np_vnets plan) \<and> evaluate_flow plan (vn_name v) ''192.168.0.7'' (Some 8006) ''tcp'' FD_outbound = Inr FV_drop"
proof -
  obtain p l where p: "compile_web_breach_lab lab_example lab_observation (Some lab_ledger) = Inr (Compiled p, l)" by (rule lab_compiled)
  obtain v where v: "v \<in> set (np_vnets p)" by (rule lab_segments_exist [OF p])
  have a: "parse_ip ''192.168.0.7'' = Some 3232235527" by code_simp
  have "case ip_network False ''192.168.0.0/24'' of Some n \<Rightarrow> net_contains n 3232235527 | None \<Rightarrow> False" by code_simp
  then have "covers (ti_management_cidrs (to_identity lab_observation)) 3232235527"
    by (auto simp: lab_observation_def split: option.splits)
  from management_plane_unreachable [OF p example_ledger lab_valid v a this] p v show ?thesis by blast
qed

text \<open>
  C17: the compiled segments are exactly the requested ones. A plan has one segment per requested
  team and role and one for scoring, no two with the same VLAN tag or a shared address, none routed;
  and no request of more than 51 teams compiles, because beyond that the inbound cross-team rules run
  into the position of the intra-team rule.
\<close>

theorem compiled_segments:
  assumes "compile_web_breach_lab r obs given = Inr (Compiled plan, l)"
    and "safe_ledger (case given of None \<Rightarrow> empty_ledger | Some l0 \<Rightarrow> l0)" and "lab_request_valid r"
  shows "distinct (map segment_of (np_vnets plan)) \<and>
    set (map segment_of (np_vnets plan)) = set (map (\<lambda>(t, role, _). (t, role)) (lab_segments r)) \<and>
    distinct (map vn_vlan_tag (np_vnets plan)) \<and>
    (\<forall>v w a. v \<in> set (np_vnets plan) \<and> w \<in> set (np_vnets plan) \<and> in_segment v a \<and> in_segment w a \<longrightarrow> v = w) \<and>
    list_all (\<lambda>v. \<not> sb_routed (vn_subnet v)) (np_vnets plan) \<and> length (lr_teams r) \<le> 51"
proof -
  note c = compile_ok [OF assms(1,2)]
  have "set (map segment_of (np_vnets plan)) = set (map (\<lambda>(t, role, _). (t, role)) (lab_segments r))"
    using c(3) plan_okD(4) [OF c(1)] by (force simp: segment_of_def compiled_vnet_def)
  moreover have "length (lr_teams r) \<le> 51"
    by (rule team_count [OF c(1) _ c(3)]) (use assms(3) in \<open>auto simp: lab_request_valid_def lab_request_post_init_def bindE_Inr\<close>)
  moreover have "list_all (\<lambda>v. \<not> sb_routed (vn_subnet v)) (np_vnets plan)"
    using plan_okD(4) [OF c(1)] by (auto simp: list_all_iff compiled_vnet_def)
  ultimately show ?thesis
    using plan_distinct [OF c(1) plan_roles [OF c(1)]] plan_distinct [OF c(1) plan_vlans [OF c(1)]] plan_subnets_apart [OF c(1)]
    unfolding in_segment_def by blast
qed

theorem compiled_segments_witness:
  "\<exists>plan l. compile_web_breach_lab lab_example lab_observation (Some lab_ledger) = Inr (Compiled plan, l) \<and>
     distinct (map segment_of (np_vnets plan)) \<and> distinct (map vn_vlan_tag (np_vnets plan)) \<and> length (lr_teams lab_example) \<le> 51"
proof -
  obtain p l where p: "compile_web_breach_lab lab_example lab_observation (Some lab_ledger) = Inr (Compiled p, l)" by (rule lab_compiled)
  from compiled_segments [OF p example_ledger lab_valid] p show ?thesis by blast
qed



text \<open>
  C37: scoring submissions do not get through. A team's segment may send to the scoring segment's
  addresses on the scoring port, and the isolation check looks at this direction only; the scoring
  segment itself drops every inbound flow from a team, because its cross-team denies come before the
  rule that is meant to accept submissions.
\<close>

theorem scoring_submissions_dropped:
  assumes "compile_web_breach_lab r obs given = Inr (Compiled plan, l)"
    and "safe_ledger (case given of None \<Rightarrow> empty_ledger | Some l0 \<Rightarrow> l0)" and "lab_request_valid r"
    and "lab_separated r obs plan"
    and "w \<in> set (np_vnets plan)" and "vn_role w \<noteq> SR_scoring" and "s \<in> set (np_vnets plan)" and "vn_role s = SR_scoring"
    and "parse_ip team_addr = Some a" and "in_segment w a" and "parse_ip score_addr = Some b" and "in_segment s b"
  shows "evaluate_flow plan (vn_name w) score_addr (Some (lr_scoring_port r)) ''tcp'' FD_outbound = Inr FV_accept \<and>
    evaluate_flow plan (vn_name s) team_addr (Some (lr_scoring_port r)) ''tcp'' FD_inbound = Inr FV_drop"
proof -
  note ok = compile_ok(1) [OF assms(1,2)]
  have "peer_address plan (team_of s) a"
    using assms(5-8,10) scoring_segment_team [OF ok assms(5)] scoring_segment_team [OF ok assms(7)] by (auto simp: peer_address_def)
  then show ?thesis
    using outbound_decided [OF ok assms(3,5,11)] inbound_decided [OF ok assms(3,7,9)] scoring_allowed [OF ok assms(4-8,12)]
    by (simp add: inbound_allowed_def)
qed

theorem scoring_submissions_dropped_witness:
  "\<exists>plan l s w a. compile_web_breach_lab lab_example lab_observation (Some lab_ledger) = Inr (Compiled plan, l) \<and>
     s \<in> set (np_vnets plan) \<and> vn_role s = SR_scoring \<and> in_segment w a \<and> team_of w = Some ''b'' \<and>
     evaluate_flow plan (vn_name s) (ip_str a) (Some (lr_scoring_port lab_example)) ''tcp'' FD_inbound = Inr FV_drop"
proof -
  obtain p l where p: "compile_web_breach_lab lab_example lab_observation (Some lab_ledger) = Inr (Compiled p, l)"
    and sep: "lab_separated lab_example lab_observation p" by (rule lab_compiled)
  obtain w s a b where w: "w \<in> set (np_vnets p)" "s \<in> set (np_vnets p)" "team_of w = Some ''b''" "vn_role s = SR_scoring"
    "vn_role w \<noteq> SR_scoring" "parse_ip (ip_str a) = Some a" "in_segment w a" "parse_ip (ip_str b) = Some b" "in_segment s b"
    by (rule lab_segments_exist [OF p])
  from scoring_submissions_dropped [OF p example_ledger lab_valid sep w(1,5,2,4,6-9)] p w show ?thesis by blast
qed

section \<open>The gates\<close>

text \<open>
  C9: an apply is authorised only for the approved allocations. When the gate authorises, the worker
  is the approved one, every prerequisite was observed to hold, the hashes agree, and the ledger the
  plan was regenerated from holds the value the approved ledger holds under every key, and no other key.
\<close>

theorem apply_gate_binds_allocations:
  assumes "evaluate_apply_gate worker approved (Some plan) st queue = Inr auth"
    and "allocations_fingerprint (ledger_payload l) = Some (ap_allocations approved)"
    and "allocations_fingerprint (ledger_payload m) = Some (rg_allocations plan)"
    and "keyed_ledger l" and "keyed_ledger m" and "ledger_bar_free l" and "ledger_bar_free m" and "bar_free k"
  shows "map_option al_value (map_of (lg_by_key m) k) = map_option al_value (map_of (lg_by_key l) k) \<and>
    rg_change_set_hash plan = ap_change_set_hash approved \<and> rg_desired_state_hash plan = ap_desired_state_hash approved \<and>
    authorised_worker worker queue (ap_worker_id approved) (ap_worker_release approved) \<and> set (apply_facts st) = {Some True}"
  using assms fingerprint_lookup [OF assms(4,6,8)] fingerprint_lookup [OF assms(5,7,8)]
  by (auto simp: apply_gate_Inr fingerprint_manifest)

definition gate_worker :: worker_identity where
  "gate_worker = \<lparr>wi_worker_id = ''w1'', wi_role = INFRASTRUCTURE_OPERATOR_ROLE, wi_release = ''r1'', wi_queue = ''live''\<rparr>"

lemma lab_fingerprint: "\<exists>d. allocations_fingerprint (ledger_payload lab_ledger) = Some d"
  by (simp add: fingerprint_manifest)

theorem apply_gate_binds_allocations_witness:
  "\<exists>approved plan st auth. evaluate_apply_gate gate_worker approved (Some plan) st ''live'' = Inr auth \<and>
     allocations_fingerprint (ledger_payload lab_ledger) = Some (rg_allocations plan) \<and>
     authorised_worker gate_worker ''live'' (ap_worker_id approved) (ap_worker_release approved) \<and> set (apply_facts st) = {Some True}"
proof -
  obtain d where d: "allocations_fingerprint (ledger_payload lab_ledger) = Some d" using lab_fingerprint by blast
  let ?approved = "\<lparr>ap_change_set_hash = ''c'', ap_desired_state_hash = ''d'', ap_plan_document_hash = ''p'', ap_allocations = d,
    ap_ownership_scope = (''org'', ''tgt'', ''range1'', 1), ap_target_id = ''tgt'', ap_cluster_fingerprint = ''AA'',
    ap_worker_id = ''w1'', ap_worker_release = ''r1''\<rparr>"
  let ?plan = "\<lparr>rg_change_set_hash = ''c'', rg_desired_state_hash = ''d'', rg_allocations = d,
    rg_ownership_scope = (''org'', ''tgt'', ''range1'', 1), rg_target_id = ''tgt'', rg_cluster_fingerprint = ''AA'',
    rg_binary_plan_present = True, rg_binary_plan_fingerprint = ''f''\<rparr>"
  let ?st = "\<lparr>as_onboarding_current = Some True, as_eligibility_passing = Some True, as_discovery_fresh = Some True,
    as_reservations_persisted = Some True, as_remote_state_lock_held = Some True, as_credential_resolved = Some True\<rparr>"
  obtain auth where auth: "evaluate_apply_gate gate_worker ?approved (Some ?plan) ?st ''live'' = Inr auth"
    by (simp add: evaluate_apply_gate_def gate_worker_def bindE_def dict_eq_iff)
  have keyed: "keyed_ledger lab_ledger" using lab_safe conflict_free_keyed by (simp add: safe_ledger_def)
  have bars: "ledger_bar_free lab_ledger" "bar_free (scope_key (lab_ownership lab_example KIND_NETWORK None), VK_zone_name, ''sdn-zone'')"
    by code_simp+
  have "allocations_fingerprint (ledger_payload lab_ledger) = Some (ap_allocations ?approved)"
    "allocations_fingerprint (ledger_payload lab_ledger) = Some (rg_allocations ?plan)" using d by simp_all
  from apply_gate_binds_allocations [OF auth this keyed keyed bars(1,1,2)] auth d show ?thesis
    by (intro exI [of _ ?approved] exI [of _ ?plan] exI [of _ ?st] exI [of _ auth]) simp
qed



end
