(* ===== verification/Proxmox_Verification.thy ===== *)
theory Proxmox_Verification
  imports Proxmox_Isolation
begin

text \<open>
  Verification of an applied range against an independent observation
  (\<open>apps/worker/secp_worker/provisioning/proxmox_verification.py\<close>). The desired state is a JSON
  document there; here it is the network plan and the guests that document spells out, so every key
  the code reads is present. The segment prober is code outside the module and is a parameter. The
  detail text of a finding is not kept: a loop that collects problems and counts guests it could not
  judge is a judgement per guest, \<open>None\<close> when the provider did not report what is compared.
\<close>

section \<open>Findings and outcomes\<close>

datatype verification_outcome = VO_verified | VO_verification_failed | VO_isolation_failed | VO_state_disagreement
  | VO_recovery_required

datatype verification_check = VC_guest_inventory | VC_guest_names | VC_node_placement | VC_disks_and_storage
  | VC_nics_and_macs | VC_network_objects | VC_firewall_objects | VC_ownership_tags | VC_power_state
  | VC_guest_readiness | VC_required_reachability | VC_cross_team_denial | VC_management_denial
  | VC_protected_denial | VC_external_denial | VC_state_agreement

definition ISOLATION_CHECKS :: "verification_check list" where
  "ISOLATION_CHECKS = [VC_cross_team_denial, VC_management_denial, VC_protected_denial, VC_external_denial]"

datatype probe_verdict = PV_reachable | PV_blocked | PV_unknown

type_synonym prober = "string \<Rightarrow> string \<Rightarrow> int \<Rightarrow> probe_verdict"

record observed_disk =
  od_slot :: string
  od_size_gb :: "int option"
  od_storage_id :: "string option"

record observed_guest =
  og_vmid :: int
  og_name :: "string option"
  og_node_name :: "string option"
  og_kind :: "string option"
  og_powered_on :: "bool option"
  og_ready :: "bool option"
  og_disks :: "observed_disk list"
  og_macs :: "string list"
  og_bridges :: "string list"
  og_tags :: "(string, string) dict option"

record observed_vnet =
  ov_name :: string
  ov_zone :: "string option"
  ov_vlan_tag :: "int option"
  ov_cidr :: "string option"

record observed_infrastructure =
  ob_reachable :: bool
  ob_guests :: "observed_guest list"
  ob_zones :: "string list"
  ob_vnets :: "observed_vnet list"
  ob_security_groups :: "string list"
  ob_ip_sets :: "string list"
  ob_tofu_state_addresses :: "string list option"
  ob_observed_addresses :: "string list option"

record check_finding =
  cf_check :: verification_check
  cf_observed :: bool
  cf_ok :: "bool option"

text \<open>The constructor refuses a verdict without an observation and an observation without a verdict.\<close>

definition construct_finding :: "verification_check \<Rightarrow> bool \<Rightarrow> bool option \<Rightarrow> check_finding option" where
  "construct_finding check observed ok =
     (if observed \<and> ok = None then None
      else if \<not> observed \<and> ok \<noteq> None then None
      else Some \<lparr>cf_check = check, cf_observed = observed, cf_ok = ok\<rparr>)"

definition unobserved :: "verification_check \<Rightarrow> check_finding" where
  "unobserved check = \<lparr>cf_check = check, cf_observed = False, cf_ok = None\<rparr>"

definition observed_result :: "verification_check \<Rightarrow> bool \<Rightarrow> check_finding" where
  "observed_result check ok = \<lparr>cf_check = check, cf_observed = True, cf_ok = Some ok\<rparr>"

definition counts_as_failure :: "check_finding \<Rightarrow> bool" where
  "counts_as_failure f \<longleftrightarrow> \<not> (cf_observed f \<and> cf_ok f = Some True)"

definition finding_from :: "verification_check \<Rightarrow> bool \<Rightarrow> bool \<Rightarrow> check_finding" where
  "finding_from check observed ok = (if \<not> observed then unobserved check else observed_result check ok)"

record verification_report =
  vr_outcome :: verification_outcome
  vr_findings :: "check_finding list"

definition report_finding :: "verification_report \<Rightarrow> verification_check \<Rightarrow> check_finding option" where
  "report_finding report check = find (\<lambda>f. cf_check f = check) (vr_findings report)"

definition report_failures :: "verification_report \<Rightarrow> check_finding list" where
  "report_failures report = filter counts_as_failure (vr_findings report)"

definition report_unobserved :: "verification_report \<Rightarrow> check_finding list" where
  "report_unobserved report = filter (\<lambda>f. \<not> cf_observed f) (vr_findings report)"

definition decide_outcome :: "check_finding list \<Rightarrow> bool \<Rightarrow> verification_outcome" where
  "decide_outcome findings provider_reachable =
     (if \<not> provider_reachable then VO_recovery_required
      else if list_ex (\<lambda>f. cf_check f \<in> set ISOLATION_CHECKS \<and> cf_observed f \<and> cf_ok f \<noteq> Some True) findings
        then VO_isolation_failed
      else if (case find (\<lambda>f. cf_check f = VC_state_agreement) findings of
          None \<Rightarrow> False | Some st \<Rightarrow> cf_observed st \<and> cf_ok st \<noteq> Some True) then VO_state_disagreement
      else if list_ex counts_as_failure findings then VO_verification_failed
      else VO_verified)"

datatype half_verdict = HV_unproven | HV_failed | HV_passed

definition half_outcome :: "check_finding list \<Rightarrow> half_verdict" where
  "half_outcome findings =
     (if findings = [] then HV_unproven
      else if list_ex (\<lambda>f. cf_observed f \<and> cf_ok f = Some False) findings then HV_failed
      else if list_ex (\<lambda>f. \<not> cf_observed f) findings then HV_unproven
      else HV_passed)"

text \<open>\<open>verification_evidence\<close>: the outcome, the verdict of each half, and the findings of each half.\<close>

record verification_evidence =
  ve_outcome :: verification_outcome
  ve_infrastructure_outcome :: half_verdict
  ve_isolation_outcome :: half_verdict
  ve_infrastructure_checks :: "check_finding list"
  ve_isolation_checks :: "check_finding list"

definition verification_evidence_of :: "verification_report \<Rightarrow> verification_evidence" where
  "verification_evidence_of report =
     (let isolation = filter (\<lambda>f. cf_check f \<in> set ISOLATION_CHECKS) (vr_findings report);
          infrastructure = filter (\<lambda>f. cf_check f \<notin> set ISOLATION_CHECKS) (vr_findings report) in
      \<lparr>ve_outcome = vr_outcome report, ve_infrastructure_outcome = half_outcome infrastructure,
       ve_isolation_outcome = half_outcome isolation, ve_infrastructure_checks = infrastructure,
       ve_isolation_checks = isolation\<rparr>)"

section \<open>Guests\<close>

definition guests_by_vmid :: "observed_infrastructure \<Rightarrow> (int, observed_guest) dict" where
  "guests_by_vmid ob = dict_of (map (\<lambda>g. (og_vmid g, g)) (ob_guests ob))"

text \<open>One loop over the desired guests: a guest that was not found is skipped, one that cannot be
  judged makes the check unobserved, one judged false is a problem.\<close>

definition guest_check :: "verification_check \<Rightarrow> (guest_spec \<Rightarrow> observed_guest \<Rightarrow> bool option) \<Rightarrow> guest_spec list \<Rightarrow>
    observed_infrastructure \<Rightarrow> check_finding" where
  "guest_check check judge desired ob =
     (let verdicts = List.map_filter (\<lambda>g. map_option (judge g) (map_of (guests_by_vmid ob) (gs_vmid g))) desired in
      finding_from check (None \<notin> set verdicts) (Some False \<notin> set verdicts))"

definition judge_name :: "guest_spec \<Rightarrow> observed_guest \<Rightarrow> bool option" where
  "judge_name g live = map_option (\<lambda>n. n = gs_name g) (og_name live)"

definition judge_node :: "guest_spec \<Rightarrow> observed_guest \<Rightarrow> bool option" where
  "judge_node g live = map_option (\<lambda>n. n = gs_node_name g) (og_node_name live)"

definition disk_matches :: "observed_guest \<Rightarrow> disk_spec \<Rightarrow> bool" where
  "disk_matches live d = (case map_of (dict_of (map (\<lambda>d. (od_slot d, d)) (og_disks live))) (dk_slot d) of
      None \<Rightarrow> False
    | Some actual \<Rightarrow> (od_storage_id actual = None \<or> od_storage_id actual = Some (dk_storage_id d)) \<and>
        (od_size_gb actual = None \<or> od_size_gb actual = Some (dk_size_gb d)))"

definition judge_disks :: "guest_spec \<Rightarrow> observed_guest \<Rightarrow> bool option" where
  "judge_disks g live = (if og_disks live = [] then None else Some (list_all (disk_matches live) (gs_disks g)))"

definition judge_macs :: "guest_spec \<Rightarrow> observed_guest \<Rightarrow> bool option" where
  "judge_macs g live = (if og_macs live = [] then None
     else Some (set (map (\<lambda>n. map upper_char (nc_mac_address n)) (gs_nics g)) = set (map (map upper_char) (og_macs live))))"

definition judge_tags :: "guest_spec \<Rightarrow> observed_guest \<Rightarrow> bool option" where
  "judge_tags g live = map_option (\<lambda>tags. list_all (\<lambda>(k, v). map_of tags k = Some v) (as_tags (gs_ownership g))) (og_tags live)"

definition judge_power :: "guest_spec \<Rightarrow> observed_guest \<Rightarrow> bool option" where
  "judge_power g live = map_option (\<lambda>p. p = gs_start_on_deploy g) (og_powered_on live)"

definition judge_ready :: "guest_spec \<Rightarrow> observed_guest \<Rightarrow> bool option" where
  "judge_ready g live = og_ready live"

definition check_guests :: "guest_spec list \<Rightarrow> observed_infrastructure \<Rightarrow> check_finding list" where
  "check_guests desired ob =
     [finding_from VC_guest_inventory True (set (map gs_vmid desired) = set (map og_vmid (ob_guests ob))),
      guest_check VC_guest_names judge_name desired ob,
      guest_check VC_node_placement judge_node desired ob,
      guest_check VC_disks_and_storage judge_disks desired ob,
      guest_check VC_nics_and_macs judge_macs desired ob,
      guest_check VC_ownership_tags judge_tags desired ob,
      guest_check VC_power_state judge_power desired ob,
      guest_check VC_guest_readiness judge_ready desired ob]"

section \<open>Network, firewall and state\<close>

definition judge_vnet :: "observed_infrastructure \<Rightarrow> vnet_spec \<Rightarrow> bool option" where
  "judge_vnet ob v = (case map_of (dict_of (map (\<lambda>w. (ov_name w, w)) (ob_vnets ob))) (vn_name v) of
      None \<Rightarrow> Some False
    | Some live \<Rightarrow> if ov_vlan_tag live = None \<or> ov_cidr live = None then None
        else Some (ov_vlan_tag live = Some (vn_vlan_tag v) \<and> ov_cidr live = Some (sb_cidr (vn_subnet v))))"

definition check_network :: "network_plan \<Rightarrow> observed_infrastructure \<Rightarrow> check_finding" where
  "check_network network ob =
     (let zone = zs_name (np_zone network); verdicts = map (judge_vnet ob) (np_vnets network) in
      finding_from VC_network_objects (None \<notin> set verdicts)
        (\<not> (zone \<noteq> [] \<and> zone \<notin> set (ob_zones ob)) \<and> Some False \<notin> set verdicts))"

definition check_firewall :: "network_plan \<Rightarrow> observed_infrastructure \<Rightarrow> check_finding" where
  "check_firewall network ob = finding_from VC_firewall_objects True
     (set (map sg_name (np_security_groups network)) \<subseteq> set (ob_security_groups ob) \<and>
      set (map is_name (np_ip_sets network)) \<subseteq> set (ob_ip_sets ob))"

definition check_state_agreement :: "observed_infrastructure \<Rightarrow> check_finding" where
  "check_state_agreement ob = (case (ob_tofu_state_addresses ob, ob_observed_addresses ob) of
      (Some in_state, Some in_provider) \<Rightarrow> finding_from VC_state_agreement True (set in_state = set in_provider)
    | _ \<Rightarrow> finding_from VC_state_agreement False False)"

section \<open>Reachability\<close>

type_synonym probe = "string \<times> string \<times> int"

definition run_probe :: "prober \<Rightarrow> probe \<Rightarrow> probe_verdict" where
  "run_probe prober p = (case p of (segment, addr, port) \<Rightarrow> prober segment addr port)"

definition denial_check :: "prober \<Rightarrow> verification_check \<Rightarrow> probe list \<Rightarrow> check_finding" where
  "denial_check prober check probes = finding_from check
     (\<not> list_ex (\<lambda>p. run_probe prober p = PV_unknown) probes)
     (\<not> list_ex (\<lambda>p. run_probe prober p = PV_reachable) probes)"

text \<open>\<open>d.setdefault(k, []).append(v)\<close>, over a list of pairs.\<close>

definition dict_append :: "('k, 'v list) dict \<Rightarrow> 'k \<times> 'v \<Rightarrow> ('k, 'v list) dict" where
  "dict_append d kv = (case kv of (k, v) \<Rightarrow> dict_set k ((case map_of d k of None \<Rightarrow> [] | Some vs \<Rightarrow> vs) @ [v]) d)"

definition collect_pairs :: "('k \<times> 'v) list \<Rightarrow> ('k, 'v list) dict" where
  "collect_pairs kvs = foldl dict_append [] kvs"

text \<open>\<open>sorted(teams.items())\<close>: the segments of each team, the scoring segments left out.\<close>

definition team_segment :: "vnet_spec \<Rightarrow> (string \<times> vnet_spec) option" where
  "team_segment v = (case ow_team_ref (vn_ownership v) of
      None \<Rightarrow> None
    | Some t \<Rightarrow> if vn_role v = SR_scoring \<or> t = [] then None else Some (t, v))"

definition teams_of :: "vnet_spec list \<Rightarrow> (string \<times> vnet_spec list) list" where
  "teams_of vnets = sort_key fst (collect_pairs (List.map_filter team_segment vnets))"

definition guest_addresses :: "guest_spec list \<Rightarrow> (string, string list) dict" where
  "guest_addresses guests = collect_pairs
     [(nc_vnet_name n, ga_published_address (gs_address g)). g \<leftarrow> guests, n \<leftarrow> gs_nics g]"

definition addresses_on :: "guest_spec list \<Rightarrow> string \<Rightarrow> string list option" where
  "addresses_on guests name = map_of (guest_addresses guests) name"

definition target_probes :: "guest_spec list \<Rightarrow> vnet_spec list \<Rightarrow> probe list" where
  "target_probes guests vnets =
     (case (find (\<lambda>v. vn_role v = SR_attacker) vnets, find (\<lambda>v. vn_role v = SR_vulnerable) vnets) of
        (Some attacker, Some target) \<Rightarrow> map (\<lambda>addr. (vn_name attacker, addr, 80))
          (case addresses_on guests (vn_name target) of None \<Rightarrow> [] | Some xs \<Rightarrow> xs)
      | _ \<Rightarrow> [])"

definition scoring_source :: "vnet_spec list \<Rightarrow> vnet_spec option" where
  "scoring_source vnets = (case find (\<lambda>v. vn_role v = SR_attacker) vnets of
      Some a \<Rightarrow> Some a | None \<Rightarrow> (case vnets of [] \<Rightarrow> None | v # _ \<Rightarrow> Some v))"

definition score_probes :: "vnet_spec list \<Rightarrow> int \<Rightarrow> vnet_spec list \<Rightarrow> model_error + probe list" where
  "score_probes scoring scoring_port vnets = (case scoring_source vnets of
      None \<Rightarrow> Inr []
    | Some source \<Rightarrow> mapE (\<lambda>s. bindE (first_host (sb_cidr (vn_subnet s))) (\<lambda>addr. Inr (vn_name source, addr, scoring_port))) scoring)"

definition required_probes :: "vnet_spec list \<Rightarrow> guest_spec list \<Rightarrow> int \<Rightarrow> model_error + probe list" where
  "required_probes vnets guests scoring_port =
     bindE (mapE (\<lambda>(_, vs). bindE (score_probes (filter (\<lambda>v. vn_role v = SR_scoring) vnets) scoring_port vs) (\<lambda>ps.
         Inr (target_probes guests vs @ ps))) (teams_of vnets)) (\<lambda>pss. Inr (concat pss))"

definition required_check :: "prober \<Rightarrow> probe list \<Rightarrow> check_finding" where
  "required_check prober probes = finding_from VC_required_reachability
     (\<not> list_ex (\<lambda>p. run_probe prober p = PV_unknown) probes)
     (\<not> list_ex (\<lambda>p. run_probe prober p \<noteq> PV_unknown \<and> run_probe prober p \<noteq> PV_reachable) probes)"

text \<open>The default of \<open>guest_addresses.get(...)\<close> is computed whether or not it is used.\<close>

definition dest_addresses :: "guest_spec list \<Rightarrow> vnet_spec \<Rightarrow> model_error + string list" where
  "dest_addresses guests dest = bindE (first_host (sb_cidr (vn_subnet dest))) (\<lambda>h.
     Inr (case addresses_on guests (vn_name dest) of None \<Rightarrow> [h] | Some xs \<Rightarrow> xs))"

definition cross_probes :: "vnet_spec list \<Rightarrow> guest_spec list \<Rightarrow> model_error + probe list" where
  "cross_probes vnets guests =
     bindE (mapE (\<lambda>(s, d). bindE (dest_addresses guests d) (\<lambda>addrs. Inr (map (\<lambda>addr. (vn_name s, addr, 80)) addrs)))
       [(s, d). (t, vs) \<leftarrow> teams_of vnets, (u, ws) \<leftarrow> teams_of vnets, u \<noteq> t, s \<leftarrow> vs, d \<leftarrow> ws]) (\<lambda>pss. Inr (concat pss))"

definition segment_names :: "vnet_spec list \<Rightarrow> string list" where
  "segment_names vnets = sort (remdups (map vn_name vnets))"

definition network_probes :: "vnet_spec list \<Rightarrow> string list \<Rightarrow> int list \<Rightarrow> model_error + probe list" where
  "network_probes vnets cidrs ports =
     mapE (\<lambda>(name, cidr, port). bindE (first_host cidr) (\<lambda>h. Inr (name, h, port)))
       [(name, cidr, port). name \<leftarrow> segment_names vnets, cidr \<leftarrow> cidrs, port \<leftarrow> ports]"

definition external_probes :: "vnet_spec list \<Rightarrow> string list \<Rightarrow> probe list" where
  "external_probes vnets addrs = [(name, addr, 443). name \<leftarrow> segment_names vnets, addr \<leftarrow> addrs]"

definition check_reachability :: "vnet_spec list \<Rightarrow> guest_spec list \<Rightarrow> prober option \<Rightarrow> string list \<Rightarrow> string list \<Rightarrow>
    string list \<Rightarrow> int \<Rightarrow> model_error + check_finding list" where
  "check_reachability vnets guests prober management protected external scoring_port = (case prober of
      None \<Rightarrow> Inr (map (\<lambda>c. finding_from c False False) [VC_required_reachability, VC_cross_team_denial,
        VC_management_denial, VC_protected_denial, VC_external_denial])
    | Some pr \<Rightarrow>
        bindE (required_probes vnets guests scoring_port) (\<lambda>required.
        bindE (cross_probes vnets guests) (\<lambda>cross.
        bindE (network_probes vnets management [22, 8006]) (\<lambda>mgmt.
        bindE (network_probes vnets protected [22, 443]) (\<lambda>prot.
          Inr [required_check pr required, denial_check pr VC_cross_team_denial cross,
            denial_check pr VC_management_denial mgmt, denial_check pr VC_protected_denial prot,
            denial_check pr VC_external_denial (external_probes vnets external)])))))"

section \<open>The report\<close>

definition verify_deployment :: "network_plan \<Rightarrow> guest_spec list \<Rightarrow> observed_infrastructure \<Rightarrow> prober option \<Rightarrow>
    string list \<Rightarrow> string list \<Rightarrow> string list \<Rightarrow> int \<Rightarrow> model_error + verification_report" where
  "verify_deployment network guests ob prober management protected external scoring_port =
     (if \<not> ob_reachable ob
      then Inr \<lparr>vr_outcome = VO_recovery_required, vr_findings = [finding_from VC_guest_inventory False False]\<rparr>
      else bindE (check_reachability (np_vnets network) guests prober management protected external scoring_port) (\<lambda>reach.
        let findings = check_guests guests ob @ [check_network network ob, check_firewall network ob, check_state_agreement ob] @ reach in
        Inr \<lparr>vr_outcome = decide_outcome findings True, vr_findings = findings\<rparr>))"

end
