(* ===== verification/Proxmox_Verified.thy ===== *)
theory Proxmox_Verified
  imports Proxmox_Verification
begin

text \<open>
  What a verdict of the deployment verification means. A report is \<open>verified\<close> only when every check
  ran and passed; the lemmas here read each check back into what it compared.
\<close>

section \<open>Collected pairs\<close>

lemma map_of_foldl_append:
  "map_of (foldl dict_append d kvs) k =
     (case filter (\<lambda>kv. fst kv = k) kvs of [] \<Rightarrow> map_of d k
      | ps \<Rightarrow> Some ((case map_of d k of None \<Rightarrow> [] | Some vs \<Rightarrow> vs) @ map snd ps))"
proof (induction kvs arbitrary: d)
  case (Cons kv kvs)
  obtain a v where kv: "kv = (a, v)" by force
  show ?case
    using Cons.IH [of "dict_append d kv"] by (auto simp: kv dict_append_def split: list.splits option.splits)
qed simp

lemma map_of_collect_pairs:
  "map_of (collect_pairs kvs) k = (if k \<in> fst ` set kvs then Some (map snd (filter (\<lambda>kv. fst kv = k) kvs)) else None)"
proof (cases "filter (\<lambda>kv. fst kv = k) kvs")
  case Nil
  then have "k \<notin> fst ` set kvs" by (auto simp: filter_empty_conv)
  with Nil show ?thesis by (simp add: collect_pairs_def map_of_foldl_append)
next
  case (Cons p ps)
  then have "p \<in> set kvs \<and> fst p = k" by (metis (mono_tags, lifting) list.set_intros(1) mem_Collect_eq set_filter)
  with Cons show ?thesis by (force simp: collect_pairs_def map_of_foldl_append)
qed

lemma collect_pairs_distinct: "distinct (dict_keys (collect_pairs kvs))"
proof -
  have "distinct (dict_keys d) \<Longrightarrow> distinct (dict_keys (foldl dict_append d kvs))" for d :: "('a, 'b list) dict"
    by (induction kvs arbitrary: d) (auto simp: dict_append_def split: prod.splits)
  then show ?thesis by (simp add: collect_pairs_def)
qed

lemma collect_pairs_mem: "(k, v) \<in> set kvs \<Longrightarrow> \<exists>vs. map_of (collect_pairs kvs) k = Some vs \<and> v \<in> set vs"
  by (force simp: map_of_collect_pairs)

lemma teams_of_mem:
  assumes "v \<in> set vnets" and "team_segment v = Some (t, v)"
  shows "\<exists>vs. (t, vs) \<in> set (teams_of vnets) \<and> v \<in> set vs"
proof -
  have "(t, v) \<in> set (List.map_filter team_segment vnets)"
    using assms by (force simp: List.map_filter_def)
  from collect_pairs_mem [OF this] show ?thesis by (auto simp: teams_of_def dest: map_of_SomeD)
qed

lemma guest_address_mem:
  assumes "g \<in> set guests" and "n \<in> set (gs_nics g)"
  shows "\<exists>addrs. addresses_on guests (nc_vnet_name n) = Some addrs \<and> ga_published_address (gs_address g) \<in> set addrs"
  unfolding addresses_on_def guest_addresses_def by (rule collect_pairs_mem) (use assms in auto)

section \<open>Findings\<close>

definition passes :: "check_finding \<Rightarrow> bool" where
  "passes f \<longleftrightarrow> cf_observed f \<and> cf_ok f = Some True"

lemma passes_finding_from [simp]: "passes (finding_from c observed ok) \<longleftrightarrow> observed \<and> ok"
  by (simp add: passes_def finding_from_def unobserved_def observed_result_def)

lemma finding_from_fields [simp]:
  "cf_check (finding_from c observed ok) = c" "cf_observed (finding_from c observed ok) = observed"
  "cf_ok (finding_from c observed ok) = (if observed then Some ok else None)"
  by (simp_all add: finding_from_def unobserved_def observed_result_def)

lemma finding_from_constructible:
  "construct_finding (cf_check f) (cf_observed f) (cf_ok f) = Some f" if "f = finding_from c observed ok"
  unfolding that by (simp add: construct_finding_def finding_from_def unobserved_def observed_result_def)

lemma counts_as_failure_iff: "counts_as_failure f \<longleftrightarrow> \<not> passes f"
  by (simp add: counts_as_failure_def passes_def)

lemma decide_verified_iff:
  "decide_outcome fs reachable = VO_verified \<longleftrightarrow> reachable \<and> (\<forall>f \<in> set fs. passes f)"
proof
  assume "decide_outcome fs reachable = VO_verified"
  then show "reachable \<and> (\<forall>f \<in> set fs. passes f)"
    by (auto simp: decide_outcome_def counts_as_failure_iff list_ex_iff split: if_splits)
next
  assume asm: "reachable \<and> (\<forall>f \<in> set fs. passes f)"
  then have "\<not> list_ex (\<lambda>f. cf_check f \<in> set ISOLATION_CHECKS \<and> cf_observed f \<and> cf_ok f \<noteq> Some True) fs"
    "\<not> list_ex counts_as_failure fs"
    by (auto simp: list_ex_iff passes_def counts_as_failure_def)
  moreover have "find (\<lambda>f. cf_check f = VC_state_agreement) fs = Some st \<Longrightarrow> passes st" for st
    using asm by (auto simp: find_Some_iff)
  ultimately show "decide_outcome fs reachable = VO_verified"
    using asm by (auto simp: decide_outcome_def passes_def split: option.splits)
qed

lemma decide_isolation_iff:
  "decide_outcome fs True = VO_isolation_failed \<longleftrightarrow>
     (\<exists>f \<in> set fs. cf_check f \<in> set ISOLATION_CHECKS \<and> cf_observed f \<and> cf_ok f \<noteq> Some True)"
  by (auto simp: decide_outcome_def list_ex_iff)

section \<open>Guests\<close>

lemma guest_check_pass:
  assumes "passes (guest_check c judge desired ob)" and "g \<in> set desired"
    and "map_of (guests_by_vmid ob) (gs_vmid g) = Some live"
  shows "judge g live = Some True"
proof -
  have "judge g live \<in> set (List.map_filter (\<lambda>g. map_option (judge g) (map_of (guests_by_vmid ob) (gs_vmid g))) desired)"
    using assms(2,3) by (force simp: List.map_filter_def)
  then have "judge g live \<noteq> None" "judge g live \<noteq> Some False"
    using assms(1) unfolding guest_check_def Let_def passes_finding_from by metis+
  then show ?thesis by (cases "judge g live") auto
qed

definition guest_as_desired :: "guest_spec \<Rightarrow> observed_guest \<Rightarrow> bool" where
  "guest_as_desired g live \<longleftrightarrow> og_vmid live = gs_vmid g \<and> og_name live = Some (gs_name g) \<and>
     og_node_name live = Some (gs_node_name g) \<and> og_powered_on live = Some (gs_start_on_deploy g) \<and>
     og_ready live = Some True \<and>
     (\<forall>d \<in> set (gs_disks g). \<exists>e \<in> set (og_disks live). od_slot e = dk_slot d \<and>
        od_storage_id e \<in> {None, Some (dk_storage_id d)} \<and> od_size_gb e \<in> {None, Some (dk_size_gb d)}) \<and>
     set (map (\<lambda>n. map upper_char (nc_mac_address n)) (gs_nics g)) = set (map (map upper_char) (og_macs live)) \<and>
     (\<exists>tags. og_tags live = Some tags \<and> (\<forall>(k, v) \<in> set (as_tags (gs_ownership g)). map_of tags k = Some v))"

lemma disk_matchesD:
  assumes "disk_matches live d"
  shows "\<exists>e \<in> set (og_disks live). od_slot e = dk_slot d \<and>
    od_storage_id e \<in> {None, Some (dk_storage_id d)} \<and> od_size_gb e \<in> {None, Some (dk_size_gb d)}"
proof -
  obtain e where e: "map_of (dict_of (map (\<lambda>d. (od_slot d, d)) (og_disks live))) (dk_slot d) = Some e"
    and m: "od_storage_id e \<in> {None, Some (dk_storage_id d)}" "od_size_gb e \<in> {None, Some (dk_size_gb d)}"
    using assms by (auto simp: disk_matches_def split: option.splits)
  from e have "e \<in> set (og_disks live) \<and> od_slot e = dk_slot d"
    by (auto simp: map_of_dict_of dest!: map_of_SomeD)
  with m show ?thesis by blast
qed

lemma guests_verified:
  assumes pass: "\<forall>f \<in> set (check_guests desired ob). passes f" and g: "g \<in> set desired"
  shows "\<exists>live \<in> set (ob_guests ob). guest_as_desired g live"
proof -
  have checks: "set (map gs_vmid desired) = set (map og_vmid (ob_guests ob))"
    "passes (guest_check VC_guest_names judge_name desired ob)"
    "passes (guest_check VC_node_placement judge_node desired ob)"
    "passes (guest_check VC_disks_and_storage judge_disks desired ob)"
    "passes (guest_check VC_nics_and_macs judge_macs desired ob)"
    "passes (guest_check VC_ownership_tags judge_tags desired ob)"
    "passes (guest_check VC_power_state judge_power desired ob)"
    "passes (guest_check VC_guest_readiness judge_ready desired ob)"
    using pass by (simp_all add: check_guests_def)
  have "gs_vmid g \<in> fst ` set (map (\<lambda>g. (og_vmid g, g)) (ob_guests ob))"
    using checks(1) g by (auto simp: image_image)
  then obtain live where live: "map_of (guests_by_vmid ob) (gs_vmid g) = Some live"
    unfolding guests_by_vmid_def
    by (metis (no_types, lifting) dom_map_of_conv_image_fst domD set_keys_dict_of)
  note judged = checks(2-) [THEN guest_check_pass, OF g live]
  have mem: "live \<in> set (ob_guests ob) \<and> og_vmid live = gs_vmid g"
    using live by (auto simp: guests_by_vmid_def map_of_dict_of dest!: map_of_SomeD)
  have "guest_as_desired g live"
    unfolding guest_as_desired_def using judged mem
    by (auto simp: judge_name_def judge_node_def judge_disks_def judge_macs_def judge_tags_def judge_power_def
        judge_ready_def list_all_iff split: if_splits dest!: disk_matchesD)
  with mem show ?thesis by blast
qed

section \<open>Network, firewall and state\<close>

definition network_as_desired :: "network_plan \<Rightarrow> observed_infrastructure \<Rightarrow> bool" where
  "network_as_desired network ob \<longleftrightarrow>
     zs_name (np_zone network) \<in> insert [] (set (ob_zones ob)) \<and>
     (\<forall>v \<in> set (np_vnets network). \<exists>w \<in> set (ob_vnets ob). ov_name w = vn_name v \<and>
        ov_vlan_tag w = Some (vn_vlan_tag v) \<and> ov_cidr w = Some (sb_cidr (vn_subnet v))) \<and>
     (\<forall>s \<in> set (np_security_groups network). sg_name s \<in> set (ob_security_groups ob)) \<and>
     (\<forall>i \<in> set (np_ip_sets network). is_name i \<in> set (ob_ip_sets ob)) \<and>
     (\<exists>xs ys. ob_tofu_state_addresses ob = Some xs \<and> ob_observed_addresses ob = Some ys \<and> set xs = set ys)"

lemma judge_vnetD:
  assumes "judge_vnet ob v = Some True"
  shows "\<exists>w \<in> set (ob_vnets ob). ov_name w = vn_name v \<and>
    ov_vlan_tag w = Some (vn_vlan_tag v) \<and> ov_cidr w = Some (sb_cidr (vn_subnet v))"
proof -
  obtain w where w: "map_of (dict_of (map (\<lambda>w. (ov_name w, w)) (ob_vnets ob))) (vn_name v) = Some w"
    and m: "ov_vlan_tag w = Some (vn_vlan_tag v)" "ov_cidr w = Some (sb_cidr (vn_subnet v))"
    using assms by (auto simp: judge_vnet_def split: option.splits if_splits)
  from w have "w \<in> set (ob_vnets ob) \<and> ov_name w = vn_name v"
    by (auto simp: map_of_dict_of dest!: map_of_SomeD)
  with m show ?thesis by blast
qed

lemma network_verified:
  assumes "passes (check_network network ob)" "passes (check_firewall network ob)" "passes (check_state_agreement ob)"
  shows "network_as_desired network ob"
proof -
  have verdicts: "None \<notin> set (map (judge_vnet ob) (np_vnets network))" "Some False \<notin> set (map (judge_vnet ob) (np_vnets network))"
    and zone: "zs_name (np_zone network) \<in> insert [] (set (ob_zones ob))"
    using assms(1) by (auto simp: check_network_def Let_def)
  have "judge_vnet ob v = Some True" if "v \<in> set (np_vnets network)" for v
    using verdicts that by (cases "judge_vnet ob v") force+
  with zone assms(2,3) show ?thesis
    by (auto simp: network_as_desired_def check_firewall_def check_state_agreement_def
        split: option.splits dest!: judge_vnetD)
qed

section \<open>Probes\<close>

lemma denial_check_pass:
  "passes (denial_check pr c probes) \<longleftrightarrow> (\<forall>p \<in> set probes. run_probe pr p = PV_blocked)"
  by (auto simp: denial_check_def list_ex_iff) (metis probe_verdict.exhaust)+

lemma denial_check_breach:
  "cf_observed (denial_check pr c probes) \<and> cf_ok (denial_check pr c probes) \<noteq> Some True \<longleftrightarrow>
     (\<exists>p \<in> set probes. run_probe pr p = PV_reachable) \<and> (\<forall>p \<in> set probes. run_probe pr p \<noteq> PV_unknown)"
  by (auto simp: denial_check_def list_ex_iff)

lemma required_check_pass:
  "passes (required_check pr probes) \<longleftrightarrow> (\<forall>p \<in> set probes. run_probe pr p = PV_reachable)"
  by (auto simp: required_check_def list_ex_iff)

lemma cross_pairs_mem:
  assumes "(t, vs) \<in> set ts" "(u, ws) \<in> set ts" "t \<noteq> u" "s \<in> set vs" "d \<in> set ws"
  shows "(s, d) \<in> set [(s, d). (t, vs) \<leftarrow> ts, (u, ws) \<leftarrow> ts, u \<noteq> t, s \<leftarrow> vs, d \<leftarrow> ws]"
  using assms by simp (rule bexI [of _ "(t, vs)"], simp, rule bexI [of _ "(u, ws)"], auto)

lemma cross_probe_mem:
  assumes cross: "cross_probes vnets guests = Inr probes"
    and s: "s \<in> set vnets" "team_segment s = Some (t, s)" and d: "d \<in> set vnets" "team_segment d = Some (u, d)" and "t \<noteq> u"
    and g: "g \<in> set guests" "n \<in> set (gs_nics g)" "nc_vnet_name n = vn_name d"
  shows "(vn_name s, ga_published_address (gs_address g), 80) \<in> set probes"
proof -
  obtain vs where vs: "(t, vs) \<in> set (teams_of vnets)" "s \<in> set vs" using teams_of_mem [OF s] by blast
  obtain ws where ws: "(u, ws) \<in> set (teams_of vnets)" "d \<in> set ws" using teams_of_mem [OF d] by blast
  have pair: "(s, d) \<in> set [(s, d). (t, vs) \<leftarrow> teams_of vnets, (u, ws) \<leftarrow> teams_of vnets, u \<noteq> t, s \<leftarrow> vs, d \<leftarrow> ws]"
    by (rule cross_pairs_mem [OF vs(1) ws(1) \<open>t \<noteq> u\<close> vs(2) ws(2)])
  obtain pss where pss: "mapE (\<lambda>(s, d). bindE (dest_addresses guests d) (\<lambda>addrs. Inr (map (\<lambda>addr. (vn_name s, addr, 80)) addrs)))
       [(s, d). (t, vs) \<leftarrow> teams_of vnets, (u, ws) \<leftarrow> teams_of vnets, u \<noteq> t, s \<leftarrow> vs, d \<leftarrow> ws] = Inr pss"
    "probes = concat pss"
    using cross by (auto simp: cross_probes_def bindE_Inr)
  obtain ps where ps: "bindE (dest_addresses guests d) (\<lambda>addrs. Inr (map (\<lambda>addr. (vn_name s, addr, 80)) addrs)) = Inr ps" "ps \<in> set pss"
    using mapE_mem [OF pss(1) pair] by auto
  obtain addrs where "addresses_on guests (vn_name d) = Some addrs" "ga_published_address (gs_address g) \<in> set addrs"
    using guest_address_mem [OF g(1,2)] g(3) by auto
  then have "(vn_name s, ga_published_address (gs_address g), 80) \<in> set ps"
    using ps(1) by (auto simp: dest_addresses_def bindE_Inr)
  then show ?thesis using ps(2) pss(2) by auto
qed

lemma network_probe_mem:
  assumes "network_probes vnets cidrs ports = Inr probes" and "v \<in> set vnets" "cidr \<in> set cidrs" "port \<in> set ports"
  shows "\<exists>h. first_host cidr = Inr h \<and> (vn_name v, h, port) \<in> set probes"
proof -
  have "(vn_name v, cidr, port) \<in> set [(name, cidr, port). name \<leftarrow> segment_names vnets, cidr \<leftarrow> cidrs, port \<leftarrow> ports]"
    using assms(2-) by (auto simp: segment_names_def)
  from mapE_mem [OF assms(1) [unfolded network_probes_def] this] show ?thesis by (auto simp: bindE_Inr)
qed

lemma external_probe_mem:
  "v \<in> set vnets \<Longrightarrow> a \<in> set addrs \<Longrightarrow> (vn_name v, a, 443) \<in> set (external_probes vnets addrs)"
  by (auto simp: external_probes_def segment_names_def)

text \<open>What passing probes establish: the teams cannot reach one another's published addresses, and no
  segment reaches the management, protected or external addresses that were probed.\<close>

definition probes_show_isolation :: "prober \<Rightarrow> vnet_spec list \<Rightarrow> guest_spec list \<Rightarrow> string list \<Rightarrow> string list \<Rightarrow> string list \<Rightarrow> bool" where
  "probes_show_isolation pr vnets guests management protected external \<longleftrightarrow>
     (\<forall>s \<in> set vnets. \<forall>d \<in> set vnets. \<forall>g \<in> set guests. \<forall>n \<in> set (gs_nics g). \<forall>t u.
        team_segment s = Some (t, s) \<longrightarrow> team_segment d = Some (u, d) \<longrightarrow> t \<noteq> u \<longrightarrow> nc_vnet_name n = vn_name d \<longrightarrow>
        pr (vn_name s) (ga_published_address (gs_address g)) 80 = PV_blocked) \<and>
     (\<forall>v \<in> set vnets. \<forall>cidr \<in> set management. \<forall>port \<in> {22, 8006}. \<exists>h. first_host cidr = Inr h \<and> pr (vn_name v) h port = PV_blocked) \<and>
     (\<forall>v \<in> set vnets. \<forall>cidr \<in> set protected. \<forall>port \<in> {22, 443}. \<exists>h. first_host cidr = Inr h \<and> pr (vn_name v) h port = PV_blocked) \<and>
     (\<forall>v \<in> set vnets. \<forall>a \<in> set external. pr (vn_name v) a 443 = PV_blocked)"

lemma network_probes_blocked:
  assumes "network_probes vnets cidrs ports = Inr probes" and "\<forall>p \<in> set probes. run_probe pr p = PV_blocked"
    and "v \<in> set vnets" "cidr \<in> set cidrs" "port \<in> set ports"
  shows "\<exists>h. first_host cidr = Inr h \<and> pr (vn_name v) h port = PV_blocked"
proof -
  obtain h where "first_host cidr = Inr h" "(vn_name v, h, port) \<in> set probes"
    using network_probe_mem [OF assms(1,3-)] by blast
  moreover from assms(2) this(2) have "run_probe pr (vn_name v, h, port) = PV_blocked" by blast
  ultimately show ?thesis by (auto simp: run_probe_def)
qed

lemma probes_isolation:
  assumes reach: "check_reachability vnets guests prober management protected external scoring_port = Inr fs"
    and pass: "\<forall>f \<in> set fs. passes f"
  shows "\<exists>pr required. prober = Some pr \<and> probes_show_isolation pr vnets guests management protected external \<and>
    required_probes vnets guests scoring_port = Inr required \<and> (\<forall>p \<in> set required. run_probe pr p = PV_reachable)"
proof (cases prober)
  case None
  with assms show ?thesis by (auto simp: check_reachability_def)
next
  case (Some pr)
  obtain required cross mgmt prot where probes:
    "cross_probes vnets guests = Inr cross" "required_probes vnets guests scoring_port = Inr required"
    "network_probes vnets management [22, 8006] = Inr mgmt" "network_probes vnets protected [22, 443] = Inr prot"
    and fs: "fs = [required_check pr required, denial_check pr VC_cross_team_denial cross,
      denial_check pr VC_management_denial mgmt, denial_check pr VC_protected_denial prot,
      denial_check pr VC_external_denial (external_probes vnets external)]"
    using reach Some by (auto simp: check_reachability_def bindE_Inr)
  have blocked: "\<forall>p \<in> set cross. run_probe pr p = PV_blocked" "\<forall>p \<in> set mgmt. run_probe pr p = PV_blocked"
    "\<forall>p \<in> set prot. run_probe pr p = PV_blocked" "\<forall>p \<in> set (external_probes vnets external). run_probe pr p = PV_blocked"
    using pass by (simp_all add: fs denial_check_pass)
  have "pr (vn_name s) (ga_published_address (gs_address g)) 80 = PV_blocked"
    if "s \<in> set vnets" "d \<in> set vnets" "g \<in> set guests" "n \<in> set (gs_nics g)" "team_segment s = Some (t, s)"
      "team_segment d = Some (u, d)" "t \<noteq> u" "nc_vnet_name n = vn_name d" for s d g n t u
    using cross_probe_mem [OF probes(1) that(1,5,2,6,7,3,4,8)] blocked(1) by (auto simp: run_probe_def)
  moreover have "pr (vn_name v) a 443 = PV_blocked" if "v \<in> set vnets" "a \<in> set external" for v a
    using external_probe_mem [OF that] blocked(4) by (auto simp: run_probe_def)
  ultimately have "probes_show_isolation pr vnets guests management protected external"
    unfolding probes_show_isolation_def
    using network_probes_blocked [OF probes(3) blocked(2)] network_probes_blocked [OF probes(4) blocked(3)] by simp
  moreover have "\<forall>p \<in> set required. run_probe pr p = PV_reachable"
    using pass by (simp add: fs required_check_pass)
  ultimately show ?thesis using Some probes(2) by blast
qed

section \<open>Reports\<close>

lemma verify_deployment_Inr:
  "verify_deployment network guests ob prober management protected external scoring_port = Inr report \<longleftrightarrow>
     (if \<not> ob_reachable ob
      then report = \<lparr>vr_outcome = VO_recovery_required, vr_findings = [finding_from VC_guest_inventory False False]\<rparr>
      else \<exists>reach. check_reachability (np_vnets network) guests prober management protected external scoring_port = Inr reach \<and>
        (let fs = check_guests guests ob @ [check_network network ob, check_firewall network ob, check_state_agreement ob] @ reach
         in report = \<lparr>vr_outcome = decide_outcome fs True, vr_findings = fs\<rparr>))"
  by (auto simp: verify_deployment_def bindE_Inr Let_def)

end
