(* ===== verification/Proxmox_Residue.thy ===== *)
theory Proxmox_Residue
  imports Proxmox_Verification
begin

text \<open>
  Ownership-bounded deletion and the zero-residue proof
  (\<open>apps/worker/secp_worker/provisioning/proxmox_residue.py\<close>): which of the resources a range's
  records name may be deleted, what a fresh observation proves absent, which reservations of the
  allocation ledger may be released, and the verdict of the teardown. Detail and reason texts are
  not kept. The loop of \<open>bound_deletion_set\<close> appends every resource to one of four lists; here
  \<open>resource_disposition\<close> is the body of that loop and the four lists are the resources with each
  disposition, in the order of the loop.
\<close>

section \<open>Residue classes and probe domains\<close>

datatype residue_class = RC_qemu_vm | RC_lxc_container | RC_disk_volume | RC_nic | RC_sdn_zone | RC_vnet | RC_bridge
  | RC_subnet | RC_vlan_assignment | RC_firewall_group | RC_firewall_rule | RC_ip_set | RC_firewall_alias
  | RC_cloud_init_snippet | RC_bootstrap_object | RC_vmid_reservation | RC_mac_reservation | RC_ip_reservation
  | RC_subnet_reservation | RC_vlan_reservation | RC_remote_state_key_reservation | RC_transient_workspace
  | RC_binary_plan_file | RC_temporary_credential_file | RC_remote_state_object

fun residue_class_value :: "residue_class \<Rightarrow> string" where
  "residue_class_value RC_qemu_vm = ''qemu_vm''"
| "residue_class_value RC_lxc_container = ''lxc_container''"
| "residue_class_value RC_disk_volume = ''disk_volume''"
| "residue_class_value RC_nic = ''nic''"
| "residue_class_value RC_sdn_zone = ''sdn_zone''"
| "residue_class_value RC_vnet = ''vnet''"
| "residue_class_value RC_bridge = ''bridge''"
| "residue_class_value RC_subnet = ''subnet''"
| "residue_class_value RC_vlan_assignment = ''vlan_assignment''"
| "residue_class_value RC_firewall_group = ''firewall_group''"
| "residue_class_value RC_firewall_rule = ''firewall_rule''"
| "residue_class_value RC_ip_set = ''ip_set''"
| "residue_class_value RC_firewall_alias = ''firewall_alias''"
| "residue_class_value RC_cloud_init_snippet = ''cloud_init_snippet''"
| "residue_class_value RC_bootstrap_object = ''bootstrap_object''"
| "residue_class_value RC_vmid_reservation = ''vmid_reservation''"
| "residue_class_value RC_mac_reservation = ''mac_reservation''"
| "residue_class_value RC_ip_reservation = ''ip_reservation''"
| "residue_class_value RC_subnet_reservation = ''subnet_reservation''"
| "residue_class_value RC_vlan_reservation = ''vlan_reservation''"
| "residue_class_value RC_remote_state_key_reservation = ''remote_state_key_reservation''"
| "residue_class_value RC_transient_workspace = ''transient_workspace''"
| "residue_class_value RC_binary_plan_file = ''binary_plan_file''"
| "residue_class_value RC_temporary_credential_file = ''temporary_credential_file''"
| "residue_class_value RC_remote_state_object = ''remote_state_object''"

datatype probe_domain = PD_provider | PD_local_artifact | PD_remote_state | PD_ledger

definition CLASS_PROBE_DOMAIN :: "(residue_class, probe_domain) dict" where
  "CLASS_PROBE_DOMAIN =
     map (\<lambda>c. (c, PD_provider)) [RC_qemu_vm, RC_lxc_container, RC_disk_volume, RC_nic, RC_sdn_zone, RC_vnet, RC_bridge,
       RC_subnet, RC_vlan_assignment, RC_firewall_group, RC_firewall_rule, RC_ip_set, RC_firewall_alias,
       RC_cloud_init_snippet, RC_bootstrap_object] @
     map (\<lambda>c. (c, PD_ledger)) [RC_vmid_reservation, RC_mac_reservation, RC_ip_reservation, RC_subnet_reservation,
       RC_vlan_reservation, RC_remote_state_key_reservation] @
     map (\<lambda>c. (c, PD_local_artifact)) [RC_transient_workspace, RC_binary_plan_file, RC_temporary_credential_file] @
     [(RC_remote_state_object, PD_remote_state)]"

definition RESERVATION_ALLOCATION_KIND :: "(residue_class, allocation_kind list) dict" where
  "RESERVATION_ALLOCATION_KIND =
     [(RC_vmid_reservation, [VK_vmid, VK_lxc_id]), (RC_mac_reservation, [VK_mac]),
      (RC_ip_reservation, [VK_guest_address, VK_gateway_address]), (RC_subnet_reservation, [VK_subnet]),
      (RC_vlan_reservation, [VK_vlan_tag]), (RC_remote_state_key_reservation, [VK_remote_state_key])]"

section \<open>Resources and observations\<close>

record owned_resource =
  or_residue_class :: residue_class
  or_identifier :: string
  or_address :: "string option"
  or_expected_ownership :: "ownership option"
  or_allocation_key :: "alloc_key option"

text \<open>\<open>CLASS_PROBE_DOMAIN[...]\<close>: every class has an entry, so the lookup never raises.\<close>

definition domain_of :: "residue_class \<Rightarrow> probe_domain" where
  "domain_of c = (case map_of CLASS_PROBE_DOMAIN c of Some d \<Rightarrow> d | None \<Rightarrow> PD_provider)"

record protected_resource =
  pr_resource :: owned_resource
  pr_provenance :: object_provenance

record supplemental_observation =
  so_disk_volume_ids :: "string list option"
  so_nic_macs :: "string list option"
  so_bridges :: "string list option"
  so_subnet_cidrs :: "string list option"
  so_vlan_tags_in_use :: "int list option"
  so_firewall_rule_ids :: "string list option"
  so_firewall_aliases :: "string list option"
  so_cloud_init_snippet_ids :: "string list option"
  so_bootstrap_object_ids :: "string list option"

definition no_supplement :: supplemental_observation where
  "no_supplement = \<lparr>so_disk_volume_ids = None, so_nic_macs = None, so_bridges = None, so_subnet_cidrs = None,
     so_vlan_tags_in_use = None, so_firewall_rule_ids = None, so_firewall_aliases = None,
     so_cloud_init_snippet_ids = None, so_bootstrap_object_ids = None\<rparr>"

record artifact_probe =
  ap_readable :: bool
  ap_present_paths :: "string list"

record remote_state_probe =
  rp_readable :: bool
  rp_present_keys :: "string list"

record deletion_set =
  ds_deletable :: "owned_resource list"
  ds_protected :: "protected_resource list"
  ds_already_absent :: "owned_resource list"
  ds_undetermined :: "owned_resource list"

definition deletion_addresses :: "deletion_set \<Rightarrow> string list" where
  "deletion_addresses d = sort (remdups (filter (\<lambda>a. a \<noteq> []) (List.map_filter or_address (ds_deletable d))))"

definition may_proceed :: "deletion_set \<Rightarrow> bool" where
  "may_proceed d \<longleftrightarrow> ds_undetermined d = []"

datatype teardown_outcome = TO_removed | TO_present | TO_unproven

fun teardown_outcome_value :: "teardown_outcome \<Rightarrow> string" where
  "teardown_outcome_value TO_removed = ''removed''"
| "teardown_outcome_value TO_present = ''present''"
| "teardown_outcome_value TO_unproven = ''unproven''"

record absence_finding =
  af_resource :: owned_resource
  af_outcome :: teardown_outcome
  af_probe_healthy :: bool

definition absence_proved :: "absence_finding \<Rightarrow> bool" where
  "absence_proved f \<longleftrightarrow> af_probe_healthy f \<and> af_outcome f = TO_removed"

definition resource_sort_key :: "owned_resource \<Rightarrow> string \<times> string" where
  "resource_sort_key r = (residue_class_value (or_residue_class r), or_identifier r)"

definition as_int :: "string \<Rightarrow> int" where
  "as_int s = (case py_int s of Some i \<Rightarrow> i | None \<Rightarrow> -1)"

section \<open>What may be deleted\<close>

text \<open>\<open>_observe_simple\<close>: \<open>None\<close> when the inventory was not collected, else whether the object is in it.\<close>

definition observe_simple :: "owned_resource \<Rightarrow> observed_infrastructure \<Rightarrow> supplemental_observation \<Rightarrow> bool option" where
  "observe_simple r ob supplemental = (let identifier = or_identifier r in
     case or_residue_class r of
       RC_sdn_zone \<Rightarrow> Some (identifier \<in> set (ob_zones ob))
     | RC_vnet \<Rightarrow> Some (list_ex (\<lambda>v. ov_name v = identifier) (ob_vnets ob))
     | RC_firewall_group \<Rightarrow> Some (identifier \<in> set (ob_security_groups ob))
     | RC_ip_set \<Rightarrow> Some (identifier \<in> set (ob_ip_sets ob))
     | RC_disk_volume \<Rightarrow> map_option (\<lambda>s. identifier \<in> set s) (so_disk_volume_ids supplemental)
     | RC_nic \<Rightarrow> map_option (\<lambda>s. map upper_char identifier \<in> set (map (map upper_char) s)) (so_nic_macs supplemental)
     | RC_bridge \<Rightarrow> map_option (\<lambda>s. identifier \<in> set s) (so_bridges supplemental)
     | RC_subnet \<Rightarrow> map_option (\<lambda>s. identifier \<in> set s) (so_subnet_cidrs supplemental)
     | RC_vlan_assignment \<Rightarrow> map_option (\<lambda>s. identifier \<in> set (map show_int s)) (so_vlan_tags_in_use supplemental)
     | RC_firewall_rule \<Rightarrow> map_option (\<lambda>s. identifier \<in> set s) (so_firewall_rule_ids supplemental)
     | RC_firewall_alias \<Rightarrow> map_option (\<lambda>s. identifier \<in> set s) (so_firewall_aliases supplemental)
     | RC_cloud_init_snippet \<Rightarrow> map_option (\<lambda>s. identifier \<in> set s) (so_cloud_init_snippet_ids supplemental)
     | RC_bootstrap_object \<Rightarrow> map_option (\<lambda>s. identifier \<in> set s) (so_bootstrap_object_ids supplemental)
     | _ \<Rightarrow> None)"

definition is_guest_class :: "residue_class \<Rightarrow> bool" where
  "is_guest_class c \<longleftrightarrow> c = RC_qemu_vm \<or> c = RC_lxc_container"

datatype disposition = Deletable | Protected_by object_provenance | Already_absent | Undetermined

definition resource_disposition :: "observed_infrastructure \<Rightarrow> supplemental_observation \<Rightarrow> owned_resource \<Rightarrow> disposition" where
  "resource_disposition ob supplemental r =
     (if domain_of (or_residue_class r) \<noteq> PD_provider then Deletable
      else if is_guest_class (or_residue_class r) then
        (case map_of (guests_by_vmid ob) (as_int (or_identifier r)) of
           None \<Rightarrow> Already_absent
         | Some live \<Rightarrow> (case (or_expected_ownership r, og_tags live) of
             (None, _) \<Rightarrow> Undetermined
           | (Some _, None) \<Rightarrow> Undetermined
           | (Some expected, Some tags) \<Rightarrow> (let provenance = is_owned_by_secp (Some tags) expected in
               if provenance = OP_secp_owned then Deletable else Protected_by provenance)))
      else (case observe_simple r ob supplemental of
             None \<Rightarrow> Undetermined
           | Some present \<Rightarrow> if present then Deletable else Already_absent))"

definition protected_as :: "observed_infrastructure \<Rightarrow> supplemental_observation \<Rightarrow> owned_resource \<Rightarrow> protected_resource option" where
  "protected_as ob supplemental r = (case resource_disposition ob supplemental r of
     Protected_by p \<Rightarrow> Some \<lparr>pr_resource = r, pr_provenance = p\<rparr> | _ \<Rightarrow> None)"

definition bound_deletion_set :: "owned_resource list \<Rightarrow> observed_infrastructure \<Rightarrow> supplemental_observation option \<Rightarrow> deletion_set" where
  "bound_deletion_set owned ob supplemental =
     (let rs = sort_key resource_sort_key owned;
          sup = (case supplemental of None \<Rightarrow> no_supplement | Some s \<Rightarrow> s) in
      if \<not> ob_reachable ob
      then \<lparr>ds_deletable = [], ds_protected = [], ds_already_absent = [], ds_undetermined = rs\<rparr>
      else \<lparr>ds_deletable = filter (\<lambda>r. resource_disposition ob sup r = Deletable) rs,
            ds_protected = List.map_filter (protected_as ob sup) rs,
            ds_already_absent = filter (\<lambda>r. resource_disposition ob sup r = Already_absent) rs,
            ds_undetermined = filter (\<lambda>r. resource_disposition ob sup r = Undetermined) rs\<rparr>)"

section \<open>What is proved absent\<close>

definition unproven_finding :: "owned_resource \<Rightarrow> absence_finding" where
  "unproven_finding r = \<lparr>af_resource = r, af_outcome = TO_unproven, af_probe_healthy = False\<rparr>"

definition present_or_removed :: "owned_resource \<Rightarrow> bool \<Rightarrow> bool \<Rightarrow> absence_finding" where
  "present_or_removed r present probe_healthy =
     \<lparr>af_resource = r, af_outcome = (if present then TO_present else TO_removed), af_probe_healthy = probe_healthy\<rparr>"

definition absence_of :: "observed_infrastructure \<Rightarrow> supplemental_observation \<Rightarrow> artifact_probe \<Rightarrow> remote_state_probe \<Rightarrow>
    owned_resource \<Rightarrow> absence_finding option" where
  "absence_of ob supplemental artifacts remote r = (case domain_of (or_residue_class r) of
       PD_ledger \<Rightarrow> None
     | PD_provider \<Rightarrow> Some (
         if \<not> ob_reachable ob then unproven_finding r
         else (case (if is_guest_class (or_residue_class r)
                     then Some (list_ex (\<lambda>g. og_vmid g = as_int (or_identifier r)) (ob_guests ob))
                     else observe_simple r ob supplemental) of
             None \<Rightarrow> unproven_finding r
           | Some present \<Rightarrow> present_or_removed r present True))
     | PD_local_artifact \<Rightarrow> Some (
         if \<not> ap_readable artifacts then unproven_finding r
         else present_or_removed r (or_identifier r \<in> set (ap_present_paths artifacts)) True)
     | PD_remote_state \<Rightarrow> Some (
         if \<not> rp_readable remote then unproven_finding r
         else present_or_removed r (or_identifier r \<in> set (rp_present_keys remote)) True))"

definition verify_absence :: "owned_resource list \<Rightarrow> observed_infrastructure \<Rightarrow> supplemental_observation option \<Rightarrow>
    artifact_probe \<Rightarrow> remote_state_probe \<Rightarrow> absence_finding list" where
  "verify_absence expected ob supplemental artifacts remote =
     List.map_filter (absence_of ob (case supplemental of None \<Rightarrow> no_supplement | Some s \<Rightarrow> s) artifacts remote)
       (sort_key resource_sort_key expected)"

section \<open>Which reservations are released\<close>

record release_decision =
  rd_allocation_key :: alloc_key
  rd_residue_class :: residue_class
  rd_release :: bool

definition reservation_class_for :: "allocation_kind \<Rightarrow> residue_class option" where
  "reservation_class_for kind = map_option fst (find (\<lambda>(_, kinds). kind \<in> set kinds) RESERVATION_ALLOCATION_KIND)"

definition release_decision_for :: "protected_resource list \<Rightarrow> absence_finding \<Rightarrow> release_decision option" where
  "release_decision_for protected f = (case or_allocation_key (af_resource f) of
      None \<Rightarrow> None
    | Some key \<Rightarrow> (case reservation_class_for (fst (snd key)) of
        None \<Rightarrow> None
      | Some c \<Rightarrow> Some \<lparr>rd_allocation_key = key, rd_residue_class = c,
          rd_release = (if (or_residue_class (af_resource f), or_identifier (af_resource f)) \<in>
              set (map (\<lambda>p. (or_residue_class (pr_resource p), or_identifier (pr_resource p))) protected)
            then False else absence_proved f)\<rparr>))"

definition releasable_allocations :: "absence_finding list \<Rightarrow> protected_resource list \<Rightarrow> release_decision list" where
  "releasable_allocations findings protected =
     List.map_filter (release_decision_for protected) (sort_key (\<lambda>f. resource_sort_key (af_resource f)) findings)"

type_synonym release_lists = "release_decision list \<times> release_decision list \<times> release_decision list"

fun release_loop :: "release_decision list \<Rightarrow> ledger \<Rightarrow> release_lists \<Rightarrow> alloc_error + (release_lists \<times> ledger)" where
  "release_loop [] l acc = Inr (acc, l)"
| "release_loop (d # ds) l (released, retained, already) =
     (if \<not> rd_release d then release_loop ds l (released, retained @ [d], already)
      else (case rd_allocation_key d of (scope, kind, purpose) \<Rightarrow>
        if ledger_get l scope kind purpose = None then release_loop ds l (released, retained, already @ [d])
        else bindE (release scope kind purpose (rd_release d) l) (\<lambda>(_, l'). release_loop ds l' (released @ [d], retained, already))))"

definition release_proved_allocations :: "ledger \<Rightarrow> release_decision list \<Rightarrow> alloc_error + (release_lists \<times> ledger)" where
  "release_proved_allocations l decisions = release_loop decisions l ([], [], [])"

text \<open>\<open>str(allocation_key)\<close>: the repr of a nested tuple, the kind as \<open><AllocationKind.vmid: 'vmid'>\<close>.\<close>

definition allocation_key_str :: "alloc_key \<Rightarrow> string" where
  "allocation_key_str key = (case key of ((a, b, c, d, generation), kind, purpose) \<Rightarrow>
     ''(('' @ py_repr a @ '', '' @ py_repr b @ '', '' @ py_repr c @ '', '' @ py_repr d @ '', '' @ show_int generation @
     ''), <AllocationKind.'' @ allocation_kind_value kind @ '': '' @ py_repr (allocation_kind_value kind) @ ''>, '' @
     py_repr purpose @ '')'')"

definition reservation_resource :: "release_decision \<Rightarrow> owned_resource" where
  "reservation_resource d = (case rd_allocation_key d of (scope, kind, purpose) \<Rightarrow>
     \<lparr>or_residue_class = rd_residue_class d, or_identifier = allocation_kind_value kind @ '':'' @ purpose,
      or_address = None, or_expected_ownership = None, or_allocation_key = Some (rd_allocation_key d)\<rparr>)"

definition reservation_findings :: "release_decision list \<Rightarrow> release_decision list \<Rightarrow> absence_finding list" where
  "reservation_findings decisions released =
     map (\<lambda>d. if rd_allocation_key d \<in> set (map rd_allocation_key released)
         then \<lparr>af_resource = reservation_resource d, af_outcome = TO_removed, af_probe_healthy = True\<rparr>
         else \<lparr>af_resource = reservation_resource d, af_outcome = TO_unproven, af_probe_healthy = False\<rparr>)
       (sort_key (\<lambda>d. (residue_class_value (rd_residue_class d), allocation_key_str (rd_allocation_key d))) decisions)"

section \<open>The verdict\<close>

datatype residue_outcome = RV_clean | RV_residue | RV_unproven

definition finding_for :: "absence_finding list \<Rightarrow> owned_resource \<Rightarrow> absence_finding option" where
  "finding_for findings r = map_of (dict_of (map (\<lambda>f. (resource_sort_key (af_resource f), f)) findings)) (resource_sort_key r)"

text \<open>The loop sets two flags and never clears them.\<close>

definition shows_present :: "absence_finding list \<Rightarrow> owned_resource \<Rightarrow> bool" where
  "shows_present findings r = (case finding_for findings r of None \<Rightarrow> False
     | Some f \<Rightarrow> af_probe_healthy f \<and> af_outcome f = TO_present)"

definition shows_unproven :: "absence_finding list \<Rightarrow> owned_resource \<Rightarrow> bool" where
  "shows_unproven findings r = (case finding_for findings r of None \<Rightarrow> True
     | Some f \<Rightarrow> \<not> af_probe_healthy f \<or> af_outcome f = TO_unproven)"

definition residue_verdict :: "absence_finding list \<Rightarrow> owned_resource list \<Rightarrow> protected_resource list \<Rightarrow> residue_outcome" where
  "residue_verdict findings expected protected =
     (if expected = [] then RV_unproven
      else if list_ex (shows_present findings) expected then RV_residue
      else if protected \<noteq> [] \<or> list_ex (shows_unproven findings) expected then RV_unproven
      else RV_clean)"

text \<open>\<open>key=str\<close> renders a class as \<open>ResidueClass.<name>\<close>.\<close>

definition uncovered_classes :: "absence_finding list \<Rightarrow> owned_resource list \<Rightarrow> residue_class list" where
  "uncovered_classes findings expected =
     sort_key (\<lambda>c. ''ResidueClass.'' @ residue_class_value c) (remdups (map or_residue_class
       (filter (\<lambda>r. resource_sort_key r \<notin> set (map (\<lambda>f. resource_sort_key (af_resource f)) findings)) expected)))"

record zero_residue_proof =
  zr_verdict :: residue_outcome
  zr_expected_count :: nat
  zr_confirmed_absent :: nat
  zr_still_present :: nat
  zr_unproven :: nat
  zr_protected :: "string list"
  zr_uncovered :: "residue_class list"
  zr_released_reservations :: nat
  zr_retained_reservations :: nat
  zr_by_class :: "(string, (string, nat) dict) dict"

definition is_clean :: "zero_residue_proof \<Rightarrow> bool" where
  "is_clean p \<longleftrightarrow> zr_verdict p = RV_clean"

definition effective_outcome :: "absence_finding \<Rightarrow> teardown_outcome" where
  "effective_outcome f = (if \<not> af_probe_healthy f then TO_unproven else af_outcome f)"

definition bump :: "(string, nat) dict \<Rightarrow> string \<Rightarrow> (string, nat) dict" where
  "bump bucket k = dict_set k ((case map_of bucket k of None \<Rightarrow> 0 | Some n \<Rightarrow> n) + 1) bucket"

definition by_class_of :: "absence_finding list \<Rightarrow> (string, (string, nat) dict) dict" where
  "by_class_of findings = map (\<lambda>(k, b). (k, sort_key fst b)) (sort_key fst (foldl (\<lambda>d f.
     let c = residue_class_value (or_residue_class (af_resource f)) in
     dict_set c (bump (case map_of d c of None \<Rightarrow> [] | Some b \<Rightarrow> b) (teardown_outcome_value (effective_outcome f))) d) [] findings))"

definition make_zero_residue_proof :: "absence_finding list \<Rightarrow> owned_resource list \<Rightarrow> protected_resource list \<Rightarrow>
    release_decision list \<Rightarrow> release_decision list \<Rightarrow> release_decision list \<Rightarrow> zero_residue_proof" where
  "make_zero_residue_proof findings0 expected0 protected decisions released retained =
     (let reservations = reservation_findings decisions released;
          findings = findings0 @ reservations;
          expected = expected0 @ map af_resource reservations in
      \<lparr>zr_verdict = residue_verdict findings expected protected,
       zr_expected_count = length expected,
       zr_confirmed_absent = length (filter (\<lambda>f. effective_outcome f = TO_removed) findings),
       zr_still_present = length (filter (\<lambda>f. effective_outcome f = TO_present) findings),
       zr_unproven = length (filter (\<lambda>f. effective_outcome f = TO_unproven) findings),
       zr_protected = sort (map (\<lambda>p. residue_class_value (or_residue_class (pr_resource p)) @ '':'' @ or_identifier (pr_resource p)) protected),
       zr_uncovered = uncovered_classes findings expected,
       zr_released_reservations = length released,
       zr_retained_reservations = length retained,
       zr_by_class = by_class_of findings\<rparr>)"

end
