(* ===== verification/Proxmox_Teardown.thy ===== *)
theory Proxmox_Teardown
  imports Proxmox_Residue "HOL-Library.Multiset"
begin

text \<open>
  What the deletion set, the release of reservations and the verdict of a teardown guarantee. The
  outcome of a probe depends only on the class and the identifier of a resource, and the class is
  determined by its value, so the findings that answer for one identity agree.
\<close>

section \<open>Classes\<close>

definition RESIDUE_CLASSES :: "residue_class list" where
  "RESIDUE_CLASSES = map fst CLASS_PROBE_DOMAIN"

lemma residue_class_value_inverse:
  "map_of (map (\<lambda>c. (residue_class_value c, c)) RESIDUE_CLASSES) (residue_class_value c) = Some c"
  by (induction c; code_simp)

lemma residue_class_value_inject [simp]: "residue_class_value a = residue_class_value b \<longleftrightarrow> a = b"
  by (metis residue_class_value_inverse option.inject)

lemma every_class_has_a_domain: "\<exists>d. map_of CLASS_PROBE_DOMAIN c = Some d"
  by (cases c) (simp_all add: CLASS_PROBE_DOMAIN_def)

lemma resource_sort_key_eq:
  "resource_sort_key a = resource_sort_key b \<longleftrightarrow> or_residue_class a = or_residue_class b \<and> or_identifier a = or_identifier b"
  by (simp add: resource_sort_key_def)

lemma reservation_class_domain: "reservation_class_for kind = Some c \<Longrightarrow> domain_of c = PD_ledger"
  by (cases kind) (auto simp: reservation_class_for_def RESERVATION_ALLOCATION_KIND_def domain_of_def CLASS_PROBE_DOMAIN_def)

section \<open>The deletion set\<close>

lemma map_filter_resources:
  "mset (map pr_resource (List.map_filter (protected_as ob extra) rs)) =
   mset (filter (\<lambda>r. \<exists>p. resource_disposition ob extra r = Protected_by p) rs)"
  by (induction rs) (auto simp: List.map_filter_simps protected_as_def split: disposition.splits)

lemma mset_four:
  "mset rs = mset (filter (\<lambda>r. f r = Deletable) rs) + mset (filter (\<lambda>r. \<exists>p. f r = Protected_by p) rs) +
     mset (filter (\<lambda>r. f r = Already_absent) rs) + mset (filter (\<lambda>r. f r = Undetermined) rs)"
proof (induction rs)
  case (Cons r rs)
  then show ?case by (cases "f r") simp_all
qed simp

lemma deletion_partition:
  "mset (ds_deletable d) + mset (map pr_resource (ds_protected d)) + mset (ds_already_absent d) + mset (ds_undetermined d) = mset owned"
  if "d = bound_deletion_set owned ob extra"
proof (cases "ob_reachable ob")
  case False
  then show ?thesis by (simp add: that bound_deletion_set_def)
next
  case True
  then show ?thesis
    using mset_four [of owned "resource_disposition ob (case extra of None \<Rightarrow> no_supplement | Some s \<Rightarrow> s)"]
    unfolding that bound_deletion_set_def Let_def by (simp add: map_filter_resources del: map_map mset_map)
qed

lemma deletable_disposition:
  "r \<in> set (ds_deletable (bound_deletion_set owned ob extra)) \<Longrightarrow>
     ob_reachable ob \<and> resource_disposition ob (case extra of None \<Rightarrow> no_supplement | Some s \<Rightarrow> s) r = Deletable"
  by (auto simp: bound_deletion_set_def Let_def split: if_splits)

lemma guests_by_vmid_mem: "map_of (guests_by_vmid ob) i = Some g \<Longrightarrow> g \<in> set (ob_guests ob) \<and> og_vmid g = i"
  by (auto simp: guests_by_vmid_def map_of_dict_of dest!: map_of_SomeD)

lemma deletable_guest:
  assumes "resource_disposition ob extra r = Deletable" and guest: "is_guest_class (or_residue_class r)"
  shows "\<exists>live \<in> set (ob_guests ob). \<exists>tags expected. og_vmid live = as_int (or_identifier r) \<and> og_tags live = Some tags \<and>
     or_expected_ownership r = Some expected \<and> is_owned_by_secp (Some tags) expected = OP_secp_owned"
proof -
  have "domain_of (or_residue_class r) = PD_provider"
    using guest by (auto simp: is_guest_class_def domain_of_def CLASS_PROBE_DOMAIN_def)
  with assms obtain live where live: "map_of (guests_by_vmid ob) (as_int (or_identifier r)) = Some live"
    "(case (or_expected_ownership r, og_tags live) of
             (None, _) \<Rightarrow> Undetermined
           | (Some _, None) \<Rightarrow> Undetermined
           | (Some expected, Some tags) \<Rightarrow> (let provenance = is_owned_by_secp (Some tags) expected in
               if provenance = OP_secp_owned then Deletable else Protected_by provenance)) = Deletable"
    unfolding resource_disposition_def by (auto split: option.splits)
  then obtain tags expected where "og_tags live = Some tags" "or_expected_ownership r = Some expected"
    "is_owned_by_secp (Some tags) expected = OP_secp_owned"
    by (auto simp: Let_def split: option.splits if_splits)
  with guests_by_vmid_mem [OF live(1)] show ?thesis by blast
qed

section \<open>Releases\<close>

definition drop_key :: "alloc_key \<Rightarrow> ledger \<Rightarrow> ledger" where
  "drop_key k l = l\<lparr>lg_by_key := dict_del k (lg_by_key l)\<rparr>"

definition key_held :: "ledger \<Rightarrow> alloc_key \<Rightarrow> bool" where
  "key_held l k \<longleftrightarrow> map_of (lg_by_key l) k \<noteq> None"

text \<open>The loop as a step relation: a decision against release is retained, one whose key nobody
  holds is already released, any other drops its key from the ledger.\<close>

inductive release_run :: "ledger \<Rightarrow> release_decision list \<Rightarrow> release_decision list \<Rightarrow> release_decision list \<Rightarrow>
    release_decision list \<Rightarrow> ledger \<Rightarrow> bool" where
  run_done: "release_run l [] [] [] [] l"
| run_retain: "release_run l (d # ds) rel (d # ret) al l'"
    if "\<not> rd_release d" and "release_run l ds rel ret al l'"
| run_already: "release_run l (d # ds) rel ret (d # al) l'"
    if "rd_release d" and "\<not> key_held l (rd_allocation_key d)" and "release_run l ds rel ret al l'"
| run_release: "release_run l (d # ds) (d # rel) ret al l'"
    if "rd_release d" and "key_held l (rd_allocation_key d)" and "release_run (drop_key (rd_allocation_key d) l) ds rel ret al l'"

lemma release_held:
  "key_held l (scope, kind, purpose) \<Longrightarrow> \<exists>a. release scope kind purpose True l = Inr (a, drop_key (scope, kind, purpose) l)"
  by (auto simp: key_held_def release_def drop_key_def)

lemma release_loop_run:
  "\<exists>rel ret al l'. release_loop ds l (a, b, c) = Inr ((a @ rel, b @ ret, c @ al), l') \<and> release_run l ds rel ret al l'"
proof (induction ds arbitrary: l a b c)
  case Nil
  show ?case by (auto intro: run_done)
next
  case (Cons d ds)
  obtain scope kind purpose where key: "rd_allocation_key d = (scope, kind, purpose)" by (cases "rd_allocation_key d")
  consider "\<not> rd_release d" | "rd_release d" "\<not> key_held l (rd_allocation_key d)" | "rd_release d" "key_held l (rd_allocation_key d)"
    by blast
  then show ?case
  proof cases
    case 1
    then show ?thesis using Cons.IH [of l a "b @ [d]" c] by (fastforce intro: run_retain)
  next
    case 2
    then have "ledger_get l scope kind purpose = None" by (simp add: key key_held_def ledger_get_def)
    with 2 show ?thesis using Cons.IH [of l a b "c @ [d]"] by (fastforce simp: key intro: run_already)
  next
    case 3
    then obtain x where "release scope kind purpose True l = Inr (x, drop_key (scope, kind, purpose) l)"
      and "ledger_get l scope kind purpose \<noteq> None"
      using release_held by (fastforce simp: key key_held_def ledger_get_def)
    with 3 show ?thesis
      using Cons.IH [of "drop_key (rd_allocation_key d) l" "a @ [d]" b c] by (fastforce simp: key intro: run_release)
  qed
qed

lemma release_proved_run:
  "\<exists>rel ret al l'. release_proved_allocations l ds = Inr ((rel, ret, al), l') \<and> release_run l ds rel ret al l'"
  using release_loop_run [of ds l "[]" "[]" "[]"] by (simp add: release_proved_allocations_def)

lemma release_proved_Inr: "release_proved_allocations l ds = Inr ((rel, ret, al), l') \<Longrightarrow> release_run l ds rel ret al l'"
  using release_proved_run [of l ds] by auto

lemma drop_key_distinct [simp]:
  "distinct (dict_keys (lg_by_key l)) \<Longrightarrow> distinct (dict_keys (lg_by_key (drop_key k l)))"
  by (simp add: drop_key_def)

lemma map_of_drop_key:
  "distinct (dict_keys (lg_by_key l)) \<Longrightarrow> map_of (lg_by_key (drop_key k l)) = (map_of (lg_by_key l))(k := None)"
  by (simp add: drop_key_def)

lemma release_run_partition: "release_run l ds rel ret al l' \<Longrightarrow> mset rel + mset ret + mset al = mset ds"
  by (induction rule: release_run.induct) simp_all

lemma release_run_retained: "release_run l ds rel ret al l' \<Longrightarrow> ret = filter (\<lambda>d. \<not> rd_release d) ds"
  by (induction rule: release_run.induct) simp_all

lemma release_run_flags: "release_run l ds rel ret al l' \<Longrightarrow> d \<in> set rel \<union> set al \<Longrightarrow> rd_release d"
  by (induction rule: release_run.induct) auto

lemma release_run_sealed: "release_run l ds rel ret al l' \<Longrightarrow> lg_sealed l' = lg_sealed l"
  by (induction rule: release_run.induct) (simp_all add: drop_key_def)

lemma release_run_ledger:
  "release_run l ds rel ret al l' \<Longrightarrow> distinct (dict_keys (lg_by_key l)) \<Longrightarrow> distinct (dict_keys (lg_by_key l')) \<and>
     map_of (lg_by_key l') = (\<lambda>k. if k \<in> rd_allocation_key ` set rel then None else map_of (lg_by_key l) k)"
  by (induction rule: release_run.induct) (auto simp: map_of_drop_key)

lemma release_run_held:
  "release_run l ds rel ret al l' \<Longrightarrow> distinct (dict_keys (lg_by_key l)) \<Longrightarrow> d \<in> set rel \<Longrightarrow> key_held l (rd_allocation_key d)"
  by (induction rule: release_run.induct) (auto simp: map_of_drop_key key_held_def split: if_splits)

lemma release_run_conflict_free:
  "release_run l ds rel ret al l' \<Longrightarrow> conflict_free l \<Longrightarrow> conflict_free l'"
proof (induction rule: release_run.induct)
  case (run_release d l ds rel ret al l')
  obtain scope kind purpose where key: "rd_allocation_key d = (scope, kind, purpose)" by (cases "rd_allocation_key d")
  have "conflict_free (drop_key (rd_allocation_key d) l)"
    using release_held release_keeps [OF run_release.prems] run_release.hyps(2) unfolding key by blast
  then show ?case by (rule run_release.IH)
qed simp_all

lemma release_run_frees:
  "release_run l ds rel ret al l' \<Longrightarrow> distinct (dict_keys (lg_by_key l)) \<Longrightarrow> d \<in> set ds \<Longrightarrow> rd_release d \<Longrightarrow>
     \<not> key_held l' (rd_allocation_key d)"
proof (induction rule: release_run.induct)
  case (run_already d' l ds rel ret al l')
  then show ?case using release_run_ledger [OF run_already.hyps(3)] by (auto simp: key_held_def split: if_splits)
next
  case (run_release d' l ds rel ret al l')
  then show ?case
    using release_run_ledger [OF run_release.hyps(3)] by (auto simp: key_held_def map_of_drop_key split: if_splits)
qed auto

text \<open>A second run over the same decisions finds nothing to release.\<close>

lemma release_run_nothing_held:
  "\<forall>d \<in> set ds. rd_release d \<longrightarrow> \<not> key_held l (rd_allocation_key d) \<Longrightarrow> release_run l ds rel ret al l' \<Longrightarrow> rel = [] \<and> l' = l"
  by (rotate_tac, induction rule: release_run.induct) auto

section \<open>Absence\<close>

text \<open>What it takes to call a resource gone: a probe of its domain that ran, and that did not find it.\<close>

definition resource_gone :: "observed_infrastructure \<Rightarrow> supplemental_observation \<Rightarrow> artifact_probe \<Rightarrow> remote_state_probe \<Rightarrow>
    owned_resource \<Rightarrow> bool" where
  "resource_gone ob extra artifacts remote r = (case domain_of (or_residue_class r) of
       PD_provider \<Rightarrow> ob_reachable ob \<and>
         (if is_guest_class (or_residue_class r) then \<forall>g \<in> set (ob_guests ob). og_vmid g \<noteq> as_int (or_identifier r)
          else observe_simple r ob extra = Some False)
     | PD_local_artifact \<Rightarrow> ap_readable artifacts \<and> or_identifier r \<notin> set (ap_present_paths artifacts)
     | PD_remote_state \<Rightarrow> rp_readable remote \<and> or_identifier r \<notin> set (rp_present_keys remote)
     | PD_ledger \<Rightarrow> False)"

lemma absence_finding_simps [simp]:
  "af_resource (unproven_finding r) = r" "af_resource (present_or_removed r present healthy) = r"
  "\<not> absence_proved (unproven_finding r)"
  "absence_proved (present_or_removed r present healthy) \<longleftrightarrow> healthy \<and> \<not> present"
  by (simp_all add: unproven_finding_def present_or_removed_def absence_proved_def)

lemma absence_of_resource:
  "absence_of ob extra artifacts remote r = Some f \<Longrightarrow> af_resource f = r \<and> domain_of (or_residue_class r) \<noteq> PD_ledger"
  by (auto simp: absence_of_def split: probe_domain.splits if_splits option.splits)

lemma absence_of_proved:
  "absence_of ob extra artifacts remote r = Some f \<Longrightarrow> absence_proved f \<longleftrightarrow> resource_gone ob extra artifacts remote r"
  by (auto simp: absence_of_def resource_gone_def list_ex_iff split: probe_domain.splits if_splits option.splits)

lemma absence_of_answers:
  "domain_of (or_residue_class r) \<noteq> PD_ledger \<Longrightarrow> \<exists>f. absence_of ob extra artifacts remote r = Some f"
  by (auto simp: absence_of_def split: probe_domain.splits)

lemma resource_gone_identity:
  assumes "resource_sort_key a = resource_sort_key b"
  shows "resource_gone ob extra artifacts remote a = resource_gone ob extra artifacts remote b"
proof -
  have same: "or_residue_class a = or_residue_class b" "or_identifier a = or_identifier b"
    using assms by (simp_all add: resource_sort_key_eq)
  show ?thesis unfolding resource_gone_def observe_simple_def same ..
qed

definition supplement :: "supplemental_observation option \<Rightarrow> supplemental_observation" where
  "supplement s = (case s of None \<Rightarrow> no_supplement | Some x \<Rightarrow> x)"

lemma verify_absence_mem:
  "f \<in> set (verify_absence expected ob extra artifacts remote) \<longleftrightarrow>
     (\<exists>r \<in> set expected. absence_of ob (supplement extra) artifacts remote r = Some f)"
  by (force simp: verify_absence_def List.map_filter_def supplement_def)

section \<open>Verdicts\<close>

lemma finding_for_Some:
  "finding_for fs r = Some f \<Longrightarrow> f \<in> set fs \<and> resource_sort_key (af_resource f) = resource_sort_key r"
  by (auto simp: finding_for_def map_of_dict_of dest!: map_of_SomeD)

lemma finding_for_exists:
  assumes "f \<in> set fs" "resource_sort_key (af_resource f) = resource_sort_key r"
  shows "\<exists>g. finding_for fs r = Some g"
proof -
  have "resource_sort_key r \<in> fst ` set (map (\<lambda>f. (resource_sort_key (af_resource f), f)) fs)"
    using assms by force
  then show ?thesis
    unfolding finding_for_def by (metis (no_types, lifting) dom_map_of_conv_image_fst domD set_keys_dict_of)
qed

lemma residue_clean_iff:
  "residue_verdict fs expected protected = RV_clean \<longleftrightarrow>
     expected \<noteq> [] \<and> protected = [] \<and> (\<forall>r \<in> set expected. \<exists>f. finding_for fs r = Some f \<and> absence_proved f)"
proof -
  have "\<not> shows_present fs r \<and> \<not> shows_unproven fs r \<longleftrightarrow> (\<exists>f. finding_for fs r = Some f \<and> absence_proved f)" for r
    by (auto simp: shows_present_def shows_unproven_def absence_proved_def split: option.splits)
      (metis teardown_outcome.exhaust)
  then have "(\<forall>r \<in> set expected. \<exists>f. finding_for fs r = Some f \<and> absence_proved f) \<longleftrightarrow>
      \<not> list_ex (shows_present fs) expected \<and> \<not> list_ex (shows_unproven fs) expected"
    unfolding list_ex_iff by metis
  then show ?thesis by (simp add: residue_verdict_def)
qed

lemma release_decision_forD:
  assumes "d \<in> set (releasable_allocations fs protected)"
  obtains f where "f \<in> set fs" "or_allocation_key (af_resource f) = Some (rd_allocation_key d)"
    "domain_of (rd_residue_class d) = PD_ledger" "rd_release d \<Longrightarrow> absence_proved f"
    "protected = [] \<Longrightarrow> rd_release d = absence_proved f"
proof -
  from assms obtain f where f: "f \<in> set fs" "release_decision_for protected f = Some d"
    by (auto simp: releasable_allocations_def List.map_filter_def)
  then show ?thesis
    by (intro that [of f]) (auto simp: release_decision_for_def reservation_class_domain split: option.splits if_splits)
qed

lemma reservation_findings_mem:
  "f \<in> set (reservation_findings ds released) \<longleftrightarrow> (\<exists>d \<in> set ds. af_resource f = reservation_resource d \<and>
     f = (if rd_allocation_key d \<in> rd_allocation_key ` set released
          then \<lparr>af_resource = reservation_resource d, af_outcome = TO_removed, af_probe_healthy = True\<rparr>
          else \<lparr>af_resource = reservation_resource d, af_outcome = TO_unproven, af_probe_healthy = False\<rparr>))"
  by (auto simp: reservation_findings_def)

lemma reservation_resource_class [simp]: "or_residue_class (reservation_resource d) = rd_residue_class d"
  by (simp add: reservation_resource_def split: prod.splits)

lemma zero_residue_clean_iff:
  "is_clean (make_zero_residue_proof fs expected protected ds released retained) \<longleftrightarrow>
     residue_verdict (fs @ reservation_findings ds released) (expected @ map af_resource (reservation_findings ds released)) protected = RV_clean"
  by (simp add: is_clean_def make_zero_residue_proof_def Let_def)

section \<open>A whole teardown\<close>

text \<open>The steps after the deletions, in the order their arguments impose: absence, the decisions, the
  releases, the proof.\<close>

definition teardown :: "owned_resource list \<Rightarrow> observed_infrastructure \<Rightarrow> supplemental_observation option \<Rightarrow> artifact_probe \<Rightarrow>
    remote_state_probe \<Rightarrow> protected_resource list \<Rightarrow> ledger \<Rightarrow> alloc_error + (zero_residue_proof \<times> release_lists \<times> ledger)" where
  "teardown expected ob extra artifacts remote protected l =
     (let fs = verify_absence expected ob extra artifacts remote; ds = releasable_allocations fs protected in
      bindE (release_proved_allocations l ds) (\<lambda>((released, retained, already), l').
        Inr (make_zero_residue_proof fs expected protected ds released retained, (released, retained, already), l')))"

lemma teardown_Inr:
  assumes "teardown expected ob extra artifacts remote protected l = Inr (proof, (released, retained, already), l')"
  defines "fs \<equiv> verify_absence expected ob extra artifacts remote"
  shows "release_run l (releasable_allocations fs protected) released retained already l'"
    and "proof = make_zero_residue_proof fs expected protected (releasable_allocations fs protected) released retained"
  using assms(1) unfolding teardown_def fs_def [symmetric]
  by (auto simp: Let_def bindE_Inr dest: release_proved_Inr)

lemma clean_resource_gone:
  assumes clean: "residue_verdict (verify_absence expected ob extra artifacts remote @ reservation_findings ds released)
      expected' protected = RV_clean"
    and ds: "\<forall>d \<in> set ds. domain_of (rd_residue_class d) = PD_ledger"
    and r: "r \<in> set expected'" "domain_of (or_residue_class r) \<noteq> PD_ledger"
  shows "resource_gone ob (supplement extra) artifacts remote r"
proof -
  obtain f where f: "finding_for (verify_absence expected ob extra artifacts remote @ reservation_findings ds released) r = Some f"
    "absence_proved f"
    using clean r(1) by (auto simp: residue_clean_iff)
  have key: "resource_sort_key (af_resource f) = resource_sort_key r" using finding_for_Some [OF f(1)] by simp
  then have "f \<notin> set (reservation_findings ds released)"
    using ds r(2) by (auto simp: reservation_findings_mem resource_sort_key_eq)
  with finding_for_Some [OF f(1)] obtain r' where r': "absence_of ob (supplement extra) artifacts remote r' = Some f"
    by (auto simp: verify_absence_mem)
  then have "resource_gone ob (supplement extra) artifacts remote r'" using f(2) absence_of_proved by blast
  then show ?thesis using resource_gone_identity key absence_of_resource [OF r'] by metis
qed

lemma releasable_ledger_classes:
  "\<forall>d \<in> set (releasable_allocations fs protected). domain_of (rd_residue_class d) = PD_ledger"
  by (blast elim: release_decision_forD)

lemma teardown_clean:
  assumes run: "teardown expected ob extra artifacts remote protected l = Inr (proof, (released, retained, already), l')"
    and clean: "is_clean proof" and dist: "distinct (dict_keys (lg_by_key l))"
  shows "protected = []" and "retained = []"
    and "r \<in> set expected \<Longrightarrow> domain_of (or_residue_class r) \<noteq> PD_ledger \<Longrightarrow> resource_gone ob (supplement extra) artifacts remote r"
    and "d \<in> set (releasable_allocations (verify_absence expected ob extra artifacts remote) protected) \<Longrightarrow>
      \<not> key_held l' (rd_allocation_key d)"
proof -
  define fs where "fs = verify_absence expected ob extra artifacts remote"
  define ds where "ds = releasable_allocations fs protected"
  note steps = teardown_Inr [OF run, folded fs_def, folded ds_def]
  have verdict: "residue_verdict (fs @ reservation_findings ds released)
      (expected @ map af_resource (reservation_findings ds released)) protected = RV_clean"
    using clean unfolding steps(2) zero_residue_clean_iff .
  then show protected: "protected = []" by (simp add: residue_clean_iff)
  show gone: "resource_gone ob (supplement extra) artifacts remote r"
    if "r \<in> set expected" "domain_of (or_residue_class r) \<noteq> PD_ledger" for r
    using clean_resource_gone [OF verdict [unfolded fs_def]] releasable_ledger_classes that by (auto simp: ds_def)
  have releases: "rd_release d" if d: "d \<in> set ds" for d
  proof -
    obtain f where f: "f \<in> set fs" "rd_release d = absence_proved f"
      using d protected unfolding ds_def by (auto elim: release_decision_forD)
    then obtain r where r: "r \<in> set expected" "absence_of ob (supplement extra) artifacts remote r = Some f"
      by (auto simp: fs_def verify_absence_mem)
    then show ?thesis using f(2) gone absence_of_proved absence_of_resource by metis
  qed
  show "retained = []" using release_run_retained [OF steps(1)] releases by (simp add: filter_empty_conv)
  show "d \<in> set (releasable_allocations (verify_absence expected ob extra artifacts remote) protected) \<Longrightarrow>
      \<not> key_held l' (rd_allocation_key d)"
    using release_run_frees [OF steps(1) dist] releases by (simp add: ds_def fs_def)
qed

lemma released_key:
  assumes run: "release_run l ds rel ret al l'" and dist: "distinct (dict_keys (lg_by_key l))"
    and d: "d \<in> set ds" "rd_release d" "key_held l (rd_allocation_key d)"
  shows "rd_allocation_key d \<in> rd_allocation_key ` set rel"
  using release_run_frees [OF run dist d(1,2)] release_run_ledger [OF run dist] d(3)
  by (auto simp: key_held_def split: if_splits)

lemma teardown_completes:
  assumes run: "teardown expected ob extra artifacts remote [] l = Inr (proof, (released, retained, already), l')"
    and dist: "distinct (dict_keys (lg_by_key l))" and "expected \<noteq> []"
    and gone: "\<forall>r \<in> set expected. resource_gone ob (supplement extra) artifacts remote r"
    and held: "\<forall>r \<in> set expected. \<forall>k. or_allocation_key r = Some k \<longrightarrow> key_held l k"
  shows "is_clean proof"
proof -
  define fs where "fs = verify_absence expected ob extra artifacts remote"
  define ds where "ds = releasable_allocations fs []"
  note steps = teardown_Inr [OF run, folded fs_def, folded ds_def]
  have proved: "absence_proved f \<and> af_resource f \<in> set expected" if "f \<in> set fs" for f
    using that gone by (auto simp: fs_def verify_absence_mem absence_of_proved dest: absence_of_resource)
  have released: "rd_allocation_key d \<in> rd_allocation_key ` set released" if d: "d \<in> set ds" for d
  proof -
    obtain f where "f \<in> set fs" "or_allocation_key (af_resource f) = Some (rd_allocation_key d)" "rd_release d = absence_proved f"
      using d unfolding ds_def by (auto elim: release_decision_forD)
    then show ?thesis using proved held released_key [OF steps(1) dist d] by blast
  qed
  have all_proved: "absence_proved f" if "f \<in> set (fs @ reservation_findings ds released)" for f
    using that proved released by (auto simp: reservation_findings_mem absence_proved_def)
  have answered: "\<exists>f \<in> set fs. af_resource f = r" if "r \<in> set expected" for r
  proof -
    have "domain_of (or_residue_class r) \<noteq> PD_ledger" using gone that by (auto simp: resource_gone_def)
    then obtain f where f: "absence_of ob (supplement extra) artifacts remote r = Some f" using absence_of_answers by blast
    then have "f \<in> set fs" using that by (auto simp: fs_def verify_absence_mem)
    then show ?thesis using absence_of_resource [OF f] by blast
  qed
  have "\<exists>f. finding_for (fs @ reservation_findings ds released) r = Some f \<and> absence_proved f"
    if r: "r \<in> set (expected @ map af_resource (reservation_findings ds released))" for r
  proof -
    obtain g where g: "g \<in> set (fs @ reservation_findings ds released)" "af_resource g = r"
      using r answered by fastforce
    obtain f where f: "finding_for (fs @ reservation_findings ds released) r = Some f"
      using finding_for_exists [OF g(1)] g(2) by auto
    then show ?thesis using all_proved finding_for_Some by blast
  qed
  then show ?thesis using \<open>expected \<noteq> []\<close> unfolding steps(2) zero_residue_clean_iff by (simp add: residue_clean_iff)
qed

text \<open>A run that released nothing although there was something to release is never clean.\<close>

lemma nothing_released_unclean:
  assumes "ds \<noteq> []"
  shows "\<not> is_clean (make_zero_residue_proof fs expected protected ds [] retained)"
proof
  assume "is_clean (make_zero_residue_proof fs expected protected ds [] retained)"
  then have clean: "\<forall>r \<in> set (map af_resource (reservation_findings ds [])).
      \<exists>f. finding_for (fs @ reservation_findings ds []) r = Some f \<and> absence_proved f"
    by (auto simp: zero_residue_clean_iff residue_clean_iff)
  obtain f where f: "f \<in> set (reservation_findings ds [])" using assms by (cases ds) (force simp: reservation_findings_mem)+
  obtain g where g: "map_of (rev (map (\<lambda>f. (resource_sort_key (af_resource f), f)) (reservation_findings ds []))) (resource_sort_key (af_resource f)) = Some g"
    using finding_for_exists [OF f refl] by (auto simp: finding_for_def map_of_dict_of)
  then have "finding_for (fs @ reservation_findings ds []) (af_resource f) = Some g"
    by (simp add: finding_for_def map_of_dict_of)
  moreover have "g \<in> set (reservation_findings ds [])" using g by (auto dest!: map_of_SomeD)
  ultimately show False using clean f by (force simp: reservation_findings_mem absence_proved_def)
qed

end
