(* ===== verification/Proxmox_Manifest.thy ===== *)
theory Proxmox_Manifest
  imports Proxmox_Model
begin

text \<open>
  The desired state as the manifest payload and back
  (\<open>apps/api/secp_api/range_providers/proxmox_manifest.py\<close>). The writer orders every collection; the
  reader rebuilds the specification objects, whose \<open>__post_init__\<close> checks run again.
  \<open>Manifest_conversion\<close> stands for the \<open>TypeError\<close>, \<open>ValueError\<close> or \<open>AttributeError\<close> of a conversion,
  \<open>Manifest_key\<close> for a \<open>KeyError\<close>. A field the reader passes on unconverted keeps its declared type in
  the model: a payload that holds another JSON type there is \<open>Manifest_untyped\<close>, outside the model.
\<close>

datatype manifest_error = Serialization_error | Manifest_key | Manifest_conversion | Manifest_model model_error
  | Manifest_untyped

section \<open>Values of the vocabulary\<close>

fun guest_kind_value :: "guest_kind_t \<Rightarrow> string" where
  "guest_kind_value GK_qemu = ''qemu''"
| "guest_kind_value GK_lxc = ''lxc''"

fun clone_strategy_value :: "clone_strategy \<Rightarrow> string" where
  "clone_strategy_value CL_full = ''full''"
| "clone_strategy_value CL_linked = ''linked''"

fun firewall_verdict_value :: "firewall_verdict \<Rightarrow> string" where
  "firewall_verdict_value FV_accept = ''ACCEPT''"
| "firewall_verdict_value FV_drop = ''DROP''"
| "firewall_verdict_value FV_reject = ''REJECT''"

fun firewall_direction_value :: "firewall_direction \<Rightarrow> string" where
  "firewall_direction_value FD_inbound = ''IN''"
| "firewall_direction_value FD_outbound = ''OUT''"

definition RANGE_RESOURCE_KINDS :: "string list" where
  "RANGE_RESOURCE_KINDS = [''network'', ''container'', ''virtual_machine'', ''lxc_container'', ''sdn_zone'', ''vnet'',
     ''subnet'', ''firewall_group'', ''ip_set'', ''egress_gateway'']"

text \<open>\<open>SomeEnum(value)\<close>: the member with that value.\<close>

definition enum_of :: "('a \<Rightarrow> string) \<Rightarrow> 'a list \<Rightarrow> json \<Rightarrow> 'a option" where
  "enum_of f members v = (case v of JStr s \<Rightarrow> find (\<lambda>m. f m = s) members | _ \<Rightarrow> None)"

section \<open>Reading fields\<close>

text \<open>\<open>payload[k]\<close> and \<open>payload.get(k, d)\<close>.\<close>

definition jget :: "string \<Rightarrow> json \<Rightarrow> manifest_error + json" where
  "jget k v = (case v of JObj d \<Rightarrow> (case map_of d k of None \<Rightarrow> Inl Manifest_key | Some x \<Rightarrow> Inr x) | _ \<Rightarrow> Inl Manifest_conversion)"

definition jget_or :: "string \<Rightarrow> json \<Rightarrow> json \<Rightarrow> manifest_error + json" where
  "jget_or k dflt v = (case v of JObj d \<Rightarrow> Inr (case map_of d k of None \<Rightarrow> dflt | Some x \<Rightarrow> x) | _ \<Rightarrow> Inl Manifest_conversion)"

definition converted :: "'a option \<Rightarrow> manifest_error + 'a" where
  "converted v = (case v of None \<Rightarrow> Inl Manifest_conversion | Some x \<Rightarrow> Inr x)"

definition str_at :: "string \<Rightarrow> json \<Rightarrow> manifest_error + string" where
  "str_at k v = bindE (jget k v) (\<lambda>x. Inr (json_str x))"

definition int_at :: "string \<Rightarrow> json \<Rightarrow> manifest_error + int" where
  "int_at k v = bindE (jget k v) (\<lambda>x. converted (json_int x))"

definition bool_at :: "string \<Rightarrow> bool \<Rightarrow> json \<Rightarrow> manifest_error + bool" where
  "bool_at k dflt v = bindE (jget_or k (JBool dflt) v) (\<lambda>x. Inr (json_truthy x))"

definition enum_at :: "('a \<Rightarrow> string) \<Rightarrow> 'a list \<Rightarrow> string \<Rightarrow> json \<Rightarrow> manifest_error + 'a" where
  "enum_at f members k v = bindE (jget k v) (\<lambda>x. converted (enum_of f members x))"

text \<open>Fields passed on unconverted: an optional text, an optional number, a list of texts.\<close>

definition opt_text :: "json \<Rightarrow> manifest_error + string option" where
  "opt_text v = (case v of JNull \<Rightarrow> Inr None | JStr s \<Rightarrow> Inr (Some s) | _ \<Rightarrow> Inl Manifest_untyped)"

definition opt_number :: "json \<Rightarrow> manifest_error + int option" where
  "opt_number v = (case v of JNull \<Rightarrow> Inr None | JInt i \<Rightarrow> Inr (Some i) | _ \<Rightarrow> Inl Manifest_untyped)"

definition text_value :: "json \<Rightarrow> manifest_error + string" where
  "text_value v = (case v of JStr s \<Rightarrow> Inr s | _ \<Rightarrow> Inl Manifest_untyped)"

definition texts :: "json \<Rightarrow> manifest_error + string list" where
  "texts v = (case v of JArr xs \<Rightarrow> mapE text_value xs
     | JObj d \<Rightarrow> Inr (map fst d) | JStr s \<Rightarrow> Inr (map (\<lambda>c. [c]) s) | _ \<Rightarrow> Inl Manifest_conversion)"

definition text_dict :: "json \<Rightarrow> manifest_error + (string, string) dict" where
  "text_dict v = (case v of JObj d \<Rightarrow> mapE (\<lambda>(k, x). bindE (text_value x) (\<lambda>s. Inr (k, s))) d
     | JStr [] \<Rightarrow> Inr [] | JArr _ \<Rightarrow> Inl Manifest_untyped | _ \<Rightarrow> Inl Manifest_conversion)"

text \<open>What a loop over a field sees: the members of a non-empty dict or text are texts, which have no
  fields of their own.\<close>

definition items_of :: "json \<Rightarrow> manifest_error + json list" where
  "items_of v = (case v of JArr xs \<Rightarrow> Inr xs | JObj [] \<Rightarrow> Inr [] | JStr [] \<Rightarrow> Inr [] | _ \<Rightarrow> Inl Manifest_conversion)"

definition each_at :: "(json \<Rightarrow> manifest_error + 'a) \<Rightarrow> string \<Rightarrow> json \<Rightarrow> manifest_error + 'a list" where
  "each_at f k v = bindE (jget_or k (JArr []) v) (\<lambda>x. bindE (items_of x) (mapE f))"

text \<open>\<open>tuple(v)\<close> where the members are passed on.\<close>

definition members_of :: "json \<Rightarrow> manifest_error + json list" where
  "members_of v = (case v of JArr xs \<Rightarrow> Inr xs | JObj d \<Rightarrow> Inr (map (\<lambda>(k, _). JStr k) d)
     | JStr s \<Rightarrow> Inr (map (\<lambda>c. JStr [c]) s) | _ \<Rightarrow> Inl Manifest_conversion)"

text \<open>A constructed object exists only when its checks pass.\<close>

definition checked :: "('a \<Rightarrow> model_error + unit) \<Rightarrow> 'a \<Rightarrow> manifest_error + 'a" where
  "checked post_init x = (case post_init x of Inl e \<Rightarrow> Inl (Manifest_model e) | Inr _ \<Rightarrow> Inr x)"

section \<open>Ownership\<close>

definition opt_str :: "string option \<Rightarrow> json" where
  "opt_str v = (case v of None \<Rightarrow> JNull | Some s \<Rightarrow> JStr s)"

definition str_dict :: "(string, string) dict \<Rightarrow> json" where
  "str_dict d = JObj (map (\<lambda>(k, v). (k, JStr v)) d)"

definition ownership_payload :: "ownership \<Rightarrow> json" where
  "ownership_payload ow = JObj [
     (''organization_id'', JStr (ow_organization_id ow)), (''target_id'', JStr (ow_target_id ow)),
     (''range_id'', JStr (ow_range_id ow)), (''generation'', JInt (ow_generation ow)),
     (''operation_generation'', JInt (ow_operation_generation ow)), (''resource_kind'', JStr (ow_resource_kind ow)),
     (''team_ref'', opt_str (ow_team_ref ow)), (''tags'', str_dict (as_tags ow))]"

definition ownership_fields :: "json \<Rightarrow> manifest_error + ownership" where
  "ownership_fields payload =
     bindE (str_at ''organization_id'' payload) (\<lambda>org.
     bindE (str_at ''target_id'' payload) (\<lambda>target.
     bindE (str_at ''range_id'' payload) (\<lambda>rng.
     bindE (int_at ''generation'' payload) (\<lambda>generation.
     bindE (int_at ''operation_generation'' payload) (\<lambda>operation_generation.
     bindE (enum_at id RANGE_RESOURCE_KINDS ''resource_kind'' payload) (\<lambda>kind.
     bindE (jget ''team_ref'' payload) (\<lambda>team. bindE (opt_text team) (\<lambda>team_ref.
       let ow = \<lparr>ow_organization_id = org, ow_target_id = target, ow_range_id = rng, ow_generation = generation,
         ow_operation_generation = operation_generation, ow_resource_kind = kind, ow_team_ref = team_ref\<rparr> in
       checked (\<lambda>ow. require (ownership_valid ow)) ow))))))))"

definition ownership_from :: "json \<Rightarrow> manifest_error + ownership" where
  "ownership_from payload = (case ownership_fields payload of
      Inr ow \<Rightarrow> Inr ow | Inl Manifest_untyped \<Rightarrow> Inl Manifest_untyped | Inl _ \<Rightarrow> Inl Serialization_error)"

definition ownership_at :: "string \<Rightarrow> json \<Rightarrow> manifest_error + ownership" where
  "ownership_at k v = bindE (jget k v) ownership_from"

section \<open>Firewall rules\<close>

definition rule_payload :: "firewall_rule_spec \<Rightarrow> json" where
  "rule_payload r = JObj [
     (''position'', JInt (fr_position r)), (''direction'', JStr (firewall_direction_value (fr_direction r))),
     (''verdict'', JStr (firewall_verdict_value (fr_verdict r))), (''comment'', JStr (fr_comment r)),
     (''source'', opt_str (fr_source r)), (''dest'', opt_str (fr_dest r)), (''proto'', opt_str (fr_proto r)),
     (''dport'', opt_str (fr_dport r)), (''enabled'', JBool (fr_enabled r))]"

definition opt_text_at :: "string \<Rightarrow> json \<Rightarrow> manifest_error + string option" where
  "opt_text_at k v = bindE (jget_or k JNull v) opt_text"

definition rule_from :: "json \<Rightarrow> manifest_error + firewall_rule_spec" where
  "rule_from payload =
     bindE (int_at ''position'' payload) (\<lambda>pos.
     bindE (enum_at firewall_direction_value [FD_inbound, FD_outbound] ''direction'' payload) (\<lambda>direction.
     bindE (enum_at firewall_verdict_value [FV_accept, FV_drop, FV_reject] ''verdict'' payload) (\<lambda>v.
     bindE (str_at ''comment'' payload) (\<lambda>comment.
     bindE (opt_text_at ''source'' payload) (\<lambda>source.
     bindE (opt_text_at ''dest'' payload) (\<lambda>dest.
     bindE (opt_text_at ''proto'' payload) (\<lambda>proto.
     bindE (opt_text_at ''dport'' payload) (\<lambda>dport.
     bindE (bool_at ''enabled'' True payload) (\<lambda>enabled.
       checked rule_post_init \<lparr>fr_position = pos, fr_direction = direction, fr_verdict = v, fr_comment = comment,
         fr_source = source, fr_dest = dest, fr_proto = proto, fr_dport = dport, fr_enabled = enabled\<rparr>)))))))))"

section \<open>Guests\<close>

definition disk_payload :: "disk_spec \<Rightarrow> json" where
  "disk_payload d = JObj [(''slot'', JStr (dk_slot d)), (''size_gb'', JInt (dk_size_gb d)),
     (''storage_id'', JStr (dk_storage_id d)), (''discard'', JBool (dk_discard d)),
     (''ssd_emulation'', JBool (dk_ssd_emulation d))]"

definition disk_from :: "json \<Rightarrow> manifest_error + disk_spec" where
  "disk_from d =
     bindE (str_at ''slot'' d) (\<lambda>slot. bindE (int_at ''size_gb'' d) (\<lambda>size. bindE (str_at ''storage_id'' d) (\<lambda>storage.
     bindE (bool_at ''discard'' True d) (\<lambda>discard. bindE (bool_at ''ssd_emulation'' False d) (\<lambda>ssd.
       checked disk_post_init \<lparr>dk_slot = slot, dk_size_gb = size, dk_storage_id = storage, dk_discard = discard,
         dk_ssd_emulation = ssd\<rparr>)))))"

definition nic_payload :: "nic_spec \<Rightarrow> json" where
  "nic_payload n = JObj [(''index'', JInt (nc_index n)), (''vnet_name'', JStr (nc_vnet_name n)),
     (''mac_address'', JStr (nc_mac_address n)), (''model'', JStr (nc_model n)), (''firewall'', JBool (nc_firewall n))]"

definition nic_from :: "json \<Rightarrow> manifest_error + nic_spec" where
  "nic_from n =
     bindE (int_at ''index'' n) (\<lambda>index. bindE (str_at ''vnet_name'' n) (\<lambda>vnet. bindE (str_at ''mac_address'' n) (\<lambda>mac.
     bindE (jget_or ''model'' (JStr ''virtio'') n) (\<lambda>model. bindE (bool_at ''firewall'' True n) (\<lambda>firewall.
       checked nic_post_init \<lparr>nc_index = index, nc_vnet_name = vnet, nc_mac_address = mac, nc_model = json_str model,
         nc_firewall = firewall\<rparr>)))))"

definition cloud_init_payload :: "cloud_init_spec option \<Rightarrow> json" where
  "cloud_init_payload c = (case c of None \<Rightarrow> JNull | Some ci \<Rightarrow> JObj [(''user'', JStr (ci_user ci)),
     (''ssh_authorized_keys'', JArr (map JStr (ci_ssh_authorized_keys ci))), (''nameservers'', JArr (map JStr (ci_nameservers ci))),
     (''search_domain'', opt_str (ci_search_domain ci)), (''gateway'', opt_str (ci_gateway ci))])"

definition cloud_init_from :: "json \<Rightarrow> manifest_error + cloud_init_spec option" where
  "cloud_init_from v = (if v = JNull then Inr None else
     bindE (str_at ''user'' v) (\<lambda>user.
     bindE (jget_or ''ssh_authorized_keys'' (JArr []) v) (\<lambda>ks. bindE (texts ks) (\<lambda>keys.
     bindE (jget_or ''nameservers'' (JArr []) v) (\<lambda>ns. bindE (texts ns) (\<lambda>nameservers.
     bindE (opt_text_at ''search_domain'' v) (\<lambda>domain. bindE (opt_text_at ''gateway'' v) (\<lambda>gateway.
     bindE (checked cloud_init_post_init \<lparr>ci_user = user, ci_ssh_authorized_keys = keys, ci_nameservers = nameservers,
       ci_search_domain = domain, ci_gateway = gateway\<rparr>) (\<lambda>ci. Inr (Some ci))))))))))"

definition address_payload :: "guest_address \<Rightarrow> json" where
  "address_payload a = JObj [(''published_address'', JStr (ga_published_address a)), (''probe_address'', opt_str (ga_probe_address a))]"

definition address_from :: "json \<Rightarrow> manifest_error + guest_address" where
  "address_from v = bindE (str_at ''published_address'' v) (\<lambda>published. bindE (opt_text_at ''probe_address'' v) (\<lambda>probe.
     checked guest_address_post_init \<lparr>ga_published_address = published, ga_probe_address = probe\<rparr>))"

definition guest_payload :: "guest_spec \<Rightarrow> json" where
  "guest_payload g = JObj [
     (''guest_ref'', JStr (gs_guest_ref g)), (''name'', JStr (gs_name g)), (''kind'', JStr (guest_kind_value (gs_kind g))),
     (''vmid'', JInt (gs_vmid g)), (''node_name'', JStr (gs_node_name g)), (''template_ref'', JStr (gs_template_ref g)),
     (''clone_strategy'', JStr (clone_strategy_value (gs_clone_strategy g))), (''cpu_cores'', JInt (gs_cpu_cores g)),
     (''memory_mb'', JInt (gs_memory_mb g)), (''start_on_deploy'', JBool (gs_start_on_deploy g)),
     (''readiness_timeout_seconds'', JInt (gs_readiness_timeout_seconds g)),
     (''disks'', JArr (map disk_payload (sort_key dk_slot (gs_disks g)))),
     (''nics'', JArr (map nic_payload (sort_key nc_index (gs_nics g)))),
     (''address'', address_payload (gs_address g)), (''cloud_init'', cloud_init_payload (gs_cloud_init g)),
     (''ownership'', ownership_payload (gs_ownership g))]"

definition guest_from :: "json \<Rightarrow> manifest_error + guest_spec" where
  "guest_from p =
     bindE (jget_or ''cloud_init'' JNull p) (\<lambda>cloud.
     bindE (str_at ''guest_ref'' p) (\<lambda>ref. bindE (str_at ''name'' p) (\<lambda>name.
     bindE (enum_at guest_kind_value [GK_qemu, GK_lxc] ''kind'' p) (\<lambda>kind.
     bindE (int_at ''vmid'' p) (\<lambda>vmid. bindE (str_at ''node_name'' p) (\<lambda>node. bindE (str_at ''template_ref'' p) (\<lambda>template.
     bindE (enum_at clone_strategy_value [CL_full, CL_linked] ''clone_strategy'' p) (\<lambda>strategy.
     bindE (int_at ''cpu_cores'' p) (\<lambda>cores. bindE (int_at ''memory_mb'' p) (\<lambda>memory.
     bindE (each_at disk_from ''disks'' p) (\<lambda>disks. bindE (each_at nic_from ''nics'' p) (\<lambda>nics.
     bindE (jget ''address'' p) (\<lambda>a. bindE (address_from a) (\<lambda>addr.
     bindE (ownership_at ''ownership'' p) (\<lambda>ow. bindE (cloud_init_from cloud) (\<lambda>ci.
     bindE (bool_at ''start_on_deploy'' True p) (\<lambda>start.
     bindE (jget_or ''readiness_timeout_seconds'' (JInt 300) p) (\<lambda>t. bindE (converted (json_int t)) (\<lambda>timeout.
       checked guest_post_init \<lparr>gs_guest_ref = ref, gs_name = name, gs_kind = kind, gs_vmid = vmid, gs_node_name = node,
         gs_template_ref = template, gs_clone_strategy = strategy, gs_cpu_cores = cores, gs_memory_mb = memory,
         gs_disks = disks, gs_nics = nics, gs_address = addr, gs_ownership = ow, gs_cloud_init = ci,
         gs_start_on_deploy = start, gs_readiness_timeout_seconds = timeout\<rparr>)))))))))))))))))))"

section \<open>Network objects\<close>

definition target_payload :: "target_identity \<Rightarrow> json" where
  "target_payload t = JObj [(''target_id'', JStr (ti_target_id t)), (''cluster_name'', JStr (ti_cluster_name t)),
     (''cluster_fingerprint'', JStr (ti_cluster_fingerprint t)),
     (''management_cidrs'', JArr (map JStr (sort (ti_management_cidrs t)))),
     (''management_bridges'', JArr (map JStr (sort (ti_management_bridges t))))]"

definition target_from :: "json \<Rightarrow> manifest_error + target_identity" where
  "target_from p =
     bindE (str_at ''target_id'' p) (\<lambda>tid. bindE (str_at ''cluster_name'' p) (\<lambda>name. bindE (str_at ''cluster_fingerprint'' p) (\<lambda>fp.
     bindE (jget ''management_cidrs'' p) (\<lambda>cs. bindE (texts cs) (\<lambda>cidrs.
     bindE (jget_or ''management_bridges'' (JArr []) p) (\<lambda>bs. bindE (texts bs) (\<lambda>bridges.
       checked target_identity_post_init \<lparr>ti_target_id = tid, ti_cluster_name = name, ti_cluster_fingerprint = fp,
         ti_management_cidrs = cidrs, ti_management_bridges = bridges\<rparr>)))))))"

definition zone_payload :: "sdn_zone_spec \<Rightarrow> json" where
  "zone_payload z = JObj [(''name'', JStr (zs_name z)), (''bridge'', JStr (zs_bridge z)),
     (''nodes'', JArr (map JStr (sort (zs_nodes z)))), (''mtu'', case zs_mtu z of None \<Rightarrow> JNull | Some m \<Rightarrow> JInt m),
     (''ownership'', ownership_payload (zs_ownership z))]"

definition zone_from :: "json \<Rightarrow> manifest_error + sdn_zone_spec" where
  "zone_from p =
     bindE (str_at ''name'' p) (\<lambda>name. bindE (str_at ''bridge'' p) (\<lambda>bridge.
     bindE (jget ''nodes'' p) (\<lambda>ns. bindE (texts ns) (\<lambda>nodes. bindE (ownership_at ''ownership'' p) (\<lambda>ow.
     bindE (jget_or ''mtu'' JNull p) (\<lambda>m. bindE (opt_number m) (\<lambda>mtu.
       checked sdn_zone_post_init \<lparr>zs_name = name, zs_bridge = bridge, zs_nodes = nodes, zs_ownership = ow, zs_mtu = mtu\<rparr>)))))))"

definition subnet_payload :: "subnet_spec \<Rightarrow> json" where
  "subnet_payload s = JObj [(''cidr'', JStr (sb_cidr s)), (''gateway'', JStr (sb_gateway s)), (''routed'', JBool (sb_routed s))]"

definition subnet_from :: "json \<Rightarrow> manifest_error + subnet_spec" where
  "subnet_from p = bindE (str_at ''cidr'' p) (\<lambda>cidr. bindE (str_at ''gateway'' p) (\<lambda>gateway. bindE (bool_at ''routed'' False p) (\<lambda>routed.
     checked subnet_post_init \<lparr>sb_cidr = cidr, sb_gateway = gateway, sb_routed = routed\<rparr>)))"

definition vnet_payload :: "vnet_spec \<Rightarrow> json" where
  "vnet_payload v = JObj [(''name'', JStr (vn_name v)), (''zone_name'', JStr (vn_zone_name v)), (''vlan_tag'', JInt (vn_vlan_tag v)),
     (''role'', JStr (segment_role_value (vn_role v))), (''alias'', JStr (vn_alias v)),
     (''subnet'', subnet_payload (vn_subnet v)), (''ownership'', ownership_payload (vn_ownership v))]"

definition str_at_or :: "string \<Rightarrow> string \<Rightarrow> json \<Rightarrow> manifest_error + string" where
  "str_at_or k dflt v = bindE (jget_or k (JStr dflt) v) (\<lambda>x. Inr (json_str x))"

definition vnet_from :: "json \<Rightarrow> manifest_error + vnet_spec" where
  "vnet_from p =
     bindE (str_at ''name'' p) (\<lambda>name. bindE (str_at ''zone_name'' p) (\<lambda>zone. bindE (int_at ''vlan_tag'' p) (\<lambda>tag.
     bindE (jget ''subnet'' p) (\<lambda>s. bindE (subnet_from s) (\<lambda>subnet.
     bindE (enum_at segment_role_value [SR_scoring, SR_attacker, SR_vulnerable, SR_sensor] ''role'' p) (\<lambda>role.
     bindE (ownership_at ''ownership'' p) (\<lambda>ow. bindE (str_at_or ''alias'' '''' p) (\<lambda>alias.
       checked vnet_post_init \<lparr>vn_name = name, vn_zone_name = zone, vn_vlan_tag = tag, vn_subnet = subnet, vn_role = role,
         vn_ownership = ow, vn_alias = alias\<rparr>))))))))"

definition ip_set_payload :: "ip_set_spec \<Rightarrow> json" where
  "ip_set_payload s = JObj [(''name'', JStr (is_name s)), (''cidrs'', JArr (map JStr (sort (is_cidrs s)))),
     (''comment'', JStr (is_comment s)), (''ownership'', ownership_payload (is_ownership s))]"

definition ip_set_from :: "json \<Rightarrow> manifest_error + ip_set_spec" where
  "ip_set_from p =
     bindE (str_at ''name'' p) (\<lambda>name. bindE (jget ''cidrs'' p) (\<lambda>cs. bindE (texts cs) (\<lambda>cidrs.
     bindE (ownership_at ''ownership'' p) (\<lambda>ow. bindE (str_at_or ''comment'' '''' p) (\<lambda>comment.
       checked ip_set_post_init \<lparr>is_name = name, is_cidrs = cidrs, is_ownership = ow, is_comment = comment\<rparr>)))))"

definition security_group_payload :: "security_group_spec \<Rightarrow> json" where
  "security_group_payload g = JObj [(''name'', JStr (sg_name g)), (''comment'', JStr (sg_comment g)),
     (''ownership'', ownership_payload (sg_ownership g)), (''rules'', JArr (map rule_payload (ordered_rules g)))]"

definition security_group_from :: "json \<Rightarrow> manifest_error + security_group_spec" where
  "security_group_from p =
     bindE (str_at ''name'' p) (\<lambda>name. bindE (each_at rule_from ''rules'' p) (\<lambda>rules.
     bindE (ownership_at ''ownership'' p) (\<lambda>ow. bindE (str_at_or ''comment'' '''' p) (\<lambda>comment.
       checked security_group_post_init \<lparr>sg_name = name, sg_rules = rules, sg_ownership = ow, sg_comment = comment\<rparr>))))"

definition egress_payload :: "egress_gateway_spec option \<Rightarrow> json" where
  "egress_payload e = (case e of None \<Rightarrow> JNull | Some e \<Rightarrow> JObj [(''vnet_name'', JStr (eg_vnet_name e)),
     (''allowed_destinations'', JArr (map JStr (sort (eg_allowed_destinations e)))),
     (''allowed_ports'', JArr (map JStr (sort (eg_allowed_ports e)))),
     (''approval_reference'', JStr (eg_approval_reference e)), (''ownership'', ownership_payload (eg_ownership e))])"

definition egress_from :: "json \<Rightarrow> manifest_error + egress_gateway_spec option" where
  "egress_from p = (if p = JNull then Inr None else
     bindE (str_at ''vnet_name'' p) (\<lambda>vnet. bindE (jget ''allowed_destinations'' p) (\<lambda>ds. bindE (texts ds) (\<lambda>dests.
     bindE (jget ''allowed_ports'' p) (\<lambda>ps. bindE (texts ps) (\<lambda>ports. bindE (ownership_at ''ownership'' p) (\<lambda>ow.
     bindE (str_at ''approval_reference'' p) (\<lambda>approval.
     bindE (checked egress_post_init \<lparr>eg_vnet_name = vnet, eg_allowed_destinations = dests, eg_allowed_ports = ports,
       eg_ownership = ow, eg_approval_reference = approval\<rparr>) (\<lambda>e. Inr (Some e))))))))))"

section \<open>The whole payload\<close>

definition DESIRED_STATE_VERSION :: int where "DESIRED_STATE_VERSION = 1"
definition MANIFEST_KEY :: string where "MANIFEST_KEY = ''proxmox_desired_state''"

definition network_payload :: "network_plan \<Rightarrow> json" where
  "network_payload n = JObj [
     (''zone'', zone_payload (np_zone n)),
     (''vnets'', JArr (map vnet_payload (sort_key vn_name (np_vnets n)))),
     (''ip_sets'', JArr (map ip_set_payload (sort_key is_name (np_ip_sets n)))),
     (''security_groups'', JArr (map security_group_payload (sort_key sg_name (np_security_groups n)))),
     (''vnet_security_group'', str_dict (sort_key fst (np_vnet_security_group n))),
     (''egress'', egress_payload (np_egress n))]"

definition to_manifest_payload :: "compiled_topology \<Rightarrow> ledger option \<Rightarrow> (string, json) dict" where
  "to_manifest_payload t l = [
     (''desired_state_version'', JInt DESIRED_STATE_VERSION), (''target'', target_payload (ct_target t)),
     (''ownership'', ownership_payload (ct_ownership t)), (''network'', network_payload (ct_network t)),
     (''guests'', JArr (map guest_payload (sort_key gs_guest_ref (ct_guests t)))),
     (''allocations'', JArr (case l of None \<Rightarrow> ct_allocations t | Some l \<Rightarrow> map allocation_as_dict (ledger_all l)))] @
     (case l of None \<Rightarrow> [] | Some l \<Rightarrow> [(''allocation_ledger'', to_manifest l)])"

definition network_from :: "json \<Rightarrow> sdn_zone_spec \<Rightarrow> manifest_error + network_plan" where
  "network_from p zone =
     bindE (each_at vnet_from ''vnets'' p) (\<lambda>vnets. bindE (each_at ip_set_from ''ip_sets'' p) (\<lambda>ip_sets.
     bindE (each_at security_group_from ''security_groups'' p) (\<lambda>groups.
     bindE (jget_or ''egress'' JNull p) (\<lambda>e. bindE (egress_from e) (\<lambda>egress.
     bindE (jget_or ''vnet_security_group'' (JObj []) p) (\<lambda>m. bindE (text_dict m) (\<lambda>attached.
       Inr \<lparr>np_zone = zone, np_vnets = vnets, np_security_groups = groups, np_ip_sets = ip_sets,
         np_vnet_security_group = attached, np_egress = egress\<rparr>)))))))"

text \<open>The three lookups of the first block turn a \<open>KeyError\<close> into a serialization error.\<close>

definition jget_required :: "string \<Rightarrow> json \<Rightarrow> manifest_error + json" where
  "jget_required k v = (case jget k v of Inl Manifest_key \<Rightarrow> Inl Serialization_error | r \<Rightarrow> r)"

definition from_manifest_payload :: "json \<Rightarrow> manifest_error + compiled_topology" where
  "from_manifest_payload payload = (case payload of
      JObj d \<Rightarrow>
        if map_of d ''desired_state_version'' \<noteq> Some (JInt DESIRED_STATE_VERSION) \<and>
           map_of d ''desired_state_version'' \<noteq> Some (JBool True) then Inl Serialization_error
        else
          bindE (jget_required ''target'' payload) (\<lambda>tp. bindE (jget_required ''network'' payload) (\<lambda>np.
          bindE (jget_required ''zone'' np) (\<lambda>zp.
          bindE (target_from tp) (\<lambda>target. bindE (zone_from zp) (\<lambda>zone. bindE (network_from np zone) (\<lambda>network.
          bindE (ownership_at ''ownership'' payload) (\<lambda>ow. bindE (each_at guest_from ''guests'' payload) (\<lambda>guests.
          bindE (jget_or ''allocations'' (JArr []) payload) (\<lambda>a. bindE (members_of a) (\<lambda>allocations.
            Inr \<lparr>ct_target = target, ct_ownership = ow, ct_network = network, ct_guests = guests,
              ct_allocations = allocations\<rparr>))))))))))
    | _ \<Rightarrow> Inl Serialization_error)"

definition attach_to_manifest :: "(string, json) dict \<Rightarrow> compiled_topology \<Rightarrow> ledger \<Rightarrow> (string, json) dict" where
  "attach_to_manifest manifest t l = dict_set MANIFEST_KEY (JObj (to_manifest_payload t (Some l))) manifest"

text \<open>\<open>with_operation_generation\<close>. \<open>replace\<close> runs the checks of the class again; only the ownership
  check can fail on objects that existed before, and it depends on the generation alone.\<close>

definition restamped :: "int \<Rightarrow> ownership \<Rightarrow> ownership" where
  "restamped g ow = ow\<lparr>ow_operation_generation := g\<rparr>"

definition with_operation_generation :: "compiled_topology \<Rightarrow> int \<Rightarrow> model_error + compiled_topology" where
  "with_operation_generation t g = bindE (require (ownership_valid (restamped g (ct_ownership t)))) (\<lambda>_. let n = ct_network t in
     Inr (t\<lparr>ct_ownership := restamped g (ct_ownership t),
       ct_network := n\<lparr>np_zone := (np_zone n)\<lparr>zs_ownership := restamped g (zs_ownership (np_zone n))\<rparr>,
         np_vnets := map (\<lambda>v. v\<lparr>vn_ownership := restamped g (vn_ownership v)\<rparr>) (np_vnets n),
         np_ip_sets := map (\<lambda>i. i\<lparr>is_ownership := restamped g (is_ownership i)\<rparr>) (np_ip_sets n),
         np_security_groups := map (\<lambda>s. s\<lparr>sg_ownership := restamped g (sg_ownership s)\<rparr>) (np_security_groups n),
         np_egress := map_option (\<lambda>e. e\<lparr>eg_ownership := restamped g (eg_ownership e)\<rparr>) (np_egress n)\<rparr>,
       ct_guests := map (\<lambda>x. x\<lparr>gs_ownership := restamped g (gs_ownership x)\<rparr>) (ct_guests t)\<rparr>))"

end
