(* ===== verification/Proxmox_Roundtrip.thy ===== *)
theory Proxmox_Roundtrip
  imports Proxmox_Manifest
begin

text \<open>
  Reading back a manifest payload. Every reader undoes its writer on an object that passes its own
  checks, up to the order the writer chose: what comes back is the canonically ordered topology, and
  writing that again gives the same payload.
\<close>

section \<open>Fields\<close>

named_theorems manifest_simps \<open>evaluation of the field readers\<close>

lemma jget_JObj [manifest_simps]:
  "jget k (JObj d) = (case map_of d k of None \<Rightarrow> Inl Manifest_key | Some x \<Rightarrow> Inr x)"
  "jget_or k dflt (JObj d) = Inr (case map_of d k of None \<Rightarrow> dflt | Some x \<Rightarrow> x)"
  by (simp_all add: jget_def jget_or_def)

lemma json_conversions [manifest_simps]:
  "json_str (JStr s) = s" "json_int (JInt i) = Some i" "converted (Some x) = Inr x"
  by (simp_all add: json_str_def json_int_def converted_def)

lemma opt_text_opt_str [manifest_simps]: "opt_text (opt_str v) = Inr v"
  by (simp add: opt_text_def opt_str_def split: option.splits)

lemma mapE_map: "(\<And>x. x \<in> set xs \<Longrightarrow> f (p x) = Inr (c x)) \<Longrightarrow> mapE f (map p xs) = Inr (map c xs)"
  by (induction xs) simp_all

lemma texts_JStr [manifest_simps]: "texts (JArr (map JStr xs)) = Inr xs"
  using mapE_map [of xs text_value JStr id] by (simp add: texts_def text_value_def)

lemma text_dict_str_dict [manifest_simps]: "text_dict (str_dict d) = Inr d"
  using mapE_map [of d "\<lambda>(k, x). bindE (text_value x) (\<lambda>s. Inr (k, s))" "\<lambda>(k, v). (k, JStr v)" id]
  by (simp add: text_dict_def str_dict_def text_value_def split_beta)

lemma enum_of_members [manifest_simps]:
  "enum_of segment_role_value [SR_scoring, SR_attacker, SR_vulnerable, SR_sensor] (JStr (segment_role_value r)) = Some r"
  "enum_of guest_kind_value [GK_qemu, GK_lxc] (JStr (guest_kind_value k)) = Some k"
  "enum_of clone_strategy_value [CL_full, CL_linked] (JStr (clone_strategy_value c)) = Some c"
  "enum_of firewall_verdict_value [FV_accept, FV_drop, FV_reject] (JStr (firewall_verdict_value v)) = Some v"
  "enum_of firewall_direction_value [FD_inbound, FD_outbound] (JStr (firewall_direction_value d)) = Some d"
  by (cases r; simp add: enum_of_def; fail | cases k; simp add: enum_of_def; fail | cases c; simp add: enum_of_def; fail
    | cases v; simp add: enum_of_def; fail | cases d; simp add: enum_of_def; fail)+

lemma find_equal: "s \<in> set xs \<Longrightarrow> find (\<lambda>m. m = s) xs = Some s"
  by (induction xs) auto

lemma enum_of_kind [manifest_simps]:
  "k \<in> set RANGE_RESOURCE_KINDS \<Longrightarrow> enum_of id RANGE_RESOURCE_KINDS (JStr k) = Some k"
  by (simp add: enum_of_def find_equal)

lemma checked_ok [manifest_simps]: "post_init x = Inr () \<Longrightarrow> checked post_init x = Inr x"
  by (simp add: checked_def)

lemmas field_defs = str_at_def int_at_def bool_at_def enum_at_def opt_text_at_def str_at_or_def each_at_def ownership_at_def

lemma items_of_JArr [manifest_simps]: "items_of (JArr xs) = Inr xs" "members_of (JArr xs) = Inr xs"
  by (simp_all add: items_of_def members_of_def)

lemma mapE_ok: "(\<exists>ys. mapE f xs = Inr ys) \<longleftrightarrow> (\<forall>x \<in> set xs. \<exists>y. f x = Inr y)"
  by (induction xs) (auto simp: bindE_Inr)

lemma mapE_sort: "(\<exists>ys. mapE f (sort xs) = Inr ys) \<longleftrightarrow> (\<exists>ys. mapE f xs = Inr ys)"
  by (simp add: mapE_ok)

section \<open>Codecs\<close>

text \<open>A writer and a reader of one kind of object. Reading back a valid object gives its canonical
  form, which writes to the same value; both laws lift to lists of objects.\<close>

locale codec =
  fixes enc :: "'a \<Rightarrow> json" and dec :: "json \<Rightarrow> manifest_error + 'a" and valid :: "'a \<Rightarrow> bool" and canon :: "'a \<Rightarrow> 'a"
  assumes round: "valid x \<Longrightarrow> dec (enc x) = Inr (canon x)"
    and canon_enc: "enc (canon x) = enc x"
begin

lemma each: "list_all valid xs \<Longrightarrow> mapE dec (map enc xs) = Inr (map canon xs)"
  by (rule mapE_map) (simp add: list_all_iff round)

lemma each_sorted: "list_all valid xs \<Longrightarrow> mapE dec (map enc (sort_key f xs)) = Inr (map canon (sort_key f xs))"
  by (rule each) (simp add: list_all_iff)

end

section \<open>Objects\<close>

definition ownership_ok :: "ownership \<Rightarrow> bool" where
  "ownership_ok ow \<longleftrightarrow> ownership_valid ow \<and> ow_resource_kind ow \<in> set RANGE_RESOURCE_KINDS"

lemma ownership_round: "ownership_ok ow \<Longrightarrow> ownership_from (ownership_payload ow) = Inr ow"
  by (cases ow) (simp add: ownership_from_def ownership_fields_def ownership_payload_def ownership_ok_def field_defs manifest_simps
      require_def)

lemma rule_round: "rule_post_init r = Inr () \<Longrightarrow> rule_from (rule_payload r) = Inr r"
  by (cases r) (simp add: rule_from_def rule_payload_def field_defs manifest_simps)

lemma disk_round: "disk_post_init d = Inr () \<Longrightarrow> disk_from (disk_payload d) = Inr d"
  by (cases d) (simp add: disk_from_def disk_payload_def field_defs manifest_simps)

lemma nic_round: "nic_post_init n = Inr () \<Longrightarrow> nic_from (nic_payload n) = Inr n"
  by (cases n) (simp add: nic_from_def nic_payload_def field_defs manifest_simps)

lemma address_round: "guest_address_post_init a = Inr () \<Longrightarrow> address_from (address_payload a) = Inr a"
  by (cases a) (simp add: address_from_def address_payload_def field_defs manifest_simps)

lemma subnet_round: "subnet_post_init s = Inr () \<Longrightarrow> subnet_from (subnet_payload s) = Inr s"
  by (cases s) (simp add: subnet_from_def subnet_payload_def field_defs manifest_simps)

lemma cloud_init_round:
  "(\<And>c. ci = Some c \<Longrightarrow> cloud_init_post_init c = Inr ()) \<Longrightarrow> cloud_init_from (cloud_init_payload ci) = Inr ci"
  by (cases ci; cases "the ci") (simp_all add: cloud_init_from_def cloud_init_payload_def field_defs manifest_simps)

lemma vnet_round:
  "vnet_post_init v = Inr () \<Longrightarrow> subnet_post_init (vn_subnet v) = Inr () \<Longrightarrow> ownership_ok (vn_ownership v) \<Longrightarrow>
     vnet_from (vnet_payload v) = Inr v"
  by (cases v) (simp add: vnet_from_def vnet_payload_def field_defs manifest_simps subnet_round ownership_round)

interpretation ownerships: codec ownership_payload ownership_from ownership_ok "\<lambda>ow. ow"
  by unfold_locales (simp_all add: ownership_round)

interpretation rules: codec rule_payload rule_from "\<lambda>r. rule_post_init r = Inr ()" "\<lambda>r. r"
  by unfold_locales (simp_all add: rule_round)

interpretation disks: codec disk_payload disk_from "\<lambda>d. disk_post_init d = Inr ()" "\<lambda>d. d"
  by unfold_locales (simp_all add: disk_round)

interpretation nics: codec nic_payload nic_from "\<lambda>n. nic_post_init n = Inr ()" "\<lambda>n. n"
  by unfold_locales (simp_all add: nic_round)

definition vnet_ok :: "vnet_spec \<Rightarrow> bool" where
  "vnet_ok v \<longleftrightarrow> vnet_post_init v = Inr () \<and> subnet_post_init (vn_subnet v) = Inr () \<and> ownership_ok (vn_ownership v)"

interpretation vnets: codec vnet_payload vnet_from vnet_ok "\<lambda>v. v"
  by unfold_locales (simp_all add: vnet_round vnet_ok_def)

text \<open>The order the writer chose.\<close>

definition canonical_target :: "target_identity \<Rightarrow> target_identity" where
  "canonical_target t = t\<lparr>ti_management_cidrs := sort (ti_management_cidrs t), ti_management_bridges := sort (ti_management_bridges t)\<rparr>"

definition canonical_zone :: "sdn_zone_spec \<Rightarrow> sdn_zone_spec" where
  "canonical_zone z = z\<lparr>zs_nodes := sort (zs_nodes z)\<rparr>"

definition canonical_ip_set :: "ip_set_spec \<Rightarrow> ip_set_spec" where
  "canonical_ip_set s = s\<lparr>is_cidrs := sort (is_cidrs s)\<rparr>"

definition canonical_group :: "security_group_spec \<Rightarrow> security_group_spec" where
  "canonical_group g = g\<lparr>sg_rules := ordered_rules g\<rparr>"

definition canonical_egress :: "egress_gateway_spec \<Rightarrow> egress_gateway_spec" where
  "canonical_egress e = e\<lparr>eg_allowed_destinations := sort (eg_allowed_destinations e), eg_allowed_ports := sort (eg_allowed_ports e)\<rparr>"

definition canonical_guest :: "guest_spec \<Rightarrow> guest_spec" where
  "canonical_guest g = g\<lparr>gs_disks := sort_key dk_slot (gs_disks g), gs_nics := sort_key nc_index (gs_nics g)\<rparr>"

definition canonical_network :: "network_plan \<Rightarrow> network_plan" where
  "canonical_network n = \<lparr>np_zone = canonical_zone (np_zone n), np_vnets = sort_key vn_name (np_vnets n),
     np_security_groups = map canonical_group (sort_key sg_name (np_security_groups n)),
     np_ip_sets = map canonical_ip_set (sort_key is_name (np_ip_sets n)),
     np_vnet_security_group = sort_key fst (np_vnet_security_group n), np_egress = map_option canonical_egress (np_egress n)\<rparr>"

definition canonical_topology :: "compiled_topology \<Rightarrow> ledger option \<Rightarrow> compiled_topology" where
  "canonical_topology t l = \<lparr>ct_target = canonical_target (ct_target t), ct_ownership = ct_ownership t,
     ct_network = canonical_network (ct_network t), ct_guests = map canonical_guest (sort_key gs_guest_ref (ct_guests t)),
     ct_allocations = (case l of None \<Rightarrow> ct_allocations t | Some l \<Rightarrow> map allocation_as_dict (ledger_all l))\<rparr>"

text \<open>Every object of the topology passed the checks of its class.\<close>

definition ip_set_ok :: "ip_set_spec \<Rightarrow> bool" where
  "ip_set_ok s \<longleftrightarrow> ip_set_post_init s = Inr () \<and> ownership_ok (is_ownership s)"

definition group_ok :: "security_group_spec \<Rightarrow> bool" where
  "group_ok g \<longleftrightarrow> security_group_post_init g = Inr () \<and> ownership_ok (sg_ownership g) \<and>
     list_all (\<lambda>r. rule_post_init r = Inr ()) (sg_rules g)"

definition guest_ok :: "guest_spec \<Rightarrow> bool" where
  "guest_ok g \<longleftrightarrow> guest_post_init g = Inr () \<and> ownership_ok (gs_ownership g) \<and>
     list_all (\<lambda>d. disk_post_init d = Inr ()) (gs_disks g) \<and> list_all (\<lambda>n. nic_post_init n = Inr ()) (gs_nics g) \<and>
     guest_address_post_init (gs_address g) = Inr () \<and>
     (case gs_cloud_init g of None \<Rightarrow> True | Some c \<Rightarrow> cloud_init_post_init c = Inr ())"

definition network_ok :: "network_plan \<Rightarrow> bool" where
  "network_ok n \<longleftrightarrow> sdn_zone_post_init (np_zone n) = Inr () \<and> ownership_ok (zs_ownership (np_zone n)) \<and>
     list_all vnet_ok (np_vnets n) \<and> list_all ip_set_ok (np_ip_sets n) \<and>
     list_all group_ok (np_security_groups n) \<and>
     (case np_egress n of None \<Rightarrow> True | Some e \<Rightarrow> egress_post_init e = Inr () \<and> ownership_ok (eg_ownership e))"

definition topology_ok :: "compiled_topology \<Rightarrow> bool" where
  "topology_ok t \<longleftrightarrow> target_identity_post_init (ct_target t) = Inr () \<and> ownership_ok (ct_ownership t) \<and>
     network_ok (ct_network t) \<and> list_all guest_ok (ct_guests t)"

lemma target_round:
  assumes "target_identity_post_init t = Inr ()"
  shows "target_from (target_payload t) = Inr (canonical_target t)"
proof -
  have "\<exists>ys. mapE (\<lambda>c. parsed (ip_network True c)) (ti_management_cidrs t) = Inr ys" "ti_management_cidrs t \<noteq> []"
    using assms by (auto simp: target_identity_post_init_def bindE_Inr)
  then have "target_identity_post_init (canonical_target t) = Inr ()"
    by (auto simp: target_identity_post_init_def canonical_target_def bindE_Inr mapE_sort)
  then show ?thesis
    by (cases t) (simp add: target_from_def target_payload_def field_defs manifest_simps canonical_target_def)
qed

lemma zone_round:
  assumes "sdn_zone_post_init z = Inr ()" "ownership_ok (zs_ownership z)"
  shows "zone_from (zone_payload z) = Inr (canonical_zone z)"
proof -
  have "sdn_zone_post_init (canonical_zone z) = Inr ()"
    using assms(1) by (simp add: sdn_zone_post_init_def canonical_zone_def bindE_Inr)
  moreover have "opt_number (case zs_mtu z of None \<Rightarrow> JNull | Some m \<Rightarrow> JInt m) = Inr (zs_mtu z)"
    by (simp add: opt_number_def split: option.splits)
  ultimately show ?thesis
    using assms(2) by (cases z) (simp add: zone_from_def zone_payload_def field_defs manifest_simps canonical_zone_def ownership_round)
qed

lemma ip_set_round:
  assumes "ip_set_ok s"
  shows "ip_set_from (ip_set_payload s) = Inr (canonical_ip_set s)"
proof -
  have "ip_set_post_init (canonical_ip_set s) = Inr ()"
    using assms by (auto simp: ip_set_ok_def ip_set_post_init_def canonical_ip_set_def bindE_Inr mapE_sort)
  then show ?thesis
    using assms by (cases s) (simp add: ip_set_from_def ip_set_payload_def field_defs manifest_simps canonical_ip_set_def
        ownership_round ip_set_ok_def)
qed

interpretation ip_sets: codec ip_set_payload ip_set_from ip_set_ok canonical_ip_set
  by unfold_locales (erule ip_set_round, simp add: ip_set_payload_def canonical_ip_set_def sort_key_id_if_sorted)

lemma group_round:
  assumes "group_ok g"
  shows "security_group_from (security_group_payload g) = Inr (canonical_group g)"
proof -
  have "security_group_post_init (canonical_group g) = Inr ()"
    using assms by (simp add: group_ok_def security_group_post_init_def canonical_group_def bindE_Inr ordered_rules_def distinct_map)
  moreover have "mapE rule_from (map rule_payload (ordered_rules g)) = Inr (ordered_rules g)"
    using assms rules.each_sorted [of "sg_rules g" fr_position] by (simp add: group_ok_def ordered_rules_def)
  ultimately show ?thesis
    using assms by (cases g) (simp add: security_group_from_def security_group_payload_def field_defs manifest_simps canonical_group_def
        ownership_round group_ok_def)
qed

interpretation groups: codec security_group_payload security_group_from group_ok canonical_group
  by unfold_locales (erule group_round, simp add: security_group_payload_def canonical_group_def ordered_rules_def sort_key_id_if_sorted)

lemma egress_round:
  assumes "case e of None \<Rightarrow> True | Some e \<Rightarrow> egress_post_init e = Inr () \<and> ownership_ok (eg_ownership e)"
  shows "egress_from (egress_payload e) = Inr (map_option canonical_egress e)"
proof (cases e)
  case (Some g)
  have "egress_post_init (canonical_egress g) = Inr ()"
    using assms by (auto simp: Some egress_post_init_def canonical_egress_def bindE_Inr mapE_sort)
  then show ?thesis
    using assms by (cases g) (simp add: Some egress_from_def egress_payload_def field_defs manifest_simps canonical_egress_def ownership_round)
qed (simp add: egress_from_def egress_payload_def)

lemma guest_round:
  assumes "guest_ok g"
  shows "guest_from (guest_payload g) = Inr (canonical_guest g)"
proof -
  note ok = assms [unfolded guest_ok_def list_all_iff]
  have "guest_post_init (canonical_guest g) = Inr ()"
    using ok by (simp add: guest_post_init_def canonical_guest_def bindE_Inr distinct_map)
  moreover have "mapE disk_from (map disk_payload (sort_key dk_slot (gs_disks g))) = Inr (sort_key dk_slot (gs_disks g))"
    using ok disks.each_sorted [of "gs_disks g" dk_slot] by (simp add: list_all_iff)
  moreover have "mapE nic_from (map nic_payload (sort_key nc_index (gs_nics g))) = Inr (sort_key nc_index (gs_nics g))"
    using ok nics.each_sorted [of "gs_nics g" nc_index] by (simp add: list_all_iff)
  moreover have "cloud_init_from (cloud_init_payload (gs_cloud_init g)) = Inr (gs_cloud_init g)"
    using ok by (intro cloud_init_round) auto
  moreover have "address_from (address_payload (gs_address g)) = Inr (gs_address g)"
    "ownership_from (ownership_payload (gs_ownership g)) = Inr (gs_ownership g)"
    using ok by (simp_all add: address_round ownership_round)
  ultimately show ?thesis
    by (cases g) (simp add: guest_from_def guest_payload_def field_defs manifest_simps canonical_guest_def)
qed

interpretation guests: codec guest_payload guest_from guest_ok canonical_guest
  by unfold_locales (erule guest_round, simp add: guest_payload_def canonical_guest_def sort_key_id_if_sorted)

section \<open>Topologies\<close>

lemma network_round:
  assumes "network_ok n"
  shows "network_from (network_payload n) (canonical_zone (np_zone n)) = Inr (canonical_network n)"
proof -
  note ok = assms [unfolded network_ok_def]
  have "mapE vnet_from (map vnet_payload (sort_key vn_name (np_vnets n))) = Inr (sort_key vn_name (np_vnets n))"
    using ok vnets.each_sorted [of "np_vnets n" vn_name] by simp
  moreover note ip_sets.each_sorted [of "np_ip_sets n" is_name] groups.each_sorted [of "np_security_groups n" sg_name]
  moreover have "egress_from (egress_payload (np_egress n)) = Inr (map_option canonical_egress (np_egress n))"
    using ok by (intro egress_round) simp
  ultimately show ?thesis
    using ok by (simp add: network_from_def network_payload_def field_defs manifest_simps canonical_network_def)
qed

lemma topology_round:
  assumes "topology_ok t"
  shows "from_manifest_payload (JObj (to_manifest_payload t l)) = Inr (canonical_topology t l)"
proof -
  note ok = assms [unfolded topology_ok_def]
  note guests.each_sorted [of "ct_guests t" gs_guest_ref]
  moreover have "jget_required ''zone'' (network_payload (ct_network t)) = Inr (zone_payload (np_zone (ct_network t)))"
    by (simp add: jget_required_def network_payload_def manifest_simps)
  moreover have "zone_from (zone_payload (np_zone (ct_network t))) = Inr (canonical_zone (np_zone (ct_network t)))"
    using ok by (intro zone_round) (simp_all add: network_ok_def)
  ultimately show ?thesis
    using ok by (simp add: from_manifest_payload_def to_manifest_payload_def jget_required_def field_defs manifest_simps
        target_round network_round ownership_round canonical_topology_def)
qed

lemma sort_key_map: "(\<And>x. f (g x) = f x) \<Longrightarrow> sort_key f (map g (sort_key f xs)) = map g (sort_key f xs)"
  by (rule sort_key_id_if_sorted) (simp add: comp_def)

lemma canonical_payload: "to_manifest_payload (canonical_topology t l) l = to_manifest_payload t l"
proof -
  have e: "egress_payload (map_option canonical_egress e) = egress_payload e" for e
    by (simp add: egress_payload_def canonical_egress_def sort_key_id_if_sorted split: option.splits)
  have names: "is_name (canonical_ip_set i) = is_name i" "sg_name (canonical_group j) = sg_name j"
      "gs_guest_ref (canonical_guest k) = gs_guest_ref k" for i j k
    by (simp_all add: canonical_ip_set_def canonical_group_def canonical_guest_def)
  have n: "network_payload (canonical_network n) = network_payload n" for n
    by (simp add: network_payload_def canonical_network_def e ip_sets.canon_enc groups.canon_enc comp_def zone_payload_def canonical_zone_def
        sort_key_id_if_sorted sort_key_map names)
  show ?thesis
    by (simp add: to_manifest_payload_def canonical_topology_def n guests.canon_enc comp_def target_payload_def canonical_target_def
        sort_key_id_if_sorted sort_key_map names split: option.splits)
qed

end
