(* ===== verification/Proxmox_Reset.thy ===== *)
theory Proxmox_Reset
  imports Proxmox_Manifest Proxmox_Verification Content_Hash
begin

text \<open>
  Resetting a Proxmox range (\<open>apps/worker/secp_worker/provisioning/proxmox_reset.py\<close>): the topology
  fingerprint, the re-stamping of a desired state for a new operation, the plan of a reset or its
  refusal, and the judgement of a completed reset. Desired states and ledgers are the JSON documents
  the worker holds. \<open>Reset_type_error\<close> stands for the \<open>TypeError\<close> or \<open>AttributeError\<close> of a document
  whose guests, segments or allocations are not the collections the code iterates or counts. The
  texts of actions and refusals are not kept; those of the verdict are, since the evidence has them.
\<close>

section \<open>Vocabulary\<close>

fun verification_outcome_value :: "verification_outcome \<Rightarrow> string" where
  "verification_outcome_value VO_verified = ''verified''"
| "verification_outcome_value VO_verification_failed = ''verification_failed''"
| "verification_outcome_value VO_isolation_failed = ''isolation_failed''"
| "verification_outcome_value VO_state_disagreement = ''state_disagreement''"
| "verification_outcome_value VO_recovery_required = ''recovery_required''"

fun verification_check_value :: "verification_check \<Rightarrow> string" where
  "verification_check_value VC_guest_inventory = ''guest_inventory''"
| "verification_check_value VC_guest_names = ''guest_names''"
| "verification_check_value VC_node_placement = ''node_placement''"
| "verification_check_value VC_disks_and_storage = ''disks_and_storage''"
| "verification_check_value VC_nics_and_macs = ''nics_and_macs''"
| "verification_check_value VC_network_objects = ''network_objects''"
| "verification_check_value VC_firewall_objects = ''firewall_objects''"
| "verification_check_value VC_ownership_tags = ''ownership_tags''"
| "verification_check_value VC_power_state = ''power_state''"
| "verification_check_value VC_guest_readiness = ''guest_readiness''"
| "verification_check_value VC_required_reachability = ''required_reachability''"
| "verification_check_value VC_cross_team_denial = ''cross_team_denial''"
| "verification_check_value VC_management_denial = ''management_denial''"
| "verification_check_value VC_protected_denial = ''protected_denial''"
| "verification_check_value VC_external_denial = ''external_denial''"
| "verification_check_value VC_state_agreement = ''state_agreement''"

definition REQUIRED_RESET_CHECKS :: "verification_check list" where
  "REQUIRED_RESET_CHECKS = [VC_guest_readiness, VC_required_reachability, VC_cross_team_denial, VC_management_denial]"

datatype reset_refusal_code = RR_no_approved_desired_state | RR_topology_change_without_approval
  | RR_allocation_ledger_drift | RR_ledger_not_sealed | RR_operation_generation_not_advanced

datatype reset_disposition = RD_preserved | RD_recreated | RD_restored | RD_cleared

fun reset_disposition_value :: "reset_disposition \<Rightarrow> string" where
  "reset_disposition_value RD_preserved = ''preserved''"
| "reset_disposition_value RD_recreated = ''recreated''"
| "reset_disposition_value RD_restored = ''restored''"
| "reset_disposition_value RD_cleared = ''cleared''"

datatype reset_subject = RS_range_identity | RS_sdn_zone | RS_vnets | RS_subnets_and_vlans | RS_firewall_objects
  | RS_allocation_ledger | RS_guests | RS_challenge_state | RS_team_membership | RS_scores

fun reset_subject_value :: "reset_subject \<Rightarrow> string" where
  "reset_subject_value RS_range_identity = ''range_identity''"
| "reset_subject_value RS_sdn_zone = ''sdn_zone''"
| "reset_subject_value RS_vnets = ''vnets''"
| "reset_subject_value RS_subnets_and_vlans = ''subnets_and_vlans''"
| "reset_subject_value RS_firewall_objects = ''firewall_objects''"
| "reset_subject_value RS_allocation_ledger = ''allocation_ledger''"
| "reset_subject_value RS_guests = ''guests''"
| "reset_subject_value RS_challenge_state = ''challenge_state''"
| "reset_subject_value RS_team_membership = ''team_membership''"
| "reset_subject_value RS_scores = ''scores''"

datatype reset_error = Reset_refused reset_refusal_code | Reset_type_error

record reset_request =
  rq_range_id :: string
  rq_operation_generation :: int
  rq_clear_scores :: bool
  rq_new_topology_approved :: bool

type_synonym document = "(string, json) dict"

record reset_plan =
  rl_range_id :: string
  rl_operation_generation :: int
  rl_desired_state :: document
  rl_actions :: "(reset_subject \<times> reset_disposition) list"
  rl_recreated_guest_refs :: "string list"
  rl_restored_material_refs :: "string list"
  rl_topology_fingerprint :: string
  rl_required_checks :: "verification_check list"

definition reset_disposition_of :: "reset_plan \<Rightarrow> reset_subject \<Rightarrow> reset_disposition option" where
  "reset_disposition_of plan subject = map_option snd (find (\<lambda>(s, _). s = subject) (rl_actions plan))"

section \<open>Fingerprints and stamps\<close>

definition GENERATION_KEY :: string where "GENERATION_KEY = ''operation_generation''"

fun strip_operation_generation :: "json \<Rightarrow> json" where
  "strip_operation_generation (JObj kvs) =
     JObj (filter (\<lambda>(k, _). k \<noteq> GENERATION_KEY) (map (\<lambda>(k, v). (k, strip_operation_generation v)) kvs))"
| "strip_operation_generation (JArr vs) = JArr (map strip_operation_generation vs)"
| "strip_operation_generation v = v"

definition topology_fingerprint :: "document \<Rightarrow> string" where
  "topology_fingerprint desired = content_hash (strip_operation_generation (JObj desired))"

fun restamp_json :: "int \<Rightarrow> json \<Rightarrow> json" where
  "restamp_json g (JObj kvs) = JObj (map (\<lambda>(k, v). (k, if k = GENERATION_KEY then JInt g else restamp_json g v)) kvs)"
| "restamp_json g (JArr vs) = JArr (map (restamp_json g) vs)"
| "restamp_json g v = v"

definition restamp_operation_generation :: "document \<Rightarrow> int \<Rightarrow> document" where
  "restamp_operation_generation desired g = (case restamp_json g (JObj desired) of JObj d \<Rightarrow> d | _ \<Rightarrow> [])"

definition approved_operation_generation :: "document \<Rightarrow> int option" where
  "approved_operation_generation desired = (case map_of desired ''ownership'' of
      Some (JObj ow) \<Rightarrow> (case map_of ow ''operation_generation'' of
          Some (JInt i) \<Rightarrow> Some i | Some (JBool b) \<Rightarrow> Some (if b then 1 else 0) | _ \<Rightarrow> None)
    | _ \<Rightarrow> None)"

section \<open>Planning a reset\<close>

text \<open>\<open>len(value)\<close> exists for texts, lists and dicts.\<close>

definition sized :: "json \<Rightarrow> reset_error + unit" where
  "sized v = (case v of JArr _ \<Rightarrow> Inr () | JObj _ \<Rightarrow> Inr () | JStr _ \<Rightarrow> Inr () | _ \<Rightarrow> Inl Reset_type_error)"

definition guest_ref_of :: "json \<Rightarrow> reset_error + string" where
  "guest_ref_of g = (case g of JObj d \<Rightarrow> Inr (json_str (case map_of d ''guest_ref'' of None \<Rightarrow> JNull | Some v \<Rightarrow> v))
     | _ \<Rightarrow> Inl Reset_type_error)"

definition guest_refs_of :: "document \<Rightarrow> reset_error + string list" where
  "guest_refs_of desired = (case map_of desired ''guests'' of
      None \<Rightarrow> Inr []
    | Some v \<Rightarrow> if \<not> json_truthy v then Inr []
        else (case v of JArr gs \<Rightarrow> bindE (mapE guest_ref_of gs) (\<lambda>refs. Inr (sort refs)) | _ \<Rightarrow> Inl Reset_type_error))"

definition segments_counted :: "document \<Rightarrow> reset_error + unit" where
  "segments_counted desired = (case map_of desired ''network'' of
      None \<Rightarrow> Inr ()
    | Some (JObj n) \<Rightarrow> (case map_of n ''vnets'' of None \<Rightarrow> Inr () | Some v \<Rightarrow> sized v)
    | Some _ \<Rightarrow> Inl Reset_type_error)"

definition field_truthy :: "document \<Rightarrow> string \<Rightarrow> bool" where
  "field_truthy d k = (case map_of d k of None \<Rightarrow> False | Some v \<Rightarrow> json_truthy v)"

definition field_or_null :: "document \<Rightarrow> string \<Rightarrow> json" where
  "field_or_null d k = (case map_of d k of None \<Rightarrow> JNull | Some v \<Rightarrow> v)"

definition reset_actions :: "reset_request \<Rightarrow> (reset_subject \<times> reset_disposition) list" where
  "reset_actions request = [(RS_range_identity, RD_preserved), (RS_sdn_zone, RD_preserved), (RS_vnets, RD_preserved),
     (RS_subnets_and_vlans, RD_preserved), (RS_firewall_objects, RD_preserved), (RS_allocation_ledger, RD_preserved),
     (RS_guests, RD_recreated), (RS_challenge_state, RD_restored), (RS_team_membership, RD_preserved),
     (RS_scores, if rq_clear_scores request then RD_cleared else RD_preserved)]"

text \<open>Dict equality of the two \<open>ledger_hash\<close> values is equality of JSON values up to key order.\<close>

definition reset_source :: "document \<Rightarrow> document option \<Rightarrow> reset_request \<Rightarrow> reset_error + document" where
  "reset_source approved proposed request = (case proposed of
      None \<Rightarrow> Inr approved
    | Some p \<Rightarrow> if topology_fingerprint p \<noteq> topology_fingerprint approved \<and> \<not> rq_new_topology_approved request
        then Inl (Reset_refused RR_topology_change_without_approval) else Inr p)"

definition make_reset_plan :: "document \<Rightarrow> document \<Rightarrow> document \<Rightarrow> string list \<Rightarrow> reset_request \<Rightarrow> reset_error + reset_plan" where
  "make_reset_plan approved approved_ledger source material_refs request =
     (let desired = restamp_operation_generation source (rq_operation_generation request) in
      bindE (guest_refs_of desired) (\<lambda>refs.
      bindE (segments_counted desired) (\<lambda>_.
      bindE (sized (field_or_null approved_ledger ''allocations'')) (\<lambda>_.
        Inr \<lparr>rl_range_id = rq_range_id request, rl_operation_generation = rq_operation_generation request,
          rl_desired_state = desired, rl_actions = reset_actions request, rl_recreated_guest_refs = refs,
          rl_restored_material_refs = sort material_refs, rl_topology_fingerprint = topology_fingerprint approved,
          rl_required_checks = REQUIRED_RESET_CHECKS\<rparr>))))"

definition plan_reset :: "document option \<Rightarrow> document option \<Rightarrow> document option \<Rightarrow> document option \<Rightarrow> string list \<Rightarrow>
    reset_request \<Rightarrow> reset_error + reset_plan" where
  "plan_reset approved_desired_state approved_ledger current_ledger proposed material_refs request =
     (case approved_desired_state of
        None \<Rightarrow> Inl (Reset_refused RR_no_approved_desired_state)
      | Some approved \<Rightarrow>
          if approved = [] then Inl (Reset_refused RR_no_approved_desired_state)
          else if (case approved_operation_generation approved of None \<Rightarrow> False | Some g \<Rightarrow> rq_operation_generation request \<le> g)
            then Inl (Reset_refused RR_operation_generation_not_advanced)
          else (case approved_ledger of
              None \<Rightarrow> Inl (Reset_refused RR_allocation_ledger_drift)
            | Some al \<Rightarrow>
                if \<not> field_truthy al ''allocations'' then Inl (Reset_refused RR_allocation_ledger_drift)
                else if \<not> field_truthy al ''sealed'' then Inl (Reset_refused RR_ledger_not_sealed)
                else if (case current_ledger of None \<Rightarrow> False
                    | Some cl \<Rightarrow> norm_json (field_or_null cl ''ledger_hash'') \<noteq> norm_json (field_or_null al ''ledger_hash''))
                  then Inl (Reset_refused RR_allocation_ledger_drift)
                else bindE (reset_source approved proposed request) (\<lambda>source.
                  make_reset_plan approved al source material_refs request)))"

section \<open>Judging a reset\<close>

record reset_verdict =
  rv_outcome :: verification_outcome
  rv_proved :: "verification_check list"
  rv_outstanding :: "verification_check list"
  rv_detail :: string

definition reset_restored :: "reset_verdict \<Rightarrow> bool" where
  "reset_restored v \<longleftrightarrow> rv_outcome v = VO_verified \<and> rv_outstanding v = []"

definition check_proved :: "verification_report \<Rightarrow> verification_check \<Rightarrow> bool" where
  "check_proved report c = (case report_finding report c of None \<Rightarrow> False | Some f \<Rightarrow> cf_observed f \<and> cf_ok f = Some True)"

definition check_list_repr :: "verification_check list \<Rightarrow> string" where
  "check_list_repr cs = ''['' @ join '', '' (map (\<lambda>c. py_repr (verification_check_value c)) cs) @ '']''"

definition evaluate_reset_verification :: "verification_report \<Rightarrow> reset_verdict" where
  "evaluate_reset_verification report =
     (let checks = sort_key verification_check_value REQUIRED_RESET_CHECKS;
          proved = filter (check_proved report) checks; outstanding = filter (\<lambda>c. \<not> check_proved report c) checks in
      if outstanding \<noteq> [] \<and> vr_outcome report = VO_verified
      then \<lparr>rv_outcome = VO_verification_failed, rv_proved = proved, rv_outstanding = outstanding,
        rv_detail = ''the verification report reported 'verified' but did not contain every check a reset '' @
          ''must land; missing or unobserved: '' @ check_list_repr outstanding\<rparr>
      else \<lparr>rv_outcome = vr_outcome report, rv_proved = proved, rv_outstanding = outstanding,
        rv_detail = (if outstanding = [] then show_nat (length proved) @ '' required check(s) observed and passing''
          else ''required checks outstanding: '' @ check_list_repr outstanding)\<rparr>)"

definition reset_evidence :: "reset_plan \<Rightarrow> reset_verdict \<Rightarrow> json \<Rightarrow> json" where
  "reset_evidence plan v bootstrap = JObj [
     (''evidence_version'', JStr ''secp-proxmox/reset-evidence/v1''),
     (''range_id'', JStr (rl_range_id plan)), (''operation_generation'', JInt (rl_operation_generation plan)),
     (''topology_fingerprint'', JStr (rl_topology_fingerprint plan)),
     (''desired_state_hash'', JStr (content_hash (JObj (rl_desired_state plan)))),
     (''dispositions'', JObj (dict_of (map (\<lambda>(s, d). (reset_subject_value s, JStr (reset_disposition_value d))) (rl_actions plan)))),
     (''recreated_guests'', JArr (map JStr (rl_recreated_guest_refs plan))),
     (''restored_material_refs'', JArr (map JStr (rl_restored_material_refs plan))),
     (''bootstrap'', bootstrap),
     (''verification'', JObj [(''outcome'', JStr (verification_outcome_value (rv_outcome v))),
        (''required_checks_proved'', JArr (map (\<lambda>c. JStr (verification_check_value c)) (rv_proved v))),
        (''required_checks_outstanding'', JArr (map (\<lambda>c. JStr (verification_check_value c)) (rv_outstanding v))),
        (''detail'', JStr (rv_detail v))]),
     (''restored'', JBool (reset_restored v))]"

section \<open>Stamps move, topology stays\<close>

lemma strip_restamp: "strip_operation_generation (restamp_json g v) = strip_operation_generation v"
proof (induction v)
  case (JObj kvs)
  have "filter (\<lambda>(k, _). k \<noteq> GENERATION_KEY) (map (\<lambda>(k, v). (k, strip_operation_generation v)) kvs') =
      filter (\<lambda>(k, _). k \<noteq> GENERATION_KEY) (map (\<lambda>(k, v). (k, strip_operation_generation v)) kvs'')"
    if "kvs' = map (\<lambda>(k, v). (k, if k = GENERATION_KEY then JInt g else restamp_json g v)) kvs''" "set kvs'' \<subseteq> set kvs" for kvs' kvs''
    using that
  proof (induction kvs'' arbitrary: kvs')
    case (Cons kv kvs'')
    obtain k v where kv: "kv = (k, v)" by force
    have "strip_operation_generation (restamp_json g v) = strip_operation_generation v"
      using JObj Cons.prems(2) by (force simp: kv)
    with Cons kv show ?case by simp
  qed simp
  then show ?case by simp
qed simp_all

lemma restamp_operation_generation_JObj: "JObj (restamp_operation_generation desired g) = restamp_json g (JObj desired)"
  by (simp add: restamp_operation_generation_def)

lemma restamp_fingerprint: "topology_fingerprint (restamp_operation_generation desired g) = topology_fingerprint desired"
  unfolding topology_fingerprint_def restamp_operation_generation_JObj strip_restamp ..

text \<open>Every stamp of a document: the values under the key, at any depth.\<close>

fun stamps :: "json \<Rightarrow> json list" where
  "stamps (JObj kvs) = concat (map (\<lambda>(k, v). if k = GENERATION_KEY then [v] else stamps v) kvs)"
| "stamps (JArr vs) = concat (map stamps vs)"
| "stamps v = []"

lemma stamps_restamp: "s \<in> set (stamps (restamp_json g v)) \<Longrightarrow> s = JInt g"
  by (induction v) (auto split: if_splits)

section \<open>What a plan binds\<close>

lemma make_reset_plan_Inr:
  assumes "make_reset_plan approved al source refs request = Inr plan"
  shows "rl_range_id plan = rq_range_id request" "rl_operation_generation plan = rq_operation_generation request"
    "rl_desired_state plan = restamp_operation_generation source (rq_operation_generation request)"
    "rl_actions plan = reset_actions request" "rl_topology_fingerprint plan = topology_fingerprint approved"
    "rl_required_checks plan = REQUIRED_RESET_CHECKS" "rl_restored_material_refs plan = sort refs"
  using assms by (auto simp: make_reset_plan_def Let_def bindE_Inr)

lemma plan_reset_Inr:
  assumes "plan_reset approved_state approved_ledger current proposed refs request = Inr plan"
  obtains approved al source where "approved_state = Some approved" "approved \<noteq> []" "approved_ledger = Some al"
    "\<And>g. approved_operation_generation approved = Some g \<Longrightarrow> g < rq_operation_generation request"
    "field_truthy al ''allocations''" "field_truthy al ''sealed''"
    "\<And>cl. current = Some cl \<Longrightarrow> norm_json (field_or_null cl ''ledger_hash'') = norm_json (field_or_null al ''ledger_hash'')"
    "reset_source approved proposed request = Inr source"
    "make_reset_plan approved al source refs request = Inr plan"
proof -
  obtain approved where approved: "approved_state = Some approved" "approved \<noteq> []"
    using assms by (cases approved_state) (auto simp: plan_reset_def split: if_splits)
  obtain al where al: "approved_ledger = Some al"
    using assms by (cases approved_ledger) (auto simp: plan_reset_def approved split: if_splits option.splits)
  note run = assms [unfolded plan_reset_def approved al option.case]
  obtain source where source: "reset_source approved proposed request = Inr source"
    "make_reset_plan approved al source refs request = Inr plan"
    using run by (auto simp: bindE_Inr split: if_splits)
  show ?thesis
    using run by (intro that [OF approved al _ _ _ _ source]) (auto split: if_splits option.splits)
qed

lemma reset_source_fingerprint:
  "reset_source approved proposed request = Inr source \<Longrightarrow> \<not> rq_new_topology_approved request \<Longrightarrow>
     topology_fingerprint source = topology_fingerprint approved"
  by (auto simp: reset_source_def split: option.splits if_splits)

lemma fingerprint_binds:
  "topology_fingerprint a = topology_fingerprint b \<Longrightarrow>
     norm_json (strip_operation_generation (JObj a)) = norm_json (strip_operation_generation (JObj b)) \<or>
     sha_collision (utf8 (canonicalize (strip_operation_generation (JObj a)))) (utf8 (canonicalize (strip_operation_generation (JObj b))))"
  unfolding topology_fingerprint_def by (rule spec_hash_binds)

section \<open>The flat tags\<close>

lemma map_of_strip:
  "k \<noteq> GENERATION_KEY \<Longrightarrow>
     map_of (filter (\<lambda>(k, _). k \<noteq> GENERATION_KEY) (map (\<lambda>(k, v). (k, strip_operation_generation v)) d)) k =
     map_option strip_operation_generation (map_of d k)"
  by (induction d) auto

lemma distinct_strip:
  "distinct (map fst d) \<Longrightarrow>
     distinct (map fst (filter (\<lambda>(k, _). k \<noteq> GENERATION_KEY) (map (\<lambda>(k, v). (k, strip_operation_generation v)) d)))"
  by (induction d) (auto simp: image_iff)

lemma strip_lookup:
  assumes "norm_json (strip_operation_generation (JObj a)) = norm_json (strip_operation_generation (JObj b))"
    and "distinct (map fst a)" "distinct (map fst b)" and "k \<noteq> GENERATION_KEY"
  shows "map_option (norm_json \<circ> strip_operation_generation) (map_of a k) =
    map_option (norm_json \<circ> strip_operation_generation) (map_of b k)"
  using norm_json_obj_lookup [OF assms(1) [unfolded strip_operation_generation.simps(1)], of k]
    distinct_strip [OF assms(2)] distinct_strip [OF assms(3)] map_of_strip [OF assms(4)]
  by (simp add: option.map_comp)

lemma as_tags_distinct: "distinct (map fst (as_tags ow))"
proof -
  have "distinct (map fst (sort_key id xs)) = distinct (map fst xs)" for xs :: "(string \<times> string) list"
    by (simp add: distinct_map)
  then show ?thesis unfolding as_tags_def by (simp split: option.splits)
qed

lemma as_tags_generation:
  "map_of (as_tags ow) ''secp.operation_generation'' = Some (show_int (ow_operation_generation ow))"
  unfolding as_tags_def by (rule map_of_is_SomeI [OF as_tags_distinct [unfolded as_tags_def]]) (unfold set_sort, simp)

lemma map_of_str_dict: "map_of (map (\<lambda>(k, v). (k, JStr v)) d) k = map_option JStr (map_of d k)"
  by (induction d) auto

lemma payload_stamp_differs:
  assumes "ow_operation_generation a \<noteq> ow_operation_generation b"
  shows "norm_json (strip_operation_generation (ownership_payload a)) \<noteq> norm_json (strip_operation_generation (ownership_payload b))"
proof
  assume "norm_json (strip_operation_generation (ownership_payload a)) = norm_json (strip_operation_generation (ownership_payload b))"
  from strip_lookup [OF this [unfolded ownership_payload_def], of "''tags''"]
  have "norm_json (strip_operation_generation (str_dict (as_tags a))) = norm_json (strip_operation_generation (str_dict (as_tags b)))"
    by (simp add: GENERATION_KEY_def)
  from strip_lookup [OF this [unfolded str_dict_def], of "''secp.operation_generation''"]
  show False
    using assms as_tags_distinct by (simp add: comp_def split_beta GENERATION_KEY_def map_of_str_dict as_tags_generation)
qed

text \<open>A re-stamped ownership block carries the new generation beside the tags of the old one.\<close>

lemma restamp_ownership_payload:
  "restamp_json g (ownership_payload ow) = JObj [
     (''organization_id'', JStr (ow_organization_id ow)), (''target_id'', JStr (ow_target_id ow)),
     (''range_id'', JStr (ow_range_id ow)), (''generation'', JInt (ow_generation ow)),
     (''operation_generation'', JInt g), (''resource_kind'', JStr (ow_resource_kind ow)),
     (''team_ref'', opt_str (ow_team_ref ow)), (''tags'', str_dict (as_tags ow))]"
proof -
  have "restamp_json g (str_dict (as_tags ow)) = str_dict (as_tags ow)"
    by (auto simp: str_dict_def GENERATION_KEY_def as_tags_def split: option.splits)
  moreover have "restamp_json g (opt_str (ow_team_ref ow)) = opt_str (ow_team_ref ow)"
    by (simp add: opt_str_def split: option.splits)
  ultimately show ?thesis by (simp add: ownership_payload_def GENERATION_KEY_def)
qed

lemma manifest_keys_distinct: "distinct (map fst (to_manifest_payload t l))"
  by (cases l) (simp_all add: to_manifest_payload_def)

lemma manifest_ownership: "map_of (to_manifest_payload t l) ''ownership'' = Some (ownership_payload (ct_ownership t))"
  by (simp add: to_manifest_payload_def)

lemma recompiled_stamp_differs:
  assumes "ow_operation_generation (ct_ownership t) \<noteq> ow_operation_generation (ct_ownership u)"
  shows "norm_json (strip_operation_generation (JObj (to_manifest_payload t l))) \<noteq>
    norm_json (strip_operation_generation (JObj (to_manifest_payload u m)))"
proof
  assume "norm_json (strip_operation_generation (JObj (to_manifest_payload t l))) =
    norm_json (strip_operation_generation (JObj (to_manifest_payload u m)))"
  from strip_lookup [OF this manifest_keys_distinct manifest_keys_distinct, of "''ownership''"]
  show False using payload_stamp_differs [OF assms] by (simp add: manifest_ownership GENERATION_KEY_def)
qed

section \<open>Judged resets\<close>

lemma reset_restored_iff:
  "reset_restored (evaluate_reset_verification report) \<longleftrightarrow>
     vr_outcome report = VO_verified \<and> (\<forall>c \<in> set REQUIRED_RESET_CHECKS. check_proved report c)"
  by (auto simp: reset_restored_def evaluate_reset_verification_def Let_def filter_empty_conv)

end
