(* ===== verification/Proxmox_Reconcile.thy ===== *)
theory Proxmox_Reconcile
  imports Proxmox_Reset
begin

text \<open>
  What may be done after an interrupted apply
  (\<open>apps/worker/secp_worker/provisioning/proxmox_reconcile.py\<close>). Desired state and ledger are JSON
  documents, the observation is the one of the verification. \<open>Reconcile_type_error\<close> stands for the
  \<open>TypeError\<close>, \<open>AttributeError\<close>, \<open>KeyError\<close> or \<open>ValueError\<close> of a malformed document;
  \<open>Reconcile_untyped\<close> marks a team reference that is neither a text nor empty, which is outside the
  model. Detail texts are not kept.
\<close>

section \<open>Decisions\<close>

datatype provider_outcome = PO_succeeded | PO_failed | PO_unknown

datatype reconcile_action = CA_no_action | CA_resume_apply | CA_halt

datatype reconcile_reason = CR_provider_outcome_unknown | CR_provider_unobservable | CR_observation_incomplete
  | CR_ledger_not_sealed | CR_state_claims_absent_resource | CR_resource_not_in_sealed_ledger
  | CR_foreign_object_at_allocated_id | CR_isolation_violation_observed | CR_resources_proved_absent | CR_converged

record reconcile_decision =
  cd_action :: reconcile_action
  cd_outcome :: verification_outcome
  cd_reason :: reconcile_reason
  cd_create_vmids :: "int list"

datatype reconcile_error = Reconcile_type_error | Reconcile_untyped | Reconcile_value_error

definition construct_decision :: "reconcile_action \<Rightarrow> verification_outcome \<Rightarrow> reconcile_reason \<Rightarrow> int list \<Rightarrow>
    reconcile_error + reconcile_decision" where
  "construct_decision action outcome reason create =
     (if create \<noteq> [] \<and> action \<noteq> CA_resume_apply then Inl Reconcile_value_error
      else Inr \<lparr>cd_action = action, cd_outcome = outcome, cd_reason = reason, cd_create_vmids = create\<rparr>)"

definition halt :: "verification_outcome \<Rightarrow> reconcile_reason \<Rightarrow> reconcile_error + reconcile_decision" where
  "halt outcome reason = construct_decision CA_halt outcome reason []"

section \<open>Reading the documents\<close>

text \<open>\<open>d.get(k, [])\<close> iterated by a loop that reads fields of each member.\<close>

definition members_at :: "json \<Rightarrow> reconcile_error + json list" where
  "members_at v = (case v of JArr xs \<Rightarrow> Inr xs | JObj [] \<Rightarrow> Inr [] | JStr [] \<Rightarrow> Inr [] | _ \<Rightarrow> Inl Reconcile_type_error)"

definition ledger_vmid :: "json \<Rightarrow> reconcile_error + int option" where
  "ledger_vmid r = (case r of
      JObj d \<Rightarrow> Inr (if map_of d ''kind'' \<in> {Some (JStr ''vmid''), Some (JStr ''lxc_id'')}
        then (case map_of d ''value'' of None \<Rightarrow> None | Some v \<Rightarrow> json_int v) else None)
    | _ \<Rightarrow> Inl Reconcile_type_error)"

definition ledger_vmids :: "document \<Rightarrow> reconcile_error + int list" where
  "ledger_vmids l = bindE (members_at (case map_of l ''allocations'' of None \<Rightarrow> JArr [] | Some v \<Rightarrow> v)) (\<lambda>rs.
     bindE (mapE ledger_vmid rs) (\<lambda>vs. Inr (List.map_filter id vs)))"

text \<open>\<open>None\<close> when the payload cannot express a stamp.\<close>

definition stamp_team :: "json \<Rightarrow> reconcile_error + string option" where
  "stamp_team v = (case v of JStr s \<Rightarrow> Inr (if s = [] then None else Some s)
     | _ \<Rightarrow> if json_truthy v then Inl Reconcile_untyped else Inr None)"

definition stamp_of :: "document \<Rightarrow> reconcile_error + ownership option" where
  "stamp_of p = (case (map_of p ''organization_id'', map_of p ''target_id'', map_of p ''range_id'', map_of p ''generation'') of
      (Some org, Some target, Some rng, Some gen) \<Rightarrow>
        (case (json_int gen, json_int (case map_of p ''operation_generation'' of None \<Rightarrow> JInt 0 | Some v \<Rightarrow> v),
               enum_of id RANGE_RESOURCE_KINDS (case map_of p ''resource_kind'' of None \<Rightarrow> JStr ''virtual_machine'' | Some v \<Rightarrow> v)) of
           (Some generation, Some operation, Some kind) \<Rightarrow> bindE (stamp_team (field_or_null p ''team_ref'')) (\<lambda>team.
             let ow = \<lparr>ow_organization_id = json_str org, ow_target_id = json_str target, ow_range_id = json_str rng,
               ow_generation = generation, ow_operation_generation = operation, ow_resource_kind = kind, ow_team_ref = team\<rparr>
             in Inr (if ownership_valid ow then Some ow else None))
         | _ \<Rightarrow> Inr None)
    | _ \<Rightarrow> Inr None)"

definition expected_ownership :: "json \<Rightarrow> reconcile_error + ownership option" where
  "expected_ownership g = (case g of
      JObj d \<Rightarrow> (case map_of d ''ownership'' of Some (JObj p) \<Rightarrow> stamp_of p | _ \<Rightarrow> Inr None)
    | _ \<Rightarrow> Inl Reconcile_type_error)"

definition guest_vmid :: "json \<Rightarrow> reconcile_error + int" where
  "guest_vmid g = (case g of
      JObj d \<Rightarrow> (case map_of d ''vmid'' of
          None \<Rightarrow> Inl Reconcile_type_error
        | Some v \<Rightarrow> (case json_int v of None \<Rightarrow> Inl Reconcile_type_error | Some i \<Rightarrow> Inr i))
    | _ \<Rightarrow> Inl Reconcile_type_error)"

definition desired_guests_of :: "document \<Rightarrow> reconcile_error + json list" where
  "desired_guests_of desired = (let v = field_or_null desired ''guests'' in
     if \<not> json_truthy v then Inr [] else members_at v)"

text \<open>\<open>any(...)\<close> stops at the first guest without a usable stamp.\<close>

fun any_unstamped :: "json list \<Rightarrow> reconcile_error + bool" where
  "any_unstamped [] = Inr False"
| "any_unstamped (g # gs) = bindE (expected_ownership g) (\<lambda>ow. if ow = None then Inr True else any_unstamped gs)"

section \<open>The decision\<close>

definition observation_gaps :: "json list \<Rightarrow> observed_infrastructure \<Rightarrow> reconcile_error + bool" where
  "observation_gaps guests ob = bindE (any_unstamped guests) (\<lambda>unstamped.
     Inr (ob_tofu_state_addresses ob = None \<or> ob_observed_addresses ob = None \<or>
       list_ex (\<lambda>g. og_tags g = None) (ob_guests ob) \<or> unstamped))"

definition guest_is_foreign :: "observed_infrastructure \<Rightarrow> json \<Rightarrow> reconcile_error + bool" where
  "guest_is_foreign ob g = bindE (guest_vmid g) (\<lambda>vmid. bindE (expected_ownership g) (\<lambda>expected.
     Inr (case (map_of (guests_by_vmid ob) vmid, expected) of
        (Some live, Some ow) \<Rightarrow> is_owned_by_secp (og_tags live) ow \<noteq> OP_secp_owned
      | _ \<Rightarrow> False)))"

definition absent_vmids :: "int list \<Rightarrow> observed_infrastructure \<Rightarrow> int list" where
  "absent_vmids expected ob = sort (remdups (filter (\<lambda>v. v \<notin> set (map og_vmid (ob_guests ob))) expected))"

definition addresses_or_empty :: "string list option \<Rightarrow> string list" where
  "addresses_or_empty a = (case a of None \<Rightarrow> [] | Some xs \<Rightarrow> xs)"

text \<open>The part of the decision after the observation was found complete and the ledger sealed.\<close>

definition decide_observed :: "json list \<Rightarrow> document \<Rightarrow> observed_infrastructure \<Rightarrow> verification_report option \<Rightarrow>
    reconcile_error + reconcile_decision" where
  "decide_observed guests l ob verification =
     bindE (ledger_vmids l) (\<lambda>recorded.
     bindE (mapE (guest_is_foreign ob) guests) (\<lambda>foreign.
     if True \<in> set foreign then halt VO_state_disagreement CR_foreign_object_at_allocated_id
     else bindE (mapE guest_vmid guests) (\<lambda>expected.
       let absent = absent_vmids expected ob in
       if \<not> set (addresses_or_empty (ob_tofu_state_addresses ob)) \<subseteq> set (addresses_or_empty (ob_observed_addresses ob))
         then halt VO_state_disagreement CR_state_claims_absent_resource
       else if absent = []
         then construct_decision CA_no_action (case verification of None \<Rightarrow> VO_verified | Some r \<Rightarrow> vr_outcome r) CR_converged []
       else if \<not> set absent \<subseteq> set recorded then halt VO_state_disagreement CR_resource_not_in_sealed_ledger
       else construct_decision CA_resume_apply VO_verification_failed CR_resources_proved_absent absent)))"

definition decide_reconciliation :: "document \<Rightarrow> document \<Rightarrow> observed_infrastructure \<Rightarrow> provider_outcome \<Rightarrow>
    verification_report option \<Rightarrow> reconcile_error + reconcile_decision" where
  "decide_reconciliation desired l ob outcome verification =
     (if outcome = PO_unknown then halt VO_recovery_required CR_provider_outcome_unknown
      else if \<not> ob_reachable ob then halt VO_recovery_required CR_provider_unobservable
      else bindE (desired_guests_of desired) (\<lambda>guests. bindE (observation_gaps guests ob) (\<lambda>gaps.
        if gaps then halt VO_recovery_required CR_observation_incomplete
        else if \<not> field_truthy l ''sealed'' then halt VO_recovery_required CR_ledger_not_sealed
        else if (case verification of None \<Rightarrow> False | Some r \<Rightarrow> vr_outcome r = VO_isolation_failed)
          then halt VO_isolation_failed CR_isolation_violation_observed
        else decide_observed guests l ob verification)))"

section \<open>When a decision creates or settles\<close>

lemma halt_Inr: "halt out why = Inr d \<longleftrightarrow> d = \<lparr>cd_action = CA_halt, cd_outcome = out, cd_reason = why, cd_create_vmids = []\<rparr>"
  by (auto simp: halt_def construct_decision_def)

lemma any_unstamped_False:
  "any_unstamped gs = Inr False \<Longrightarrow> g \<in> set gs \<Longrightarrow> \<exists>ow. expected_ownership g = Inr (Some ow)"
  by (induction gs) (auto simp: bindE_Inr split: if_splits)

lemma expected_ownership_valid: "expected_ownership g = Inr (Some ow) \<Longrightarrow> ownership_valid ow"
  by (auto simp: expected_ownership_def stamp_of_def bindE_Inr Let_def split: json.splits option.splits if_splits)

lemma absent_vmids_set: "set (absent_vmids expected ob) = set expected - og_vmid ` set (ob_guests ob)"
  by (auto simp: absent_vmids_def)

lemma guests_by_vmid_None: "map_of (guests_by_vmid ob) i = None \<longleftrightarrow> i \<notin> og_vmid ` set (ob_guests ob)"
  by (simp add: guests_by_vmid_def map_of_dict_of map_of_eq_None_iff image_image)

text \<open>Past the first checks: what the decision has established before it looks at the guests.\<close>

lemma decided_observed:
  assumes "decide_reconciliation desired l ob outcome verification = Inr d" and "cd_action d \<noteq> CA_halt"
  obtains guests where "outcome \<noteq> PO_unknown" "ob_reachable ob" "field_truthy l ''sealed''"
    "desired_guests_of desired = Inr guests" "any_unstamped guests = Inr False"
    "ob_tofu_state_addresses ob \<noteq> None" "ob_observed_addresses ob \<noteq> None" "\<And>g. g \<in> set (ob_guests ob) \<Longrightarrow> og_tags g \<noteq> None"
    "\<And>r. verification = Some r \<Longrightarrow> vr_outcome r \<noteq> VO_isolation_failed"
    "decide_observed guests l ob verification = Inr d"
proof -
  obtain guests gaps where g: "outcome \<noteq> PO_unknown" "ob_reachable ob" "desired_guests_of desired = Inr guests"
    "observation_gaps guests ob = Inr gaps" "\<not> gaps" "field_truthy l ''sealed''"
    "\<not> (case verification of None \<Rightarrow> False | Some r \<Rightarrow> vr_outcome r = VO_isolation_failed)"
    "decide_observed guests l ob verification = Inr d"
    using assms by (auto simp: decide_reconciliation_def halt_Inr bindE_Inr split: if_splits)
  then show ?thesis
    by (intro that [of guests]) (auto simp: observation_gaps_def bindE_Inr list_ex_iff split: option.splits)
qed

lemma decide_observed_Inr:
  assumes "decide_observed guests l ob verification = Inr d" and "cd_action d \<noteq> CA_halt"
  obtains recorded foreign expected where "ledger_vmids l = Inr recorded" "mapE (guest_is_foreign ob) guests = Inr foreign"
    "True \<notin> set foreign" "mapE guest_vmid guests = Inr expected"
    "set (addresses_or_empty (ob_tofu_state_addresses ob)) \<subseteq> set (addresses_or_empty (ob_observed_addresses ob))"
    "d = (if absent_vmids expected ob = []
       then \<lparr>cd_action = CA_no_action, cd_outcome = (case verification of None \<Rightarrow> VO_verified | Some r \<Rightarrow> vr_outcome r),
         cd_reason = CR_converged, cd_create_vmids = []\<rparr>
       else \<lparr>cd_action = CA_resume_apply, cd_outcome = VO_verification_failed, cd_reason = CR_resources_proved_absent,
         cd_create_vmids = absent_vmids expected ob\<rparr>)"
    "set (absent_vmids expected ob) \<subseteq> set recorded"
  using assms
  by (auto simp: decide_observed_def bindE_Inr halt_Inr construct_decision_def Let_def split: if_splits)

lemma present_guest_owned:
  assumes foreign: "mapE (guest_is_foreign ob) guests = Inr fs" "True \<notin> set fs"
    and g: "g \<in> set guests" "guest_vmid g = Inr v" "expected_ownership g = Inr (Some ow)"
    and live: "map_of (guests_by_vmid ob) v = Some live"
  shows "is_owned_by_secp (og_tags live) ow = OP_secp_owned"
proof -
  obtain b where "b \<in> set fs" "guest_is_foreign ob g = Inr b" using mapE_mem [OF foreign(1) g(1)] by blast
  then show ?thesis using foreign(2) g live by (cases b) (auto simp: guest_is_foreign_def)
qed

end
