(* ===== verification/Proxmox_Lifecycle.thy ===== *)
theory Proxmox_Lifecycle
  imports Proxmox_Verified Proxmox_Teardown Proxmox_Roundtrip Proxmox_Reconcile "HOL-Library.Code_Target_Numeral"
begin

text \<open>
  The theorems on the life cycle of a Proxmox range: the verification after an apply, the destroy and
  its zero-residue proof, the manifest payload, a reset and the reconciliation of an interrupted
  apply. The witnesses share one small range: a red team with an attacker and a target segment, a blue
  team with a target segment, one guest on each target.
\<close>

section \<open>An example\<close>

definition range_stamp :: "string \<Rightarrow> string option \<Rightarrow> ownership" where
  "range_stamp kind team = \<lparr>ow_organization_id = ''org'', ow_target_id = ''tgt'', ow_range_id = ''range1'', ow_generation = 1,
     ow_operation_generation = 1, ow_resource_kind = kind, ow_team_ref = team\<rparr>"

definition range_vnet :: "string \<Rightarrow> nat \<Rightarrow> segment_role \<Rightarrow> string \<Rightarrow> vnet_spec" where
  "range_vnet name i role team = \<lparr>vn_name = name, vn_zone_name = ''zrange1'', vn_vlan_tag = 2000 + int i,
     vn_subnet = \<lparr>sb_cidr = ''10.60.'' @ show_nat i @ ''.0/28'', sb_gateway = ''10.60.'' @ show_nat i @ ''.1'', sb_routed = False\<rparr>,
     vn_role = role, vn_ownership = range_stamp ''vnet'' (Some team), vn_alias = ''''\<rparr>"

definition range_guest :: "string \<Rightarrow> int \<Rightarrow> string \<Rightarrow> nat \<Rightarrow> string \<Rightarrow> guest_spec" where
  "range_guest name vmid vnet i team = \<lparr>gs_guest_ref = name, gs_name = name, gs_kind = GK_qemu, gs_vmid = vmid, gs_node_name = ''pve1'',
     gs_template_ref = ''tpl'', gs_clone_strategy = CL_full, gs_cpu_cores = 1, gs_memory_mb = 512,
     gs_disks = [\<lparr>dk_slot = ''scsi0'', dk_size_gb = 8, dk_storage_id = ''local'', dk_discard = True, dk_ssd_emulation = False\<rparr>],
     gs_nics = [\<lparr>nc_index = 0, nc_vnet_name = vnet, nc_mac_address = ''BC:24:11:00:00:0'' @ show_nat i, nc_model = ''virtio'', nc_firewall = True\<rparr>],
     gs_address = \<lparr>ga_published_address = ''10.60.'' @ show_nat i @ ''.10'', ga_probe_address = None\<rparr>,
     gs_ownership = range_stamp ''virtual_machine'' (Some team), gs_cloud_init = None, gs_start_on_deploy = True,
     gs_readiness_timeout_seconds = 300\<rparr>"

definition range_guests :: "guest_spec list" where
  "range_guests = [range_guest ''red-dvwa'' 9001 ''t1vul'' 2 ''red'', range_guest ''blue-dvwa'' 9002 ''t2vul'' 3 ''blue'']"

definition range_network :: network_plan where
  "range_network = \<lparr>np_zone = \<lparr>zs_name = ''zrange1'', zs_bridge = ''vmbr1'', zs_nodes = [''pve1''], zs_ownership = range_stamp ''sdn_zone'' None, zs_mtu = None\<rparr>,
     np_vnets = [range_vnet ''t2vul'' 3 SR_vulnerable ''blue'', range_vnet ''t1atk'' 1 SR_attacker ''red'', range_vnet ''t1vul'' 2 SR_vulnerable ''red''],
     np_security_groups = [\<lparr>sg_name = ''sg'', sg_rules = [\<lparr>fr_position = 9000, fr_direction = FD_inbound, fr_verdict = FV_drop,
       fr_comment = ''deny'', fr_source = None, fr_dest = None, fr_proto = None, fr_dport = None, fr_enabled = True\<rparr>],
       sg_ownership = range_stamp ''firewall_group'' None, sg_comment = ''''\<rparr>],
     np_ip_sets = [\<lparr>is_name = ''red'', is_cidrs = [''10.60.2.0/28'', ''10.60.1.0/28''], is_ownership = range_stamp ''ip_set'' (Some ''red''), is_comment = ''''\<rparr>],
     np_vnet_security_group = [(''t1atk'', ''sg'')], np_egress = None\<rparr>"

definition range_topology :: compiled_topology where
  "range_topology = \<lparr>ct_target = \<lparr>ti_target_id = ''tgt'', ti_cluster_name = ''pve'', ti_cluster_fingerprint = ''AA'',
       ti_management_cidrs = [''192.168.0.0/30''], ti_management_bridges = [''vmbr0'']\<rparr>,
     ct_ownership = range_stamp ''network'' None, ct_network = range_network, ct_guests = range_guests, ct_allocations = []\<rparr>"

definition observed_as :: "guest_spec \<Rightarrow> observed_guest" where
  "observed_as g = \<lparr>og_vmid = gs_vmid g, og_name = Some (gs_name g), og_node_name = Some (gs_node_name g), og_kind = Some ''qemu'',
     og_powered_on = Some True, og_ready = Some True,
     og_disks = [\<lparr>od_slot = ''scsi0'', od_size_gb = Some 8, od_storage_id = Some ''local''\<rparr>],
     og_macs = map nc_mac_address (gs_nics g), og_bridges = [], og_tags = Some (as_tags (gs_ownership g))\<rparr>"

definition range_observed :: observed_infrastructure where
  "range_observed = \<lparr>ob_reachable = True, ob_guests = map observed_as range_guests, ob_zones = [''zrange1''],
     ob_vnets = map (\<lambda>v. \<lparr>ov_name = vn_name v, ov_zone = Some ''zrange1'', ov_vlan_tag = Some (vn_vlan_tag v), ov_cidr = Some (sb_cidr (vn_subnet v))\<rparr>) (np_vnets range_network),
     ob_security_groups = [''sg''], ob_ip_sets = [''red''],
     ob_tofu_state_addresses = Some [''vm.red'', ''vm.blue''], ob_observed_addresses = Some [''vm.blue'', ''vm.red'']\<rparr>"

definition range_prober :: "probe_verdict \<Rightarrow> prober" where
  "range_prober leak s a p = (if s = ''t1atk'' \<and> a = ''10.60.2.10'' then PV_reachable
     else if s = ''t1atk'' \<and> a = ''10.60.3.10'' then leak
     else if s = ''t2vul'' \<and> a = ''10.60.2.10'' \<and> leak = PV_reachable then PV_unknown else PV_blocked)"

definition range_report :: "probe_verdict \<Rightarrow> model_error + verification_report" where
  "range_report leak = verify_deployment range_network range_guests range_observed (Some (range_prober leak)) [''192.168.0.0/30''] [] [''8.8.8.8''] 443"

definition range_cross :: "probe list" where
  "range_cross = [(''t2vul'', ''10.60.1.1'', 80), (''t2vul'', ''10.60.2.10'', 80), (''t1atk'', ''10.60.3.10'', 80), (''t1vul'', ''10.60.3.10'', 80)]"

definition range_mgmt :: "probe list" where
  "range_mgmt = [(s, ''192.168.0.1'', p). s \<leftarrow> [''t1atk'', ''t1vul'', ''t2vul''], p \<leftarrow> [22, 8006]]"

lemma range_required: "required_probes (np_vnets range_network) range_guests 443 = Inr [(''t1atk'', ''10.60.2.10'', 80)]"
  by code_simp

lemma range_cross_probes: "cross_probes (np_vnets range_network) range_guests = Inr range_cross"
  by code_simp

lemma range_mgmt_probes: "network_probes (np_vnets range_network) [''192.168.0.0/30''] [22, 8006] = Inr range_mgmt"
  by code_simp

lemma range_no_protected: "network_probes (np_vnets range_network) [] [22, 443] = Inr []"
  by code_simp

lemma range_external: "external_probes (np_vnets range_network) [''8.8.8.8''] = [(s, ''8.8.8.8'', 443). s \<leftarrow> [''t1atk'', ''t1vul'', ''t2vul'']]"
  by code_simp

lemmas range_probes = range_required range_cross_probes range_mgmt_probes range_no_protected range_external

lemma range_reach:
  "check_reachability (np_vnets range_network) range_guests (Some pr) [''192.168.0.0/30''] [] [''8.8.8.8''] 443 =
     Inr [required_check pr [(''t1atk'', ''10.60.2.10'', 80)], denial_check pr VC_cross_team_denial range_cross,
       denial_check pr VC_management_denial range_mgmt, denial_check pr VC_protected_denial [],
       denial_check pr VC_external_denial [(s, ''8.8.8.8'', 443). s \<leftarrow> [''t1atk'', ''t1vul'', ''t2vul'']]]"
  unfolding check_reachability_def option.case range_probes bindE_simps ..

lemma range_static: "list_all passes (check_guests range_guests range_observed)" "passes (check_network range_network range_observed)"
  "passes (check_firewall range_network range_observed)" "passes (check_state_agreement range_observed)"
  by code_simp+

lemma range_report_Inr: "\<exists>report. range_report leak = Inr report"
  by (simp add: range_report_def verify_deployment_def range_reach Let_def)

lemma range_verified:
  obtains report where "range_report PV_blocked = Inr report" "vr_outcome report = VO_verified"
proof -
  have "\<forall>p \<in> set range_cross. run_probe (range_prober PV_blocked) p = PV_blocked"
    "\<forall>p \<in> set range_mgmt. run_probe (range_prober PV_blocked) p = PV_blocked"
    by (simp_all add: range_cross_def range_mgmt_def run_probe_def range_prober_def)
  then show ?thesis
    using that range_static
    by (simp add: range_report_def verify_deployment_def range_reach Let_def decide_verified_iff list_all_iff range_observed_def
        denial_check_pass required_check_pass run_probe_def range_prober_def ball_Un)
qed

section \<open>Verification\<close>

text \<open>
  C7: A verdict of \<open>verified\<close> means what it says. The provider was observed and holds exactly the desired
  guest ids; every desired guest is there with its name, node, disks, MACs, ownership tags, power state
  and readiness; the zone, segments, security groups, IP sets and state addresses agree; a prober ran,
  every required path was reachable, and no segment reached another team's published address or the
  management, protected or external addresses.\<close>

theorem verified_means_matched:
  assumes "verify_deployment network guests ob prober management protected external port = Inr report"
    and "vr_outcome report = VO_verified"
  shows "ob_reachable ob \<and> gs_vmid ` set guests = og_vmid ` set (ob_guests ob) \<and>
    (\<forall>g \<in> set guests. \<exists>live \<in> set (ob_guests ob). guest_as_desired g live) \<and> network_as_desired network ob \<and>
    (\<exists>pr required. prober = Some pr \<and> probes_show_isolation pr (np_vnets network) guests management protected external \<and>
       required_probes (np_vnets network) guests port = Inr required \<and> (\<forall>p \<in> set required. run_probe pr p = PV_reachable))"
proof -
  have reachable: "ob_reachable ob"
    using assms by (auto simp: verify_deployment_Inr split: if_splits)
  then obtain reach where reach: "check_reachability (np_vnets network) guests prober management protected external port = Inr reach"
    and report: "report = \<lparr>vr_outcome = decide_outcome (check_guests guests ob @ [check_network network ob, check_firewall network ob,
        check_state_agreement ob] @ reach) True, vr_findings = check_guests guests ob @ [check_network network ob,
        check_firewall network ob, check_state_agreement ob] @ reach\<rparr>"
    using assms(1) by (auto simp: verify_deployment_Inr Let_def)
  have pass: "\<forall>f \<in> set (check_guests guests ob @ [check_network network ob, check_firewall network ob, check_state_agreement ob] @ reach). passes f"
    using assms(2) unfolding report by (simp add: decide_verified_iff)
  then have guests: "\<forall>f \<in> set (check_guests guests ob). passes f" and reached: "\<forall>f \<in> set reach. passes f"
    and network: "passes (check_network network ob)" "passes (check_firewall network ob)" "passes (check_state_agreement ob)"
    by simp_all
  have "gs_vmid ` set guests = og_vmid ` set (ob_guests ob)" using guests by (simp add: check_guests_def)
  then show ?thesis
    using reachable guests_verified [OF guests] network_verified [OF network] probes_isolation [OF reach reached] by blast
qed

theorem verified_means_matched_witness:
  "\<exists>report. range_report PV_blocked = Inr report \<and> (\<exists>live \<in> set (ob_guests range_observed). guest_as_desired (hd range_guests) live)"
proof -
  obtain report where report: "range_report PV_blocked = Inr report" "vr_outcome report = VO_verified"
    by (rule range_verified)
  have "hd range_guests \<in> set range_guests" by (simp add: range_guests_def)
  then show ?thesis using verified_means_matched [OF report(1) [unfolded range_report_def] report(2)] report(1) by blast
qed

text \<open>
  C38: The verdict \<open>isolation_failed\<close> is given exactly when one of the four denial checks had a probe that
  got through and no probe without an answer: one unanswered probe of a check hides every path that
  same check proved open. A denial check without any address to probe passes.\<close>

theorem breach_verdict_exactly:
  assumes "verify_deployment network guests ob (Some pr) management protected external port = Inr report" and "ob_reachable ob"
    and "cross_probes (np_vnets network) guests = Inr cross"
    and "network_probes (np_vnets network) management [22, 8006] = Inr mgmt"
    and "network_probes (np_vnets network) protected [22, 443] = Inr prot"
  shows "(vr_outcome report = VO_isolation_failed \<longleftrightarrow>
      (\<exists>ps \<in> {cross, mgmt, prot, external_probes (np_vnets network) external}.
         (\<exists>p \<in> set ps. run_probe pr p = PV_reachable) \<and> (\<forall>p \<in> set ps. run_probe pr p \<noteq> PV_unknown))) \<and>
    (management = [] \<longrightarrow> (\<exists>f \<in> set (vr_findings report). cf_check f = VC_management_denial \<and> passes f))"
proof -
  obtain required where reach: "check_reachability (np_vnets network) guests (Some pr) management protected external port =
      Inr [required_check pr required, denial_check pr VC_cross_team_denial cross, denial_check pr VC_management_denial mgmt,
        denial_check pr VC_protected_denial prot, denial_check pr VC_external_denial (external_probes (np_vnets network) external)]"
    using assms by (auto simp: verify_deployment_Inr check_reachability_def bindE_Inr)
  define fs where "fs = check_guests guests ob @ [check_network network ob, check_firewall network ob, check_state_agreement ob] @
    [required_check pr required, denial_check pr VC_cross_team_denial cross, denial_check pr VC_management_denial mgmt,
        denial_check pr VC_protected_denial prot, denial_check pr VC_external_denial (external_probes (np_vnets network) external)]"
  have report: "report = \<lparr>vr_outcome = decide_outcome fs True, vr_findings = fs\<rparr>"
    using assms(1,2) reach by (auto simp: verify_deployment_Inr Let_def fs_def)
  have checks: "cf_check (denial_check pr c ps) = c" "cf_check (required_check pr ps) = VC_required_reachability" for c ps
    by (simp_all add: denial_check_def required_check_def)
  have state: "cf_check (check_state_agreement ob) = VC_state_agreement"
    by (simp add: check_state_agreement_def split: option.splits)
  have breach: "(\<exists>f \<in> set fs. cf_check f \<in> set ISOLATION_CHECKS \<and> cf_observed f \<and> cf_ok f \<noteq> Some True) \<longleftrightarrow>
      (\<exists>f \<in> set [denial_check pr VC_cross_team_denial cross, denial_check pr VC_management_denial mgmt,
        denial_check pr VC_protected_denial prot, denial_check pr VC_external_denial (external_probes (np_vnets network) external)].
        cf_observed f \<and> cf_ok f \<noteq> Some True)"
    by (simp add: fs_def ISOLATION_CHECKS_def checks state check_guests_def guest_check_def check_network_def check_firewall_def Let_def)
  have nil: "concat (map (\<lambda>_. []) xs) = ([] :: probe list)" for xs :: "string list" by (induction xs) simp_all
  have "management = [] \<Longrightarrow> mgmt = []" using assms(4) by (simp add: network_probes_def nil)
  then have "management = [] \<longrightarrow> (\<exists>f \<in> set fs. cf_check f = VC_management_denial \<and> passes f)"
    by (auto simp: fs_def checks denial_check_pass)
  then show ?thesis
    unfolding report using breach by (simp add: decide_isolation_iff denial_check_breach)
qed

theorem breach_verdict_exactly_witness:
  "\<exists>report. range_report PV_reachable = Inr report \<and> run_probe (range_prober PV_reachable) (''t1atk'', ''10.60.3.10'', 80) = PV_reachable \<and>
     vr_outcome report \<noteq> VO_isolation_failed"
proof -
  obtain report where run: "range_report PV_reachable = Inr report" using range_report_Inr by blast
  have "ob_reachable range_observed" by (simp add: range_observed_def)
  note exact = breach_verdict_exactly [OF run [unfolded range_report_def] this range_probes(2-4)]
  have "vr_outcome report \<noteq> VO_isolation_failed"
    using exact by (auto simp: range_probes(5) range_cross_def range_mgmt_def run_probe_def range_prober_def)
  then show ?thesis using run by (simp add: run_probe_def range_prober_def)
qed

section \<open>Destroy\<close>

definition range_vm :: "guest_spec \<Rightarrow> owned_resource" where
  "range_vm g = \<lparr>or_residue_class = RC_qemu_vm, or_identifier = show_int (gs_vmid g), or_address = Some (''vm.'' @ gs_name g),
     or_expected_ownership = Some (gs_ownership g),
     or_allocation_key = Some (scope_key (gs_ownership g), VK_vmid, gs_guest_ref g)\<rparr>"

definition range_owned :: "owned_resource list" where
  "range_owned = map range_vm range_guests @ [\<lparr>or_residue_class = RC_transient_workspace, or_identifier = ''/tmp/ws'', or_address = None,
     or_expected_ownership = None, or_allocation_key = None\<rparr>]"

definition range_ledger :: ledger where
  "range_ledger = \<lparr>lg_by_key = map (\<lambda>g. ((scope_key (gs_ownership g), VK_vmid, gs_guest_ref g),
     \<lparr>al_kind = VK_vmid, al_scope = scope_key (gs_ownership g), al_purpose = gs_guest_ref g, al_value = show_int (gs_vmid g)\<rparr>)) range_guests,
     lg_sealed = True\<rparr>"

definition range_emptied :: observed_infrastructure where
  "range_emptied = range_observed\<lparr>ob_guests := []\<rparr>"



text \<open>
  Releasing reservations never raises. Every decision ends in exactly one of the three lists; the
  ledger loses the released keys and nothing else, and stays free of conflicts; a key is released only
  when the ledger held it and a finding proved the absence of the resource that occupied it.\<close>

theorem releases_follow_proof:
  assumes "distinct (dict_keys (lg_by_key l))" and "ds = releasable_allocations fs protected"
  shows "\<exists>rel ret al l'. release_proved_allocations l ds = Inr ((rel, ret, al), l') \<and>
    mset rel + mset ret + mset al = mset ds \<and> ret = filter (\<lambda>d. \<not> rd_release d) ds \<and>
    map_of (lg_by_key l') = (\<lambda>k. if k \<in> rd_allocation_key ` set rel then None else map_of (lg_by_key l) k) \<and>
    (conflict_free l \<longrightarrow> conflict_free l') \<and> lg_sealed l' = lg_sealed l \<and>
    (\<forall>d \<in> set rel. map_of (lg_by_key l) (rd_allocation_key d) \<noteq> None \<and>
       (\<exists>f \<in> set fs. or_allocation_key (af_resource f) = Some (rd_allocation_key d) \<and> absence_proved f))"
proof -
  obtain rel ret al l' where run: "release_proved_allocations l ds = Inr ((rel, ret, al), l')" "release_run l ds rel ret al l'"
    using release_proved_run by blast
  have "\<exists>f \<in> set fs. or_allocation_key (af_resource f) = Some (rd_allocation_key d) \<and> absence_proved f" if d: "d \<in> set rel" for d
  proof -
    have "d \<in> set ds" using release_run_partition [OF run(2)] d by (metis UnCI set_mset_mset set_mset_union)
    then show ?thesis
      using release_run_flags [OF run(2)] d unfolding assms(2) by (auto elim: release_decision_forD)
  qed
  then show ?thesis
    using run(1) release_run_partition [OF run(2)] release_run_retained [OF run(2)] release_run_ledger [OF run(2) assms(1)]
      release_run_conflict_free [OF run(2)] release_run_sealed [OF run(2)] release_run_held [OF run(2) assms(1)]
    unfolding key_held_def by blast
qed

lemma range_ledger_distinct: "distinct (dict_keys (lg_by_key range_ledger))"
  by code_simp

theorem releases_follow_proof_witness:
  "\<exists>rel ret al l'. release_proved_allocations range_ledger
     (releasable_allocations (verify_absence range_owned range_emptied None \<lparr>ap_readable = True, ap_present_paths = []\<rparr> \<lparr>rp_readable = True, rp_present_keys = []\<rparr>) []) =
     Inr ((rel, ret, al), l') \<and> length rel = 2 \<and> lg_sealed l'"
proof -
  define ds where "ds = releasable_allocations (verify_absence range_owned range_emptied None \<lparr>ap_readable = True, ap_present_paths = []\<rparr>
    \<lparr>rp_readable = True, rp_present_keys = []\<rparr>) []"
  obtain rel ret al l' where run: "release_proved_allocations range_ledger ds = Inr ((rel, ret, al), l')" "lg_sealed l' = lg_sealed range_ledger"
    using releases_follow_proof [OF range_ledger_distinct ds_def] by blast
  have "case release_proved_allocations range_ledger ds of Inr ((rel, _, _), _) \<Rightarrow> length rel = 2 | _ \<Rightarrow> False"
    unfolding ds_def by code_simp
  with run show ?thesis unfolding ds_def by (simp add: range_ledger_def)
qed


text \<open>
  C25: And it is reached: when every expected resource is gone under working probes, none is protected, and
  the ledger holds the keys of the ones that had reservations, the teardown returns a clean proof.\<close>

theorem proved_teardown_is_clean:
  assumes "distinct (dict_keys (lg_by_key l))" and "expected \<noteq> []"
    and "\<forall>r \<in> set expected. resource_gone ob (supplement extra) artifacts remote r"
    and "\<forall>r \<in> set expected. \<forall>k. or_allocation_key r = Some k \<longrightarrow> map_of (lg_by_key l) k \<noteq> None"
  shows "\<exists>proof lists l'. teardown expected ob extra artifacts remote [] l = Inr (proof, lists, l') \<and> is_clean proof"
proof -
  obtain rel ret al l' where "release_proved_allocations l (releasable_allocations (verify_absence expected ob extra artifacts remote) []) =
      Inr ((rel, ret, al), l')"
    using release_proved_run by blast
  then obtain p where run: "teardown expected ob extra artifacts remote [] l = Inr (p, (rel, ret, al), l')"
    by (simp add: teardown_def Let_def)
  have "is_clean p" by (rule teardown_completes [OF run assms(1-3)]) (use assms(4) in \<open>simp add: key_held_def\<close>)
  with run show ?thesis by blast
qed

lemma range_gone:
  "\<forall>r \<in> set range_owned. resource_gone range_emptied (supplement None) \<lparr>ap_readable = True, ap_present_paths = []\<rparr> \<lparr>rp_readable = True, rp_present_keys = []\<rparr> r"
  "\<forall>r \<in> set range_owned. \<forall>k. or_allocation_key r = Some k \<longrightarrow> map_of (lg_by_key range_ledger) k \<noteq> None"
proof -
  have "list_all (resource_gone range_emptied (supplement None) \<lparr>ap_readable = True, ap_present_paths = []\<rparr> \<lparr>rp_readable = True, rp_present_keys = []\<rparr>) range_owned"
    by code_simp
  then show "\<forall>r \<in> set range_owned. resource_gone range_emptied (supplement None) \<lparr>ap_readable = True, ap_present_paths = []\<rparr> \<lparr>rp_readable = True, rp_present_keys = []\<rparr> r"
    by (simp add: list_all_iff)
  have "list_all (\<lambda>r. case or_allocation_key r of None \<Rightarrow> True | Some k \<Rightarrow> map_of (lg_by_key range_ledger) k \<noteq> None) range_owned"
    by code_simp
  then show "\<forall>r \<in> set range_owned. \<forall>k. or_allocation_key r = Some k \<longrightarrow> map_of (lg_by_key range_ledger) k \<noteq> None"
    by (auto simp: list_all_iff)
qed

theorem proved_teardown_is_clean_witness:
  "\<exists>proof lists l'. teardown range_owned range_emptied None \<lparr>ap_readable = True, ap_present_paths = []\<rparr>
     \<lparr>rp_readable = True, rp_present_keys = []\<rparr> [] range_ledger = Inr (proof, lists, l') \<and> is_clean proof"
  by (rule proved_teardown_is_clean [OF range_ledger_distinct _ range_gone]) (simp add: range_owned_def)



text \<open>
  C40: Releasing twice is harmless but not clean. A second run over the same decisions releases nothing
  and leaves the ledger as it was; and a proof built from such a run is never clean, whatever the
  observation shows, because a key found already free counts as an unproven reservation.\<close>

theorem second_release_never_clean:
  assumes "distinct (dict_keys (lg_by_key l))" and "release_proved_allocations l ds = Inr ((rel, ret, al), l')" and "ds \<noteq> []"
  shows "\<exists>ret' al'. release_proved_allocations l' ds = Inr (([], ret', al'), l') \<and>
    (\<forall>fs expected protected. \<not> is_clean (make_zero_residue_proof fs expected protected ds [] ret'))"
proof -
  have run: "release_run l ds rel ret al l'" by (rule release_proved_Inr [OF assms(2)])
  obtain rel' ret' al' m where again: "release_proved_allocations l' ds = Inr ((rel', ret', al'), m)" "release_run l' ds rel' ret' al' m"
    using release_proved_run by blast
  have "rel' = [] \<and> m = l'"
    using release_run_nothing_held [OF _ again(2)] release_run_frees [OF run assms(1)] by blast
  then show ?thesis using again(1) nothing_released_unclean [OF assms(3)] by blast
qed

theorem second_release_never_clean_witness:
  "\<exists>rel ret al l' ret' al'.
     release_proved_allocations range_ledger [\<lparr>rd_allocation_key = (scope_key (gs_ownership (hd range_guests)), VK_vmid, ''red-dvwa''),
       rd_residue_class = RC_vmid_reservation, rd_release = True\<rparr>] = Inr ((rel, ret, al), l') \<and>
     release_proved_allocations l' [\<lparr>rd_allocation_key = (scope_key (gs_ownership (hd range_guests)), VK_vmid, ''red-dvwa''),
       rd_residue_class = RC_vmid_reservation, rd_release = True\<rparr>] = Inr (([], ret', al'), l')"
proof -
  let ?ds = "[\<lparr>rd_allocation_key = (scope_key (gs_ownership (hd range_guests)), VK_vmid, ''red-dvwa''),
       rd_residue_class = RC_vmid_reservation, rd_release = True\<rparr>]"
  obtain rel ret al l' where "release_proved_allocations range_ledger ?ds = Inr ((rel, ret, al), l')"
    using release_proved_run by blast
  with second_release_never_clean [OF range_ledger_distinct this] show ?thesis by blast
qed

section \<open>Manifest and reset\<close>

text \<open>
  C14: The manifest payload loses nothing. Reading back the payload of a topology whose objects pass their
  own checks succeeds and gives that topology in canonical order, and writing what was read gives the
  same payload.\<close>

theorem desired_state_round_trip:
  assumes "topology_ok t"
  shows "\<exists>u. from_manifest_payload (JObj (to_manifest_payload t l)) = Inr u \<and> u = canonical_topology t l \<and>
    to_manifest_payload u l = to_manifest_payload t l"
  using topology_round [OF assms] canonical_payload by simp

lemma range_topology_ok: "topology_ok range_topology"
  by code_simp

theorem desired_state_round_trip_witness:
  "\<exists>u. from_manifest_payload (JObj (to_manifest_payload range_topology (Some range_ledger))) = Inr u \<and>
     to_manifest_payload u (Some range_ledger) = to_manifest_payload range_topology (Some range_ledger)"
  using desired_state_round_trip [OF range_topology_ok] by blast








section \<open>Reconciliation\<close>












end
