(* ===== verification/Proxmox_Workload.thy ===== *)
theory Proxmox_Workload
  imports Proxmox_Isolation
begin

text \<open>
  The workload compiler (\<open>apps/api/secp_api/range_providers/proxmox_workload.py\<close>) with the catalog
  types it reads (\<open>range_catalog.py\<close>): reviewed images become one guest per team and workload on the
  segments of a compiled network, with the contract of each guest's bootstrap; the readiness check of
  the result; and the search for secrets in a payload. The ledger and the request log are threaded as
  in the network compiler. \<open>WorkloadError\<close> is a \<open>ProxmoxModelError\<close>, so it is \<open>Model_error\<close>. The detail
  text of a readiness finding is not kept; that of a missing prerequisite is.
\<close>

section \<open>The catalog (range_catalog.py)\<close>

datatype component_role = CR_target | CR_scoring | CR_support

record catalog_flag =
  cf_value :: string
  cf_label :: string
  cf_case_sensitive :: bool

record catalog_challenge =
  cc_key :: string
  cc_title :: string
  cc_description :: string
  cc_category :: string
  cc_points :: int
  cc_component_key :: string
  cc_flags :: "catalog_flag list"
  cc_hint :: "string option"
  cc_max_attempts :: int

record catalog_component =
  cp_key :: string
  cp_name :: string
  cp_role :: component_role
  cp_image :: string
  cp_container_port :: "int option"
  cp_protocol :: string
  cp_path :: string
  cp_env :: "(string, string) dict"
  cp_readiness_timeout_seconds :: int

record catalog_template =
  ctp_slug :: string
  ctp_name :: string
  ctp_summary :: string
  ctp_description :: string
  ctp_provider :: string
  ctp_difficulty :: string
  ctp_estimated_deploy_seconds :: int
  ctp_warning :: string
  ctp_components :: "catalog_component list"
  ctp_challenges :: "catalog_challenge list"

section \<open>Requests\<close>

definition STORAGE_CONTENT_IMAGES :: string where "STORAGE_CONTENT_IMAGES = ''images''"
definition MAX_BOOTSTRAP_OPERATIONS :: nat where "MAX_BOOTSTRAP_OPERATIONS = 10"
definition ATTACKER_WORKLOAD_KEY :: string where "ATTACKER_WORKLOAD_KEY = ''attacker''"
definition MAX_NAME_PART :: nat where "MAX_NAME_PART = 16"

definition FLOATING_TAGS :: "string list" where
  "FLOATING_TAGS = [''latest'', ''main'', ''master'', ''stable'', ''edge'', '''', ''dev'', ''nightly'']"

definition hex_lower :: "char \<Rightarrow> bool" where
  "hex_lower c \<longleftrightarrow> is_digit c \<or> 97 \<le> (of_char c :: nat) \<and> (of_char c :: nat) \<le> 102"

text \<open>The two character classes exclude the colon, so the first colon is the separator.\<close>

definition DIGEST_RE :: "string \<Rightarrow> bool" where
  "DIGEST_RE = at_end (\<lambda>s. let algorithm = takeWhile (\<lambda>c. c \<noteq> CHR '':'') s; digest = drop (length algorithm + 1) s in
     algorithm \<noteq> [] \<and> list_all (\<lambda>c. is_lower c \<or> is_digit c) algorithm \<and> length algorithm < length s \<and>
     32 \<le> length digest \<and> length digest \<le> 128 \<and> list_all hex_lower digest)"

datatype workload_role = WR_attacker | WR_target | WR_sensor

fun workload_role_value :: "workload_role \<Rightarrow> string" where
  "workload_role_value WR_attacker = ''attacker''"
| "workload_role_value WR_target = ''target''"
| "workload_role_value WR_sensor = ''sensor''"

fun ROLE_SEGMENT :: "workload_role \<Rightarrow> segment_role" where
  "ROLE_SEGMENT WR_attacker = SR_attacker"
| "ROLE_SEGMENT WR_target = SR_vulnerable"
| "ROLE_SEGMENT WR_sensor = SR_sensor"

datatype material_scope = MS_range | MS_team | MS_guest

fun material_scope_value :: "material_scope \<Rightarrow> string" where
  "material_scope_value MS_range = ''range''"
| "material_scope_value MS_team = ''team''"
| "material_scope_value MS_guest = ''guest''"

record material_ref =
  mr_ref :: string
  mr_scope :: material_scope
  mr_purpose :: string
  mr_channel :: string

definition material_post_init :: "material_ref \<Rightarrow> model_error + unit" where
  "material_post_init m = require (mr_ref m \<noteq> [] \<and> mr_purpose m \<noteq> [] \<and> mr_channel m \<noteq> [])"

record bootstrap_operation =
  bo_key :: string
  bo_description :: string
  bo_timeout_seconds :: int

definition bootstrap_operation_post_init :: "bootstrap_operation \<Rightarrow> model_error + unit" where
  "bootstrap_operation_post_init p =
     bindE (require (bo_key p \<noteq> [] \<and> bo_description p \<noteq> [])) (\<lambda>_. require (0 < bo_timeout_seconds p))"

record reviewed_image =
  ri_workload_key :: string
  ri_role :: workload_role
  ri_template_ref :: string
  ri_workload_version :: string
  ri_image_digest :: string
  ri_approval_reference :: string
  ri_guest_kind :: guest_kind_t
  ri_clone_strategy :: clone_strategy
  ri_service_port :: int

definition reviewed_image_post_init :: "reviewed_image \<Rightarrow> model_error + unit" where
  "reviewed_image_post_init i =
     bindE (require (ri_workload_key i \<noteq> [])) (\<lambda>_.
     bindE (require (lower (ri_workload_version i) \<notin> set FLOATING_TAGS)) (\<lambda>_.
     bindE (require (DIGEST_RE (ri_image_digest i))) (\<lambda>_.
       require (ri_approval_reference i \<noteq> []))))"

record guest_profile =
  gp_cpu_cores :: int
  gp_memory_mb :: int
  gp_disk_gb :: int
  gp_disk_slot :: string

definition guest_profile_post_init :: "guest_profile \<Rightarrow> model_error + unit" where
  "guest_profile_post_init p = require (0 < gp_cpu_cores p \<and> 0 < gp_memory_mb p \<and> 0 < gp_disk_gb p)"

record workload_request =
  wq_organization_id :: string
  wq_target_id :: string
  wq_range_id :: string
  wq_generation :: int
  wq_operation_generation :: int
  wq_template :: catalog_template
  wq_team_refs :: "string list"
  wq_images :: "reviewed_image list"
  wq_profiles :: "(workload_role, guest_profile) dict"
  wq_cloud_init_user :: string
  wq_ssh_authorized_keys :: "string list"
  wq_bootstrap_operations :: "bootstrap_operation list"
  wq_material_channel :: string
  wq_placement :: "(string, string) dict"
  wq_bootstrap_deadline_seconds :: int
  wq_scoring_port :: int
  wq_pools :: ipam_pools

definition workload_request_post_init :: "workload_request \<Rightarrow> model_error + unit" where
  "workload_request_post_init r =
     bindE (require (2 \<le> length (wq_team_refs r))) (\<lambda>_.
     bindE (require (distinct (wq_team_refs r))) (\<lambda>_.
     bindE (require (length (wq_bootstrap_operations r) \<le> MAX_BOOTSTRAP_OPERATIONS)) (\<lambda>_.
     bindE (require (distinct (map bo_key (wq_bootstrap_operations r)))) (\<lambda>_.
       require (distinct (map ri_workload_key (wq_images r)))))))"

text \<open>A request as a caller can hold one: every part passed its own constructor's checks.\<close>

definition workload_request_valid :: "workload_request \<Rightarrow> bool" where
  "workload_request_valid r \<longleftrightarrow> workload_request_post_init r = Inr () \<and>
     list_all (\<lambda>i. reviewed_image_post_init i = Inr ()) (wq_images r) \<and>
     list_all (\<lambda>p. guest_profile_post_init p = Inr ()) (map snd (wq_profiles r)) \<and>
     list_all (\<lambda>p. bootstrap_operation_post_init p = Inr ()) (wq_bootstrap_operations r) \<and>
     pools_post_init (wq_pools r) = Inr ()"

definition request_image :: "workload_request \<Rightarrow> string \<Rightarrow> reviewed_image option" where
  "request_image r key = find (\<lambda>i. ri_workload_key i = key) (wq_images r)"

record bootstrap_contract =
  bc_guest_ref :: string
  bc_vmid :: int
  bc_team_ref :: string
  bc_workload_key :: string
  bc_workload_version :: string
  bc_image_digest :: string
  bc_operations :: "bootstrap_operation list"
  bc_attestation_ref :: material_ref
  bc_report_address :: string
  bc_report_port :: int
  bc_deadline_seconds :: int
  bc_probe_address :: "string option"
  bc_probe_port :: "int option"

definition deadline_covers_operations :: "bootstrap_contract \<Rightarrow> bool" where
  "deadline_covers_operations c \<longleftrightarrow> sum_list (map bo_timeout_seconds (bc_operations c)) \<le> bc_deadline_seconds c"

record workload_plan =
  wp_topology :: compiled_topology
  wp_bootstrap :: "bootstrap_contract list"
  wp_materials :: "material_ref list"
  wp_scoring_endpoints :: "(string \<times> string \<times> int) list"
  wp_challenge_keys :: "string list"

definition plan_contract :: "workload_plan \<Rightarrow> string \<Rightarrow> bootstrap_contract option" where
  "plan_contract p ref = find (\<lambda>c. bc_guest_ref c = ref) (wp_bootstrap p)"

section \<open>Choosing names, nodes, storages and segments\<close>

definition KIND_VIRTUAL_MACHINE :: string where "KIND_VIRTUAL_MACHINE = ''virtual_machine''"

definition workload_ownership :: "workload_request \<Rightarrow> string option \<Rightarrow> string \<Rightarrow> ownership" where
  "workload_ownership r team kind = \<lparr>ow_organization_id = wq_organization_id r, ow_target_id = wq_target_id r,
     ow_range_id = wq_range_id r, ow_generation = wq_generation r,
     ow_operation_generation = wq_operation_generation r, ow_resource_kind = kind, ow_team_ref = team\<rparr>"

definition workload_keys :: "catalog_template \<Rightarrow> string list" where
  "workload_keys t = map cp_key (filter (\<lambda>c. cp_role c = CR_target) (ctp_components t))"

definition guest_ref :: "string \<Rightarrow> string \<Rightarrow> string" where
  "guest_ref team key = team @ ''/'' @ key"

definition strip_dashes :: "string \<Rightarrow> string" where
  "strip_dashes s = rev (dropWhile (\<lambda>c. c = CHR ''-'') (rev (dropWhile (\<lambda>c. c = CHR ''-'') s)))"

definition name_part :: "string \<Rightarrow> string" where
  "name_part part = strip_dashes (take MAX_NAME_PART
     (map (\<lambda>c. if is_lower c \<or> is_digit c \<or> c = CHR ''-'' then c else CHR ''-'') (lower part)))"

text \<open>\<open>name[0].isalpha()\<close> is asked of a character a name part can hold.\<close>

definition guest_name :: "string \<Rightarrow> string \<Rightarrow> string \<Rightarrow> string" where
  "guest_name range_id team key =
     (let name = join ''-'' (filter (\<lambda>p. p \<noteq> []) (map name_part [range_id, team, key]));
          name' = (if name = [] \<or> \<not> is_lower (hd name) then CHR ''g'' # name else name)
      in rev (dropWhile (\<lambda>c. c = CHR ''-'') (rev (take 63 name'))))"

definition accepts_images :: "storage_observation \<Rightarrow> bool" where
  "accepts_images s \<longleftrightarrow> STORAGE_CONTENT_IMAGES \<in> set (so_content_types s)"

definition eligible_nodes :: "target_observation \<Rightarrow> string list" where
  "eligible_nodes obs = sort (map no_node_name (filter (\<lambda>n. list_ex accepts_images (no_storages n)) (online_nodes obs)))"

definition storage_for :: "target_observation \<Rightarrow> string \<Rightarrow> string option" where
  "storage_for obs node_name = (case observed_node obs node_name of
      None \<Rightarrow> None
    | Some node \<Rightarrow> (case sort (map so_storage_id (filter accepts_images (no_storages node))) of [] \<Rightarrow> None | s # _ \<Rightarrow> Some s))"

definition segment_for :: "network_plan \<Rightarrow> string \<Rightarrow> workload_role \<Rightarrow> vnet_spec option" where
  "segment_for network team role = find (\<lambda>v. vn_role v = ROLE_SEGMENT role) (vnets_for_team network team)"

definition scoring_segment :: "network_plan \<Rightarrow> vnet_spec option" where
  "scoring_segment network = find (\<lambda>v. vn_role v = SR_scoring) (np_vnets network)"

section \<open>Prerequisites\<close>

definition list_repr :: "string list \<Rightarrow> string" where
  "list_repr xs = ''['' @ join '', '' (map py_repr xs) @ '']''"

definition sensor_keys :: "workload_request \<Rightarrow> string list" where
  "sensor_keys r = sort (map ri_workload_key (filter (\<lambda>i. ri_role i = WR_sensor) (wq_images r)))"

definition per_team_keys :: "workload_request \<Rightarrow> string list" where
  "per_team_keys r = ATTACKER_WORKLOAD_KEY # workload_keys (wq_template r) @ sensor_keys r"

definition support_missing :: "workload_request \<Rightarrow> missing_prerequisite list" where
  "support_missing r =
     (let unsupported = map cp_key (filter (\<lambda>c. cp_role c = CR_support) (ctp_components (wq_template r))) in
      if unsupported = [] then []
      else [missing_capability ''proxmox.workload.support_component_unmapped'' ''WorkloadRequest.images''
        (''template '' @ py_repr (ctp_slug (wq_template r)) @ '' declares support component(s) '' @
         list_repr (sort unsupported) @ '' with no Proxmox equivalent; dropping them silently '' @
         ''would stand up a range the catalog does not describe'')])"

definition team_set_missing :: "workload_request \<Rightarrow> network_plan \<Rightarrow> missing_prerequisite list" where
  "team_set_missing r network =
     (if set (team_refs network) = set (wq_team_refs r) then []
      else [missing_capability ''proxmox.workload.team_set_mismatch'' ''SegregatedNetworkPlan.team_refs''
        (''the network was compiled for teams '' @ list_repr (sort (remdups (team_refs network))) @ '' but the workload '' @
         ''requests '' @ list_repr (sort (wq_team_refs r)) @ ''; a guest with no segment cannot be '' @
         ''isolated into one'')])"

definition scoring_missing :: "network_plan \<Rightarrow> missing_prerequisite list" where
  "scoring_missing network =
     (if scoring_segment network \<noteq> None then []
      else [missing_capability ''proxmox.workload.no_scoring_segment'' ''SegregatedNetworkPlan.vnets''
        (''the compiled network has no scoring segment; teams would have nowhere to '' @
         ''submit flags and no guest could report its bootstrap outcome'')])"

definition node_missing :: "target_observation \<Rightarrow> missing_prerequisite list" where
  "node_missing obs =
     (if eligible_nodes obs \<noteq> [] then []
      else [missing_capability ''proxmox.workload.no_eligible_node'' ''NodeObservation.storages''
        (''no online node was observed with a storage that accepts disk images; a guest '' @
         ''cannot be placed and a storage whose content types were not observed is not '' @
         ''a candidate'')])"

definition target_missing :: "workload_request \<Rightarrow> missing_prerequisite list" where
  "target_missing r =
     (if workload_keys (wq_template r) \<noteq> [] then []
      else [missing_capability ''proxmox.workload.no_target_component'' ''CatalogTemplate.components''
        (''template '' @ py_repr (ctp_slug (wq_template r)) @ '' declares no target component; there would '' @
         ''be nothing for a team to attack'')])"

definition image_missing :: "workload_request \<Rightarrow> target_observation \<Rightarrow> string \<Rightarrow> missing_prerequisite list" where
  "image_missing r obs key =
     (case request_image r key of
        None \<Rightarrow> [missing_capability ''proxmox.workload.image_not_reviewed'' ''WorkloadRequest.images''
          (''no reviewed template was supplied for workload '' @ py_repr key @ ''; the compiler '' @
           ''will not pick one, because which image boots decides what the range is'')]
      | Some img \<Rightarrow>
          (if ri_template_ref img \<in> set (map tm_template_ref (to_templates obs)) then []
           else [missing_capability ''proxmox.workload.template_not_observed'' ''TargetObservation.templates''
             (''workload '' @ py_repr key @ '' names template '' @ py_repr (ri_template_ref img) @ '', which discovery '' @
              ''never observed on this target; cloning a template that may not exist '' @
              ''fails at apply with an unhelpful error'')]) @
          (if ri_role img \<in> set (dict_keys (wq_profiles r)) then []
           else [missing_capability ''proxmox.workload.profile_missing'' ''WorkloadRequest.profiles''
             (''no sizing profile for role '' @ py_repr (workload_role_value (ri_role img)) @ ''; the container catalog '' @
              ''describes images on a laptop and says nothing about a VM's cpu, memory '' @
              ''or disk'')]))"

definition workload_missing :: "workload_request \<Rightarrow> network_plan \<Rightarrow> target_observation \<Rightarrow> missing_prerequisite list" where
  "workload_missing r network obs = support_missing r @ team_set_missing r network @ scoring_missing network @
     node_missing obs @ target_missing r @ concat (map (image_missing r obs) (per_team_keys r))"

text \<open>
  The workloads of a team with the image and the profile of each. When nothing is missing every key
  has both, so the source's assertion and its profile lookup cannot fail (\<open>team_workloads_keys\<close>).
\<close>

definition team_workloads :: "workload_request \<Rightarrow> (string \<times> reviewed_image \<times> guest_profile) list" where
  "team_workloads r = List.map_filter (\<lambda>key. case request_image r key of
      None \<Rightarrow> None
    | Some img \<Rightarrow> map_option (\<lambda>p. (key, img, p)) (map_of (wq_profiles r) (ri_role img))) (per_team_keys r)"

lemma map_filter_total:
  "(\<And>x. x \<in> set xs \<Longrightarrow> \<exists>y. f x = Some y \<and> g y = x) \<Longrightarrow> map g (List.map_filter f xs) = xs"
  by (induction xs) (fastforce simp: List.map_filter_simps)+

lemma team_workloads_keys: "workload_missing r network obs = [] \<Longrightarrow> map fst (team_workloads r) = per_team_keys r"
  unfolding team_workloads_def
proof (rule map_filter_total)
  fix key assume m: "workload_missing r network obs = []" and k: "key \<in> set (per_team_keys r)"
  from m have "\<forall>key \<in> set (per_team_keys r). image_missing r obs key = []" by (simp add: workload_missing_def)
  with k have "image_missing r obs key = []" by blast
  then show "\<exists>y. (case request_image r key of None \<Rightarrow> None
      | Some img \<Rightarrow> map_option (\<lambda>p. (key, img, p)) (map_of (wq_profiles r) (ri_role img))) = Some y \<and> fst y = key"
    by (auto simp: image_missing_def split: option.splits if_splits dest: weak_map_of_SomeI)
qed

section \<open>Guests\<close>

record workload_build =
  wb_guests :: "guest_spec list"
  wb_contracts :: "bootstrap_contract list"
  wb_materials :: "material_ref list"
  wb_endpoints :: "(string \<times> string \<times> int) list"
  wb_missing :: "missing_prerequisite list"
  wb_log :: log_state

definition make_material :: "string \<Rightarrow> material_scope \<Rightarrow> string \<Rightarrow> string \<Rightarrow> model_error + material_ref" where
  "make_material ref scope purpose channel =
     (let m = \<lparr>mr_ref = ref, mr_scope = scope, mr_purpose = purpose, mr_channel = channel\<rparr> in
      bindE (material_post_init m) (\<lambda>_. Inr m))"

text \<open>
  Whether the compiled rules let a flow pass; a \<open>ProxmoxModelError\<close> of the evaluator counts as no,
  any other exception is passed on.
\<close>

definition flow_permitted :: "network_plan \<Rightarrow> string \<Rightarrow> string \<Rightarrow> int \<Rightarrow> model_error + bool" where
  "flow_permitted network from_vnet to_address port =
     (case evaluate_flow network from_vnet to_address (Some port) ''tcp'' FD_outbound of
        Inl Model_error \<Rightarrow> Inr False
      | Inl e \<Rightarrow> Inl e
      | Inr v \<Rightarrow> Inr (v = FV_accept))"

definition probe_address_if_reachable :: "network_plan \<Rightarrow> string \<Rightarrow> string \<Rightarrow> int \<Rightarrow> model_error + string option" where
  "probe_address_if_reachable network from_vnet to_address port =
     bindE (flow_permitted network from_vnet to_address port) (\<lambda>b. Inr (if b then Some to_address else None))"

definition build_guest :: "workload_request \<Rightarrow> string \<Rightarrow> string \<Rightarrow> reviewed_image \<Rightarrow> guest_profile \<Rightarrow> vnet_spec \<Rightarrow>
    string \<Rightarrow> string \<Rightarrow> int \<Rightarrow> string \<Rightarrow> string \<Rightarrow> string option \<Rightarrow> model_error + guest_spec" where
  "build_guest r team key img profile segment node_name storage_id vmid mac address probe =
     (let disk = \<lparr>dk_slot = gp_disk_slot profile, dk_size_gb = gp_disk_gb profile, dk_storage_id = storage_id,
            dk_discard = True, dk_ssd_emulation = False\<rparr>;
          nic = \<lparr>nc_index = 0, nc_vnet_name = vn_name segment, nc_mac_address = mac, nc_model = ''virtio'', nc_firewall = True\<rparr>;
          addr = \<lparr>ga_published_address = address, ga_probe_address = probe\<rparr>;
          cloud = \<lparr>ci_user = wq_cloud_init_user r, ci_ssh_authorized_keys = wq_ssh_authorized_keys r,
            ci_nameservers = [], ci_search_domain = None, ci_gateway = None\<rparr>;
          g = \<lparr>gs_guest_ref = guest_ref team key, gs_name = guest_name (wq_range_id r) team key, gs_kind = ri_guest_kind img,
            gs_vmid = vmid, gs_node_name = node_name, gs_template_ref = ri_template_ref img,
            gs_clone_strategy = ri_clone_strategy img, gs_cpu_cores = gp_cpu_cores profile,
            gs_memory_mb = gp_memory_mb profile, gs_disks = [disk], gs_nics = [nic], gs_address = addr,
            gs_ownership = workload_ownership r (Some team) KIND_VIRTUAL_MACHINE, gs_cloud_init = Some cloud,
            gs_start_on_deploy = True, gs_readiness_timeout_seconds = wq_bootstrap_deadline_seconds r\<rparr> in
      bindE (disk_post_init disk) (\<lambda>_. bindE (nic_post_init nic) (\<lambda>_. bindE (guest_address_post_init addr) (\<lambda>_.
      bindE (cloud_init_post_init cloud) (\<lambda>_. bindE (guest_post_init g) (\<lambda>_. Inr g))))))"

definition build_contract :: "workload_request \<Rightarrow> string \<Rightarrow> string \<Rightarrow> reviewed_image \<Rightarrow> string \<Rightarrow> int \<Rightarrow> material_ref \<Rightarrow>
    string option \<Rightarrow> bootstrap_contract" where
  "build_contract r team key img report_address vmid attestation probe =
     \<lparr>bc_guest_ref = guest_ref team key, bc_vmid = vmid, bc_team_ref = team, bc_workload_key = key,
      bc_workload_version = ri_workload_version img, bc_image_digest = ri_image_digest img,
      bc_operations = wq_bootstrap_operations r, bc_attestation_ref = attestation, bc_report_address = report_address,
      bc_report_port = wq_scoring_port r, bc_deadline_seconds = wq_bootstrap_deadline_seconds r,
      bc_probe_address = probe,
      bc_probe_port = (case probe of None \<Rightarrow> None | Some a \<Rightarrow> if a = [] then None else Some (ri_service_port img))\<rparr>"

text \<open>The node a guest lands on and the storage of its disk, or the prerequisite that is missing.\<close>

definition place_guest :: "workload_request \<Rightarrow> target_observation \<Rightarrow> string list \<Rightarrow> string \<Rightarrow> nat \<Rightarrow>
    missing_prerequisite + (string \<times> string)" where
  "place_guest r obs eligible ref ordinal =
     (let node_name = (case map_of (wq_placement r) ref of None \<Rightarrow> eligible ! (ordinal mod length eligible) | Some n \<Rightarrow> n) in
      if node_name \<notin> set eligible
      then Inl (missing_capability ''proxmox.workload.placement_not_eligible'' ''NodeObservation.storages''
        (''guest '' @ py_repr ref @ '' is placed on node '' @ py_repr node_name @ '', which is not '' @
         ''online with an observed image-capable storage''))
      else (case storage_for obs node_name of
          None \<Rightarrow> Inl (missing_capability ''proxmox.workload.storage_not_observed'' ''StorageObservation.content_types''
            (''node '' @ py_repr node_name @ '' reported no storage accepting '' @
             py_repr STORAGE_CONTENT_IMAGES @ ''; guest '' @ py_repr ref @ '' has nowhere to put '' @
             ''its disk''))
        | Some storage_id \<Rightarrow> Inr (node_name, storage_id)))"

definition segment_missing :: "string \<Rightarrow> string \<Rightarrow> reviewed_image \<Rightarrow> missing_prerequisite" where
  "segment_missing team key img =
     missing_capability ''proxmox.workload.segment_missing'' ''SegregatedNetworkPlan.vnets''
       (''team '' @ py_repr team @ '' has no '' @ py_repr (segment_role_value (ROLE_SEGMENT (ri_role img))) @
        '' segment for workload '' @ py_repr key)"

text \<open>A guest whose identifiers were granted: its address, probe, specification and contract.\<close>

definition add_guest :: "workload_request \<Rightarrow> network_plan \<Rightarrow> vnet_spec \<Rightarrow> string \<Rightarrow> string \<Rightarrow>
    string \<times> reviewed_image \<times> guest_profile \<Rightarrow> vnet_spec \<Rightarrow> string \<times> string \<Rightarrow> int \<times> string \<Rightarrow> log_state \<Rightarrow>
    workload_build \<Rightarrow> model_error + workload_build" where
  "add_guest r network scoring report_address team workload segment place ids log2 st =
     (case workload of (key, img, profile) \<Rightarrow> case place of (node_name, storage_id) \<Rightarrow> case ids of (vmid, mac) \<Rightarrow>
      bindE (subnet_network (vn_subnet segment)) (\<lambda>subnet.
      bindE (of_alloc (allocate_address (workload_ownership r (Some team) KIND_VIRTUAL_MACHINE)
          (guest_ref team key @ ''/address'') subnet VK_guest_address None (fst log2))) (\<lambda>(address, l3).
      bindE (probe_address_if_reachable network (vn_name scoring) (ip_str address) (ri_service_port img)) (\<lambda>probe.
      bindE (build_guest r team key img profile segment node_name storage_id vmid mac (ip_str address) probe) (\<lambda>g.
      bindE (make_material (wq_range_id r @ ''/guest/'' @ guest_ref team key @ ''/attestation'') MS_guest
          ''binds an inbound bootstrap report to this guest'' (wq_material_channel r)) (\<lambda>attestation.
        Inr (st\<lparr>wb_guests := wb_guests st @ [g], wb_materials := wb_materials st @ [attestation],
          wb_contracts := wb_contracts st @ [build_contract r team key img report_address vmid attestation probe],
          wb_log := (l3, snd log2)\<rparr>)))))))"

definition compile_guest :: "workload_request \<Rightarrow> network_plan \<Rightarrow> target_observation \<Rightarrow> vnet_spec \<Rightarrow> string \<Rightarrow>
    nat \<Rightarrow> string \<Rightarrow> workload_build \<Rightarrow> nat \<times> string \<times> reviewed_image \<times> guest_profile \<Rightarrow> model_error + workload_build" where
  "compile_guest r network obs scoring report_address team_index team st item =
     (case item of (workload_index, key, img, profile) \<Rightarrow>
      case segment_for network team (ri_role img) of
        None \<Rightarrow> Inr (st\<lparr>wb_missing := wb_missing st @ [segment_missing team key img]\<rparr>)
      | Some segment \<Rightarrow>
          (case place_guest r obs (eligible_nodes obs) (guest_ref team key)
              (team_index * length (per_team_keys r) + workload_index) of
             Inl m \<Rightarrow> Inr (st\<lparr>wb_missing := wb_missing st @ [m]\<rparr>)
           | Inr place \<Rightarrow>
               (let ow = workload_ownership r (Some team) KIND_VIRTUAL_MACHINE in
                bindE (logged (allocate_vmid ow (guest_ref team key) (wq_pools r) (to_vmids_in_use obs)
                    (ri_guest_kind img = GK_lxc)) (wb_log st)) (\<lambda>(vmid, log1).
                bindE (logged (allocate_mac ow (guest_ref team key @ ''/nic0'') (to_macs_in_use obs)) log1) (\<lambda>(mac, log2).
                  (case (vmid, mac) of
                     (Some v, Some m) \<Rightarrow>
                       add_guest r network scoring report_address team (key, img, profile) segment place (v, m) log2 st
                   | _ \<Rightarrow> Inr (st\<lparr>wb_log := log2\<rparr>)))))))"

definition compile_team :: "workload_request \<Rightarrow> network_plan \<Rightarrow> target_observation \<Rightarrow> vnet_spec \<Rightarrow> string \<Rightarrow>
    workload_build \<Rightarrow> nat \<times> string \<Rightarrow> model_error + workload_build" where
  "compile_team r network obs scoring report_address st item = (case item of (team_index, team) \<Rightarrow>
     bindE (require (ownership_valid (workload_ownership r (Some team) KIND_VIRTUAL_MACHINE))) (\<lambda>_.
     bindE (make_material (wq_range_id r @ ''/team/'' @ team @ ''/credentials'') MS_team ''per-team guest login material''
         (wq_material_channel r)) (\<lambda>credentials.
       foldE (compile_guest r network obs scoring report_address team_index team)
         (st\<lparr>wb_materials := wb_materials st @ [credentials],
           wb_endpoints := wb_endpoints st @ [(team, report_address, wq_scoring_port r)]\<rparr>)
         (List.enumerate 0 (team_workloads r)))))"

definition challenge_material :: "workload_request \<Rightarrow> catalog_challenge \<Rightarrow> model_error + material_ref" where
  "challenge_material r c = make_material (wq_range_id r @ ''/challenge/'' @ cc_key c) MS_range
     (''flag material for challenge '' @ cc_key c) (wq_material_channel r)"

datatype workload_result = Workload workload_plan | Workload_blocked "missing_prerequisite list"

definition workload_of_build :: "workload_request \<Rightarrow> network_plan \<Rightarrow> target_observation \<Rightarrow> workload_build \<Rightarrow> workload_plan" where
  "workload_of_build r network obs st =
     \<lparr>wp_topology = \<lparr>ct_target = to_identity obs, ct_ownership = workload_ownership r None KIND_VIRTUAL_MACHINE,
        ct_network = network, ct_guests = sort_key gs_guest_ref (wb_guests st),
        ct_allocations = map allocation_as_dict (ledger_all (fst (wb_log st)))\<rparr>,
      wp_bootstrap = sort_key bc_guest_ref (wb_contracts st),
      wp_materials = sort_key (\<lambda>m. (material_scope_value (mr_scope m), mr_ref m)) (wb_materials st),
      wp_scoring_endpoints = sort (wb_endpoints st),
      wp_challenge_keys = sort (map cc_key (ctp_challenges (wq_template r)))\<rparr>"

definition compile_workload :: "workload_request \<Rightarrow> network_plan \<Rightarrow> target_observation \<Rightarrow> ledger \<Rightarrow>
    model_error + (workload_result \<times> ledger)" where
  "compile_workload r network obs l =
     (case (workload_missing r network obs, scoring_segment network) of
        ([], Some scoring) \<Rightarrow>
          bindE (first_host (sb_cidr (vn_subnet scoring))) (\<lambda>report_address.
          bindE (mapE (challenge_material r) (ctp_challenges (wq_template r))) (\<lambda>flags.
          bindE (foldE (compile_team r network obs scoring report_address)
              \<lparr>wb_guests = [], wb_contracts = [], wb_materials = flags, wb_endpoints = [], wb_missing = [], wb_log = (l, [])\<rparr>
              (List.enumerate 0 (sort (wq_team_refs r)))) (\<lambda>st.
            let missing = wb_missing st @ snd (wb_log st); l' = fst (wb_log st) in
            if missing \<noteq> [] then Inr (Workload_blocked missing, l')
            else bindE (require (ownership_valid (workload_ownership r None KIND_VIRTUAL_MACHINE))) (\<lambda>_.
              Inr (Workload (workload_of_build r network obs st), l')))))
      | (missing, _) \<Rightarrow> Inr (Workload_blocked missing, l))"

section \<open>Readiness of the plan\<close>

datatype readiness_requirement = RR_two_teams_present | RR_attacker_per_team | RR_targets_per_team | RR_challenges_covered
  | RR_scoring_reachable_by_plan | RR_flags_delivered_out_of_band | RR_bootstrap_bounded_and_observable
  | RR_workload_versions_pinned

record readiness_finding =
  rf_requirement :: readiness_requirement
  rf_met :: bool

definition endpoints_reachable :: "network_plan \<Rightarrow> (string \<times> string \<times> int) list \<Rightarrow> model_error + bool" where
  "endpoints_reachable network endpoints =
     bindE (mapE (\<lambda>(v, address, port). flow_permitted network (vn_name v) address port)
       (concat (map (\<lambda>(team, address, port). map (\<lambda>v. (v, address, port)) (vnets_for_team network team)) endpoints)))
       (\<lambda>bs. Inr (list_all id bs))"

definition assess_competition_readiness :: "workload_plan \<Rightarrow> workload_request \<Rightarrow> model_error + readiness_finding list" where
  "assess_competition_readiness plan r =
     (let network = ct_network (wp_topology plan); teams = wq_team_refs r; keys = workload_keys (wq_template r);
          stood_for = (\<lambda>team. map bc_workload_key (filter (\<lambda>c. bc_team_ref c = team) (wp_bootstrap plan))) in
      bindE (endpoints_reachable network (wp_scoring_endpoints plan)) (\<lambda>reachable.
       Inr [\<lparr>rf_requirement = RR_two_teams_present, rf_met = (2 \<le> length teams \<and> set teams = set (team_refs network))\<rparr>,
         \<lparr>rf_requirement = RR_attacker_per_team, rf_met = list_all (\<lambda>team. ATTACKER_WORKLOAD_KEY \<in> set (stood_for team)) teams\<rparr>,
         \<lparr>rf_requirement = RR_targets_per_team, rf_met = list_all (\<lambda>team. list_all (\<lambda>k. k \<in> set (stood_for team)) keys) teams\<rparr>,
         \<lparr>rf_requirement = RR_challenges_covered,
          rf_met = list_all (\<lambda>c. cc_component_key c \<in> set keys) (ctp_challenges (wq_template r))\<rparr>,
         \<lparr>rf_requirement = RR_scoring_reachable_by_plan, rf_met = reachable\<rparr>,
         \<lparr>rf_requirement = RR_flags_delivered_out_of_band,
          rf_met = (list_all (\<lambda>m. mr_channel m = wq_material_channel r) (wp_materials plan) \<and>
            list_ex (\<lambda>m. mr_scope m = MS_range) (wp_materials plan))\<rparr>,
         \<lparr>rf_requirement = RR_bootstrap_bounded_and_observable,
          rf_met = (list_all deadline_covers_operations (wp_bootstrap plan) \<and>
            list_all (\<lambda>c. bc_report_address c \<noteq> []) (wp_bootstrap plan) \<and> wp_bootstrap plan \<noteq> [])\<rparr>,
         \<lparr>rf_requirement = RR_workload_versions_pinned,
          rf_met = list_all (\<lambda>c. lower (bc_workload_version c) \<notin> set FLOATING_TAGS \<and> bc_image_digest c \<noteq> []) (wp_bootstrap plan)\<rparr>]))"

definition readiness_is_satisfied :: "readiness_finding list \<Rightarrow> bool" where
  "readiness_is_satisfied findings \<longleftrightarrow> findings \<noteq> [] \<and> list_all rf_met findings"

section \<open>The search for secrets\<close>

text \<open>\<open>DurableSecretLeak\<close> with the path its message names.\<close>

datatype secret_leak = Private_key_at string | Declared_value_at string

definition PRIVATE_KEY_MARKERS :: "string list" where
  "PRIVATE_KEY_MARKERS = [''PRIVATE KEY-----'', ''PuTTY-User-Key-File'']"

definition MIN_ALPHA_NEEDLE :: nat where "MIN_ALPHA_NEEDLE = 16"

text \<open>\<open>value.isalpha() and value.islower()\<close>: non-empty, letters only, and none of them upper case. A
  letter below 256 is a lower-case or an upper-case one.\<close>

definition py_lower_letter :: "char \<Rightarrow> bool" where
  "py_lower_letter c \<longleftrightarrow> is_lower c \<or> (of_char c :: nat) \<in> {170, 181, 186} \<or>
     223 \<le> (of_char c :: nat) \<and> (of_char c :: nat) \<noteq> 247"

definition unsearchable :: "string \<Rightarrow> bool" where
  "unsearchable v \<longleftrightarrow> length v < 4 \<or> list_all py_lower_letter v \<and> length v < MIN_ALPHA_NEEDLE"

definition unsearchable_values :: "string list \<Rightarrow> string list" where
  "unsearchable_values values = sort (remdups (filter unsearchable values))"

definition scan_text :: "string list \<Rightarrow> string \<Rightarrow> string \<Rightarrow> secret_leak + unit" where
  "scan_text needles path s = (let shown = (if path = [] then ''/'' else path) in
     if list_ex (\<lambda>marker. contains_str marker s) PRIVATE_KEY_MARKERS then Inl (Private_key_at shown)
     else if list_ex (\<lambda>needle. contains_str needle s) needles then Inl (Declared_value_at shown)
     else Inr ())"

fun scan :: "string list \<Rightarrow> string \<Rightarrow> json \<Rightarrow> secret_leak + unit"
  and scan_items :: "string list \<Rightarrow> string \<Rightarrow> nat \<Rightarrow> json list \<Rightarrow> secret_leak + unit"
  and scan_fields :: "string list \<Rightarrow> string \<Rightarrow> (string \<times> json) list \<Rightarrow> secret_leak + unit" where
  "scan needles path (JObj kvs) = scan_fields needles path kvs"
| "scan needles path (JArr xs) = scan_items needles path 0 xs"
| "scan needles path (JStr s) = scan_text needles path s"
| "scan needles path JNull = Inr ()"
| "scan needles path (JBool b) = Inr ()"
| "scan needles path (JInt i) = Inr ()"
| "scan_items needles path i [] = Inr ()"
| "scan_items needles path i (x # xs) =
     bindE (scan needles (path @ ''['' @ show_nat i @ '']'') x) (\<lambda>_. scan_items needles path (i + 1) xs)"
| "scan_fields needles path [] = Inr ()"
| "scan_fields needles path ((k, v) # kvs) =
     bindE (scan needles (path @ ''/'' @ k) v) (\<lambda>_. scan_fields needles path kvs)"

definition assert_no_durable_secrets :: "json \<Rightarrow> string list \<Rightarrow> secret_leak + unit" where
  "assert_no_durable_secrets payload forbidden_values =
     scan (filter (\<lambda>v. v \<notin> set (unsearchable_values forbidden_values)) forbidden_values) [] payload"

end
