(* ===== verification/Proxmox_Placement.thy ===== *)
theory Proxmox_Placement
  imports Proxmox_Verdicts Proxmox_Workload "HOL-Library.Multiset"
begin

text \<open>
  What the workload compiler guarantees of a plan it returns. The three allocators it calls are further
  instances of \<open>safe_allocator\<close>; the invariant \<open>build_ok\<close> of its two loops says that every guest so far
  is on its team's segment with its identifiers recorded in the ledger. From it follow that no two
  guests share an identifier and which readiness requirements hold of themselves. The search for
  secrets is characterised by the texts of the payload.
\<close>

section \<open>The search for secrets\<close>

fun json_texts :: "json \<Rightarrow> string list" where
  "json_texts (JObj kvs) = concat (map (\<lambda>(k, v). json_texts v) kvs)"
| "json_texts (JArr xs) = concat (map json_texts xs)"
| "json_texts (JStr s) = [s]"
| "json_texts JNull = []"
| "json_texts (JBool b) = []"
| "json_texts (JInt i) = []"

lemma contains_str_iff: "contains_str p s \<longleftrightarrow> (\<exists>a b. s = a @ p @ b)"
proof (induction p s rule: contains_str.induct)
  case (2 p c s)
  have "take (length p) (c # s) = p \<longleftrightarrow> (\<exists>b. c # s = p @ b)"
    by (metis append_eq_conv_conj append_take_drop_id)
  moreover have "(\<exists>a b. c # s = a @ p @ b) \<longleftrightarrow> (\<exists>b. c # s = p @ b) \<or> (\<exists>a b. s = a @ p @ b)"
    by (metis append_Cons append_Nil list.exhaust list.inject)
  ultimately show ?case using 2 by simp
qed simp

definition carries_secret :: "string list \<Rightarrow> string \<Rightarrow> bool" where
  "carries_secret needles s \<longleftrightarrow> (\<exists>m \<in> set (PRIVATE_KEY_MARKERS @ needles). \<exists>a b. s = a @ m @ b)"

lemma scan_text_clean: "scan_text needles path s = Inr () \<longleftrightarrow> \<not> carries_secret needles s"
  by (auto simp: scan_text_def Let_def carries_secret_def contains_str_iff list_ex_iff)

lemma scan_clean:
  "scan needles path v = Inr () \<longleftrightarrow> (\<forall>s \<in> set (json_texts v). \<not> carries_secret needles s)"
  "scan_items needles path i xs = Inr () \<longleftrightarrow> (\<forall>x \<in> set xs. \<forall>s \<in> set (json_texts x). \<not> carries_secret needles s)"
  "scan_fields needles path kvs = Inr () \<longleftrightarrow> (\<forall>kv \<in> set kvs. \<forall>s \<in> set (json_texts (snd kv)). \<not> carries_secret needles s)"
  by (induction needles path v and needles path i xs and needles path kvs rule: scan_scan_items_scan_fields.induct)
    (auto simp: scan_text_clean bindE_Inr)

section \<open>Addresses have one spelling\<close>

lemma show_read_nat:
  assumes "s \<noteq> []" and "list_all is_digit s" and "s \<noteq> ''0'' \<longrightarrow> hd s \<noteq> CHR ''0''"
  shows "show_nat (read_nat s) = s"
  using assms
proof (induction s rule: rev_induct)
  case (snoc c s)
  have c: "digit_char (digit_value c) = c" "digit_value c < 10"
    using snoc.prems(2) by (auto simp: digit_char_def digit_value_def is_digit_def)
  show ?case
  proof (cases "s = []")
    case True
    with c show ?thesis by (simp add: read_nat_snoc [of "[]", simplified] show_nat.simps read_nat_def)
  next
    case False
    with snoc.prems have hd: "hd s \<noteq> CHR ''0''" by (cases s) auto
    with snoc False have s: "show_nat (read_nat s) = s" by (cases "s = ''0''") auto
    have "read_nat s \<noteq> 0"
    proof
      assume "read_nat s = 0"
      with s have "s = [digit_char 0]" by (simp add: show_nat.simps)
      with hd zero_digit show False by simp
    qed
    then have "\<not> read_nat s * 10 + digit_value c < 10" by simp
    with c s show ?thesis by (subst show_nat.simps) (simp add: read_nat_snoc)
  qed
qed simp

lemma join_split_char: "join [c] (split_char c s) = s"
proof (induction c s rule: split_char.induct)
  case (2 c x s)
  obtain w ws where "split_char c s = w # ws" by (cases "split_char c s") simp_all
  with 2 show ?case by (cases ws) auto
qed simp

lemma byte_split: "(r::nat) < 256 \<Longrightarrow> (q * 256 + r) div 256 = q \<and> (q * 256 + r) mod 256 = r"
  by simp

lemma octets_of_sum:
  assumes "a < 256" and "b < 256" and "c < 256" and "(d::nat) < 256" and n: "n = ((a * 256 + b) * 256 + c) * 256 + d"
  shows "n div 16777216 = a" and "n div 65536 mod 256 = b" and "n div 256 mod 256 = c" and "n mod 256 = d"
proof -
  note d = byte_split [OF assms(4), of "(a * 256 + b) * 256 + c", folded n]
  have c: "n div 65536 = a * 256 + b" using d byte_split [OF assms(3), of "a * 256 + b"] div_mult2_eq [of n 256 256] by simp
  have "n div 16777216 = a" using c byte_split [OF assms(2), of a] div_mult2_eq [of n 65536 256] by simp
  with c d byte_split [OF assms(3), of "a * 256 + b"] byte_split [OF assms(2), of a]
  show "n div 16777216 = a" "n div 65536 mod 256 = b" "n div 256 mod 256 = c" "n mod 256 = d" by simp_all
qed

lemma ip_str_parse:
  assumes "parse_ip s = Some n" shows "ip_str n = s"
proof -
  from assms obtain a b c d where s: "split_char CHR ''.'' s = [a, b, c, d]"
    and ok: "octet_ok a" "octet_ok b" "octet_ok c" "octet_ok d"
    and n: "n = ((read_nat a * 256 + read_nat b) * 256 + read_nat c) * 256 + read_nat d"
    by (auto simp: parse_ip_def split: list.splits if_splits)
  have byte: "read_nat w < 256" "show_nat (read_nat w) = w" if "octet_ok w" for w
    using that show_read_nat [of w] by (auto simp: octet_ok_def)
  have "ip_str n = join ''.'' [a, b, c, d]"
    using octets_of_sum [OF byte(1) [OF ok(1)] byte(1) [OF ok(2)] byte(1) [OF ok(3)] byte(1) [OF ok(4)] n]
      byte(2) [OF ok(1)] byte(2) [OF ok(2)] byte(2) [OF ok(3)] byte(2) [OF ok(4)] by (simp add: ip_str_def)
  with s join_split_char [of "CHR ''.''" s] show ?thesis by simp
qed

section \<open>What the ledger says of a guest\<close>

lemma vmid_recorded:
  assumes "allocate_vmid ow purpose pools obs lxc l = Inr (i, l')"
  shows "\<exists>a. map_of (lg_by_key l') (scope_key ow, if lxc then VK_lxc_id else VK_vmid, purpose) = Some a \<and> py_int (al_value a) = Some i"
  using vmid_alloc.recorded [OF assms] vmid_alloc.again [OF _ assms] allocate_vmid_existing
  by (fastforce simp: ledger_get_def)

lemma mac_recorded:
  assumes "allocate_mac ow purpose obs l = Inr (m, l')"
  shows "\<exists>a. map_of (lg_by_key l') (scope_key ow, VK_mac, purpose) = Some a \<and> al_value a = m"
  using mac_alloc.recorded [OF assms] mac_alloc.again [OF _ assms] allocate_mac_existing
  by (fastforce simp: ledger_get_def)

lemma address_recorded:
  assumes "allocate_address ow purpose subnet kind offset l = Inr (n, l')" and "wf_net subnet"
  shows "\<exists>a. map_of (lg_by_key l') (scope_key ow, kind, purpose) = Some a \<and> parse_ip (al_value a) = Some n"
  using address_alloc.recorded [OF assms(1)] address_alloc.again [OF assms(2,1)] allocate_address_existing
  by (fastforce simp: ledger_get_def)

interpretation guest_id_alloc: safe_allocator "allocate_vmid ow purpose pools obs lxc"
    "(scope_key ow, if lxc then VK_lxc_id else VK_vmid, purpose)" show_int True for ow purpose pools obs lxc
  by unfold_locales (auto intro: vmid_keeps split: if_splits)

interpretation guest_mac_alloc: safe_allocator "allocate_mac ow purpose obs"
    "(scope_key ow, VK_mac, purpose)" "\<lambda>v. v" True for ow purpose obs
  by unfold_locales (auto intro: mac_keeps)

interpretation guest_address_alloc: safe_allocator "allocate_address ow purpose subnet VK_guest_address offset"
    "(scope_key ow, VK_guest_address, purpose)" ip_str "wf_net subnet" for ow purpose subnet offset
  by unfold_locales (auto intro: address_keeps)

definition vm_key :: "workload_request \<Rightarrow> string \<Rightarrow> allocation_kind \<Rightarrow> string \<Rightarrow> alloc_key" where
  "vm_key r team kind purpose = (scope_key (workload_ownership r (Some team) KIND_VIRTUAL_MACHINE), kind, purpose)"

definition id_kind :: "guest_kind_t \<Rightarrow> allocation_kind" where
  "id_kind k = (if k = GK_lxc then VK_lxc_id else VK_vmid)"

lemma vm_key_inject [simp]: "vm_key r t k p = vm_key r t' k' p' \<longleftrightarrow> t = t' \<and> k = k' \<and> p = p'"
  by (auto simp: vm_key_def scope_key_def workload_ownership_def)

lemma vm_key_kind [simp]: "fst (snd (vm_key r t k p)) = k"
  by (simp add: vm_key_def)

lemma guest_ref_inject [simp]: "guest_ref t k = guest_ref t k' \<longleftrightarrow> k = k'"
  by (simp add: guest_ref_def)

definition holds :: "ledger \<Rightarrow> alloc_key \<Rightarrow> (string \<Rightarrow> bool) \<Rightarrow> bool" where
  "holds l k reads \<longleftrightarrow> (\<exists>e. map_of (lg_by_key l) k = Some e \<and> reads (al_value e))"

lemma holds_extends: "holds l k reads \<Longrightarrow> extends l l' \<Longrightarrow> holds l' k reads"
  unfolding holds_def extends_def by blast

text \<open>What a compiled guest is: on a segment of its own team, on an eligible node, with its identifiers recorded.\<close>

definition guest_placed :: "workload_request \<Rightarrow> network_plan \<Rightarrow> target_observation \<Rightarrow> ledger \<Rightarrow>
    string \<times> string \<times> reviewed_image \<times> guest_profile \<Rightarrow> guest_spec \<Rightarrow> bool" where
  "guest_placed r network obs l tw g \<longleftrightarrow> (case tw of (team, key, img, profile) \<Rightarrow>
     gs_guest_ref g = guest_ref team key \<and> gs_ownership g = workload_ownership r (Some team) KIND_VIRTUAL_MACHINE \<and>
     gs_template_ref g = ri_template_ref img \<and>
     gs_node_name g \<in> set (eligible_nodes obs) \<and> map (\<lambda>d. Some (dk_storage_id d)) (gs_disks g) = [storage_for obs (gs_node_name g)] \<and>
     (\<exists>segment. segment_for network team (ri_role img) = Some segment \<and> map nc_vnet_name (gs_nics g) = [vn_name segment] \<and>
       cidr_has (sb_cidr (vn_subnet segment)) (ga_published_address (gs_address g))) \<and>
     holds l (vm_key r team (id_kind (ri_guest_kind img)) (guest_ref team key)) (\<lambda>s. py_int s = Some (gs_vmid g)) \<and>
     holds l (vm_key r team VK_mac (guest_ref team key @ ''/nic0'')) (\<lambda>s. map nc_mac_address (gs_nics g) = [s]) \<and>
     holds l (vm_key r team VK_guest_address (guest_ref team key @ ''/address'')) (\<lambda>s. ga_published_address (gs_address g) = s))"

lemma guest_placed_extends: "guest_placed r network obs l tw g \<Longrightarrow> extends l l' \<Longrightarrow> guest_placed r network obs l' tw g"
  unfolding guest_placed_def by (auto intro: holds_extends split: prod.splits)

text \<open>
  A guest address the ledger already holds is in the segment the guest is compiled onto. The compiler
  relies on it: a recorded address is handed out again without being compared with the segment.
\<close>

definition addresses_in_place :: "workload_request \<Rightarrow> network_plan \<Rightarrow> ledger \<Rightarrow> bool" where
  "addresses_in_place r network l \<longleftrightarrow> list_all (\<lambda>team. list_all (\<lambda>(key, img, profile).
     (case (segment_for network team (ri_role img),
            map_of (lg_by_key l) (vm_key r team VK_guest_address (guest_ref team key @ ''/address''))) of
        (Some v, Some e) \<Rightarrow> cidr_has (sb_cidr (vn_subnet v)) (al_value e)
      | _ \<Rightarrow> True)) (team_workloads r)) (wq_team_refs r)"

lemma addresses_in_place_iff:
  "addresses_in_place r network l \<longleftrightarrow> (\<forall>team key img profile v e. team \<in> set (wq_team_refs r) \<longrightarrow>
     (key, img, profile) \<in> set (team_workloads r) \<longrightarrow> segment_for network team (ri_role img) = Some v \<longrightarrow>
     map_of (lg_by_key l) (vm_key r team VK_guest_address (guest_ref team key @ ''/address'')) = Some e \<longrightarrow>
     cidr_has (sb_cidr (vn_subnet v)) (al_value e))"
  unfolding addresses_in_place_def list_all_iff by (auto split: option.splits) blast+

lemma team_workloads_image: "(key, img, profile) \<in> set (team_workloads r) \<Longrightarrow> request_image r key = Some img"
  by (auto simp: team_workloads_def List.map_filter_def split: option.splits)

lemma in_place_kept:
  assumes "addresses_in_place r network l" and "\<And>t p. map_of (lg_by_key l') (vm_key r t VK_guest_address p) = map_of (lg_by_key l) (vm_key r t VK_guest_address p)"
  shows "addresses_in_place r network l'"
  using assms by (simp add: addresses_in_place_iff)

lemma ip_network_lenient: "ip_network True s = Some n \<Longrightarrow> ip_network False s = Some n"
  by (auto simp: ip_network_def split: list.splits option.splits if_splits)

lemma host_in_cidr:
  assumes "ip_network True c = Some n" and "a \<in> set (hosts n)"
  shows "cidr_has c (ip_str a)"
proof -
  have "wf_net n" by (rule ip_network_wf [OF assms(1)])
  with assms hosts_in_net [of n a] show ?thesis
    by (simp add: cidr_has_def net_contains_iff ip_network_lenient)
qed

lemma address_in_place:
  assumes run: "allocate_address (workload_ownership r (Some team) KIND_VIRTUAL_MACHINE) (guest_ref team key @ ''/address'')
      subnet VK_guest_address None l = Inr (n, l')"
    and net: "subnet_network (vn_subnet segment) = Inr subnet" and seg: "segment_for network team (ri_role img) = Some segment"
    and w: "(key, img, profile) \<in> set (team_workloads r)" and team: "team \<in> set (wq_team_refs r)"
    and l: "addresses_in_place r network l"
  shows "addresses_in_place r network l'" and "cidr_has (sb_cidr (vn_subnet segment)) (ip_str n)"
proof -
  let ?k = "vm_key r team VK_guest_address (guest_ref team key @ ''/address'')"
  have n: "ip_network True (sb_cidr (vn_subnet segment)) = Some subnet" using net by (simp add: subnet_network_def)
  have wf: "wf_net subnet" by (rule ip_network_wf [OF n])
  from address_recorded [OF run wf] obtain e where e: "map_of (lg_by_key l') ?k = Some e" "parse_ip (al_value e) = Some n"
    by (auto simp: vm_key_def)
  then have ev: "al_value e = ip_str n" by (simp add: ip_str_parse)
  show in_seg: "cidr_has (sb_cidr (vn_subnet segment)) (ip_str n)"
  proof (cases "map_of (lg_by_key l) ?k")
    case None
    with allocate_address_fresh [OF run] have "n \<in> set (hosts subnet)" by (simp add: ledger_get_def vm_key_def)
    with n show ?thesis by (rule host_in_cidr)
  next
    case (Some e0)
    with address_alloc.keeps [OF run] e(1) have "e0 = e" by fastforce
    with l w team seg Some ev show ?thesis unfolding addresses_in_place_iff by metis
  qed
  have other: "map_of (lg_by_key l') k = map_of (lg_by_key l) k" if "k \<noteq> ?k" for k
    using address_alloc.only_key [OF run] that by (simp add: vm_key_def)
  show "addresses_in_place r network l'"
    unfolding addresses_in_place_iff
  proof (intro allI impI, goal_cases)
    case (1 t k i p v e')
    show ?case
    proof (cases "vm_key r t VK_guest_address (guest_ref t k @ ''/address'') = ?k")
      case True
      then have tk: "t = team" "k = key" by auto
      then have "i = img" using team_workloads_image [OF 1(2)] team_workloads_image [OF w] by simp
      with tk 1(3) seg have "v = segment" by simp
      with tk 1(4) e ev in_seg show ?thesis by simp
    next
      case False
      with 1 l other [OF False] show ?thesis unfolding addresses_in_place_iff by metis
    qed
  qed
qed

section \<open>The loops of the compiler\<close>

definition guest_contracted :: "workload_request \<Rightarrow> network_plan \<Rightarrow> string \<Rightarrow> string \<Rightarrow> string \<times> string \<times> reviewed_image \<times> guest_profile \<Rightarrow>
    bootstrap_contract \<Rightarrow> bool" where
  "guest_contracted r network vantage report tw c \<longleftrightarrow> (case tw of (team, key, img, profile) \<Rightarrow>
     bc_guest_ref c = guest_ref team key \<and> bc_team_ref c = team \<and> bc_workload_key c = key \<and>
     bc_workload_version c = ri_workload_version img \<and> bc_image_digest c = ri_image_digest img \<and>
     bc_operations c = wq_bootstrap_operations r \<and> bc_deadline_seconds c = wq_bootstrap_deadline_seconds r \<and>
     bc_report_address c = report \<and>
     (\<exists>segment address. segment_for network team (ri_role img) = Some segment \<and> cidr_has (sb_cidr (vn_subnet segment)) address \<and>
       probe_address_if_reachable network vantage address (ri_service_port img) = Inr (bc_probe_address c)))"

lemma of_alloc_Inr [simp]: "of_alloc m = Inr x \<longleftrightarrow> m = Inr x"
  by (cases m) (simp_all add: of_alloc_def)

lemma make_material_Inr: "make_material ref scope purpose channel = Inr m \<Longrightarrow> mr_channel m = channel \<and> mr_scope m = scope"
  by (auto simp: make_material_def Let_def bindE_Inr)

lemma add_guest_cases:
  assumes "add_guest r network scoring report team (key, img, profile) segment (node, storage) (vmid, mac) (l, blocked) st = Inr st'"
  obtains subnet address l' probe g attestation where
    "subnet_network (vn_subnet segment) = Inr subnet"
    "allocate_address (workload_ownership r (Some team) KIND_VIRTUAL_MACHINE) (guest_ref team key @ ''/address'') subnet
      VK_guest_address None l = Inr (address, l')"
    "probe_address_if_reachable network (vn_name scoring) (ip_str address) (ri_service_port img) = Inr probe"
    "build_guest r team key img profile segment node storage vmid mac (ip_str address) probe = Inr g"
    "mr_channel attestation = wq_material_channel r \<and> mr_scope attestation = MS_guest"
    "st' = st\<lparr>wb_guests := wb_guests st @ [g], wb_materials := wb_materials st @ [attestation],
       wb_contracts := wb_contracts st @ [build_contract r team key img report vmid attestation probe], wb_log := (l', blocked)\<rparr>"
proof -
  from assms obtain subnet address l' probe g attestation where
    "subnet_network (vn_subnet segment) = Inr subnet"
    "allocate_address (workload_ownership r (Some team) KIND_VIRTUAL_MACHINE) (guest_ref team key @ ''/address'') subnet
      VK_guest_address None l = Inr (address, l')"
    "probe_address_if_reachable network (vn_name scoring) (ip_str address) (ri_service_port img) = Inr probe"
    "build_guest r team key img profile segment node storage vmid mac (ip_str address) probe = Inr g"
    "make_material (wq_range_id r @ ''/guest/'' @ guest_ref team key @ ''/attestation'') MS_guest
      ''binds an inbound bootstrap report to this guest'' (wq_material_channel r) = Inr attestation"
    "st' = st\<lparr>wb_guests := wb_guests st @ [g], wb_materials := wb_materials st @ [attestation],
       wb_contracts := wb_contracts st @ [build_contract r team key img report vmid attestation probe], wb_log := (l', blocked)\<rparr>"
    unfolding add_guest_def prod.case fst_conv snd_conv bindE_Inr of_alloc_Inr by (auto simp: bindE_Inr)
  with make_material_Inr show thesis by (intro that)
qed

lemma build_guest_Inr:
  assumes "build_guest r team key img profile segment node storage vmid mac address probe = Inr g"
  shows "gs_guest_ref g = guest_ref team key" "gs_ownership g = workload_ownership r (Some team) KIND_VIRTUAL_MACHINE"
    "gs_template_ref g = ri_template_ref img" "gs_node_name g = node" "map dk_storage_id (gs_disks g) = [storage]"
    "map nc_vnet_name (gs_nics g) = [vn_name segment]" "map nc_mac_address (gs_nics g) = [mac]" "gs_vmid g = vmid"
    "ga_published_address (gs_address g) = address" "ga_probe_address (gs_address g) = probe"
    "VMID_MIN \<le> vmid \<and> vmid \<le> VMID_MAX"
  using assms by (auto simp: build_guest_def Let_def bindE_Inr guest_post_init_def)

lemma place_guest_Inr:
  assumes "place_guest r obs eligible ref ordinal = Inr (node, storage)"
  shows "node \<in> set eligible" and "storage_for obs node = Some storage"
  using assms by (auto simp: place_guest_def Let_def split: if_splits option.splits)

definition build_ok :: "workload_request \<Rightarrow> network_plan \<Rightarrow> target_observation \<Rightarrow> string \<Rightarrow> string \<Rightarrow> ledger \<Rightarrow>
    (string \<times> string \<times> reviewed_image \<times> guest_profile) list \<Rightarrow> workload_build \<Rightarrow> bool" where
  "build_ok r network obs vantage report l0 done st \<longleftrightarrow>
     safe_ledger (fst (wb_log st)) \<and> extends l0 (fst (wb_log st)) \<and> addresses_in_place r network (fst (wb_log st)) \<and>
     (wb_missing st = [] \<longrightarrow> snd (wb_log st) = [] \<longrightarrow>
        list_all2 (guest_placed r network obs (fst (wb_log st))) done (wb_guests st) \<and>
        list_all2 (guest_contracted r network vantage report) done (wb_contracts st)) \<and>
     (\<forall>m \<in> set (wb_materials st). mr_channel m = wq_material_channel r \<and>
        (mr_scope m = MS_range \<longrightarrow> ctp_challenges (wq_template r) \<noteq> []))"

lemma placed_mono:
  "list_all2 (guest_placed r network obs l) done gs \<Longrightarrow> extends l l' \<Longrightarrow> list_all2 (guest_placed r network obs l') done gs"
  by (erule list_all2_mono) (rule guest_placed_extends)

text \<open>Asking for an id and a hardware address keeps the ledger safe and every recorded guest address.\<close>

lemma ids_asked:
  assumes v: "logged (allocate_vmid ow purpose pools vmids lxc) (l, blocked) = Inr (vmid, l1, b1)"
    and m: "logged (allocate_mac ow purpose' macs) (l1, b1) = Inr (mac, l2, b2)" and l: "safe_ledger l" "addresses_in_place r network l"
  shows "safe_ledger l2" and "extends l l2" and "addresses_in_place r network l2"
proof -
  note s1 = guest_id_alloc.logged_safe [OF v l(1)]
  note s2 = guest_mac_alloc.logged_safe [OF m s1(1)]
  show "safe_ledger l2" "extends l l2" using s2 extends_trans [OF s1(2)] by blast+
  have "map_of (lg_by_key l2) k = map_of (lg_by_key l) k" if k: "fst (snd k) = VK_guest_address" for k
  proof -
    have "map_of (lg_by_key l1) k = map_of (lg_by_key l) k"
      using v k by (cases rule: logged_cases) (auto dest!: vmid_alloc.only_key [where k = k] split: if_splits)
    moreover have "map_of (lg_by_key l2) k = map_of (lg_by_key l1) k"
      using m k by (cases rule: logged_cases) (auto dest!: mac_alloc.only_key [where k = k])
    ultimately show ?thesis by simp
  qed
  then show "addresses_in_place r network l2" using in_place_kept [OF l(2)] by simp
qed

text \<open>A guest that is added is where it should be.\<close>

lemma added_guest_placed:
  fixes r team key
  defines "ow \<equiv> workload_ownership r (Some team) KIND_VIRTUAL_MACHINE" and "ref \<equiv> guest_ref team key"
  assumes seg: "segment_for network team (ri_role img) = Some segment"
    and pl: "place_guest r obs (eligible_nodes obs) ref ordinal = Inr (node, storage)"
    and v: "allocate_vmid ow ref pools vmids (ri_guest_kind img = GK_lxc) l = Inr (vi, l1)"
    and m: "allocate_mac ow (ref @ ''/nic0'') macs l1 = Inr (mi, l2)"
    and net: "subnet_network (vn_subnet segment) = Inr subnet"
    and a: "allocate_address ow (ref @ ''/address'') subnet VK_guest_address None l2 = Inr (address, l3)"
    and g: "build_guest r team key img profile segment node storage vi mi (ip_str address) probe = Inr g"
    and in_seg: "cidr_has (sb_cidr (vn_subnet segment)) (ip_str address)"
  shows "guest_placed r network obs l3 (team, key, img, profile) g"
proof -
  have wf: "wf_net subnet" using net ip_network_wf by (auto simp: subnet_network_def)
  note e2 = guest_mac_alloc.grows [OF m] and e3 = guest_address_alloc.grows [OF a]
  have "holds l3 (vm_key r team (id_kind (ri_guest_kind img)) ref) (\<lambda>s. py_int s = Some vi)"
    by (rule holds_extends [OF holds_extends [OF _ e2] e3])
      (use vmid_recorded [OF v] in \<open>simp add: holds_def vm_key_def id_kind_def ow_def\<close>)
  moreover have "holds l3 (vm_key r team VK_mac (ref @ ''/nic0'')) (\<lambda>s. mi = s)"
    by (rule holds_extends [OF _ e3]) (use mac_recorded [OF m] in \<open>auto simp: holds_def vm_key_def ow_def\<close>)
  moreover have "holds l3 (vm_key r team VK_guest_address (ref @ ''/address'')) (\<lambda>s. ip_str address = s)"
    using address_recorded [OF a wf] ip_str_parse by (auto simp: holds_def vm_key_def ow_def)
  ultimately show ?thesis
    using build_guest_Inr [OF g] place_guest_Inr [OF pl] seg in_seg by (auto simp: guest_placed_def ref_def)
qed

lemma compile_guest_ok:
  assumes run: "compile_guest r network obs scoring report i team st (j, key, img, profile) = Inr st'"
    and ok: "build_ok r network obs (vn_name scoring) report l0 done st"
    and w: "(key, img, profile) \<in> set (team_workloads r)" and team: "team \<in> set (wq_team_refs r)"
  shows "build_ok r network obs (vn_name scoring) report l0 (done @ [(team, key, img, profile)]) st'"
proof -
  let ?ow = "workload_ownership r (Some team) KIND_VIRTUAL_MACHINE" and ?ref = "guest_ref team key"
  obtain l blocked where log: "wb_log st = (l, blocked)" by (cases "wb_log st")
  consider (stuck) x where "st' = st\<lparr>wb_missing := wb_missing st @ [x]\<rparr>"
    | (placed) segment node storage where "segment_for network team (ri_role img) = Some segment"
      "place_guest r obs (eligible_nodes obs) ?ref (i * length (per_team_keys r) + j) = Inr (node, storage)"
    using run by (cases "segment_for network team (ri_role img)";
      cases "place_guest r obs (eligible_nodes obs) ?ref (i * length (per_team_keys r) + j)") (auto simp: compile_guest_def)
  then show ?thesis
  proof cases
    case stuck
    with ok show ?thesis by (auto simp: build_ok_def)
  next
    case placed
    from run placed log obtain vmid l1 b1 mac l2 b2 where
      v: "logged (allocate_vmid ?ow ?ref (wq_pools r) (to_vmids_in_use obs) (ri_guest_kind img = GK_lxc)) (l, blocked) = Inr (vmid, l1, b1)"
      and m: "logged (allocate_mac ?ow (?ref @ ''/nic0'') (to_macs_in_use obs)) (l1, b1) = Inr (mac, l2, b2)"
      and rest: "(case (vmid, mac) of (Some v, Some m) \<Rightarrow>
          add_guest r network scoring report team (key, img, profile) segment (node, storage) (v, m) (l2, b2) st
        | _ \<Rightarrow> Inr (st\<lparr>wb_log := (l2, b2)\<rparr>)) = Inr st'"
      by (auto simp: compile_guest_def Let_def bindE_Inr)
    from ok log have l: "safe_ledger l" "addresses_in_place r network l" "extends l0 l" by (simp_all add: build_ok_def)
    note asked = ids_asked [OF v m l(1,2)]
    have ext2: "extends l0 l2" by (rule extends_trans [OF l(3) asked(2)])
    show ?thesis
    proof (cases "vmid = None \<or> mac = None")
      case True
      then have "st' = st\<lparr>wb_log := (l2, b2)\<rparr>" using rest by (auto split: option.splits)
      moreover have "b2 \<noteq> []" using True v m by (auto elim!: logged_cases)
      ultimately show ?thesis using ok asked ext2 by (auto simp: build_ok_def)
    next
      case False
      then obtain vi mi where vm: "vmid = Some vi" "mac = Some mi" by auto
      from v m vm have ids: "allocate_vmid ?ow ?ref (wq_pools r) (to_vmids_in_use obs) (ri_guest_kind img = GK_lxc) l = Inr (vi, l1)"
          "allocate_mac ?ow (?ref @ ''/nic0'') (to_macs_in_use obs) l1 = Inr (mi, l2)" "b2 = blocked"
        by (auto elim!: logged_cases)
      from rest vm have "add_guest r network scoring report team (key, img, profile) segment (node, storage) (vi, mi) (l2, b2) st = Inr st'"
        by simp
      then show ?thesis
      proof (cases rule: add_guest_cases)
        case (1 subnet address l3 probe g attestation)
        note place3 = address_in_place [OF 1(2,1) placed(1) w team asked(3)]
        note g = added_guest_placed [OF placed ids(1,2) 1(1,2,4) place3(2)]
        have c: "guest_contracted r network (vn_name scoring) report (team, key, img, profile) (build_contract r team key img report vi attestation probe)"
          using placed(1) place3(2) 1(3) by (auto simp: guest_contracted_def build_contract_def)
        note e3 = guest_address_alloc.grows [OF 1(2)]
        show ?thesis
          using ok log g c guest_address_alloc.safe [OF asked(1) 1(2)] place3(1) 1(5,6) ids(3) extends_trans [OF ext2 e3]
            placed_mono [OF _ extends_trans [OF asked(2) e3]]
          by (auto simp: build_ok_def intro!: list_all2_appendI)
      qed
    qed
  qed
qed

lemma add_guest_frame:
  assumes "add_guest r network scoring report team w segment place ids log2 st = Inr st'"
  shows "wb_endpoints st' = wb_endpoints st" and "set (wb_materials st) \<subseteq> set (wb_materials st')"
  using assms by (cases w; cases place; cases ids; cases log2; auto elim!: add_guest_cases)+

lemma compile_guest_frame:
  assumes "compile_guest r network obs scoring report i team st x = Inr st'"
  shows "wb_endpoints st' = wb_endpoints st" and "set (wb_materials st) \<subseteq> set (wb_materials st')"
  using assms add_guest_frame
  by (cases x; fastforce simp: compile_guest_def Let_def bindE_Inr split: option.splits sum.splits prod.splits)+

lemma snd_enumerate: "x \<in> set (List.enumerate n xs) \<Longrightarrow> snd x \<in> set xs"
  by (cases x) (auto simp: in_set_enumerate_eq)

lemma map_enumerate: "map (\<lambda>(i, x). f x) (List.enumerate n xs) = map f xs"
  by (induction xs arbitrary: n) auto

lemma compile_team_ok:
  assumes run: "compile_team r network obs scoring report st (i, team) = Inr st'"
    and ok: "build_ok r network obs (vn_name scoring) report l0 done st" and team: "team \<in> set (wq_team_refs r)"
  shows "build_ok r network obs (vn_name scoring) report l0 (done @ map (Pair team) (team_workloads r)) st' \<and>
    wb_endpoints st' = wb_endpoints st @ [(team, report, wq_scoring_port r)] \<and> set (wb_materials st) \<subseteq> set (wb_materials st')"
proof -
  let ?E = "wb_endpoints st @ [(team, report, wq_scoring_port r)]"
  from run obtain credentials where c: "make_material (wq_range_id r @ ''/team/'' @ team @ ''/credentials'') MS_team
      ''per-team guest login material'' (wq_material_channel r) = Inr credentials"
    and fold: "foldE (compile_guest r network obs scoring report i team)
      (st\<lparr>wb_materials := wb_materials st @ [credentials], wb_endpoints := ?E\<rparr>) (List.enumerate 0 (team_workloads r)) = Inr st'"
    by (auto simp: compile_team_def bindE_Inr)
  let ?I = "\<lambda>(ys :: (nat \<times> string \<times> reviewed_image \<times> guest_profile) list) s. build_ok r network obs (vn_name scoring) report l0 (done @ map (Pair team) (map snd ys)) s \<and> wb_endpoints s = ?E \<and>
    set (wb_materials st) \<subseteq> set (wb_materials s)"
  have "?I (List.enumerate 0 (team_workloads r)) st'"
  proof (rule foldE_invariant [OF fold])
    show "?I [] (st\<lparr>wb_materials := wb_materials st @ [credentials], wb_endpoints := ?E\<rparr>)"
      using ok make_material_Inr [OF c] by (auto simp: build_ok_def)
  next
    fix ys x s s'
    assume x: "x \<in> set (List.enumerate 0 (team_workloads r))" and I: "?I ys s"
      and s': "compile_guest r network obs scoring report i team s x = Inr s'"
    obtain j key img profile where xe: "x = (j, key, img, profile)" by (cases x)
    have "(key, img, profile) \<in> set (team_workloads r)" using snd_enumerate [OF x] xe by simp
    with I have "build_ok r network obs (vn_name scoring) report l0 ((done @ map (Pair team) (map snd ys)) @ [(team, key, img, profile)]) s'"
      using compile_guest_ok [OF s' [unfolded xe] _ _ team] by blast
    with compile_guest_frame [OF s'] I xe show "?I (ys @ [x]) s'" by auto
  qed
  then show ?thesis by simp
qed

definition all_workloads :: "workload_request \<Rightarrow> (string \<times> string \<times> reviewed_image \<times> guest_profile) list" where
  "all_workloads r = concat (map (\<lambda>team. map (Pair team) (team_workloads r)) (sort (wq_team_refs r)))"

lemma compile_workload_ok:
  assumes run: "compile_workload r network obs l = Inr (Workload plan, l')"
    and l: "safe_ledger l" "addresses_in_place r network l"
  obtains scoring report gs cs where "scoring_segment network = Some scoring" and "workload_missing r network obs = []"
    and "first_host (sb_cidr (vn_subnet scoring)) = Inr report" and "safe_ledger l'" and "extends l l'"
    and "list_all2 (guest_placed r network obs l') (all_workloads r) gs" and "list_all2 (guest_contracted r network (vn_name scoring) report) (all_workloads r) cs"
    and "ct_guests (wp_topology plan) = sort_key gs_guest_ref gs" and "wp_bootstrap plan = sort_key bc_guest_ref cs"
    and "ct_network (wp_topology plan) = network"
    and "wp_scoring_endpoints plan = sort (map (\<lambda>t. (t, report, wq_scoring_port r)) (sort (wq_team_refs r)))"
    and "\<forall>m \<in> set (wp_materials plan). mr_channel m = wq_material_channel r"
    and "list_ex (\<lambda>m. mr_scope m = MS_range) (wp_materials plan) \<longleftrightarrow> ctp_challenges (wq_template r) \<noteq> []"
proof -
  from run obtain scoring report flags st where c: "scoring_segment network = Some scoring" "workload_missing r network obs = []"
      "first_host (sb_cidr (vn_subnet scoring)) = Inr report"
    and flags: "mapE (challenge_material r) (ctp_challenges (wq_template r)) = Inr flags"
    and fold: "foldE (compile_team r network obs scoring report)
      \<lparr>wb_guests = [], wb_contracts = [], wb_materials = flags, wb_endpoints = [], wb_missing = [], wb_log = (l, [])\<rparr>
      (List.enumerate 0 (sort (wq_team_refs r))) = Inr st"
    and fin: "wb_missing st = []" "snd (wb_log st) = []" "plan = workload_of_build r network obs st" "l' = fst (wb_log st)"
    by (auto simp: compile_workload_def Let_def bindE_Inr split: list.splits option.splits if_splits)
  have flag: "mr_channel m = wq_material_channel r \<and> mr_scope m = MS_range \<and> ctp_challenges (wq_template r) \<noteq> []" if "m \<in> set flags" for m
    using flags that make_material_Inr by (fastforce simp: mapE_Inr challenge_material_def list_all2_conv_all_nth in_set_conv_nth)
  let ?I = "\<lambda>(ys :: (nat \<times> string) list) s. build_ok r network obs (vn_name scoring) report l (concat (map (\<lambda>(i, team). map (Pair team) (team_workloads r)) ys)) s \<and>
    wb_endpoints s = map (\<lambda>(i, t). (t, report, wq_scoring_port r)) ys \<and> set flags \<subseteq> set (wb_materials s)"
  have I: "?I (List.enumerate 0 (sort (wq_team_refs r))) st"
  proof (rule foldE_invariant [OF fold])
    show "?I [] \<lparr>wb_guests = [], wb_contracts = [], wb_materials = flags, wb_endpoints = [], wb_missing = [], wb_log = (l, [])\<rparr>"
      using l flag by (auto simp: build_ok_def)
  next
    fix ys x s s' assume x: "x \<in> set (List.enumerate 0 (sort (wq_team_refs r)))" and I: "?I ys s"
      and s': "compile_team r network obs scoring report s x = Inr s'"
    obtain i team where xe: "x = (i, team)" by (cases x)
    have "team \<in> set (wq_team_refs r)" using snd_enumerate [OF x] xe by simp
    with compile_team_ok [OF s' [unfolded xe]] I xe show "?I (ys @ [x]) s'" by auto
  qed
  have ok: "build_ok r network obs (vn_name scoring) report l (all_workloads r) st" and ends: "wb_endpoints st = map (\<lambda>t. (t, report, wq_scoring_port r)) (sort (wq_team_refs r))"
    and kept: "set flags \<subseteq> set (wb_materials st)" using I unfolding all_workloads_def map_enumerate by blast+
  have "flags \<noteq> []" if "ctp_challenges (wq_template r) \<noteq> []" using flags that by (auto simp: mapE_Inr)
  then have range: "(\<exists>m \<in> set (wb_materials st). mr_scope m = MS_range) \<longleftrightarrow> ctp_challenges (wq_template r) \<noteq> []"
    using kept flag ok by (metis build_ok_def list.set_intros(1) list.exhaust subsetD)
  show thesis
    by (rule that [OF c(1,2,3)])
      (use ok ends range fin in \<open>simp_all add: build_ok_def workload_of_build_def list_ex_iff\<close>)
qed

section \<open>No two guests share an identifier\<close>

lemma holds_apart:
  assumes "conflict_free l" and "holds l k P" and "holds l k' Q" and "k \<noteq> k'"
  obtains a b where "P (al_value a)" and "Q (al_value b)" and "al_kind a = fst (snd k)" and "al_kind b = fst (snd k')" and "\<not> clash a b"
proof -
  from assms(2,3) obtain a b where ab: "map_of (lg_by_key l) k = Some a" "P (al_value a)" "map_of (lg_by_key l) k' = Some b" "Q (al_value b)"
    by (auto simp: holds_def)
  then have "allocation_key a = k" "allocation_key b = k'" using conflict_freeD(2) [OF assms(1)] by blast+
  then have "al_kind a = fst (snd k)" "al_kind b = fst (snd k')" by (auto simp: allocation_key_def)
  with ab conflict_freeD(3) [OF assms(1) ab(1,3) assms(4)] that show thesis by blast
qed

lemma id_kind_guest [simp]: "guest_kind (id_kind k)"
  by (simp add: guest_kind_def id_kind_def)

lemma guest_placedD:
  assumes "guest_placed r network obs l (t, k, img, p) g"
  shows "holds l (vm_key r t (id_kind (ri_guest_kind img)) (guest_ref t k)) (\<lambda>s. py_int s = Some (gs_vmid g))"
    and "holds l (vm_key r t VK_mac (guest_ref t k @ ''/nic0'')) (\<lambda>s. map nc_mac_address (gs_nics g) = [s])"
    and "holds l (vm_key r t VK_guest_address (guest_ref t k @ ''/address'')) (\<lambda>s. ga_published_address (gs_address g) = s)"
  using assms by (simp_all add: guest_placed_def)

lemma placed_apart:
  assumes cf: "conflict_free l" and g: "guest_placed r network obs l (t, k, img, p) g" and h: "guest_placed r network obs l (t', k', img', p') h"
    and ne: "(t, k) \<noteq> (t', k')"
  shows "gs_vmid g \<noteq> gs_vmid h" and "map nc_mac_address (gs_nics g) \<noteq> map nc_mac_address (gs_nics h)"
    and "ga_published_address (gs_address g) \<noteq> ga_published_address (gs_address h)"
proof -
  have keys: "vm_key r t kd (guest_ref t k @ s) \<noteq> vm_key r t' kd' (guest_ref t' k' @ s)" for kd kd' s
    using ne by (cases "t = t'") auto
  have "vm_key r t (id_kind (ri_guest_kind img)) (guest_ref t k) \<noteq> vm_key r t' (id_kind (ri_guest_kind img')) (guest_ref t' k')"
    using keys [of _ "[]"] by simp
  from holds_apart [OF cf guest_placedD(1) [OF g] guest_placedD(1) [OF h] this] obtain a b where
    "py_int (al_value a) = Some (gs_vmid g)" "py_int (al_value b) = Some (gs_vmid h)" "guest_kind (al_kind a)" "guest_kind (al_kind b)" "\<not> clash a b"
    by (metis id_kind_guest vm_key_kind)
  then show "gs_vmid g \<noteq> gs_vmid h" by (simp add: clash_def)
  from holds_apart [OF cf guest_placedD(2) [OF g] guest_placedD(2) [OF h] keys] obtain a b where
    "map nc_mac_address (gs_nics g) = [al_value a]" "map nc_mac_address (gs_nics h) = [al_value b]" "al_kind a = VK_mac" "al_kind b = VK_mac" "\<not> clash a b"
    by (metis vm_key_kind)
  then show "map nc_mac_address (gs_nics g) \<noteq> map nc_mac_address (gs_nics h)" by (simp add: clash_def)
  from holds_apart [OF cf guest_placedD(3) [OF g] guest_placedD(3) [OF h] keys] obtain a b where
    "ga_published_address (gs_address g) = al_value a" "ga_published_address (gs_address h) = al_value b"
    "al_kind a = VK_guest_address" "al_kind b = VK_guest_address" "\<not> clash a b"
    by (metis vm_key_kind)
  then show "ga_published_address (gs_address g) \<noteq> ga_published_address (gs_address h)" by (simp add: clash_def address_kind_def)
qed

lemma list_all2_right: "list_all2 P xs ys \<Longrightarrow> z \<in> set ys \<Longrightarrow> \<exists>w \<in> set xs. P w z"
  by (induction rule: list_all2_induct) auto

lemma list_all2_left: "list_all2 P xs ys \<Longrightarrow> w \<in> set xs \<Longrightarrow> \<exists>z \<in> set ys. P w z"
  by (induction rule: list_all2_induct) auto

lemma list_all2_map_eq: "list_all2 P xs ys \<Longrightarrow> (\<And>x y. P x y \<Longrightarrow> g y = f x) \<Longrightarrow> map g ys = map f xs"
  by (induction rule: list_all2_induct) auto

lemma distinct_by_list_all2:
  assumes "list_all2 P xs ys" and "distinct (map f xs)"
    and "\<And>x y x' y'. P x y \<Longrightarrow> P x' y' \<Longrightarrow> f x \<noteq> f x' \<Longrightarrow> g y \<noteq> g y'"
  shows "distinct (map g ys)"
  using assms(1,2)
proof (induction rule: list_all2_induct)
  case (Cons x xs y ys)
  have "g y \<noteq> g z" if z: "z \<in> set ys" for z
  proof -
    obtain w where "w \<in> set xs" "P w z" using list_all2_right [OF Cons.hyps(2) z] by blast
    with Cons.hyps(1) Cons.prems assms(3) show ?thesis by fastforce
  qed
  with Cons show ?case by auto
qed simp

definition workload_id :: "string \<times> string \<times> reviewed_image \<times> guest_profile \<Rightarrow> string \<times> string" where
  "workload_id tw = (fst tw, fst (snd tw))"

lemma all_workloads_distinct:
  assumes "map fst (team_workloads r) = per_team_keys r" and "distinct (per_team_keys r)" and "distinct (wq_team_refs r)"
  shows "distinct (map workload_id (all_workloads r))"
proof -
  have part: "map workload_id (map (Pair t) (team_workloads r)) = map (Pair t) (per_team_keys r)" for t
    by (simp add: assms(1) [symmetric] workload_id_def comp_def)
  have "distinct (concat (map (\<lambda>t. map (Pair t) (per_team_keys r)) ts))" if "distinct ts" for ts :: "string list"
    using that assms(2) by (induction ts) (auto simp: distinct_map inj_on_def)
  moreover have "map workload_id (all_workloads r) = concat (map (\<lambda>t. map (Pair t) (per_team_keys r)) (sort (wq_team_refs r)))"
    by (simp add: all_workloads_def map_concat comp_def part [unfolded map_map comp_def])
  ultimately show ?thesis using assms(3) by simp
qed

lemma map_sort_by_key: "map f (sort_key f xs) = sort (map f xs)"
  by (rule properties_for_sort [symmetric]) (metis mset_map mset_sort, simp)

lemma all_workloads_refs:
  assumes "map fst (team_workloads r) = per_team_keys r" and "list_all2 (guest_placed r network obs l) (all_workloads r) gs"
  shows "map gs_guest_ref gs = concat (map (\<lambda>t. map (guest_ref t) (per_team_keys r)) (sort (wq_team_refs r)))"
proof -
  have "map gs_guest_ref gs = map (\<lambda>tw. guest_ref (fst tw) (fst (snd tw))) (all_workloads r)"
    by (rule list_all2_map_eq [OF assms(2)]) (simp add: guest_placed_def split: prod.splits)
  also have "\<dots> = concat (map (\<lambda>t. map (guest_ref t) (per_team_keys r)) (sort (wq_team_refs r)))"
    by (simp add: all_workloads_def map_concat comp_def assms(1) [symmetric])
  finally show ?thesis .
qed

lemma eligible_node:
  assumes "name \<in> set (eligible_nodes obs)"
  shows "\<exists>n \<in> set (to_nodes obs). no_online n \<and> no_node_name n = name \<and> list_ex accepts_images (no_storages n)"
  using assms by (auto simp: eligible_nodes_def online_nodes_def)

lemma segment_for_team:
  assumes "segment_for network team role = Some v"
  shows "v \<in> set (np_vnets network)" and "team_of v = Some team" and "vn_role v = ROLE_SEGMENT role"
  using assms by (auto simp: segment_for_def vnets_for_team_def team_of_def find_Some_iff in_set_conv_nth dest!: nth_mem)

section \<open>Readiness of a compiled workload\<close>

lemma contract_of_key:
  assumes "list_all2 (guest_contracted r network vantage report) (all_workloads r) cs" and "map fst (team_workloads r) = per_team_keys r"
    and "team \<in> set (wq_team_refs r)" and "key \<in> set (per_team_keys r)"
  shows "\<exists>c \<in> set cs. bc_team_ref c = team \<and> bc_workload_key c = key"
proof -
  have "key \<in> fst ` set (team_workloads r)" using assms(4) by (simp flip: assms(2))
  then obtain img p where "(key, img, p) \<in> set (team_workloads r)" by auto
  with assms(3) have w: "(team, key, img, p) \<in> set (all_workloads r)" by (auto simp: all_workloads_def)
  from list_all2_left [OF assms(1) w] obtain c where "c \<in> set cs" "guest_contracted r network vantage report (team, key, img, p) c"
    by blast
  then show ?thesis by (auto simp: guest_contracted_def)
qed

lemma request_image_pinned:
  assumes "workload_request_valid r" and "request_image r key = Some img"
  shows "lower (ri_workload_version img) \<notin> set FLOATING_TAGS" and "ri_image_digest img \<noteq> []"
proof -
  have "img \<in> set (wq_images r)" using assms(2) by (auto simp: request_image_def find_Some_iff)
  with assms(1) have "reviewed_image_post_init img = Inr ()" by (simp add: workload_request_valid_def list_all_iff)
  then have "lower (ri_workload_version img) \<notin> set FLOATING_TAGS" "DIGEST_RE (ri_image_digest img)"
    by (auto simp: reviewed_image_post_init_def bindE_Inr)
  then show "lower (ri_workload_version img) \<notin> set FLOATING_TAGS" "ri_image_digest img \<noteq> []"
    by (auto simp: DIGEST_RE_def at_end_def Let_def)
qed

lemma contract_fields:
  assumes "list_all2 (guest_contracted r network vantage report) (all_workloads r) cs" and "c \<in> set cs"
  obtains team key img profile where "team \<in> set (wq_team_refs r)" and "(key, img, profile) \<in> set (team_workloads r)"
    and "guest_contracted r network vantage report (team, key, img, profile) c"
  using list_all2_right [OF assms] by (auto simp: all_workloads_def)

lemma flow_permitted_Inr: "evaluate_flow network v addr (Some port) ''tcp'' FD_outbound = Inr verdict \<Longrightarrow>
    flow_permitted network v addr port = Inr (verdict = FV_accept)"
  by (simp add: flow_permitted_def)

lemma cidr_has_segment: "cidr_has (sb_cidr (vn_subnet v)) addr \<longleftrightarrow> (\<exists>a. parse_ip addr = Some a \<and> in_segment v a)"
  by (auto simp: cidr_has_def in_segment_def split: option.splits)

text \<open>On a compiled network no guest can be reached from the scoring segment, so no pull probe is offered.\<close>

lemma no_probe:
  assumes ok: "plan_ok q obs network l" and valid: "lab_request_valid q" and sep: "lab_separated q obs network"
    and s: "scoring_segment network = Some scoring" and v: "segment_for network team role = Some segment"
    and a: "cidr_has (sb_cidr (vn_subnet segment)) addr"
  shows "probe_address_if_reachable network (vn_name scoring) addr port = Inr None"
proof -
  note seg = segment_for_team [OF v]
  have sc: "scoring \<in> set (np_vnets network)" "vn_role scoring = SR_scoring"
    using s by (auto simp: scoring_segment_def find_Some_iff)
  then have none: "team_of scoring = None" using scoring_segment_team [OF ok] by blast
  from a obtain n where n: "parse_ip addr = Some n" "in_segment segment n" by (auto simp: cidr_has_segment)
  have "peer_address network (team_of scoring) n" using seg n(2) none by (auto simp: peer_address_def)
  then have "\<not> outbound_allowed q obs network scoring n (Some port) ''tcp''"
    using separated_segment(3) [OF sep seg(1) n(2)] by (simp add: outbound_allowed_def)
  then have "evaluate_flow network (vn_name scoring) addr (Some port) ''tcp'' FD_outbound = Inr FV_drop"
    using outbound_decided [OF ok valid sc(1) n(1)] by simp
  from flow_permitted_Inr [OF this] show ?thesis by (simp add: probe_address_if_reachable_def)
qed

lemma mapE_total: "(\<And>x. x \<in> set xs \<Longrightarrow> f x = Inr (g x)) \<Longrightarrow> mapE f xs = Inr (map g xs)"
  by (induction xs) auto

lemma endpoints_met:
  assumes ok: "plan_ok q obs network l" and valid: "lab_request_valid q" and sep: "lab_separated q obs network"
    and s: "scoring_segment network = Some scoring" and report: "first_host (sb_cidr (vn_subnet scoring)) = Inr report"
    and ends: "\<forall>e \<in> set ends. snd e = (report, lr_scoring_port q)"
  shows "endpoints_reachable network ends = Inr True"
proof -
  have sc: "scoring \<in> set (np_vnets network)" "vn_role scoring = SR_scoring"
    using s by (auto simp: scoring_segment_def find_Some_iff)
  from report obtain n where n: "ip_network False (sb_cidr (vn_subnet scoring)) = Some n" "report = ip_str (hd (hosts n))"
    by (auto simp: first_host_def bindE_Inr)
  have wf: "wf_net n" by (rule ip_network_wf [OF n(1)])
  have h: "hd (hosts n) \<in> set (hosts n)" using hosts_nonempty [OF wf] by simp
  note host = hosts_in_net [OF wf h]
  have at: "parse_ip report = Some (hd (hosts n))" "in_segment scoring (hd (hosts n))"
    using host n wf by (simp_all add: in_segment_def net_contains_iff)
  have "flow_permitted network (vn_name v) report (lr_scoring_port q) = Inr True" if v: "v \<in> set (vnets_for_team network team)" for v team
  proof -
    have v': "v \<in> set (np_vnets network)" "vn_role v \<noteq> SR_scoring"
      using v scoring_segment_team [OF ok, of v] by (auto simp: vnets_for_team_def team_of_def)
    from scoring_allowed [OF ok sep v' sc at(2)] outbound_decided [OF ok valid v'(1) at(1)]
    show ?thesis using flow_permitted_Inr by fastforce
  qed
  then have "mapE (\<lambda>(v, address, port). flow_permitted network (vn_name v) address port)
      (concat (map (\<lambda>(team, address, port). map (\<lambda>v. (v, address, port)) (vnets_for_team network team)) ends)) =
    Inr (map (\<lambda>_. True) (concat (map (\<lambda>(team, address, port). map (\<lambda>v. (v, address, port)) (vnets_for_team network team)) ends)))"
    using ends by (intro mapE_total) (auto split: prod.splits)
  then show ?thesis by (simp add: endpoints_reachable_def list_all_iff)
qed

lemma placed_where:
  assumes "list_all2 (guest_placed r network obs l) (all_workloads r) gs" and "g \<in> set gs"
  shows "\<exists>team \<in> set (wq_team_refs r). \<exists>v \<in> set (np_vnets network).
    gs_ownership g = workload_ownership r (Some team) KIND_VIRTUAL_MACHINE \<and> team_of v = Some team \<and>
    map nc_vnet_name (gs_nics g) = [vn_name v] \<and> cidr_has (sb_cidr (vn_subnet v)) (ga_published_address (gs_address g)) \<and>
    (\<exists>n \<in> set (to_nodes obs). no_online n \<and> no_node_name n = gs_node_name g \<and> list_ex accepts_images (no_storages n)) \<and>
    map (\<lambda>d. Some (dk_storage_id d)) (gs_disks g) = [storage_for obs (gs_node_name g)]"
proof -
  from list_all2_right [OF assms] obtain team key img p where w: "(team, key, img, p) \<in> set (all_workloads r)"
    and g: "guest_placed r network obs l (team, key, img, p) g" by auto
  from g obtain v where v: "segment_for network team (ri_role img) = Some v" "map nc_vnet_name (gs_nics g) = [vn_name v]"
    "cidr_has (sb_cidr (vn_subnet v)) (ga_published_address (gs_address g))" by (auto simp: guest_placed_def)
  have "team \<in> set (wq_team_refs r)" using w by (auto simp: all_workloads_def)
  moreover have "gs_node_name g \<in> set (eligible_nodes obs)" using g by (simp add: guest_placed_def)
  ultimately show ?thesis
    using g v segment_for_team(1,2) [OF v(1)] eligible_node by (intro bexI [of _ team] bexI [of _ v]) (simp_all add: guest_placed_def)
qed

lemma placed_ids_apart:
  assumes "conflict_free l" and "guest_placed r network obs l tw g" and "guest_placed r network obs l tw' h" and "workload_id tw \<noteq> workload_id tw'"
  shows "gs_vmid g \<noteq> gs_vmid h" and "map nc_mac_address (gs_nics g) \<noteq> map nc_mac_address (gs_nics h)"
    and "ga_published_address (gs_address g) \<noteq> ga_published_address (gs_address h)"
  using placed_apart [OF assms(1)] assms(2-) by (cases tw; cases tw'; auto simp: workload_id_def)+

lemma placed_distinct:
  assumes "list_all2 (guest_placed r network obs l) (all_workloads r) gs" and "conflict_free l"
    and "distinct (map workload_id (all_workloads r))"
  shows "distinct (map gs_vmid gs) \<and> distinct (map (\<lambda>g. map nc_mac_address (gs_nics g)) gs) \<and>
    distinct (map (\<lambda>g. ga_published_address (gs_address g)) gs)"
  by (intro conjI distinct_by_list_all2 [OF assms(1,3)]) (rule placed_ids_apart [OF assms(2)]; assumption)+

lemma contract_unprobed:
  assumes "plan_ok q obs network l" and "lab_request_valid q" and "lab_separated q obs network" and "scoring_segment network = Some scoring"
    and "list_all2 (guest_contracted r network (vn_name scoring) report) (all_workloads r) cs" and "c \<in> set cs"
  shows "bc_probe_address c = None"
proof -
  from contract_fields [OF assms(5,6)] obtain team key img profile where
    "guest_contracted r network (vn_name scoring) report (team, key, img, profile) c" by metis
  then obtain segment address where "segment_for network team (ri_role img) = Some segment" "cidr_has (sb_cidr (vn_subnet segment)) address"
    "probe_address_if_reachable network (vn_name scoring) address (ri_service_port img) = Inr (bc_probe_address c)"
    by (auto simp: guest_contracted_def)
  with no_probe [OF assms(1-4)] show ?thesis by simp
qed

text \<open>The requirements every compiled workload meets, and the one its request decides.\<close>

lemma readiness_met:
  assumes full: "workload_missing r network obs = []" and valid: "workload_request_valid r"
    and cs: "list_all2 (guest_contracted r network vantage report) (all_workloads r) cs"
    and report: "first_host cidr = Inr report"
  shows "2 \<le> length (wq_team_refs r) \<and> set (wq_team_refs r) = set (team_refs network)"
    and "\<forall>team \<in> set (wq_team_refs r). \<forall>key \<in> insert ATTACKER_WORKLOAD_KEY (set (workload_keys (wq_template r))).
      key \<in> bc_workload_key ` {c \<in> set cs. bc_team_ref c = team}"
    and "cs \<noteq> []" and "\<forall>c \<in> set cs. bc_report_address c \<noteq> []"
    and "(\<forall>c \<in> set cs. deadline_covers_operations c) \<longleftrightarrow>
      sum_list (map bo_timeout_seconds (wq_bootstrap_operations r)) \<le> wq_bootstrap_deadline_seconds r"
    and "\<forall>c \<in> set cs. lower (bc_workload_version c) \<notin> set FLOATING_TAGS \<and> bc_image_digest c \<noteq> []"
proof -
  note keys = team_workloads_keys [OF full]
  have teams: "2 \<le> length (wq_team_refs r)" "set (team_refs network) = set (wq_team_refs r)"
    using valid full by (auto simp: workload_request_valid_def workload_request_post_init_def bindE_Inr workload_missing_def team_set_missing_def split: if_splits)
  then show "2 \<le> length (wq_team_refs r) \<and> set (wq_team_refs r) = set (team_refs network)" by simp
  show stood: "\<forall>team \<in> set (wq_team_refs r). \<forall>key \<in> insert ATTACKER_WORKLOAD_KEY (set (workload_keys (wq_template r))).
      key \<in> bc_workload_key ` {c \<in> set cs. bc_team_ref c = team}"
  proof (intro ballI)
    fix team key assume team: "team \<in> set (wq_team_refs r)"
      and "key \<in> insert ATTACKER_WORKLOAD_KEY (set (workload_keys (wq_template r)))"
    then have "key \<in> set (per_team_keys r)" by (auto simp: per_team_keys_def)
    from contract_of_key [OF cs keys team this] show "key \<in> bc_workload_key ` {c \<in> set cs. bc_team_ref c = team}" by blast
  qed
  obtain team where "team \<in> set (wq_team_refs r)" using teams(1) by (cases "wq_team_refs r") auto
  with stood show some: "cs \<noteq> []" by fastforce
  have fields: "bc_report_address c = report \<and> bc_operations c = wq_bootstrap_operations r \<and> bc_deadline_seconds c = wq_bootstrap_deadline_seconds r \<and>
      (\<exists>img key. request_image r key = Some img \<and> bc_workload_version c = ri_workload_version img \<and> bc_image_digest c = ri_image_digest img)"
    if c: "c \<in> set cs" for c
  proof -
    from contract_fields [OF cs c] obtain team key img profile where "(key, img, profile) \<in> set (team_workloads r)"
      "guest_contracted r network vantage report (team, key, img, profile) c" by metis
    with team_workloads_image [of key img profile r] show ?thesis
      by (auto simp: guest_contracted_def intro!: exI [of _ img] exI [of _ key])
  qed
  have "report \<noteq> []" using report by (auto simp: first_host_def bindE_Inr ip_str_def)
  with fields show "\<forall>c \<in> set cs. bc_report_address c \<noteq> []" by blast
  show "(\<forall>c \<in> set cs. deadline_covers_operations c) \<longleftrightarrow>
      sum_list (map bo_timeout_seconds (wq_bootstrap_operations r)) \<le> wq_bootstrap_deadline_seconds r"
    using fields some by (cases cs) (auto simp: deadline_covers_operations_def)
  show "\<forall>c \<in> set cs. lower (bc_workload_version c) \<notin> set FLOATING_TAGS \<and> bc_image_digest c \<noteq> []"
    using fields request_image_pinned [OF valid] by metis
qed

end
