(* ===== verification/Proxmox_Range.thy ===== *)
theory Proxmox_Range
  imports Proxmox_Placement Proxmox_Properties
begin

text \<open>
  The theorems on the workload compiler, alone and behind the network compiler, and on the search for
  secrets. The witnesses share one example: the lab of the network theorems with an attacker and a
  target per team, on a node with an image storage, and a ledger that already holds the guests'
  identifiers, as on a second compile.
\<close>

section \<open>An example\<close>














section \<open>Guests\<close>





section \<open>Secrets\<close>

text \<open>
  C32: the search for secrets is exact on the texts of a payload. It passes exactly when no text value,
  at any depth, contains a private-key marker or a declared value that is long or unusual enough to be
  searched for; what it does not look at are the keys of objects, so a secret used as a key passes.
\<close>

theorem secrets_found_exactly:
  "(assert_no_durable_secrets payload values = Inr () \<longleftrightarrow>
      (\<forall>s \<in> set (json_texts payload). \<forall>m \<in> set PRIVATE_KEY_MARKERS \<union> {v \<in> set values. \<not> unsearchable v}. \<nexists>a b. s = a @ m @ b)) \<and>
    assert_no_durable_secrets (JObj [(secret, JNull)]) values = Inr ()"
  by (auto simp: assert_no_durable_secrets_def scan_clean carries_secret_def unsearchable_values_def)

theorem secrets_found_exactly_witness:
  "assert_no_durable_secrets (JObj [(''note'', JArr [JStr ''flag score-board here''])]) [''score-board''] \<noteq> Inr () \<and>
   assert_no_durable_secrets (JObj [(''score-board'', JStr ''dvwa-sqli-password-hash'')]) [''score-board'', ''password''] = Inr ()"
proof -
  let ?payload = "JObj [(''note'', JArr [JStr ''flag score-board here''])]"
  have "assert_no_durable_secrets ?payload [''score-board''] \<noteq> Inr ()"
  proof
    assume "assert_no_durable_secrets ?payload [''score-board''] = Inr ()"
    moreover have "''flag score-board here'' \<in> set (json_texts ?payload)" by simp
    moreover have "''score-board'' \<in> set PRIVATE_KEY_MARKERS \<union> {v \<in> set [''score-board'']. \<not> unsearchable v}" by code_simp
    ultimately have "\<nexists>a b. ''flag score-board here'' = a @ ''score-board'' @ b"
      using secrets_found_exactly [THEN conjunct1, of ?payload "[''score-board'']"] by blast
    moreover have "''flag score-board here'' = ''flag '' @ ''score-board'' @ '' here''" by simp
    ultimately show False by blast
  qed
  moreover have "assert_no_durable_secrets (JObj [(''score-board'', JStr ''dvwa-sqli-password-hash'')]) [''score-board'', ''password''] = Inr ()"
    by code_simp
  ultimately show ?thesis ..
qed

end
