(* ===== verification/Spec2Isabelle.thy ===== *)
theory Spec2Isabelle
  imports Recon_Properties Simulator_Properties Ipam_Properties Sdn_Properties Proxmox_Properties Proxmox_Lifecycle Proxmox_Range
begin

text \<open>
  The security environment control plane (SECP) turns scenario definitions into isolated training
  environments and keeps them in the state an operator approved. This development covers the
  parts of it that decide: what a plan contains, what may be executed, which identifiers a range
  may use, which traffic its firewall lets through, when a shared software-defined network may be
  activated, and what an apply, a reset and a destroy of a range may do and must prove. Paths below
  are relative to the root of the repository.

  \<^bold>\<open>The parts and how they interact.\<close> A scenario definition is planned by a provider plugin into a
  topology (networks, nodes, edges). The topology adapter projects it to a \<^emph>\<open>desired state\<close>. An
  observer reports an \<^emph>\<open>observed state\<close>. The verification gate admits the two under a declared
  scope; classification lists the drift between them; the planner turns the drift into actions or
  refuses; a reset intent authorises one plan for a window of time; the executor applies it, and
  convergence is judged from a new observation only. Beside this pipeline, the Proxmox provider
  takes guest ids, subnets, addresses and names from an allocation ledger, compiles a lab request
  into segments and firewall rules, places the guests of every team on them, and activates a cluster's pending SDN configuration only under
  an authorization derived from what the target itself reported. The compiled topology and its
  sealed ledger travel as one manifest payload. The apply gate compares its hashes with what was
  approved; after the apply the range is verified against an independent observation and probes run
  from its segments; an interrupted apply is reconciled, never retried blindly; a reset re-stamps the
  approved payload; a destroy passes its own gate, deletes only what the live tags prove to be the
  range's own, releases ledger entries on proved absence, and ends in a zero-residue verdict.

  \<^bold>\<open>Theories and sources.\<close>
  \<^item> \<open>Secp_Prelude\<close>, \<open>Py_Text\<close>, \<open>Canonical_Json\<close>, \<open>Sha256\<close>, \<open>Py_Datetime\<close>, \<open>Ipv4\<close>: the parts of
    Python and its standard library the sources use. Exceptions are the \<open>Inl\<close> side of a sum and
    \<open>bindE\<close> sequences statements; a dict is an association list in insertion order; \<open>sorted\<close> with a
    key is \<open>sort_key\<close>; \<open>json.dumps(sort_keys=True)\<close> is a printer with a parser, so it is injective
    up to key order; \<open>datetime\<close> counts microseconds with an optional offset; SHA-256 is the function
    of FIPS 180-4 over \<^typ>\<open>32 word\<close>.
  \<^item> \<open>Recon_Codes\<close> (\<open>codes.py\<close>), \<open>Recon_State\<close> (\<open>digest.py\<close>, \<open>state.py\<close>), \<open>Recon_Classify\<close>
    (\<open>classify.py\<close>), \<open>Recon_Planner\<close> (\<open>planner.py\<close>), \<open>Recon_Execution\<close> (\<open>reset.py\<close>, \<open>execution.py\<close>,
    \<open>evidence.py\<close>): the reconciliation contract under \<open>contracts/reconciliation/secp_reconciliation/v1\<close>.
    One record per dataclass, one definition per function; a raised \<open>ReconciliationRefused\<close> is a
    \<open>refusal_code\<close>.
  \<^item> \<open>Sim_Executor\<close>: \<open>plugins/simulator/secp_plugin_simulator/reconciliation.py\<close>, the step loop over an
    in-memory world, and its observer.
  \<^item> \<open>Plugin_Contract\<close>: \<open>contracts/plugin-api/secp_plugin_api/v1\<close> with the \<open>ResourcePort\<close> protocol as the
    locale \<open>resource_port\<close>, interpreted by the SQL-backed port of
    \<open>apps/worker/secp_worker/resource_port.py\<close>. \<open>Simulator_Plugin\<close>: the scenario models and
    \<open>plugins/simulator/secp_plugin_simulator/plugin.py\<close>. \<open>Topology_Adapter\<close>: \<open>topology_adapter.py\<close>.
  \<^item> \<open>Ipam_Ledger\<close>, \<open>Ipam_Invariants\<close>: \<open>apps/api/secp_api/range_providers/proxmox_ipam.py\<close>. The ledger
    is a record; every allocator is a function from a ledger to an error or a new ledger and a
    value; a history is a rule-inductive reachability predicate over all operations.
  \<^item> \<open>Sdn_Differential\<close>, \<open>Sdn_Activation\<close>: \<open>apps/api/secp_api/sdn_differential.py\<close> and
    \<open>sdn_activation_stages.py\<close>.
  \<^item> \<open>Content_Hash\<close>: \<open>canonicalize\<close> and \<open>content_hash\<close> of
    \<open>contracts/scenario-schema/secp_scenario_schema/validator.py\<close>.
  \<^item> \<open>Proxmox_Model\<close>, \<open>Proxmox_Network\<close>, \<open>Proxmox_Isolation\<close>: \<open>proxmox_model.py\<close> and \<open>proxmox_network.py\<close> under
    \<open>apps/api/secp_api/range_providers\<close>, that is, the specification objects with the checks of their
    constructors, the compiler that threads the ledger through its allocations, the flow evaluator and
    the isolation check. \<open>Proxmox_Compiled\<close>, \<open>Proxmox_Policy\<close> and \<open>Proxmox_Verdicts\<close> prove what the
    compiled plan satisfies: distinct segments, the abstract policy its rules decide, the verdict of
    the isolation check.
  \<^item> \<open>Proxmox_Workload\<close>: \<open>proxmox_workload.py\<close> beside them, with the data classes of
    \<open>apps/api/secp_api/range_catalog.py\<close>: the compiler of guests, its readiness check and the search for
    secrets. \<open>Proxmox_Placement\<close> proves the invariant of its loops, \<open>Proxmox_Range\<close> its properties.
  \<^item> \<open>Proxmox_Manifest\<close>: \<open>proxmox_manifest.py\<close> in the same directory, one writer and one reader per object;
    \<open>Proxmox_Roundtrip\<close> states their contract as the locale \<open>codec\<close> and interprets it for every object.
  \<^item> Under \<open>apps/worker/secp_worker/provisioning\<close>: \<open>Proxmox_Gates\<close> (\<open>proxmox_apply_gate.py\<close>,
    \<open>proxmox_destroy_gate.py\<close>), \<open>Proxmox_Verification\<close> (\<open>proxmox_verification.py\<close>) with its proofs in
    \<open>Proxmox_Verified\<close>, \<open>Proxmox_Residue\<close> (\<open>proxmox_residue.py\<close>) with its proofs in \<open>Proxmox_Teardown\<close>,
    where the release loop is a step relation, \<open>Proxmox_Reset\<close> (\<open>proxmox_reset.py\<close>) and
    \<open>Proxmox_Reconcile\<close> (\<open>proxmox_reconcile.py\<close>).
  \<^item> \<open>Recon_Example\<close>, the five \<open>_Properties\<close> theories, \<open>Proxmox_Lifecycle\<close> and \<open>Proxmox_Range\<close>: concrete instances and the
    properties of one group of components each. This theory holds the properties that span components.

  \<^bold>\<open>What is shown.\<close> The gate accepts exactly the well-formed inputs; the findings of a drift report
  are exactly the differences; the planner's grouping loop implements a declarative specification;
  execution changes only what it reports and stops at the first failure; a planned cycle converges
  and a second one is empty; a valid scenario definition is realised from an empty world. Digests
  bind every field they are meant to bind. The ledger never records colliding identifiers, over
  every history; allocation is idempotent, complete and stays inside its pools; a sealed ledger
  is frozen; manifests round-trip. An SDN activation that is accepted acts on exactly the state,
  evidence and operation that were authorised. The compiled firewall rules decide exactly an
  abstract isolation policy, in both directions and for every packet: teams are separated, the
  management plane is out of reach, and the code's own isolation check passes. Every compiled guest sits on its own team's segment under
  identifiers no other guest has, and the readiness of a compiled workload is decided by its inputs.
  An apply or destroy
  the gates admit is the approved one. A verified deployment matches its plan guest by guest and
  object by object, and its forbidden paths were probed and blocked. A destroy deletes only owned
  guests; a clean verdict means that every resource was seen gone and no reservation behind one is
  still held; and a complete teardown ends clean. The manifest payload reads back to the topology it
  was written from. A reset applies the approved topology; a resumed apply creates only ids that
  were observed absent and that the sealed ledger records. Some properties describe places where
  the code is weaker than its documentation says: an intent's expiry, the manifest's seal, an
  undeclared network attachment, a skipped row, a segment's end, submissions the scoring segment
  drops, an open path hidden by one unanswered probe, a repeated release that can never be clean,
  tags that keep an old generation through a reset, a range called verified without a verification,
  a workload key that yields two guests, a secret that hides in a key.

  \<^bold>\<open>Modelling decisions.\<close> There is no fuel: every loop of the modelled code ends, by structural
  recursion, over a list computed beforehand (the wrapping walk of an integer or subnet pool makes
  one lap) or over the source's own bound (a MAC address is searched for $2^{20}$ steps). A
  \<open>str\<close> is a list of code points below 256; the texts that are hashed are ASCII. Timestamps are
  printed and read for the years 1 to 9999, the range of \<open>datetime\<close>. No property assumes that SHA-256
  has no collisions: where one would matter, the conclusion offers the two colliding texts as an
  alternative. \<open>validate_definition\<close> of the scenario schema runs third-party validators and is a
  parameter of the simulator's operations. Floating-point JSON numbers do not occur in the hashed
  documents and are not modelled. Objects that guard themselves against tampering by overriding
  Python's dunder methods are plain datatypes. The verification takes its desired state as a network
  plan and guests, the objects the payload spells out; reset and reconciliation, which must cope with
  malformed documents, take JSON. The segment prober is code outside the repository and a parameter:
  nothing is assumed about it, since the properties only speak of the answers it gave. Detail texts of
  findings and refusals are left out where nothing reads them.

  \<^bold>\<open>Not modelled.\<close> The database-backed services and HTTP routers of \<open>apps/api\<close>, the host-level tooling
  of \<open>apps/deployment\<close> and \<open>apps/management\<close> (files, processes, systemd units), the database models and
  migrations, and the web client: their behaviour is that of a database, an operating system or a
  browser. That includes \<open>services/proxmox_lifecycle.py\<close>, which compiles a range's plan from a recorded
  observation and keeps approvals as rows of an event log. Of the Proxmox provider, the rendering of
  OpenTofu bundles and the bootstrap channel (\<open>proxmox_bootstrap.py\<close>) are left out: they shape text and
  commands for other programs.
\<close>

section \<open>Reconciliation: the cycle as a whole\<close>



text \<open>
  C21: reconciliation is idempotent. After the cycle of C1, planning again from a fresh observation
  succeeds with an empty plan whose disposition is \<open>converged\<close>, and executing that plan needs no
  intent, changes nothing and reports \<open>no_op\<close>.
\<close>

theorem reconcile_idempotent:
  assumes plan: "plan_from_states scope desired
      (observe world (rs_instance_id scope) (rs_provider scope) c t OF_complete) now = Inr (pair, report, plan)"
    and clean: "rp_deferred plan = []" and att: "attachments_resolve (ds_elements desired)"
    and ex: "execute scope plan desired world intent now' = Inr (world', er)"
    and fresh: "- 60000000 \<le> instant now'' - instant t'"
      "instant now'' - instant t' \<le> rs_observation_max_age_seconds scope * 1000000"
  shows "\<exists>pair' report' plan' er'. plan_from_states scope desired
      (observe world' (rs_instance_id scope) (rs_provider scope) c t' OF_complete) now'' = Inr (pair', report', plan') \<and>
    rp_actions plan' = [] \<and> rp_disposition plan' = PD_converged \<and>
    execute scope plan' desired world' None now'' = Inr (world', er') \<and>
    er_outcome er' = EO_no_op \<and> \<not> changed_anything er'"
proof -
  from ex have auth: "require_execution_authorized plan intent now' = Inr ()" by (simp add: execute_Inr)
  from execute_planned [OF plan clean att auth] ex have
    wf: "wf_elements (map observed_element (sw_elements world'))"
    and al: "aligned (ds_elements desired) (map observed_element (sw_elements world'))"
    and fixed: "world_of (world_by_ref world') = world'" by auto
  from plan_from_states_Inr(1) [OF plan] have good: "wf_scope scope" "wf_desired scope desired" "is_content_digest c"
    by (auto simp: verify_inputs_Inr wf_observed_def)
  from reobserve_verified [OF good(1,2) wf good(3) fresh] obtain pair' where
    v: "verify_inputs scope desired (observe world' (rs_instance_id scope) (rs_provider scope) c t' OF_complete) now'' = Inr pair'"
    by blast
  from aligned_plan [OF v] al obtain report' plan' where p: "plan_from_states scope desired
      (observe world' (rs_instance_id scope) (rs_provider scope) c t' OF_complete) now'' = Inr (pair', report', plan')"
    and empty: "rp_actions plan' = []" "rp_deferred plan' = []" "rp_disposition plan' = PD_converged" by auto
  note q = plan_from_states_Inr [OF p]
  have integ: "rp_plan_digest plan' = plan_digest_of plan'" using q(5) by simp
  have "vp_scope pair' = scope" "vp_desired pair' = desired" using q(1) by (auto simp: verify_inputs_Inr)
  then have "\<exists>er'. execute scope plan' desired world' None now'' = Inr (world', er') \<and> er_outcome er' = EO_no_op \<and>
      \<not> changed_anything er'"
    using integ empty(1) q(5,6) good(1) fixed
    by (simp add: execute_Inr refusal_simps wf_scope_def EXECUTION_SURFACE_def outcome_for_def changed_anything_def)
  with p empty show ?thesis by blast
qed

theorem reconcile_idempotent_witness:
  "\<exists>world' er pair' report' plan' er'. execute ex_scope ex_plan ex_desired ex_world (Some ex_intent) (at_second 1500) = Inr (world', er) \<and>
    plan_from_states ex_scope ex_desired
      (observe world' (rs_instance_id ex_scope) (rs_provider ex_scope) (sha256_digest ''collector'') (at_second 1600) OF_complete)
      (at_second 1601) = Inr (pair', report', plan') \<and>
    rp_actions plan' = [] \<and> rp_disposition plan' = PD_converged \<and>
    execute ex_scope plan' ex_desired world' None (at_second 1601) = Inr (world', er') \<and>
    er_outcome er' = EO_no_op \<and> \<not> changed_anything er'"
proof -
  have plan: "plan_from_states ex_scope ex_desired (observe ex_world (rs_instance_id ex_scope) (rs_provider ex_scope)
      (sha256_digest ''collector'') (at_second 1000) OF_complete) (at_second 1010) = Inr (ex_pair, ex_report, ex_plan)"
    using ex_planned by (simp add: ex_observation_def ex_scope_def)
  have auth: "require_execution_authorized ex_plan (Some ex_intent) (at_second 1500) = Inr ()"
    using build_reset_intent_Inr(4-6) [OF ex_intent_built]
    by (simp add: refusal_simps ex_plan_def)
  from execute_planned [OF plan ex_plan_actions(2) ex_attachments auth] obtain world' er where
    ex: "execute ex_scope ex_plan ex_desired ex_world (Some ex_intent) (at_second 1500) = Inr (world', er)" by blast
  with reconcile_idempotent [OF plan ex_plan_actions(2) ex_attachments ex, of "at_second 1601" "at_second 1600"]
  show ?thesis by (auto simp: ex_scope_def)
qed

text \<open>
  C2: the planner implements its specification. On inputs the gate accepts, the whole pipeline
  (classify, sort, group through two dicts, sort again) refuses exactly when a reference denotes
  two kinds of element, a declared facet has no evidence, or the change budget is exceeded, in
  this order, and otherwise returns one create per unobserved desired element and one update per
  desired element with differing facets, in dependency order, with every other observed element
  deferred.
\<close>

theorem planner_refines_specification:
  assumes "verify_inputs scope desired observed now = Inr pair"
  shows "plan_from_states scope desired observed now =
    (let D = ds_elements desired; Obs = os_elements observed in
     if list_ex (conflicting Obs) D then Inl RC_identity_conflict_unresolvable
     else if list_ex (unevidenced Obs) D then Inl RC_drift_indeterminate
     else if int (length (required_actions D Obs)) > rs_max_actions scope then Inl RC_change_budget_exceeded
     else (case classify_drift pair of Inl e \<Rightarrow> Inl e
       | Inr report \<Rightarrow> Inr (pair, report, assemble_plan pair report
           (sort_key action_sort_key (required_actions D Obs)) (deferred_elements D Obs))))"
  by (rule plan_from_states_refines [OF assms])

theorem planner_refines_specification_witness:
  "plan_from_states ex_scope ex_desired ex_observation (at_second 1010) = Inr (ex_pair, ex_report, ex_plan)"
  using planner_refines_specification [OF ex_verified]
  by (simp add: ex_no_conflict ex_evidenced ex_classified ex_plan_def ex_deferred Let_def)
    (simp add: ex_required ex_scope_def)

text \<open>
  C22: a plan names only what was authored. Every action of a plan targets exactly one desired
  element, by kind and reference, no two actions target the same reference, each carries a
  non-empty list of reasons, creations precede updates and networks precede nodes precede edges,
  and the number of actions is within the scope's budget.
\<close>

theorem plan_actions_authored:
  assumes "plan_from_states scope desired observed now = Inr (pair, report, plan)"
  shows "(\<forall>a \<in> set (rp_actions plan). pa_reasons a \<noteq> [] \<and>
      (\<exists>!d. d \<in> set (ds_elements desired) \<and> se_kind d = pa_element_kind a \<and> se_ref d = pa_element_ref a)) \<and>
    distinct (map pa_element_ref (rp_actions plan)) \<and>
    sorted (map action_sort_key (rp_actions plan)) \<and>
    int (length (rp_actions plan)) \<le> rs_max_actions scope"
proof -
  note p = plan_from_states_Inr [OF assms]
  have dist: "distinct (map se_ref (ds_elements desired))" using p(1) by (auto simp: verify_inputs_Inr gate_preds)
  have acts: "rp_actions plan = sort_key action_sort_key (required_actions (ds_elements desired) (os_elements observed))"
    using p(5) by simp
  have "pa_reasons a \<noteq> [] \<and> (\<exists>!d. d \<in> set (ds_elements desired) \<and> se_kind d = pa_element_kind a \<and> se_ref d = pa_element_ref a)"
    if "a \<in> set (rp_actions plan)" for a
  proof -
    from that obtain d where d: "d \<in> set (ds_elements desired)" "required_action (os_elements observed) d = Some a"
      by (auto simp: acts required_actions_memb)
    show ?thesis using required_action_target [OF d(2)] required_action_sorted [OF d(2)] d(1) dist
      by (metis distinct_map inj_onD)
  qed
  then show ?thesis using p(6) required_actions_distinct [OF dist] by (simp add: acts)
qed

theorem plan_actions_authored_witness:
  "distinct (map pa_element_ref (rp_actions ex_plan)) \<and>
    sorted (map action_sort_key (rp_actions ex_plan)) \<and> int (length (rp_actions ex_plan)) \<le> rs_max_actions ex_scope \<and>
    list_all (\<lambda>a. pa_reasons a \<noteq> [] \<and> list_ex (\<lambda>d. se_kind d = pa_element_kind a \<and> se_ref d = pa_element_ref a)
      (ds_elements ex_desired)) (rp_actions ex_plan)"
  using plan_actions_authored [OF ex_planned] unfolding list_all_iff list_ex_iff by blast

section \<open>From a scenario definition to a converged instance\<close>




end
